(* ===== verification/Prelude.thy ===== *)
theory Prelude
  imports Main "HOL-Library.Word" "HOL-Library.AList"
begin

section \<open>Shared vocabulary of the development\<close>

text \<open>
  What every component of the client model uses: the types of bytes and of JavaScript
  strings, exceptions as values, a small state and exception monad for methods that mutate
  an object and may throw, ASCII lower-casing, decimal printing of numbers, and
  insertion-ordered JavaScript objects as association lists.

  A JavaScript string is modelled by a list of characters that holds its UTF-8 encoding; the
  theory \<open>Text_Codec\<close> says how the text codecs of the platform act on it. \<open>String.toLowerCase\<close> is
  modelled on ASCII letters only; the client applies it to hexadecimal keys and to BIP-39
  phrases.
\<close>

unbundle bit_operations_syntax

type_synonym byte = "8 word"
type_synonym bytes = "8 word list"
type_synonym hex = string

named_theorems monad_simps \<open>unfolding the state and exception monad\<close>
named_theorems text_simps \<open>equations of the text helpers\<close>

subsection \<open>Exceptions and results\<close>

text \<open>
  \<open>Error\<close> is a JavaScript \<open>Error\<close> thrown by the client with its message, \<open>Socks5Error\<close> the
  class of that name with its numeric code, and \<open>LibError\<close> an exception raised inside a
  library call (malformed hexadecimal, a key of the wrong size, malformed JSON, a failed SQL
  constraint).
\<close>

datatype exn = Error string | Socks5Error string int | LibError

type_synonym 'a res = "exn + 'a"

definition bindR :: "'a res \<Rightarrow> ('a \<Rightarrow> 'b res) \<Rightarrow> 'b res" where
  "bindR m f = (case m of Inl e \<Rightarrow> Inl e | Inr a \<Rightarrow> f a)"

lemma bindR_simps [simp]: "bindR (Inl e) f = Inl e" "bindR (Inr a) f = f a"
  by (simp_all add: bindR_def)

lemma bindR_Inr_iff: "bindR m f = Inr b \<longleftrightarrow> (\<exists>a. m = Inr a \<and> f a = Inr b)"
  by (cases m) auto

lemma bindR_assoc: "bindR (bindR m f) g = bindR m (\<lambda>a. bindR (f a) g)"
  by (cases m) auto

text \<open>
  A method that may mutate a state and may throw: the state is returned in both cases, since
  a JavaScript exception does not undo the assignments made before it.
\<close>

type_synonym ('s, 'a) M = "'s \<Rightarrow> 'a res \<times> 's"

definition ret :: "'a \<Rightarrow> ('s, 'a) M" where
  "ret a s = (Inr a, s)"

definition throwM :: "exn \<Rightarrow> ('s, 'a) M" where
  "throwM e s = (Inl e, s)"

definition bindM :: "('s, 'a) M \<Rightarrow> ('a \<Rightarrow> ('s, 'b) M) \<Rightarrow> ('s, 'b) M" where
  "bindM m f s = (case m s of (Inl e, s') \<Rightarrow> (Inl e, s') | (Inr a, s') \<Rightarrow> f a s')"

definition liftM :: "'a res \<Rightarrow> ('s, 'a) M" where
  "liftM r s = (r, s)"

definition getM :: "('s \<Rightarrow> 'a) \<Rightarrow> ('s, 'a) M" where
  "getM f s = (Inr (f s), s)"

definition modifyM :: "('s \<Rightarrow> 's) \<Rightarrow> ('s, unit) M" where
  "modifyM f s = (Inr (), f s)"

definition tryM :: "('s, 'a) M \<Rightarrow> (exn \<Rightarrow> ('s, 'a) M) \<Rightarrow> ('s, 'a) M" where
  "tryM m h s = (case m s of (Inl e, s') \<Rightarrow> h e s' | (Inr a, s') \<Rightarrow> (Inr a, s'))"

lemma ret_apply [simp, monad_simps]: "ret a s = (Inr a, s)"
  by (simp add: ret_def)

lemma throwM_apply [simp, monad_simps]: "throwM e s = (Inl e, s)"
  by (simp add: throwM_def)

lemma liftM_apply [simp, monad_simps]: "liftM r s = (r, s)"
  by (simp add: liftM_def)

lemma getM_apply [simp, monad_simps]: "getM f s = (Inr (f s), s)"
  by (simp add: getM_def)

lemma modifyM_apply [simp, monad_simps]: "modifyM f s = (Inr (), f s)"
  by (simp add: modifyM_def)

lemma bindM_Inr [monad_simps]: "m s = (Inr a, s') \<Longrightarrow> bindM m f s = f a s'"
  by (simp add: bindM_def)

lemma bindM_Inl [monad_simps]: "m s = (Inl e, s') \<Longrightarrow> bindM m f s = (Inl e, s')"
  by (simp add: bindM_def)

lemma bindM_ret [simp]: "bindM (ret a) f = f a"
  by (rule ext) (simp add: bindM_def)

lemma bindM_throw [simp]: "bindM (throwM e) f = throwM e"
  by (rule ext) (simp add: bindM_def)

lemma bindM_liftM_Inr [simp]: "bindM (liftM (Inr a)) f = f a"
  by (rule ext) (simp add: bindM_def)

lemma bindM_liftM_Inl [simp]: "bindM (liftM (Inl e)) f = throwM e"
  by (rule ext) (simp add: bindM_def)

lemma bindM_modifyM [simp]: "bindM (modifyM f) g s = g () (f s)"
  by (simp add: bindM_def)

lemma bindM_getM [simp]: "bindM (getM f) g s = g (f s) s"
  by (simp add: bindM_def)

lemma bindM_Inr_iff:
  "bindM m f s = (Inr b, s'') \<longleftrightarrow> (\<exists>a s'. m s = (Inr a, s') \<and> f a s' = (Inr b, s''))"
  by (auto simp: bindM_def split: prod.splits sum.splits)

lemma bindM_assoc: "bindM (bindM m f) g = bindM m (\<lambda>a. bindM (f a) g)"
  by (rule ext) (auto simp: bindM_def split: prod.splits sum.splits)

subsection \<open>ASCII lower case\<close>

definition lower_char :: "char \<Rightarrow> char" where
  "lower_char c = (if 65 \<le> (of_char c :: nat) \<and> (of_char c :: nat) \<le> 90
                   then char_of ((of_char c :: nat) + 32) else c)"

definition toLowerCase :: "string \<Rightarrow> string" where
  "toLowerCase s = map lower_char s"

lemma lower_char_idem [simp]: "lower_char (lower_char c) = lower_char c"
  by (auto simp: lower_char_def)

lemma toLowerCase_idem [simp]: "toLowerCase (toLowerCase s) = toLowerCase s"
  by (simp add: toLowerCase_def)

lemma toLowerCase_Nil_iff [simp]: "toLowerCase s = [] \<longleftrightarrow> s = []"
  by (simp add: toLowerCase_def)

lemma toLowerCase_append [simp]: "toLowerCase (s @ t) = toLowerCase s @ toLowerCase t"
  by (simp add: toLowerCase_def)

lemma length_toLowerCase [simp]: "length (toLowerCase s) = length s"
  by (simp add: toLowerCase_def)

subsection \<open>Decimal numbers\<close>

fun show_nat :: "nat \<Rightarrow> string" where
  "show_nat n = (if n < 10 then [char_of (48 + n)] else show_nat (n div 10) @ [char_of (48 + n mod 10)])"

declare show_nat.simps [simp del]

definition show_int :: "int \<Rightarrow> string" where
  "show_int i = (if i < 0 then ''-'' @ show_nat (nat (- i)) else show_nat (nat i))"

definition is_digit :: "char \<Rightarrow> bool" where
  "is_digit c \<longleftrightarrow> 48 \<le> (of_char c :: nat) \<and> (of_char c :: nat) \<le> 57"

definition digit_val :: "char \<Rightarrow> nat" where
  "digit_val c = of_char c - 48"

definition read_nat :: "string \<Rightarrow> nat" where
  "read_nat s = foldl (\<lambda>n c. 10 * n + digit_val c) 0 s"

lemma read_nat_Nil [simp]: "read_nat [] = 0"
  by (simp add: read_nat_def)

lemma read_nat_snoc [simp]: "read_nat (s @ [c]) = 10 * read_nat s + digit_val c"
  by (simp add: read_nat_def)

lemma digit_char_of [simp]: "n < 10 \<Longrightarrow> is_digit (char_of (48 + n :: nat))"
  by (simp add: is_digit_def)

lemma digit_val_char_of [simp]: "n < 10 \<Longrightarrow> digit_val (char_of (48 + n :: nat)) = n"
  by (simp add: digit_val_def)

lemma show_nat_digits: "list_all is_digit (show_nat n)"
proof (induction n rule: show_nat.induct)
  case (1 n)
  then show ?case by (subst show_nat.simps) simp
qed

lemma show_nat_nonempty [simp]: "show_nat n \<noteq> []"
  by (subst show_nat.simps) simp

lemma read_show_nat [simp]: "read_nat (show_nat n) = n"
proof (induction n rule: show_nat.induct)
  case (1 n)
  show ?case
  proof (cases "n < 10")
    case True
    have "read_nat ([] @ [char_of (48 + n)]) = n"
      using True by (simp only: read_nat_snoc) simp
    then show ?thesis using True by (subst show_nat.simps) simp
  next
    case False
    then show ?thesis using 1 by (subst show_nat.simps) simp
  qed
qed

lemma show_nat_inject [simp]: "show_nat m = show_nat n \<longleftrightarrow> m = n"
  by (metis read_show_nat)

lemma minus_not_digit: "\<not> is_digit (CHR ''-'')"
  by (simp add: is_digit_def)

lemma show_int_inject [simp]: "show_int i = show_int j \<longleftrightarrow> i = j"
proof -
  have neq: "CHR ''-'' # s \<noteq> show_nat n" for s n
    using show_nat_digits [of n] minus_not_digit by (cases "show_nat n") auto
  show ?thesis
    using neq neq [symmetric] by (auto simp: show_int_def)
qed

lemma show_int_nonempty [simp]: "show_int i \<noteq> []"
  by (simp add: show_int_def)

text \<open>A separator that the two halves do not contain makes a compound key injective.\<close>

lemma append_sep_inject:
  assumes "c \<notin> set s" and "c \<notin> set s'"
  shows "s @ c # t = s' @ c # t' \<longleftrightarrow> s = s' \<and> t = t'"
proof
  assume eq: "s @ c # t = s' @ c # t'"
  have tw: "takeWhile (\<lambda>x. x \<noteq> c) (u @ c # v) = u" if "c \<notin> set u" for u v
    using that by (induction u) auto
  from eq have "s = s'"
    using tw [OF assms(1), of t] tw [OF assms(2), of t'] by simp
  with eq show "s = s' \<and> t = t'" by simp
qed simp

lemma append_sep_inject_right:
  assumes "c \<notin> set t" and "c \<notin> set t'"
  shows "s @ c # t = s' @ c # t' \<longleftrightarrow> s = s' \<and> t = t'"
proof
  assume "s @ c # t = s' @ c # t'"
  then have "rev t @ c # rev s = rev t' @ c # rev s'"
    by (metis append_Cons append_assoc rev.simps(2) rev_append self_append_conv2 append_Nil)
  then show "s = s' \<and> t = t'"
    using append_sep_inject [of c "rev t" "rev t'" "rev s" "rev s'"] assms by simp
qed simp

subsection \<open>JavaScript objects used as dictionaries\<close>

text \<open>
  A \<open>Record<string, string>\<close> keeps its keys in insertion order; assignment to an existing key
  keeps its place. \<open>AList.update\<close> and \<open>AList.delete\<close> act so.
\<close>

type_synonym 'v jsobj = "(string \<times> 'v) list"

definition obj_get :: "'v jsobj \<Rightarrow> string \<Rightarrow> 'v option" where
  "obj_get ob k = map_of ob k"

definition obj_set :: "string \<Rightarrow> 'v \<Rightarrow> 'v jsobj \<Rightarrow> 'v jsobj" where
  "obj_set k v ob = AList.update k v ob"

definition obj_delete :: "string \<Rightarrow> 'v jsobj \<Rightarrow> 'v jsobj" where
  "obj_delete k ob = AList.delete k ob"

lemma obj_get_Nil [simp]: "obj_get [] k = None"
  by (simp add: obj_get_def)

lemma obj_get_set [simp]: "obj_get (obj_set k v ob) k' = (if k' = k then Some v else obj_get ob k')"
  by (simp add: obj_get_def obj_set_def update_conv')

lemma obj_get_delete [simp]: "obj_get (obj_delete k ob) k' = (if k' = k then None else obj_get ob k')"
  by (simp add: obj_get_def obj_delete_def delete_conv')

lemma distinct_obj_set [simp]: "distinct (map fst ob) \<Longrightarrow> distinct (map fst (obj_set k v ob))"
  by (simp add: obj_set_def distinct_update)

lemma distinct_obj_delete [simp]: "distinct (map fst ob) \<Longrightarrow> distinct (map fst (obj_delete k ob))"
  by (simp add: obj_delete_def distinct_delete)

text \<open>
  Truthiness of a nullable string: \<open>null\<close>, \<open>undefined\<close> and the empty string are falsy.
\<close>

definition truthy :: "string option \<Rightarrow> bool" where
  "truthy so = (case so of None \<Rightarrow> False | Some s \<Rightarrow> s \<noteq> [])"

lemma truthy_simps [simp]: "\<not> truthy None" "truthy (Some s) \<longleftrightarrow> s \<noteq> []"
  by (simp_all add: truthy_def)

lemma truthyE: "truthy so \<Longrightarrow> (\<And>s. so = Some s \<Longrightarrow> s \<noteq> [] \<Longrightarrow> thesis) \<Longrightarrow> thesis"
  by (cases so) auto

end
