(* ===== verification/Text_Codec.thy ===== *)
theory Text_Codec
  imports Prelude
begin

section \<open>Text codecs of the platform: UTF-8 and Base64\<close>

text \<open>
  The parts of the JavaScript platform that turn text into bytes and back: \<open>TextEncoder\<close>,
  \<open>TextDecoder\<close>, \<open>Buffer.from(s, 'utf8')\<close>, \<open>buffer.toString('utf8')\<close> and the \<open>'base64'\<close>
  encoding of \<open>Buffer\<close>. A string is the list of the bytes of its UTF-8 encoding (as
  characters), so encoding is a change of type; decoding follows the WHATWG decoder, which
  replaces every maximal ill-formed part by U+FFFD. A \<open>TextDecoder\<close> removes a leading byte
  order mark, \<open>toString('utf8')\<close> does not.
\<close>

subsection \<open>Bytes and characters\<close>

definition byte_of_char :: "char \<Rightarrow> byte" where
  "byte_of_char c = of_nat (of_char c)"

definition char_of_byte :: "byte \<Rightarrow> char" where
  "char_of_byte b = char_of (unat b)"

lemma unat_byte_of_char: "unat (byte_of_char c) = of_char c"
  by (simp add: byte_of_char_def unat_of_nat)

lemma char_of_byte_of_char [simp]: "char_of_byte (byte_of_char c) = c"
  by (simp add: char_of_byte_def unat_byte_of_char)

lemma byte_of_char_of_byte [simp]: "byte_of_char (char_of_byte b) = b"
proof -
  have "unat b < 256"
    using unsigned_less [of b] by simp
  then have "unat (byte_of_char (char_of_byte b)) = unat b"
    by (simp add: unat_byte_of_char char_of_byte_def)
  then show ?thesis by (simp add: word_unat_eq_iff)
qed

lemma byte_of_char_eq_iff [simp]: "byte_of_char c = byte_of_char d \<longleftrightarrow> c = d"
  by (metis char_of_byte_of_char)

definition bytes_of_string :: "string \<Rightarrow> bytes" where
  "bytes_of_string s = map byte_of_char s"

definition string_of_bytes :: "bytes \<Rightarrow> string" where
  "string_of_bytes bs = map char_of_byte bs"

lemma string_of_bytes_of_string [simp]: "string_of_bytes (bytes_of_string s) = s"
  by (simp add: string_of_bytes_def bytes_of_string_def comp_def)

lemma bytes_of_string_of_bytes [simp]: "bytes_of_string (string_of_bytes bs) = bs"
  by (simp add: string_of_bytes_def bytes_of_string_def comp_def)

lemma length_bytes_of_string [simp]: "length (bytes_of_string s) = length s"
  by (simp add: bytes_of_string_def)

lemma bytes_of_string_append [simp]:
  "bytes_of_string (s @ t) = bytes_of_string s @ bytes_of_string t"
  by (simp add: bytes_of_string_def)

lemma bytes_of_string_Nil_iff [simp]: "bytes_of_string s = [] \<longleftrightarrow> s = []"
  by (simp add: bytes_of_string_def)

subsection \<open>UTF-8\<close>

definition code :: "char \<Rightarrow> nat" where
  "code c = of_char c"

text \<open>The replacement character U+FFFD and the byte order mark U+FEFF in UTF-8.\<close>

definition replacement :: string where
  "replacement = [CHR 0xEF, CHR 0xBF, CHR 0xBD]"

definition bom :: string where
  "bom = [CHR 0xEF, CHR 0xBB, CHR 0xBF]"

definition is_cont :: "char \<Rightarrow> bool" where
  "is_cont c \<longleftrightarrow> 128 \<le> code c \<and> code c \<le> 191"

text \<open>The range of the first continuation byte depends on the lead byte.\<close>

definition lead2 :: "char \<Rightarrow> bool" where
  "lead2 a \<longleftrightarrow> 194 \<le> code a \<and> code a \<le> 223"

definition lead3 :: "char \<Rightarrow> bool" where
  "lead3 a \<longleftrightarrow> 224 \<le> code a \<and> code a \<le> 239"

definition lead4 :: "char \<Rightarrow> bool" where
  "lead4 a \<longleftrightarrow> 240 \<le> code a \<and> code a \<le> 244"

definition second_ok :: "char \<Rightarrow> char \<Rightarrow> bool" where
  "second_ok a b \<longleftrightarrow>
     is_cont b \<and> (code a = 224 \<longrightarrow> 160 \<le> code b) \<and> (code a = 237 \<longrightarrow> code b \<le> 159)
     \<and> (code a = 240 \<longrightarrow> 144 \<le> code b) \<and> (code a = 244 \<longrightarrow> code b \<le> 143)"

text \<open>
  What stands at the front of a non-empty string: whether it is a well-formed sequence, and
  the length of that sequence or of the maximal ill-formed part.
\<close>

definition utf8_front :: "char \<Rightarrow> string \<Rightarrow> bool \<times> nat" where
  "utf8_front a r =
     (if code a < 128 then (True, 1)
      else if lead2 a then
        (if r \<noteq> [] \<and> is_cont (r ! 0) then (True, 2) else (False, 1))
      else if lead3 a then
        (if r = [] \<or> \<not> second_ok a (r ! 0) then (False, 1)
         else if length r = 1 \<or> \<not> is_cont (r ! 1) then (False, 2)
         else (True, 3))
      else if lead4 a then
        (if r = [] \<or> \<not> second_ok a (r ! 0) then (False, 1)
         else if length r = 1 \<or> \<not> is_cont (r ! 1) then (False, 2)
         else if length r = 2 \<or> \<not> is_cont (r ! 2) then (False, 3)
         else (True, 4))
      else (False, 1))"

lemma list_cases4:
  obtains "r = []" | b where "r = [b]" | b c where "r = [b, c]" | b c d r' where "r = b # c # d # r'"
proof (cases r)
  case (Cons b r1)
  then show ?thesis using that
    by (cases r1; cases "tl r1") auto
qed (use that in blast)

lemma utf8_front_pos: "utf8_front a r = (ok, n) \<Longrightarrow> 1 \<le> n \<and> n - 1 \<le> length r"
  by (cases r rule: list_cases4) (simp_all add: utf8_front_def split: if_splits)

lemma utf8_front_append:
  "utf8_front a r = (True, n) \<Longrightarrow> utf8_front a (r @ t) = (True, n)"
  by (cases r rule: list_cases4) (simp_all add: utf8_front_def split: if_splits)

function utf8_scrub :: "string \<Rightarrow> string" where
  "utf8_scrub [] = []"
| "utf8_scrub (a # r) =
     (case utf8_front a r of (ok, n) \<Rightarrow>
        (if ok then a # take (n - 1) r else replacement) @ utf8_scrub (drop (n - 1) r))"
  by pat_completeness auto
termination
  by (relation "measure length") auto

text \<open>Well-formed UTF-8: what a JavaScript string without lone surrogates encodes to.\<close>

function wf_text :: "string \<Rightarrow> bool" where
  "wf_text [] = True"
| "wf_text (a # r) = (case utf8_front a r of (ok, n) \<Rightarrow> ok \<and> wf_text (drop (n - 1) r))"
  by pat_completeness auto
termination
  by (relation "measure length") auto

lemma utf8_scrub_append: "wf_text s \<Longrightarrow> utf8_scrub (s @ t) = s @ utf8_scrub t"
proof (induction s rule: wf_text.induct)
  case (2 a r)
  obtain ok n where f: "utf8_front a r = (ok, n)" by fastforce
  with 2 have ok: "utf8_front a r = (True, n)" and IH: "utf8_scrub (drop (n - 1) r @ t) = drop (n - 1) r @ utf8_scrub t"
    by auto
  have "n - 1 \<le> length r" using utf8_front_pos [OF f] by blast
  then show ?case using utf8_front_append [OF ok, of t] IH by simp
qed simp

lemma utf8_scrub_id [simp]: "wf_text s \<Longrightarrow> utf8_scrub s = s"
  using utf8_scrub_append [of s "[]"] by simp

lemma wf_text_append: "wf_text s \<Longrightarrow> wf_text (s @ t) = wf_text t"
proof (induction s rule: wf_text.induct)
  case (2 a r)
  obtain ok n where f: "utf8_front a r = (ok, n)" by fastforce
  with 2 have ok: "utf8_front a r = (True, n)" and IH: "wf_text (drop (n - 1) r @ t) = wf_text t"
    by auto
  have "n - 1 \<le> length r" using utf8_front_pos [OF f] by blast
  then show ?case using utf8_front_append [OF ok, of t] IH by simp
qed simp

lemma wf_replacement [simp]: "wf_text replacement"
  by (simp add: replacement_def utf8_front_def code_def lead2_def lead3_def second_ok_def is_cont_def)

lemma utf8_front_take:
  "utf8_front a r = (True, n) \<Longrightarrow> utf8_front a (take (n - 1) r) = (True, n)"
  by (cases r rule: list_cases4) (simp_all add: utf8_front_def split: if_splits)

lemma wf_text_front: "utf8_front a r = (True, n) \<Longrightarrow> wf_text (a # take (n - 1) r)"
  using utf8_front_take [of a r n] by simp

lemma wf_text_scrub [simp]: "wf_text (utf8_scrub s)"
proof (induction s rule: utf8_scrub.induct)
  case (2 a r)
  obtain ok n where f: "utf8_front a r = (ok, n)" by fastforce
  with 2 have IH: "wf_text (utf8_scrub (drop (n - 1) r))" by simp
  have "wf_text (if ok then a # take (n - 1) r else replacement)"
    using f wf_text_front by (cases ok) auto
  then show ?case
    using f IH by (simp only: utf8_scrub.simps prod.case wf_text_append)
qed simp

lemma wf_text_ascii: "list_all (\<lambda>c. code c < 128) s \<Longrightarrow> wf_text s"
  by (induction s) (auto simp: utf8_front_def)

definition text_encode :: "string \<Rightarrow> bytes" where
  "text_encode s = bytes_of_string s"

definition utf8_toString :: "bytes \<Rightarrow> string" where
  "utf8_toString bs = utf8_scrub (string_of_bytes bs)"

definition strip_bom :: "bytes \<Rightarrow> bytes" where
  "strip_bom bs = (if take 3 bs = bytes_of_string bom then drop 3 bs else bs)"

definition text_decode :: "bytes \<Rightarrow> string" where
  "text_decode bs = utf8_toString (strip_bom bs)"

lemma utf8_toString_encode [simp]: "wf_text s \<Longrightarrow> utf8_toString (text_encode s) = s"
  by (simp add: utf8_toString_def text_encode_def)

lemma text_decode_encode:
  assumes "wf_text s" and "take 3 s \<noteq> bom"
  shows "text_decode (text_encode s) = s"
proof -
  have "take 3 (bytes_of_string s) \<noteq> bytes_of_string bom"
    using assms(2) by (metis bytes_of_string_def string_of_bytes_of_string take_map)
  then show ?thesis
    using assms(1) by (simp add: text_decode_def strip_bom_def text_encode_def utf8_toString_def)
qed

lemma text_decode_bom: "text_decode (text_encode (bom @ s)) = utf8_scrub s"
proof -
  have "length (bytes_of_string bom) = 3" by (simp add: bom_def)
  then show ?thesis
    by (simp add: text_decode_def strip_bom_def text_encode_def utf8_toString_def)
qed

end
