(* ===== verification/Sockets.thy ===== *)
theory Sockets
  imports Text_Codec
begin

section \<open>Promises, text searches and byte streams\<close>

text \<open>
  What the network code uses of the platform: a promise that settles once, the string functions
  \<open>indexOf\<close>, \<open>split\<close> and \<open>startsWith\<close>, the big-endian integers of \<open>Buffer\<close>, and the contract of
  a reader that takes frames from a stream which TCP cuts into chunks at will.
\<close>

datatype 'a promise = Pending | Resolved 'a | Rejected exn

definition settle :: "'a promise \<Rightarrow> 'a promise \<Rightarrow> 'a promise" where
  "settle p q = (case p of Pending \<Rightarrow> q | _ \<Rightarrow> p)"

lemma settle_simps [simp]:
  "settle Pending q = q" "settle (Resolved a) q = Resolved a" "settle (Rejected e) q = Rejected e"
  by (simp_all add: settle_def)

subsection \<open>Strings\<close>

primrec split_on :: "char \<Rightarrow> string \<Rightarrow> string list" where
  "split_on c [] = [[]]"
| "split_on c (x # xs) = (if x = c then [] # split_on c xs
                          else (x # hd (split_on c xs)) # tl (split_on c xs))"

lemma split_on_nonempty [simp]: "split_on c s \<noteq> []"
  by (cases s) auto

lemma split_on_single: "c \<notin> set s \<Longrightarrow> split_on c s = [s]"
  by (induction s) auto

lemma split_on_append: "c \<notin> set s \<Longrightarrow> split_on c (s @ c # t) = s # split_on c t"
  by (induction s) auto

text \<open>The index of the first occurrence of \<open>p\<close>, and the text before and after it.\<close>

fun split_at :: "'a list \<Rightarrow> 'a list \<Rightarrow> ('a list \<times> 'a list) option" where
  "split_at p s =
     (if take (length p) s = p then Some ([], drop (length p) s)
      else (case s of [] \<Rightarrow> None
            | x # xs \<Rightarrow> (case split_at p xs of None \<Rightarrow> None | Some (a, b) \<Rightarrow> Some (x # a, b))))"

declare split_at.simps [simp del]

lemma split_at_Some: "split_at p s = Some (a, b) \<Longrightarrow> s = a @ p @ b"
proof (induction p s arbitrary: a b rule: split_at.induct)
  case (1 p s)
  show ?case
  proof (cases "take (length p) s = p")
    case True
    with 1(2) show ?thesis by (metis Pair_inject append_Nil append_take_drop_id option.inject split_at.simps)
  next
    case False
    with 1(2) obtain x xs a' where "s = x # xs" "split_at p xs = Some (a', b)" "a = x # a'"
      by (subst (asm) split_at.simps) (auto split: list.splits option.splits)
    then show ?thesis using 1(1) [OF False] by simp
  qed
qed

lemma split_at_append: "split_at p s = Some (a, b) \<Longrightarrow> split_at p (s @ t) = Some (a, b @ t)"
proof (induction p s arbitrary: a b rule: split_at.induct)
  case (1 p s)
  show ?case
  proof (cases "take (length p) s = p")
    case True
    then have len: "length p \<le> length s" by (metis length_take min.cobounded1)
    have "a = []" "b = drop (length p) s" using 1(2) True by (simp_all add: split_at.simps)
    then show ?thesis using True len by (subst split_at.simps) simp
  next
    case False
    with 1(2) obtain x xs a' where s: "s = x # xs" "split_at p xs = Some (a', b)" "a = x # a'"
      by (subst (asm) split_at.simps) (auto split: list.splits option.splits)
    have "split_at p (xs @ t) = Some (a', b @ t)" using 1(1) [OF False s(1) s(2)] .
    moreover have "take (length p) (s @ t) \<noteq> p"
    proof (cases "length p \<le> length s")
      case False
      have "s = a @ p @ b" using split_at_Some [OF 1(2)] .
      with False show ?thesis by simp
    qed (use False in simp)
    ultimately show ?thesis using s by (subst split_at.simps) simp
  qed
qed

definition startsWith :: "'a list \<Rightarrow> 'a list \<Rightarrow> bool" where
  "startsWith s p \<longleftrightarrow> take (length p) s = p"

lemma startsWith_append [simp]: "startsWith (p @ s) p"
  by (simp add: startsWith_def)

subsection \<open>Big-endian integers\<close>

fun write_be :: "nat \<Rightarrow> nat \<Rightarrow> bytes" where
  "write_be 0 n = []"
| "write_be (Suc k) n = write_be k (n div 256) @ [of_nat (n mod 256)]"

definition read_be :: "bytes \<Rightarrow> nat" where
  "read_be bs = foldl (\<lambda>n b. 256 * n + unat b) 0 bs"

lemma read_be_Nil [simp]: "read_be [] = 0"
  by (simp add: read_be_def)

lemma read_be_snoc [simp]: "read_be (bs @ [b]) = 256 * read_be bs + unat b"
  by (simp add: read_be_def)

lemma length_write_be [simp]: "length (write_be k n) = k"
  by (induction k arbitrary: n) auto

lemma unat_mod_byte [simp]: "unat (of_nat (n mod 256) :: byte) = n mod 256"
  by (simp add: unat_of_nat)

lemma read_write_be: "n < 256 ^ k \<Longrightarrow> read_be (write_be k n) = n"
proof (induction k arbitrary: n)
  case (Suc k)
  then have "n div 256 < 256 ^ k" by (simp add: less_mult_imp_div_less)
  then show ?case using Suc.IH by simp
qed simp

subsection \<open>Readers of a stream that arrives in chunks\<close>

text \<open>
  \<open>take_frame\<close> takes the first complete frame from the buffer, if there is one. The laws: a frame
  consumes bytes, and bytes that come later change neither the frame nor where it ends. Then
  the frames do not depend on how the stream was cut.
\<close>

locale chunk_reader =
  fixes take_frame :: "'b list \<Rightarrow> ('f \<times> 'b list) option"
  assumes consumes: "take_frame buf = Some (f, rest) \<Longrightarrow> length rest < length buf"
    and extends: "take_frame buf = Some (f, rest) \<Longrightarrow> take_frame (buf @ more) = Some (f, rest @ more)"
begin

inductive frames :: "'b list \<Rightarrow> 'f list \<Rightarrow> 'b list \<Rightarrow> bool" where
  stop: "take_frame buf = None \<Longrightarrow> frames buf [] buf"
| more: "take_frame buf = Some (f, rest) \<Longrightarrow> frames rest fs left \<Longrightarrow> frames buf (f # fs) left"

lemma frames_ex: "\<exists>fs left. frames buf fs left"
proof (induction buf rule: length_induct)
  case (1 buf)
  show ?case
  proof (cases "take_frame buf")
    case None
    then show ?thesis using stop by blast
  next
    case (Some p)
    then obtain f rest where p: "take_frame buf = Some (f, rest)" by (cases p) simp
    then obtain fs left where "frames rest fs left" using 1 consumes by blast
    then show ?thesis using more p by blast
  qed
qed

lemma frames_unique: "frames buf fs left \<Longrightarrow> frames buf gs left' \<Longrightarrow> fs = gs \<and> left = left'"
proof (induction arbitrary: gs left' rule: frames.induct)
  case (stop buf)
  then show ?case by (auto elim: frames.cases)
next
  case (more buf f rest fs left)
  from more.prems more.hyps(1) obtain gs' where "gs = f # gs'" "frames rest gs' left'"
    by (auto elim: frames.cases)
  then show ?case using more.IH by blast
qed

lemma frames_append:
  "frames buf fs left \<Longrightarrow> frames (left @ chunk) gs left' \<Longrightarrow> frames (buf @ chunk) (fs @ gs) left'"
proof (induction rule: frames.induct)
  case (more buf f rest fs left)
  then show ?case using extends [OF more.hyps(1)] frames.more by fastforce
qed simp

text \<open>The frames that come out while chunks arrive, and the unfinished rest.\<close>

primrec reads :: "'b list \<Rightarrow> 'b list list \<Rightarrow> 'f list \<Rightarrow> 'b list \<Rightarrow> bool" where
  "reads buf [] fs left \<longleftrightarrow> fs = [] \<and> left = buf"
| "reads buf (c # cs) fs left \<longleftrightarrow>
     (\<exists>gs mid hs. frames (buf @ c) gs mid \<and> reads mid cs hs left \<and> fs = gs @ hs)"

lemma reads_concat:
  "reads buf cs fs left \<Longrightarrow> take_frame buf = None \<Longrightarrow> frames (buf @ concat cs) fs left"
proof (induction cs arbitrary: buf fs)
  case Nil
  then show ?case using stop by simp
next
  case (Cons c cs)
  then obtain gs mid hs where s: "frames (buf @ c) gs mid" "reads mid cs hs left" "fs = gs @ hs" by auto
  have "take_frame mid = None" using s(1) by (induction rule: frames.induct) auto
  then have "frames (mid @ concat cs) hs left" using Cons.IH s(2) by blast
  then show ?case using frames_append [OF s(1)] s(3) by simp
qed

lemma reads_ex: "\<exists>fs left. reads buf cs fs left"
proof (induction cs arbitrary: buf)
  case (Cons c cs)
  obtain gs mid where "frames (buf @ c) gs mid" using frames_ex by blast
  moreover obtain hs left where "reads mid cs hs left" using Cons.IH by blast
  ultimately have "reads buf (c # cs) (gs @ hs) left" by auto
  then show ?case by blast
next
  case Nil
  have "reads buf [] [] buf" by simp
  then show ?case by blast
qed

lemma reads_of_frames:
  assumes "take_frame [] = None" "frames (concat cs) fs left"
  shows "reads [] cs fs left"
proof -
  obtain gs left' where r: "reads [] cs gs left'" using reads_ex by blast
  have "frames (concat cs) gs left'" using reads_concat [OF r assms(1)] by simp
  then show ?thesis using r frames_unique [OF assms(2)] by blast
qed

lemma chunks_irrelevant:
  assumes "take_frame [] = None" "reads [] cs fs left" "reads [] ds gs left'" "concat cs = concat ds"
  shows "fs = gs \<and> left = left'"
  using reads_concat [OF assms(2,1)] reads_concat [OF assms(3,1)] assms(4) frames_unique by simp

end

end
