(* ===== verification/Ws_Frames.thy ===== *)
theory Ws_Frames
  imports Sockets
begin

section \<open>WebSocket frames\<close>

text \<open>
  The frame codec of \<open>client/src/network/TorWebSocketClient.ts\<close>: \<open>build_frame\<close> is \<open>sendRawFrame\<close>
  without the socket, \<open>next_frame\<close> is one turn of the loop of \<open>handleRawData\<close> up to the frame it
  hands to \<open>processFrame\<close>. The frames that \<open>next_frame\<close> takes from a stream do not depend on
  the chunks it came in, and a built frame is taken back as it was.
\<close>

unbundle bit_operations_syntax

text \<open>The header length is computed first, as in the source, and then the frame is filled in.\<close>

definition xor_mask :: "bytes \<Rightarrow> bytes \<Rightarrow> bytes" where
  "xor_mask maskKey payload = map (\<lambda>i. payload ! i XOR maskKey ! (i mod 4)) [0..<length payload]"

definition frame_length :: "nat \<Rightarrow> bytes" where
  "frame_length payloadLen =
     (if payloadLen \<le> 125 then [0x80 OR of_nat payloadLen]
      else if payloadLen \<le> 0xffff then (0x80 OR 126) # write_be 2 payloadLen
      else (0x80 OR 127) # write_be 8 payloadLen)"

definition build_frame :: "byte \<Rightarrow> bytes \<Rightarrow> bytes \<Rightarrow> bytes" where
  "build_frame opcode maskKey payload =
     (0x80 OR (opcode AND 0x0f)) # frame_length (length payload) @ maskKey @ xor_mask maskKey payload"

text \<open>The extended length, and where it ends; none while its bytes are missing.\<close>

definition payload_length :: "bytes \<Rightarrow> (nat \<times> nat) option" where
  "payload_length buf =
     (let len7 = unat (buf ! 1 AND 0x7f) in
      if len7 = 126 then (if length buf < 2 + 2 then None else Some (read_be (take 2 (drop 2 buf)), 4))
      else if len7 = 127 then (if length buf < 2 + 8 then None else Some (read_be (take 8 (drop 2 buf)), 10))
      else Some (len7, 2))"

definition next_frame :: "bytes \<Rightarrow> ((byte \<times> bytes) \<times> bytes) option" where
  "next_frame buf =
     (if length buf < 2 then None
      else
        let opcode = buf ! 0 AND 0x0f; isMasked = (buf ! 1 AND 0x80 \<noteq> 0) in
        case payload_length buf of None \<Rightarrow> None
        | Some (payloadLen, off) \<Rightarrow>
            if isMasked \<and> length buf < off + 4 then None
            else
              let maskKey = take 4 (drop off buf); off2 = (if isMasked then off + 4 else off) in
              if length buf < off2 + payloadLen then None
              else
                let payload = take payloadLen (drop off2 buf) in
                Some ((opcode, if isMasked then xor_mask maskKey payload else payload),
                      drop (off2 + payloadLen) buf))"

lemma length_xor_mask [simp]: "length (xor_mask k p) = length p"
  by (simp add: xor_mask_def)

lemma xor_mask_involution [simp]: "xor_mask k (xor_mask k p) = p"
  by (rule nth_equalityI) (simp_all add: xor_mask_def xor.assoc)

lemma payload_length_append:
  "payload_length buf = Some r \<Longrightarrow> 2 \<le> length buf \<Longrightarrow> payload_length (buf @ more) = Some r"
  by (auto simp: payload_length_def nth_append Let_def split: if_splits)

lemma payload_length_offset: "payload_length buf = Some (n, off) \<Longrightarrow> 2 \<le> off"
  by (auto simp: payload_length_def Let_def split: if_splits)

lemma next_frame_elim:
  assumes "next_frame buf = Some (f, rest)"
  obtains n off off2 where "2 \<le> length buf" "payload_length buf = Some (n, off)"
    "off2 = (if buf ! 1 AND 0x80 \<noteq> 0 then off + 4 else off)" "off2 + n \<le> length buf"
    "f = (buf ! 0 AND 0x0f, if buf ! 1 AND 0x80 \<noteq> 0
            then xor_mask (take 4 (drop off buf)) (take n (drop off2 buf)) else take n (drop off2 buf))"
    "rest = drop (off2 + n) buf"
  using assms by (auto simp: next_frame_def Let_def not_less split: if_splits option.splits)

lemma next_frame_intro:
  assumes "2 \<le> length buf" "payload_length buf = Some (n, off)"
    "off2 = (if buf ! 1 AND 0x80 \<noteq> 0 then off + 4 else off)" "off2 + n \<le> length buf"
  shows "next_frame buf = Some ((buf ! 0 AND 0x0f, if buf ! 1 AND 0x80 \<noteq> 0
            then xor_mask (take 4 (drop off buf)) (take n (drop off2 buf)) else take n (drop off2 buf)),
      drop (off2 + n) buf)"
  using assms by (auto simp: next_frame_def Let_def not_less)

interpretation ws: chunk_reader next_frame
proof
  fix buf f rest more
  assume nf: "next_frame buf = Some (f, rest)"
  then obtain n off off2 where r: "2 \<le> length buf" "payload_length buf = Some (n, off)"
    "off2 = (if buf ! 1 AND 0x80 \<noteq> 0 then off + 4 else off)" "off2 + n \<le> length buf"
    "f = (buf ! 0 AND 0x0f, if buf ! 1 AND 0x80 \<noteq> 0
            then xor_mask (take 4 (drop off buf)) (take n (drop off2 buf)) else take n (drop off2 buf))"
    "rest = drop (off2 + n) buf" by (rule next_frame_elim)
  have off: "2 \<le> off" using payload_length_offset r(2) .
  show "length rest < length buf" using r off by auto
  have same: "(buf @ more) ! 0 = buf ! 0" "(buf @ more) ! 1 = buf ! 1"
    using r(1) by (simp_all only: nth_append Suc_le_eq numeral_2_eq_2 if_P Suc_lessD One_nat_def)
  have "next_frame (buf @ more) = Some (((buf @ more) ! 0 AND 0x0f, if (buf @ more) ! 1 AND 0x80 \<noteq> 0
      then xor_mask (take 4 (drop off (buf @ more))) (take n (drop off2 (buf @ more)))
      else take n (drop off2 (buf @ more))), drop (off2 + n) (buf @ more))"
    using r(1,3,4) by (intro next_frame_intro payload_length_append r(2)) (auto simp: same same [unfolded One_nat_def])
  then show "next_frame (buf @ more) = Some (f, rest @ more)"
    using r by (auto simp: same same [unfolded One_nat_def] split: if_splits)
qed

lemma mask_bit: "(0x80 OR w :: byte) AND 0x80 = 0x80"
  by (intro bit_word_eqI) (auto simp: bit_simps)

lemma unmask_length: "n < 128 \<Longrightarrow> unat ((0x80 OR of_nat n :: byte) AND 0x7f) = n"
proof -
  assume n: "n < 128"
  have "(0x80 OR of_nat n :: byte) AND 0x7f = of_nat n"
  proof -
    have "(0x80 :: byte) AND 0x7f = 0" by simp
    moreover have "(of_nat n :: byte) AND 0x7f = of_nat n"
    proof -
      have "(of_nat n :: byte) AND mask 7 = of_nat (take_bit 7 n)"
        by (simp add: take_bit_eq_mask [symmetric] take_bit_of_nat)
      moreover have "take_bit 7 n = n" using n by (simp add: take_bit_nat_eq_self_iff)
      moreover have "(mask 7 :: byte) = 0x7f" by (simp add: mask_eq_exp_minus_1)
      ultimately show ?thesis by simp
    qed
    ultimately show ?thesis by (simp add: word_bw_comms word_ao_dist word_ao_dist2)
  qed
  then show ?thesis using n by (simp add: unat_of_nat)
qed

lemma opcode_byte: "(0x80 OR (opcode AND 0x0f) :: byte) AND 0x0f = opcode AND 0x0f"
proof -
  have "(0x80 :: byte) AND 0x0f = 0" by simp
  then show ?thesis by (simp add: word_ao_dist word_bw_assocs)
qed

text \<open>The length field of a built frame is read back, whichever of the three forms it has.\<close>

lemma frame_length_read:
  assumes "n < 2 ^ 64"
  shows "payload_length (b # frame_length n @ more) = Some (n, Suc (length (frame_length n)))"
    "(b # frame_length n @ more) ! 1 AND 0x80 \<noteq> 0"
    "frame_length n \<noteq> []"
proof -
  have "read_be (write_be 8 n) = n" using assms by (intro read_write_be) simp
  moreover have "read_be (write_be 2 n) = n" if "n \<le> 0xffff" using that by (intro read_write_be) simp
  ultimately show "payload_length (b # frame_length n @ more) = Some (n, Suc (length (frame_length n)))"
    using unmask_length [of n]
    by (auto simp: payload_length_def frame_length_def Let_def)
  show "(b # frame_length n @ more) ! 1 AND 0x80 \<noteq> 0"
    by (auto simp: frame_length_def mask_bit)
  show "frame_length n \<noteq> []" by (simp add: frame_length_def)
qed

lemma next_frame_build:
  assumes "length maskKey = 4" "length payload < 2 ^ 64"
  shows "next_frame (build_frame opcode maskKey payload @ rest) = Some ((opcode AND 0x0f, payload), rest)"
proof -
  let ?buf = "build_frame opcode maskKey payload @ rest" and ?n = "length payload"
  let ?h = "frame_length ?n" and ?m = "maskKey @ xor_mask maskKey payload @ rest"
  have buf: "?buf = (0x80 OR (opcode AND 0x0f)) # ?h @ ?m" by (simp add: build_frame_def)
  note len = frame_length_read(1,2) [OF assms(2), of "0x80 OR (opcode AND 0x0f)" ?m, folded buf]
  have two: "2 \<le> length ?buf" using frame_length_read(3) [OF assms(2)] assms(1) by (simp add: buf Suc_le_eq)
  have room: "Suc (length ?h) + 4 + ?n \<le> length ?buf" using assms(1) by (simp add: buf)
  have key: "take 4 (drop (Suc (length ?h)) ?buf) = maskKey" using assms(1) by (simp add: buf)
  have "drop (length ((0x80 OR (opcode AND 0x0f)) # ?h @ maskKey)) ?buf = xor_mask maskKey payload @ rest"
    by (simp add: buf)
  then have body: "take ?n (drop (Suc (length ?h) + 4) ?buf) = xor_mask maskKey payload" using assms(1) by simp
  have "drop (length (((0x80 OR (opcode AND 0x0f)) # ?h @ maskKey) @ xor_mask maskKey payload)) ?buf = rest"
    by (simp add: buf)
  then have end_: "drop (Suc (length ?h) + 4 + ?n) ?buf = rest" using assms(1) by (simp add: add.assoc)
  have op: "?buf ! 0 = 0x80 OR (opcode AND 0x0f)" by (simp add: buf)
  have off2: "Suc (length ?h) + 4 = (if ?buf ! 1 AND 0x80 \<noteq> 0 then Suc (length ?h) + 4 else Suc (length ?h))"
    using len(2) by (simp only: if_True simp_thms)
  show ?thesis
    using next_frame_intro [OF two len(1) off2 room] len(2)
    by (simp only: op opcode_byte key body end_ xor_mask_involution if_True simp_thms)
qed

lemma next_frame_empty: "next_frame [] = None"
  by (simp add: next_frame_def)

subsection \<open>Frames survive the stream\<close>

text \<open>What is written for a list of frames (opcode, mask, payload).\<close>

definition frames_bytes :: "(byte \<times> bytes \<times> bytes) list \<Rightarrow> bytes" where
  "frames_bytes fs = concat (map (\<lambda>(opcode, maskKey, payload). build_frame opcode maskKey payload) fs)"

definition frame_ok :: "byte \<times> bytes \<times> bytes \<Rightarrow> bool" where
  "frame_ok f \<longleftrightarrow> length (fst (snd f)) = 4 \<and> length (snd (snd f)) < 2 ^ 64"

lemma frames_of_built:
  "list_all frame_ok fs \<Longrightarrow> ws.frames (frames_bytes fs) (map (\<lambda>(opcode, _, payload). (opcode AND 0x0f, payload)) fs) []"
proof (induction fs)
  case Nil
  then show ?case by (simp add: frames_bytes_def ws.frames.stop next_frame_empty)
next
  case (Cons f fs)
  obtain opcode maskKey payload where f: "f = (opcode, maskKey, payload)" by (cases f)
  have "next_frame (frames_bytes (f # fs)) = Some ((opcode AND 0x0f, payload), frames_bytes fs)"
    using next_frame_build [of maskKey payload opcode "frames_bytes fs"] Cons.prems
    by (simp add: frames_bytes_def frame_ok_def f)
  then show ?case using ws.frames.more Cons by (simp add: f)
qed

text \<open>What \<open>sendRawFrame\<close> writes for a list of frames is taken apart again into the same opcodes and
  payloads with nothing left over, however TCP cuts the stream into chunks: the three length
  forms, the mask and the reassembly buffer agree.\<close>

theorem frames_survive_chunking:
  assumes "list_all frame_ok sent" "concat chunks = frames_bytes sent"
  shows "ws.reads [] chunks (map (\<lambda>(opcode, _, payload). (opcode AND 0x0f, payload)) sent) []"
  using ws.reads_of_frames [OF next_frame_empty] frames_of_built [OF assms(1)] assms(2) by simp

theorem frames_survive_chunking_witness:
  "let sent = [(1, [1, 2, 3, 4], [72, 105]), (9, [0, 0, 0, 255], replicate 300 7)];
       bs = frames_bytes sent in
   ws.reads [] [take 1 bs, take 10 (drop 1 bs), drop 11 bs] [(1, [72, 105]), (9, replicate 300 7)] []"
proof -
  let ?sent = "[(1, [1, 2, 3, 4], [72, 105]), (9, [0, 0, 0, 255], replicate 300 7)] :: (byte \<times> bytes \<times> bytes) list"
  let ?bs = "frames_bytes ?sent"
  have "concat [take 1 ?bs, take 10 (drop 1 ?bs), drop 11 ?bs] = ?bs"
    using append_take_drop_id [of 1 ?bs] append_take_drop_id [of 10 "drop 1 ?bs"] by simp
  moreover have "list_all frame_ok ?sent" by (simp add: frame_ok_def)
  ultimately show ?thesis using frames_survive_chunking [of ?sent] by (simp add: Let_def del: ws.reads.simps)
qed

end
