(* ===== verification/Json.thy ===== *)
theory Json
  imports Text_Codec
begin

section \<open>JSON.stringify and JSON.parse\<close>

text \<open>
  Sessions, pre-keys, envelopes, contact URIs and WebSocket messages all travel as JSON text.
  A JSON value is a tree; an object keeps its members in insertion order. Numbers the client
  writes are integers; the lexeme of a number with a fraction or an exponent is kept as text
  (\<open>JReal\<close>), so that every text \<open>JSON.parse\<close> accepts has a value here. A \<open>\u\<close> escape of a lone
  surrogate reads as U+FFFD, which is what every encoding of it would give.

  The reader recurses under a fuel argument; \<open>JSON_parse_fuel\<close> shows that the fuel
  \<open>JSON_parse\<close> provides is enough, more of it never changes a result.
\<close>

datatype json =
  JNull
| JBool bool
| JNum int
| JReal string
| JStr string
| JArr "json list"
| JObj "(string \<times> json) list"

subsection \<open>Writing\<close>

definition hex_digit :: "nat \<Rightarrow> char" where
  "hex_digit n = (if n < 10 then char_of (48 + n) else char_of (87 + n))"

definition js_escape :: "char \<Rightarrow> string" where
  "js_escape c =
     (let n = code c in
      if n = 34 then [CHR 0x5C, CHR 0x22]
      else if n = 92 then [CHR 0x5C, CHR 0x5C]
      else if n = 8 then [CHR 0x5C, CHR ''b'']
      else if n = 9 then [CHR 0x5C, CHR ''t'']
      else if n = 10 then [CHR 0x5C, CHR ''n'']
      else if n = 12 then [CHR 0x5C, CHR ''f'']
      else if n = 13 then [CHR 0x5C, CHR ''r'']
      else if n < 32 then [CHR 0x5C, CHR ''u'', CHR ''0'', CHR ''0'', hex_digit (n div 16), hex_digit (n mod 16)]
      else [c])"

definition js_quote :: "string \<Rightarrow> string" where
  "js_quote s = [CHR 0x22] @ concat (map js_escape s) @ [CHR 0x22]"

fun js_value :: "json \<Rightarrow> string"
  and js_elems :: "json list \<Rightarrow> string"
  and js_members :: "(string \<times> json) list \<Rightarrow> string" where
  "js_value JNull = ''null''"
| "js_value (JBool b) = (if b then ''true'' else ''false'')"
| "js_value (JNum i) = show_int i"
| "js_value (JReal s) = s"
| "js_value (JStr s) = js_quote s"
| "js_value (JArr vs) = ''['' @ js_elems vs @ '']''"
| "js_value (JObj ms) = ''{'' @ js_members ms @ ''}''"
| "js_elems [] = []"
| "js_elems (v # vs) = js_value v @ (if vs = [] then [] else '','' @ js_elems vs)"
| "js_members [] = []"
| "js_members ((k, v) # ms) =
     js_quote k @ '':'' @ js_value v @ (if ms = [] then [] else '','' @ js_members ms)"

definition JSON_stringify :: "json \<Rightarrow> string" where
  "JSON_stringify v = js_value v"

subsection \<open>Reading\<close>

definition is_ws :: "char \<Rightarrow> bool" where
  "is_ws c \<longleftrightarrow> code c \<in> {32, 9, 10, 13}"

definition skip_ws :: "string \<Rightarrow> string" where
  "skip_ws s = dropWhile is_ws s"

definition hex_val :: "char \<Rightarrow> nat option" where
  "hex_val c =
     (let n = code c in
      if 48 \<le> n \<and> n \<le> 57 then Some (n - 48)
      else if 97 \<le> n \<and> n \<le> 102 then Some (n - 87)
      else if 65 \<le> n \<and> n \<le> 70 then Some (n - 55)
      else None)"

definition hex4 :: "string \<Rightarrow> nat option" where
  "hex4 s =
     (case List.map_filter hex_val (take 4 s) of
        [a, b, c, d] \<Rightarrow> Some (((a * 16 + b) * 16 + c) * 16 + d)
      | _ \<Rightarrow> None)"

definition utf8_of :: "nat \<Rightarrow> string" where
  "utf8_of n =
     (if n < 0x80 then [char_of n]
      else if n < 0x800 then [char_of (192 + n div 64), char_of (128 + n mod 64)]
      else if 0xD800 \<le> n \<and> n \<le> 0xDFFF then replacement
      else if n < 0x10000 then
        [char_of (224 + n div 4096), char_of (128 + n div 64 mod 64), char_of (128 + n mod 64)]
      else [char_of (240 + n div 262144), char_of (128 + n div 4096 mod 64),
            char_of (128 + n div 64 mod 64), char_of (128 + n mod 64)])"

text \<open>The escape \<open>\uXXXX\<close>, or a surrogate pair of two of them: the text and the length read.\<close>

definition unicode_escape :: "string \<Rightarrow> (string \<times> nat) option" where
  "unicode_escape s =
     (case hex4 s of
        None \<Rightarrow> None
      | Some n \<Rightarrow>
          if 0xD800 \<le> n \<and> n \<le> 0xDBFF \<and> take 2 (drop 4 s) = [CHR 0x5C, CHR ''u''] then
            (case hex4 (drop 6 s) of
               Some m \<Rightarrow> if 0xDC00 \<le> m \<and> m \<le> 0xDFFF
                         then Some (utf8_of (0x10000 + (n - 0xD800) * 0x400 + (m - 0xDC00)), 10)
                         else Some (utf8_of n, 4)
             | None \<Rightarrow> Some (utf8_of n, 4))
          else Some (utf8_of n, 4))"

definition simple_escape :: "char \<Rightarrow> char option" where
  "simple_escape e =
     (if e = CHR 0x22 then Some (CHR 0x22)
      else if e = CHR 0x5C then Some (CHR 0x5C)
      else if e = CHR ''/'' then Some (CHR ''/'')
      else if e = CHR ''b'' then Some (CHR 0x08)
      else if e = CHR ''t'' then Some (CHR 0x09)
      else if e = CHR ''n'' then Some (CHR 0x0A)
      else if e = CHR ''f'' then Some (CHR 0x0C)
      else if e = CHR ''r'' then Some (CHR 0x0D)
      else None)"

definition prefix_text :: "string \<Rightarrow> (string \<times> string) option \<Rightarrow> (string \<times> string) option" where
  "prefix_text t r = map_option (\<lambda>(u, s). (t @ u, s)) r"

function p_string :: "string \<Rightarrow> (string \<times> string) option" where
  "p_string [] = None"
| "p_string (c # r) =
     (if c = CHR 0x22 then Some ([], r)
      else if c = CHR 0x5C then
        (case r of
           [] \<Rightarrow> None
         | e # r1 \<Rightarrow>
             if e = CHR ''u'' then
               (case unicode_escape r1 of
                  None \<Rightarrow> None
                | Some (t, n) \<Rightarrow> prefix_text t (p_string (drop n r1)))
             else (case simple_escape e of
                     None \<Rightarrow> None
                   | Some d \<Rightarrow> prefix_text [d] (p_string r1)))
      else if code c < 32 then None
      else prefix_text [c] (p_string r))"
  by pat_completeness auto
termination
  by (relation "measure length") auto

definition num_char :: "char \<Rightarrow> bool" where
  "num_char c \<longleftrightarrow> is_digit c \<or> c \<in> {CHR ''-'', CHR ''+'', CHR ''.'', CHR ''e'', CHR ''E''}"

definition all_digits :: "string \<Rightarrow> bool" where
  "all_digits s \<longleftrightarrow> s \<noteq> [] \<and> list_all is_digit s"

definition exponent_ok :: "string \<Rightarrow> bool" where
  "exponent_ok s =
     (case s of
        [] \<Rightarrow> True
      | c # r \<Rightarrow> (c = CHR ''e'' \<or> c = CHR ''E'') \<and>
                 all_digits (case r of d # r1 \<Rightarrow> if d = CHR ''+'' \<or> d = CHR ''-'' then r1 else r | [] \<Rightarrow> []))"

definition fraction_ok :: "string \<Rightarrow> bool" where
  "fraction_ok s =
     (case s of
        [] \<Rightarrow> True
      | c # r \<Rightarrow> if c = CHR ''.''
                then takeWhile is_digit r \<noteq> [] \<and> exponent_ok (dropWhile is_digit r)
                else exponent_ok s)"

definition number_token :: "string \<Rightarrow> json option" where
  "number_token t =
     (let neg = (t \<noteq> [] \<and> hd t = CHR ''-'');
          body = (if neg then tl t else t);
          ds = takeWhile is_digit body;
          rest = dropWhile is_digit body
      in if ds = [] \<or> (hd ds = CHR ''0'' \<and> length ds > 1) then None
         else if rest = [] then Some (JNum (if neg then - int (read_nat ds) else int (read_nat ds)))
         else if fraction_ok rest then Some (JReal t) else None)"

definition p_number :: "string \<Rightarrow> (json \<times> string) option" where
  "p_number s = map_option (\<lambda>v. (v, dropWhile num_char s)) (number_token (takeWhile num_char s))"

definition p_literal :: "string \<Rightarrow> json \<Rightarrow> string \<Rightarrow> (json \<times> string) option" where
  "p_literal w v s = (if take (length w) s = w then Some (v, drop (length w) s) else None)"

definition build_obj :: "(string \<times> json) list \<Rightarrow> json" where
  "build_obj ms = JObj (fold (\<lambda>(k, v). obj_set k v) ms [])"

fun p_value :: "nat \<Rightarrow> string \<Rightarrow> (json \<times> string) option"
  and p_elems :: "nat \<Rightarrow> string \<Rightarrow> (json list \<times> string) option"
  and p_members :: "nat \<Rightarrow> string \<Rightarrow> ((string \<times> json) list \<times> string) option" where
  "p_value 0 s = None"
| "p_value (Suc n) s =
     (case skip_ws s of
        [] \<Rightarrow> None
      | c # r \<Rightarrow>
          if c = CHR ''{'' then
            (if take 1 (skip_ws r) = ''}'' then Some (JObj [], drop 1 (skip_ws r))
             else map_option (\<lambda>(ms, r'). (build_obj ms, r')) (p_members n r))
          else if c = CHR ''['' then
            (if take 1 (skip_ws r) = '']'' then Some (JArr [], drop 1 (skip_ws r))
             else map_option (\<lambda>(vs, r'). (JArr vs, r')) (p_elems n r))
          else if c = CHR 0x22 then map_option (\<lambda>(t, r'). (JStr t, r')) (p_string r)
          else if c = CHR ''t'' then p_literal ''true'' (JBool True) (c # r)
          else if c = CHR ''f'' then p_literal ''false'' (JBool False) (c # r)
          else if c = CHR ''n'' then p_literal ''null'' JNull (c # r)
          else p_number (c # r))"
| "p_elems 0 s = None"
| "p_elems (Suc n) s =
     (case p_value n s of
        None \<Rightarrow> None
      | Some (v, r) \<Rightarrow>
          (case skip_ws r of
             [] \<Rightarrow> None
           | c # r' \<Rightarrow>
               if c = CHR '']'' then Some ([v], r')
               else if c = CHR '','' then map_option (\<lambda>(vs, r''). (v # vs, r'')) (p_elems n r')
               else None))"
| "p_members 0 s = None"
| "p_members (Suc n) s =
     (case skip_ws s of
        [] \<Rightarrow> None
      | q # s1 \<Rightarrow>
          if q \<noteq> CHR 0x22 then None
          else (case p_string s1 of
             None \<Rightarrow> None
           | Some (k, s2) \<Rightarrow>
               if take 1 (skip_ws s2) \<noteq> '':'' then None
               else (case p_value n (drop 1 (skip_ws s2)) of
                  None \<Rightarrow> None
                | Some (v, r) \<Rightarrow>
                    (case skip_ws r of
                       [] \<Rightarrow> None
                     | c # r' \<Rightarrow>
                         if c = CHR ''}'' then Some ([(k, v)], r')
                         else if c = CHR '','' then
                           map_option (\<lambda>(ms, r''). ((k, v) # ms, r'')) (p_members n r')
                         else None))))"

definition JSON_parse :: "string \<Rightarrow> json res" where
  "JSON_parse s =
     (case p_value (2 * length s + 2) s of
        Some (v, r) \<Rightarrow> if skip_ws r = [] then Inr v else Inl LibError
      | None \<Rightarrow> Inl LibError)"

subsection \<open>Reading fields\<close>

text \<open>
  \<open>v.k\<close>: a \<open>TypeError\<close> for \<open>null\<close>, otherwise the member or \<open>undefined\<close> (\<open>None\<close>).
\<close>

definition jprop :: "json \<Rightarrow> string \<Rightarrow> json option res" where
  "jprop v k = (case v of JNull \<Rightarrow> Inl LibError | JObj ms \<Rightarrow> Inr (obj_get ms k) | _ \<Rightarrow> Inr None)"

text \<open>Truthiness of a value that may be \<open>undefined\<close>.\<close>

definition jtruthy :: "json option \<Rightarrow> bool" where
  "jtruthy v = (case v of
      None \<Rightarrow> False
    | Some JNull \<Rightarrow> False
    | Some (JBool b) \<Rightarrow> b
    | Some (JNum i) \<Rightarrow> i \<noteq> 0
    | Some (JReal s) \<Rightarrow> list_ex (\<lambda>c. is_digit c \<and> c \<noteq> CHR ''0'') (takeWhile (\<lambda>c. c \<noteq> CHR ''e'' \<and> c \<noteq> CHR ''E'') s)
    | Some (JStr s) \<Rightarrow> s \<noteq> []
    | Some _ \<Rightarrow> True)"

text \<open>An optional member: absent when the value is \<open>undefined\<close>, as \<open>JSON.stringify\<close> leaves it out.\<close>

definition opt_member :: "string \<Rightarrow> ('a \<Rightarrow> json) \<Rightarrow> 'a option \<Rightarrow> (string \<times> json) list" where
  "opt_member k f x = (case x of None \<Rightarrow> [] | Some a \<Rightarrow> [(k, f a)])"

subsection \<open>Strings survive\<close>

lemma prefix_text_Some [simp]: "prefix_text t (Some (u, r)) = Some (t @ u, r)"
  by (simp add: prefix_text_def)

lemma hex_val_digit [simp]: "n < 16 \<Longrightarrow> hex_val (hex_digit n) = Some n"
  by (auto simp: hex_val_def hex_digit_def code_def Let_def)

lemma unicode_escape_control:
  "n < 32 \<Longrightarrow> unicode_escape (CHR ''0'' # CHR ''0'' # hex_digit (n div 16) # hex_digit (n mod 16) # r)
     = Some ([char_of n], 4)"
proof -
  assume n: "n < 32"
  have z: "hex_val (CHR ''0'') = Some 0" by (simp add: hex_val_def code_def)
  have "n div 16 < 16" "n mod 16 < 16" using n by simp_all
  then have "hex4 (CHR ''0'' # CHR ''0'' # hex_digit (n div 16) # hex_digit (n mod 16) # r) = Some n"
    by (simp add: hex4_def List.map_filter_simps z)
  then show ?thesis using n by (simp add: unicode_escape_def utf8_of_def)
qed

lemma char_code [simp]: "char_of (code c) = c"
  by (simp add: code_def)

lemma code_char [simp]: "n < 256 \<Longrightarrow> code (char_of (n :: nat)) = n"
  by (simp add: code_def)

lemma code_eq_iff: "code d = n \<Longrightarrow> code c = n \<longleftrightarrow> c = d"
  by (metis char_code)

lemma p_string_escape:
  assumes "p_string t = Some (u, r)"
  shows "p_string (js_escape c @ t) = Some (c # u, r)"
proof -
  have eqs: "code c = 34 \<longleftrightarrow> c = CHR 0x22" "code c = 92 \<longleftrightarrow> c = CHR 0x5C"
    "code c = 8 \<longleftrightarrow> c = CHR 0x08" "code c = 9 \<longleftrightarrow> c = CHR 0x09"
    "code c = 10 \<longleftrightarrow> c = CHR 0x0A" "code c = 12 \<longleftrightarrow> c = CHR 0x0C" "code c = 13 \<longleftrightarrow> c = CHR 0x0D"
    by (rule code_eq_iff, simp add: code_def)+
  show ?thesis
  proof (cases "code c \<in> {34, 92, 8, 9, 10, 12, 13}")
    case True
    then consider "c = CHR 0x22" | "c = CHR 0x5C" | "c = CHR 0x08" | "c = CHR 0x09"
      | "c = CHR 0x0A" | "c = CHR 0x0C" | "c = CHR 0x0D"
      unfolding insert_iff empty_iff eqs by blast
    then show ?thesis using assms
      by cases (simp_all add: js_escape_def simple_escape_def code_def)
  next
    case False
    show ?thesis
    proof (cases "code c < 32")
      case True
      with False have "js_escape c = CHR 0x5C # CHR ''u'' # CHR ''0'' # CHR ''0''
          # hex_digit (code c div 16) # hex_digit (code c mod 16) # []"
        by (simp add: js_escape_def Let_def)
      then show ?thesis using assms unicode_escape_control [OF True] by simp
    next
      case False': False
      with False have "js_escape c = [c]" by (simp add: js_escape_def)
      then show ?thesis using assms False False' eqs by simp
    qed
  qed
qed

lemma p_string_quote: "p_string (concat (map js_escape s) @ CHR 0x22 # r) = Some (s, r)"
  by (induction s) (simp_all add: p_string_escape)

subsection \<open>Numbers survive\<close>

lemma show_nat_hd: "10 \<le> n \<Longrightarrow> hd (show_nat n) \<noteq> CHR ''0''"
proof (induction n rule: show_nat.induct)
  case (1 n)
  show ?case
  proof (cases "n div 10 < 10")
    case True
    then have "show_nat (n div 10) = [char_of (48 + n div 10)]" by (subst show_nat.simps) simp
    moreover have "char_of (48 + n div 10) \<noteq> CHR ''0''"
    proof
      assume "char_of (48 + n div 10) = CHR ''0''"
      then have "code (char_of (48 + n div 10)) = 48" by (simp add: code_def)
      then show False using True 1 by simp
    qed
    ultimately show ?thesis using 1 by (subst show_nat.simps) simp
  next
    case False
    then show ?thesis using 1 by (subst show_nat.simps) simp
  qed
qed

lemma takeWhile_all: "list_all P s \<Longrightarrow> takeWhile P s = s"
  by (induction s) auto

lemma dropWhile_all: "list_all P s \<Longrightarrow> dropWhile P s = []"
  by (induction s) auto

lemma number_token_show_nat: "number_token (show_nat n) = Some (JNum (int n))"
proof -
  have d: "takeWhile is_digit (show_nat n) = show_nat n" "dropWhile is_digit (show_nat n) = []"
    using show_nat_digits by (simp_all add: takeWhile_all dropWhile_all)
  have neg: "hd (show_nat n) \<noteq> CHR ''-''"
    using show_nat_digits [of n] minus_not_digit by (cases "show_nat n") auto
  have "\<not> (hd (show_nat n) = CHR ''0'' \<and> length (show_nat n) > 1)"
  proof (cases "n < 10")
    case True
    then show ?thesis by (subst (2) show_nat.simps) simp
  qed (use show_nat_hd in auto)
  then show ?thesis using neg by (auto simp add: number_token_def Let_def d)
qed

lemma number_token_show_int: "number_token (show_int i) = Some (JNum i)"
proof (cases "i < 0")
  case True
  have "number_token (show_nat (nat (- i))) = Some (JNum (- i))"
    using True by (simp add: number_token_show_nat)
  moreover have "hd (show_nat (nat (- i))) \<noteq> CHR ''-''"
    using show_nat_digits [of "nat (- i)"] minus_not_digit by (cases "show_nat (nat (- i))") auto
  ultimately show ?thesis using True
    by (auto simp: number_token_def show_int_def Let_def split: if_splits)
qed (simp add: show_int_def number_token_show_nat)

lemma show_int_num_char: "list_all num_char (show_int i)"
proof -
  have "list_all num_char (show_nat n)" for n
    using show_nat_digits [of n] by (auto simp: list_all_iff num_char_def)
  then show ?thesis by (simp add: show_int_def num_char_def)
qed

lemma p_number_text:
  assumes "list_all num_char t" and "r = [] \<or> \<not> num_char (hd r)"
  shows "p_number (t @ r) = map_option (\<lambda>v. (v, r)) (number_token t)"
proof -
  have "takeWhile num_char (t @ r) = t" "dropWhile num_char (t @ r) = r"
    using assms by (cases r; auto simp: list_all_iff)+
  then show ?thesis by (simp add: p_number_def)
qed

subsection \<open>Values survive\<close>

fun wf_json :: "json \<Rightarrow> bool"
  and wf_elems :: "json list \<Rightarrow> bool"
  and wf_members :: "(string \<times> json) list \<Rightarrow> bool" where
  "wf_json JNull = True"
| "wf_json (JBool b) = True"
| "wf_json (JNum i) = True"
| "wf_json (JReal s) = (list_all num_char s \<and> number_token s = Some (JReal s))"
| "wf_json (JStr s) = True"
| "wf_json (JArr vs) = wf_elems vs"
| "wf_json (JObj ms) = (distinct (map fst ms) \<and> wf_members ms)"
| "wf_elems [] = True"
| "wf_elems (v # vs) = (wf_json v \<and> wf_elems vs)"
| "wf_members [] = True"
| "wf_members ((k, v) # ms) = (wf_json v \<and> wf_members ms)"

definition value_start :: "char \<Rightarrow> bool" where
  "value_start c \<longleftrightarrow> \<not> is_ws c \<and> c \<noteq> CHR '']'' \<and> c \<noteq> CHR ''}'' \<and> c \<noteq> CHR '':'' \<and> c \<noteq> CHR '',''"

lemma digit_start: "is_digit c \<or> c = CHR ''-'' \<Longrightarrow> value_start c \<and> c \<notin> {CHR ''{'', CHR ''['', CHR 0x22, CHR ''t'', CHR ''f'', CHR ''n''}"
  by (auto simp: value_start_def is_digit_def is_ws_def code_def)

lemma number_token_start:
  "number_token t = Some v \<Longrightarrow> \<exists>c r. t = c # r \<and> (is_digit c \<or> c = CHR ''-'')"
  by (cases t) (auto simp: number_token_def Let_def split: if_splits)

lemma js_value_start: "wf_json v \<Longrightarrow> \<exists>c r. js_value v = c # r \<and> value_start c"
proof (cases v)
  case (JNum i)
  then show ?thesis using number_token_start [OF number_token_show_int [of i]] digit_start by auto
next
  case (JReal s)
  moreover assume "wf_json v"
  ultimately show ?thesis using number_token_start [of s] digit_start by auto
qed (auto simp: value_start_def js_quote_def is_ws_def code_def)

lemma skip_ws_start [simp]: "value_start c \<Longrightarrow> skip_ws (c # r) = c # r"
  by (simp add: skip_ws_def value_start_def)

lemma skip_ws_punct [simp]:
  "skip_ws (CHR '','' # r) = CHR '','' # r" "skip_ws (CHR '']'' # r) = CHR '']'' # r"
  "skip_ws (CHR ''}'' # r) = CHR ''}'' # r" "skip_ws (CHR '':'' # r) = CHR '':'' # r"
  "skip_ws (CHR 0x22 # r) = CHR 0x22 # r" "skip_ws (CHR ''{'' # r) = CHR ''{'' # r"
  "skip_ws (CHR ''['' # r) = CHR ''['' # r" "skip_ws [] = []"
  by (simp_all add: skip_ws_def is_ws_def code_def)

lemma p_value_number:
  assumes "list_all num_char t" and "number_token t = Some v" and "r = [] \<or> \<not> num_char (hd r)"
  shows "p_value (Suc n) (t @ r) = Some (v, r)"
proof -
  obtain c u where t: "t = c # u" and c: "is_digit c \<or> c = CHR ''-''"
    using number_token_start [OF assms(2)] by blast
  then have "p_value (Suc n) (t @ r) = p_number (t @ r)"
    using digit_start [OF c] by simp
  then show ?thesis using p_number_text [OF assms(1,3)] assms(2) by simp
qed

lemma AList_update_snoc: "k \<notin> fst ` set ms \<Longrightarrow> AList.update k v ms = ms @ [(k, v)]"
  by (induction ms) auto

lemma build_obj_distinct: "distinct (map fst ms) \<Longrightarrow> build_obj ms = JObj ms"
proof -
  have "distinct (map fst (acc @ ms)) \<Longrightarrow> fold (\<lambda>(k, v). obj_set k v) ms acc = acc @ ms" for acc
  proof (induction ms arbitrary: acc)
    case (Cons m ms)
    then have "obj_set (fst m) (snd m) acc = acc @ [m]"
      by (auto simp: obj_set_def AList_update_snoc)
    then show ?case using Cons by (cases m) simp
  qed simp
  from this [of "[]"] show "distinct (map fst ms) \<Longrightarrow> build_obj ms = JObj ms"
    by (simp add: build_obj_def)
qed

lemma not_num_punct: "\<not> num_char (CHR '','')" "\<not> num_char (CHR '']'')" "\<not> num_char (CHR ''}'')"
  by (simp_all add: num_char_def is_digit_def)

lemma p_js_value:
  shows "wf_json v \<Longrightarrow> 2 * length (js_value v) \<le> n \<Longrightarrow> r = [] \<or> \<not> num_char (hd r)
           \<Longrightarrow> p_value n (js_value v @ r) = Some (v, r)"
    and "wf_elems vs \<Longrightarrow> vs \<noteq> [] \<Longrightarrow> 2 * length (js_elems vs) + 1 \<le> n
           \<Longrightarrow> p_elems n (js_elems vs @ CHR '']'' # r) = Some (vs, r)"
    and "wf_members ms \<Longrightarrow> ms \<noteq> [] \<Longrightarrow> 2 * length (js_members ms) + 1 \<le> n
           \<Longrightarrow> p_members n (js_members ms @ CHR ''}'' # r) = Some (ms, r)"
proof (induction v and vs and ms arbitrary: n r and n r and n r
    rule: js_value_js_elems_js_members.induct)
  case 1
  then show ?case by (cases n) (auto simp: skip_ws_def is_ws_def code_def p_literal_def)
next
  case (2 b)
  then show ?case by (cases n; cases b) (auto simp: skip_ws_def is_ws_def code_def p_literal_def)
next
  case (3 i)
  then obtain m where "n = Suc m" by (cases n) auto
  then show ?case
    using 3 p_value_number [OF show_int_num_char number_token_show_int] by simp
next
  case (4 s)
  then obtain m where "n = Suc m"
    using number_token_start [of s] by (cases n) auto
  then show ?case using 4 p_value_number [of s "JReal s"] by simp
next
  case (5 s)
  then obtain m where "n = Suc m" by (cases n) (auto simp: js_quote_def)
  then show ?case by (simp add: js_quote_def p_string_quote)
next
  case (6 vs)
  then obtain m where n: "n = Suc m" by (cases n) auto
  show ?case
  proof (cases "vs = []")
    case False
    then obtain v vs' where vs: "vs = v # vs'" by (cases vs) auto
    then obtain c u where "js_elems vs @ CHR '']'' # r = c # u" "value_start c"
      using js_value_start [of v] 6 by auto
    moreover from this have "take 1 (skip_ws (js_elems vs @ CHR '']'' # r)) \<noteq> '']''"
      by (auto simp: value_start_def)
    moreover have "p_elems m (js_elems vs @ CHR '']'' # r) = Some (vs, r)"
      using 6 n False by simp
    ultimately show ?thesis using n by simp
  qed (use n in simp)
next
  case (7 ms)
  then obtain m where n: "n = Suc m" by (cases n) auto
  show ?case
  proof (cases "ms = []")
    case False
    then obtain k v ms' where ms: "ms = (k, v) # ms'" by (cases ms) auto
    then have "take 1 (skip_ws (js_members ms @ CHR ''}'' # r)) \<noteq> ''}''"
      by (simp add: js_quote_def)
    moreover have "p_members m (js_members ms @ CHR ''}'' # r) = Some (ms, r)"
      using 7 n False by simp
    ultimately show ?thesis using n 7 build_obj_distinct [of ms] by simp
  qed (use n in simp)
next
  case 8
  then show ?case by simp
next
  case (9 v vs)
  then obtain m where n: "n = Suc m" by (cases n) auto
  show ?case
  proof (cases "vs = []")
    case True
    have "p_value m (js_value v @ CHR '']'' # r) = Some (v, CHR '']'' # r)"
      using 9 n True not_num_punct by simp
    then show ?thesis using n True by simp
  next
    case False
    have "p_value m (js_value v @ CHR '','' # js_elems vs @ CHR '']'' # r)
        = Some (v, CHR '','' # js_elems vs @ CHR '']'' # r)"
      using 9 n False not_num_punct by simp
    moreover have "p_elems m (js_elems vs @ CHR '']'' # r) = Some (vs, r)"
      using 9 n False by simp
    ultimately show ?thesis using n False by simp
  qed
next
  case 10
  then show ?case by simp
next
  case (11 k v ms)
  then obtain m where n: "n = Suc m" by (cases n) auto
  let ?rest = "(if ms = [] then [] else '','' @ js_members ms) @ CHR ''}'' # r"
  obtain c u where cu: "js_value v @ ?rest = c # u" "value_start c"
    using js_value_start [of v] 11 by auto
  have key: "p_string (concat (map js_escape k) @ CHR 0x22 # CHR '':'' # js_value v @ ?rest)
      = Some (k, CHR '':'' # js_value v @ ?rest)"
    by (rule p_string_quote)
  have "2 * length (js_value v) \<le> m" using 11 n by simp
  moreover have "?rest = [] \<or> \<not> num_char (hd ?rest)" using not_num_punct by simp
  ultimately have val: "p_value m (js_value v @ ?rest) = Some (v, ?rest)"
    using 11 by simp
  have tail: "ms \<noteq> [] \<Longrightarrow> p_members m (js_members ms @ CHR ''}'' # r) = Some (ms, r)"
    using 11 n by simp
  show ?case
    using n key val tail by (cases "ms = []") (simp_all add: js_quote_def)
qed

theorem JSON_parse_stringify:
  assumes "wf_json v"
  shows "JSON_parse (JSON_stringify v) = Inr v"
  using p_js_value(1) [OF assms, of "2 * length (js_value v) + 2" "[]"]
  by (simp add: JSON_parse_def JSON_stringify_def)

subsection \<open>The fuel of the reader is enough\<close>

lemma skip_ws_len: "length (skip_ws s) \<le> length s"
  by (simp add: skip_ws_def length_dropWhile_le)

lemma prefix_text_SomeE:
  "prefix_text t x = Some (u, r) \<Longrightarrow> \<exists>u'. x = Some (u', r)"
  by (auto simp: prefix_text_def)

lemma p_string_len: "p_string s = Some (t, r) \<Longrightarrow> length r < length s"
proof (induction s arbitrary: t rule: p_string.induct)
  case (2 c r1)
  then show ?case
    by (fastforce split: if_splits list.splits option.splits prod.splits dest!: prefix_text_SomeE)
qed simp

lemma p_number_len: "p_number s = Some (v, r) \<Longrightarrow> length r < length s"
proof -
  assume p: "p_number s = Some (v, r)"
  then obtain w where "number_token (takeWhile num_char s) = Some w" and r: "r = dropWhile num_char s"
    by (auto simp: p_number_def)
  then have "takeWhile num_char s \<noteq> []" using number_token_start by fastforce
  then obtain c t where "s = c # t" "num_char c" by (cases s) (auto split: if_splits)
  then show ?thesis using r by (simp add: length_dropWhile_le le_imp_less_Suc)
qed

lemma p_literal_len: "p_literal (c # w) v s = Some (u, r) \<Longrightarrow> length r < length s"
  by (cases s) (auto simp: p_literal_def split: if_splits)

lemma p_len:
  "p_value n s = Some (v, r) \<Longrightarrow> length r < length s"
  "p_elems n s = Some (vs, r) \<Longrightarrow> length r < length s"
  "p_members n s = Some (ms, r) \<Longrightarrow> length r < length s"
proof (induction n s and n s and n s arbitrary: v r and vs r and ms r
    rule: p_value_p_elems_p_members.induct)
  case (2 n s)
  then obtain c t where s: "skip_ws s = c # t" by (auto split: list.splits)
  then have "Suc (length t) \<le> length s" using skip_ws_len [of s] by simp
  moreover have "length r < Suc (length t)"
    using 2 s skip_ws_len [of t]
    by (auto split: if_splits dest!: p_string_len p_number_len p_literal_len)
      (fastforce)+
  ultimately show ?case by simp
next
  case (4 n s)
  then obtain v' r' where v: "p_value n s = Some (v', r')" by (auto split: option.splits)
  then have "length r' < length s" using 4 by blast
  moreover obtain c t where "skip_ws r' = c # t" using 4 v by (auto split: list.splits)
  ultimately show ?case using 4 v skip_ws_len [of r'] by (auto split: if_splits) fastforce+
next
  case (6 n s)
  then obtain t where s: "skip_ws s = CHR 0x22 # t" by (auto split: list.splits if_splits)
  with 6 obtain k t' where k: "p_string t = Some (k, t')" by (auto split: option.splits)
  with 6 s obtain v r' where v: "p_value n (drop 1 (skip_ws t')) = Some (v, r')"
    by (auto split: option.splits if_splits)
  have "length r' < length (drop 1 (skip_ws t'))" using 6 s k v by (auto split: if_splits)
  moreover have "length t' < length t" using p_string_len [OF k] .
  ultimately have *: "length r' < length s"
    using skip_ws_len [of s] skip_ws_len [of t'] s by simp
  moreover obtain c u where u: "skip_ws r' = c # u"
    using 6 s k v by (auto split: list.splits if_splits)
  then have "length u < length r'" using skip_ws_len [of r'] by simp
  moreover have "length r \<le> length u"
    using 6 s k v u by (auto split: if_splits) (metis less_or_eq_imp_le)+
  ultimately show ?case by simp
qed simp_all

lemma p_fuel:
  "2 * length s + 1 \<le> n \<Longrightarrow> p_value (Suc n) s = p_value n s"
  "2 * length s + 2 \<le> n \<Longrightarrow> p_elems (Suc n) s = p_elems n s"
  "2 * length s + 2 \<le> n \<Longrightarrow> p_members (Suc n) s = p_members n s"
proof (induction n arbitrary: s)
  case (Suc n)
  {
    case 1
    show ?case
    proof (cases "skip_ws s")
      case (Cons c t)
      then have "2 * length t + 2 \<le> n" using 1 skip_ws_len [of s] by simp
      then show ?thesis using Suc Cons by simp
    qed simp
  next
    case 2
    have v: "p_value (Suc n) s = p_value n s" using 2 by (intro Suc) simp
    have "p_elems (Suc n) t = p_elems n t" if "p_value n s = Some (u, r)" "skip_ws r = c # t" for u r c t
      using that 2 p_len(1) [OF that(1)] skip_ws_len [of r] by (intro Suc) simp
    then show ?case
      by (subst (1 2) p_elems.simps) (auto simp only: v split: option.splits list.splits prod.splits if_splits)
  next
    case 3
    show ?case
    proof (cases "skip_ws s")
      case s: (Cons q s1)
      show ?thesis
      proof (cases "p_string s1")
        case k: (Some kt)
        obtain k s2 where kt: "kt = (k, s2)" by fastforce
        let ?t = "drop 1 (skip_ws s2)"
        have len: "Suc (length s2) \<le> length s1" "length s1 < length s" "length ?t \<le> length s2"
          using p_string_len [OF k [unfolded kt]] s skip_ws_len [of s] skip_ws_len [of s2] by auto
        have v: "p_value (Suc n) ?t = p_value n ?t" using 3 len by (intro Suc) simp
        have m: "p_members (Suc n) u = p_members n u"
          if "p_value n ?t = Some (w, r)" "skip_ws r = c # u" for w r c u
          using that 3 len p_len(1) [OF that(1)] skip_ws_len [of r] by (intro Suc) simp
        note unf = p_members.simps(2) [of n s] p_members.simps(2) [of "Suc n" s] s k kt v
          list.case option.case prod.case
        show ?thesis
        proof (cases "p_value n ?t")
          case None
          then show ?thesis by (simp only: unf)
        next
          case (Some wr)
          then obtain w r where w: "p_value n ?t = Some (w, r)" by (cases wr) auto
          show ?thesis using m [OF w] by (cases "skip_ws r") (simp_all only: unf w)
        qed
      qed (use s in simp)
    qed simp
  }
qed simp_all
theorem JSON_parse_fuel:
  assumes "2 * length s + 2 \<le> n"
  shows "p_value n s = p_value (2 * length s + 2) s"
  using assms
proof (induction n rule: nat_induct_at_least)
  case (Suc n)
  then show ?case using p_fuel(1) [of s n] by simp
qed simp

subsection \<open>Well-formed text\<close>

text \<open>A value whose strings are well-formed text is written as well-formed text.\<close>

fun text_json :: "json \<Rightarrow> bool"
  and text_elems :: "json list \<Rightarrow> bool"
  and text_members :: "(string \<times> json) list \<Rightarrow> bool" where
  "text_json JNull = True"
| "text_json (JBool b) = True"
| "text_json (JNum i) = True"
| "text_json (JReal s) = wf_text s"
| "text_json (JStr s) = wf_text s"
| "text_json (JArr vs) = text_elems vs"
| "text_json (JObj ms) = text_members ms"
| "text_elems [] = True"
| "text_elems (v # vs) = (text_json v \<and> text_elems vs)"
| "text_members [] = True"
| "text_members ((k, v) # ms) = (wf_text k \<and> text_json v \<and> text_members ms)"

lemma wf_text_ascii_append: "list_all (\<lambda>c. code c < 128) s \<Longrightarrow> wf_text (s @ t) = wf_text t"
  using wf_text_append wf_text_ascii by blast

lemma utf8_front_multi:
  assumes "utf8_front a r = (True, n)" "n \<noteq> 1"
  shows "list_all (\<lambda>c. 128 \<le> code c) (a # take (n - 1) r)"
  using assms by (cases r rule: list_cases4)
    (simp_all add: utf8_front_def is_cont_def second_ok_def lead2_def lead3_def lead4_def split: if_splits)

lemma js_escape_high: "128 \<le> code c \<Longrightarrow> js_escape c = [c]"
  by (simp add: js_escape_def Let_def)

lemma js_escape_low:
  assumes "code c < 128"
  shows "list_all (\<lambda>c. code c < 128) (js_escape c)"
proof -
  have hex: "code (hex_digit n) < 128" if "n < 16" for n
    using that by (simp add: hex_digit_def code_def)
  show ?thesis using assms hex [of "code c div 16"] hex [of "code c mod 16"] by (simp add: js_escape_def Let_def code_def)
qed

lemma wf_text_escape: "wf_text s \<Longrightarrow> wf_text (concat (map js_escape s))"
proof (induction s rule: wf_text.induct)
  case (2 a r)
  obtain ok n where f: "utf8_front a r = (ok, n)" by fastforce
  with 2 have ok: "utf8_front a r = (True, n)" and IH: "wf_text (concat (map js_escape (drop (n - 1) r)))" by auto
  let ?rest = "concat (map js_escape (drop (n - 1) r))"
  have split: "concat (map js_escape (a # r)) = concat (map js_escape (a # take (n - 1) r)) @ ?rest"
    by (metis append_take_drop_id append_Cons concat_append map_append)
  show ?case
  proof (cases "n = 1")
    case True
    have "code a < 128" using ok True by (simp add: utf8_front_def split: if_splits)
    then show ?thesis using split IH True wf_text_ascii_append [OF js_escape_low] by simp
  next
    case False
    have "concat (map js_escape t) = t" if "list_all (\<lambda>c. 128 \<le> code c) t" for t
      using that by (induction t) (simp_all add: js_escape_high)
    from this [OF utf8_front_multi [OF ok False]] show ?thesis
      using split IH wf_text_append [OF wf_text_front [OF ok]] by simp
  qed
qed simp

lemma wf_text_punct: "code c < 128 \<Longrightarrow> wf_text (c # t) = wf_text t"
  using wf_text_ascii_append [of "[c]" t] by simp

lemma wf_text_quote: "wf_text s \<Longrightarrow> wf_text (js_quote s)"
  using wf_text_append [OF wf_text_escape, of s "[CHR 0x22]"]
  by (simp add: js_quote_def wf_text_punct code_def del: wf_text.simps(2))

lemma wf_text_show_nat: "wf_text (show_nat n)"
proof -
  have "is_digit c \<Longrightarrow> code c < 128" for c by (simp add: is_digit_def code_def)
  then show ?thesis using show_nat_digits [of n] by (intro wf_text_ascii) (auto simp: list_all_iff)
qed

lemma wf_text_js:
  "text_json v \<Longrightarrow> wf_text (js_value v)"
  "text_elems vs \<Longrightarrow> wf_text (js_elems vs)"
  "text_members ms \<Longrightarrow> wf_text (js_members ms)"
proof (induction v and vs and ms rule: js_value_js_elems_js_members.induct)
  case (3 i)
  show ?case using wf_text_show_nat by (simp add: show_int_def wf_text_punct code_def del: wf_text.simps)
qed (simp_all add: wf_text_append wf_text_quote wf_text_punct code_def del: wf_text.simps(2))

lemma wf_text_stringify: "text_json v \<Longrightarrow> wf_text (JSON_stringify v)"
  by (simp add: JSON_stringify_def wf_text_js)

end
