(* ===== verification/Crypto_Types.thy ===== *)
theory Crypto_Types
  imports Json
begin

section \<open>Identities, sessions, messages and the cryptographic library\<close>

text \<open>
  The data of \<open>client/src/identity/types.ts\<close> and \<open>client/src/crypto/types.ts\<close>, and the
  functions of the third-party packages the client calls (\<open>tweetnacl\<close>, \<open>@noble/hashes\<close>) as
  one record \<open>prims\<close> of parameters. Every operation of the model takes such a record; what a
  theorem needs of it is a named hypothesis below, each stating documented behaviour of those
  packages. A function that the package documents to throw on malformed input returns a
  result. The last section gives concrete parameters that satisfy every hypothesis, so that
  no theorem about them is vacuous.
\<close>

named_theorems prim_laws \<open>the hypotheses on the cryptographic library, unfolded\<close>

subsection \<open>Data\<close>

record keypair =
  publicKey :: bytes
  secretKey :: bytes
  publicKeyHex :: hex

record identity =
  mnemonic :: string
  signingKey :: keypair
  encryptionKey :: keypair
  recipientPubkeyHash :: hex

record signed_prekey =
  spk_keyId :: int
  spk_keyPair :: keypair
  spk_signatureHex :: hex
  spk_createdAt :: int

record one_time_prekey =
  otk_keyId :: int
  otk_keyPair :: keypair

record signed_prekey_pub =
  sp_keyId :: int
  sp_publicKeyHex :: hex
  sp_signatureHex :: hex

record one_time_prekey_pub =
  op_keyId :: int
  op_publicKeyHex :: hex

record prekey_bundle =
  pb_identityKeyHex :: hex
  pb_signingKeyHex :: hex
  pb_signedPreKey :: signed_prekey_pub
  pb_oneTimePreKey :: "one_time_prekey_pub option"

record encrypted_message =
  em_ephemeralPublicKeyHex :: hex
  em_sequenceNumber :: int
  em_previousChainLength :: int
  em_ciphertext :: string
  em_nonce :: hex
  em_oneTimePreKeyId :: "int option"
  em_initialIdentityKeyHex :: "hex option"
  em_initialEphemeralKeyHex :: "hex option"

record session =
  recipientIdentityKeyHex :: hex
  rootKeyHex :: hex
  sendChainKeyHex :: "hex option"
  receiveChainKeyHex :: "hex option"
  localDhKeyPair :: keypair
  remoteDhPublicKeyHex :: "hex option"
  sendSequenceNumber :: int
  receiveSequenceNumber :: int
  previousChainLength :: int
  skippedMessageKeys :: "hex jsobj"
  createdAt :: int
  updatedAt :: int
  oneTimePreKeyId :: "int option"

subsection \<open>The cryptographic library\<close>

text \<open>
  \<open>boxPublic\<close> is the public key \<open>nacl.box.keyPair.fromSecretKey\<close> computes; a fresh pair of
  \<open>nacl.box.keyPair()\<close> reaches an operation as the secret key the generator drew. \<open>signPublic\<close>
  is the public key that belongs to an Ed25519 secret key of 64 bytes.
\<close>

record prims =
  bytesToHex :: "bytes \<Rightarrow> hex"
  hexToBytes :: "hex \<Rightarrow> bytes res"
  scalarMult :: "bytes \<Rightarrow> bytes \<Rightarrow> bytes res"
  boxPublic :: "bytes \<Rightarrow> bytes"
  hkdf_sha256 :: "bytes \<Rightarrow> bytes \<Rightarrow> bytes \<Rightarrow> nat \<Rightarrow> bytes"
  sha256 :: "bytes \<Rightarrow> bytes"
  secretbox :: "bytes \<Rightarrow> bytes \<Rightarrow> bytes \<Rightarrow> bytes res"
  secretbox_open :: "bytes \<Rightarrow> bytes \<Rightarrow> bytes \<Rightarrow> bytes option res"
  box_seal :: "bytes \<Rightarrow> bytes \<Rightarrow> bytes \<Rightarrow> bytes \<Rightarrow> bytes res"
  box_open :: "bytes \<Rightarrow> bytes \<Rightarrow> bytes \<Rightarrow> bytes \<Rightarrow> bytes option res"
  signPublic :: "bytes \<Rightarrow> bytes"
  sign_detached :: "bytes \<Rightarrow> bytes \<Rightarrow> bytes res"
  verify_detached :: "bytes \<Rightarrow> bytes \<Rightarrow> bytes \<Rightarrow> bool res"

definition hexchars :: "char set" where
  "hexchars = set ''0123456789abcdef''"

text \<open>\<open>@noble/hashes/utils\<close>: lower-case output, either case accepted as input.\<close>

definition hex_codec :: "prims \<Rightarrow> bool" where
  "hex_codec P \<longleftrightarrow>
     (\<forall>b. hexToBytes P (bytesToHex P b) = Inr b) \<and>
     (\<forall>h. hexToBytes P (toLowerCase h) = hexToBytes P h) \<and>
     (\<forall>b. toLowerCase (bytesToHex P b) = bytesToHex P b) \<and>
     (\<forall>b. length (bytesToHex P b) = 2 * length b) \<and>
     (\<forall>b. set (bytesToHex P b) \<subseteq> hexchars)"

text \<open>Curve25519: \<open>scalarMult\<close> accepts exactly 32-byte arguments and the two sides agree.\<close>

definition dh_agreement :: "prims \<Rightarrow> bool" where
  "dh_agreement P \<longleftrightarrow>
     (\<forall>a. length a = 32 \<longrightarrow> length (boxPublic P a) = 32) \<and>
     (\<forall>a b. length a = 32 \<longrightarrow> length b = 32 \<longrightarrow>
        (\<exists>z. scalarMult P a b = Inr z \<and> length z = 32)) \<and>
     (\<forall>a b. length a = 32 \<longrightarrow> length b = 32 \<longrightarrow>
        scalarMult P a (boxPublic P b) = scalarMult P b (boxPublic P a))"

definition kdf_length :: "prims \<Rightarrow> bool" where
  "kdf_length P \<longleftrightarrow> (\<forall>ikm salt info n. length (hkdf_sha256 P ikm salt info n) = n)"

text \<open>\<open>nacl.secretbox\<close>: a 24-byte nonce and a 32-byte key open what they sealed.\<close>

definition secretbox_correct :: "prims \<Rightarrow> bool" where
  "secretbox_correct P \<longleftrightarrow>
     (\<forall>m n k. length n = 24 \<longrightarrow> length k = 32 \<longrightarrow>
        (\<exists>c. secretbox P m n k = Inr c \<and> secretbox_open P c n k = Inr (Some m)))"

text \<open>
  The authenticator of \<open>nacl.secretbox\<close>, idealised: a box does not open under another key.
\<close>

definition secretbox_authentic :: "prims \<Rightarrow> bool" where
  "secretbox_authentic P \<longleftrightarrow>
     (\<forall>m n k k' c. length n = 24 \<longrightarrow> length k = 32 \<longrightarrow> length k' = 32 \<longrightarrow> k \<noteq> k' \<longrightarrow>
        secretbox P m n k = Inr c \<longrightarrow> secretbox_open P c n k' = Inr None)"

text \<open>\<open>nacl.box\<close>: the two ends of a key agreement open what the other sealed.\<close>

definition box_correct :: "prims \<Rightarrow> bool" where
  "box_correct P \<longleftrightarrow>
     (\<forall>m n a b. length n = 24 \<longrightarrow> length a = 32 \<longrightarrow> length b = 32 \<longrightarrow>
        (\<exists>c. box_seal P m n (boxPublic P b) a = Inr c \<and>
             box_open P c n (boxPublic P a) b = Inr (Some m)))"

text \<open>\<open>nacl.sign.detached\<close>: a signature verifies under the public key of its secret key.\<close>

definition sign_correct :: "prims \<Rightarrow> bool" where
  "sign_correct P \<longleftrightarrow>
     (\<forall>m sk. length sk = 64 \<longrightarrow>
        (\<exists>sg. sign_detached P m sk = Inr sg \<and> length sg = 64 \<and> length (signPublic P sk) = 32 \<and>
              verify_detached P m sg (signPublic P sk) = Inr True))"

lemma hexToBytes_bytesToHex [prim_laws]: "hex_codec P \<Longrightarrow> hexToBytes P (bytesToHex P b) = Inr b"
  by (simp add: hex_codec_def)

lemma hexToBytes_lower [prim_laws]: "hex_codec P \<Longrightarrow> hexToBytes P (toLowerCase h) = hexToBytes P h"
  by (simp add: hex_codec_def)

lemma lower_bytesToHex [prim_laws]: "hex_codec P \<Longrightarrow> toLowerCase (bytesToHex P b) = bytesToHex P b"
  by (simp add: hex_codec_def)

lemma length_bytesToHex [prim_laws]: "hex_codec P \<Longrightarrow> length (bytesToHex P b) = 2 * length b"
  by (simp add: hex_codec_def)

lemma bytesToHex_Nil_iff [prim_laws]: "hex_codec P \<Longrightarrow> bytesToHex P b = [] \<longleftrightarrow> b = []"
  using length_bytesToHex [of P b] by auto

lemma bytesToHex_inject [prim_laws]: "hex_codec P \<Longrightarrow> bytesToHex P a = bytesToHex P b \<longleftrightarrow> a = b"
  by (metis hexToBytes_bytesToHex sum.inject(2))

lemma bytesToHex_no_colon: "hex_codec P \<Longrightarrow> CHR '':'' \<notin> set (bytesToHex P b)"
  by (auto simp: hex_codec_def hexchars_def)

lemma length_hkdf [prim_laws]: "kdf_length P \<Longrightarrow> length (hkdf_sha256 P i s f n) = n"
  by (simp add: kdf_length_def)

lemma length_boxPublic [prim_laws]: "dh_agreement P \<Longrightarrow> length a = 32 \<Longrightarrow> length (boxPublic P a) = 32"
  by (simp add: dh_agreement_def)

lemma scalarMult_defined:
  "dh_agreement P \<Longrightarrow> length a = 32 \<Longrightarrow> length b = 32
     \<Longrightarrow> \<exists>z. scalarMult P a b = Inr z \<and> length z = 32"
  by (simp add: dh_agreement_def)

lemma scalarMult_commute:
  "dh_agreement P \<Longrightarrow> length a = 32 \<Longrightarrow> length b = 32
     \<Longrightarrow> scalarMult P a (boxPublic P b) = scalarMult P b (boxPublic P a)"
  by (simp add: dh_agreement_def)

text \<open>The pair of keys \<open>nacl.box\<close> and \<open>nacl.sign\<close> hand out, with its hexadecimal form.\<close>

definition box_keypair :: "prims \<Rightarrow> keypair \<Rightarrow> bool" where
  "box_keypair P kp \<longleftrightarrow>
     length (secretKey kp) = 32 \<and> publicKey kp = boxPublic P (secretKey kp) \<and>
     publicKeyHex kp = bytesToHex P (publicKey kp)"

definition sign_keypair :: "prims \<Rightarrow> keypair \<Rightarrow> bool" where
  "sign_keypair P kp \<longleftrightarrow>
     length (secretKey kp) = 64 \<and> publicKey kp = signPublic P (secretKey kp) \<and>
     publicKeyHex kp = bytesToHex P (publicKey kp)"

definition wf_identity :: "prims \<Rightarrow> identity \<Rightarrow> bool" where
  "wf_identity P u \<longleftrightarrow>
     sign_keypair P (signingKey u) \<and> box_keypair P (encryptionKey u) \<and>
     recipientPubkeyHash u = bytesToHex P (sha256 P (publicKey (signingKey u)))"

subsection \<open>Concrete parameters\<close>

text \<open>
  A transparent stand-in for the packages, on which every hypothesis holds: hexadecimal is
  the real encoding, the key agreement is the bytewise exclusive or of the two secrets, a box
  carries its key in front of the message, and a signature is the message under its key.
\<close>

definition hex_of_byte :: "byte \<Rightarrow> string" where
  "hex_of_byte b = [hex_digit (unat b div 16), hex_digit (unat b mod 16)]"

fun hex_pairs :: "string \<Rightarrow> bytes res" where
  "hex_pairs [] = Inr []"
| "hex_pairs [c] = Inl LibError"
| "hex_pairs (c # d # r) =
     (case (hex_val c, hex_val d) of
        (Some x, Some y) \<Rightarrow> bindR (hex_pairs r) (\<lambda>bs. Inr (of_nat (x * 16 + y) # bs))
      | _ \<Rightarrow> Inl LibError)"

definition fit :: "nat \<Rightarrow> bytes \<Rightarrow> bytes" where
  "fit n bs = take n (bs @ replicate n 0)"

definition xor_bytes :: "bytes \<Rightarrow> bytes \<Rightarrow> bytes" where
  "xor_bytes a b = map2 (\<lambda>x y. x XOR y) a b"

definition model_prims :: prims where
  "model_prims =
     \<lparr> bytesToHex = (\<lambda>b. concat (map hex_of_byte b)),
       hexToBytes = hex_pairs,
       scalarMult = (\<lambda>a b. if length a = 32 \<and> length b = 32 then Inr (xor_bytes a b) else Inl LibError),
       boxPublic = (\<lambda>a. a),
       hkdf_sha256 = (\<lambda>ikm salt info n. fit n (map2 (\<lambda>x y. 3 * x + y + of_nat (length ikm)) (fit n ikm) (fit n (salt @ salt)))),
       sha256 = (\<lambda>b. fit 32 b),
       secretbox = (\<lambda>m n k. if length n = 24 \<and> length k = 32 then Inr (k @ n @ m) else Inl LibError),
       secretbox_open = (\<lambda>c n k. if length n = 24 \<and> length k = 32
          then Inr (if take 56 c = k @ n then Some (drop 56 c) else None) else Inl LibError),
       box_seal = (\<lambda>m n p s. if length n = 24 \<and> length p = 32 \<and> length s = 32
          then Inr (xor_bytes p s @ n @ m) else Inl LibError),
       box_open = (\<lambda>c n p s. if length n = 24 \<and> length p = 32 \<and> length s = 32
          then Inr (if take 56 c = xor_bytes p s @ n then Some (drop 56 c) else None) else Inl LibError),
       signPublic = (\<lambda>sk. take 32 sk),
       sign_detached = (\<lambda>m sk. if length sk = 64 then Inr (xor_bytes (fit 64 m) (fit 64 (take 32 sk))) else Inl LibError),
       verify_detached = (\<lambda>m sg pk. if length sg = 64 \<and> length pk = 32
          then Inr (sg = xor_bytes (fit 64 m) (fit 64 pk)) else Inl LibError) \<rparr>"

lemma length_fit [simp]: "length (fit n b) = n"
  by (simp add: fit_def)

lemma length_xor_bytes [simp]: "length (xor_bytes a b) = min (length a) (length b)"
  by (simp add: xor_bytes_def)

lemma xor_bytes_commute: "xor_bytes a b = xor_bytes b a"
  by (simp add: xor_bytes_def list_eq_iff_nth_eq xor.commute)

lemma hex_val_lower: "hex_val (lower_char c) = hex_val c"
  by (auto simp: hex_val_def lower_char_def code_def Let_def)

lemma hex_pairs_lower: "hex_pairs (toLowerCase h) = hex_pairs h"
  by (induction h rule: hex_pairs.induct)
    (auto simp: toLowerCase_def hex_val_lower split: option.splits)

lemma lower_hex_digit: "n < 16 \<Longrightarrow> lower_char (hex_digit n) = hex_digit n"
  by (auto simp: lower_char_def hex_digit_def)

lemma unat_byte_less: "unat (b :: byte) < 256"
  using unsigned_less [of b] by simp

lemma hex_digit_hexchars: "n < 16 \<Longrightarrow> hex_digit n \<in> hexchars"
proof -
  assume n: "n < 16"
  have "\<forall>m \<in> set [0..<16]. hex_digit m \<in> hexchars"
    by code_simp
  then show ?thesis using n by simp
qed

lemma model_hex_codec: "hex_codec model_prims"
proof -
  have d: "unat (b :: byte) div 16 < 16" "unat b mod 16 < 16" for b
    using unat_byte_less [of b] by (auto simp: less_mult_imp_div_less)
  have "hex_pairs (concat (map hex_of_byte b)) = Inr b" for b
    by (induction b) (simp_all add: hex_of_byte_def d)
  moreover have "toLowerCase (concat (map hex_of_byte b)) = concat (map hex_of_byte b)" for b
    by (induction b) (simp_all add: hex_of_byte_def toLowerCase_def lower_hex_digit d)
  moreover have "length (concat (map hex_of_byte b)) = 2 * length b" for b
    by (induction b) (simp_all add: hex_of_byte_def)
  moreover have "set (concat (map hex_of_byte b)) \<subseteq> hexchars" for b
    by (induction b) (simp_all add: hex_of_byte_def hex_digit_hexchars d)
  ultimately show ?thesis
    by (simp add: hex_codec_def model_prims_def hex_pairs_lower)
qed

lemma model_dh_agreement: "dh_agreement model_prims"
  by (simp add: dh_agreement_def model_prims_def xor_bytes_commute)

lemma model_kdf_length: "kdf_length model_prims"
  by (simp add: kdf_length_def model_prims_def)

lemma model_secretbox_correct: "secretbox_correct model_prims"
  by (simp add: secretbox_correct_def model_prims_def)

lemma model_secretbox_authentic: "secretbox_authentic model_prims"
  by (auto simp: secretbox_authentic_def model_prims_def)

lemma model_box_correct: "box_correct model_prims"
  by (simp add: box_correct_def model_prims_def xor_bytes_commute)

lemma model_sign_correct: "sign_correct model_prims"
  by (simp add: sign_correct_def model_prims_def)

lemmas model_prims_laws = model_hex_codec model_dh_agreement model_kdf_length
  model_secretbox_correct model_secretbox_authentic model_box_correct model_sign_correct

end
