(* ===== verification/Identity.thy ===== *)
theory Identity
  imports Crypto_Types
begin

section \<open>IdentityManager\<close>

text \<open>
  The static methods of \<open>client/src/identity/IdentityManager.ts\<close>: deriving the identity keys from a
  BIP-39 phrase, the mailbox hash, signing and verifying 32-byte values, and keeping the phrase
  in the device keychain. The package \<open>bip39\<close> and the key generators of \<open>tweetnacl\<close> are
  parameters (\<open>bip39_ops\<close>), and so is the keychain module (\<open>keychain_ops\<close> over a state of its
  own), which is absent where \<open>require\<close> fails.

  The message of an exception of a library is not modelled; where the code quotes it in its
  own message the model quotes the empty text.
\<close>

definition exn_message :: "exn \<Rightarrow> string" where
  "exn_message e = (case e of Error m \<Rightarrow> m | Socks5Error m _ \<Rightarrow> m | LibError \<Rightarrow> [])"

definition catchR :: "'a res \<Rightarrow> (exn \<Rightarrow> 'a res) \<Rightarrow> 'a res" where
  "catchR m h = (case m of Inl e \<Rightarrow> h e | Inr a \<Rightarrow> Inr a)"

lemma catchR_simps [simp]: "catchR (Inl e) h = h e" "catchR (Inr a) h = Inr a"
  by (simp_all add: catchR_def)

subsection \<open>Normalising a phrase\<close>

definition is_space :: "char \<Rightarrow> bool" where
  "is_space c \<longleftrightarrow> code c = 32 \<or> (9 \<le> code c \<and> code c \<le> 13)"

definition trim :: "string \<Rightarrow> string" where
  "trim s = rev (dropWhile is_space (rev (dropWhile is_space s)))"

function collapse_spaces :: "string \<Rightarrow> string" where
  "collapse_spaces [] = []"
| "collapse_spaces (c # r) =
     (if is_space c then CHR '' '' # collapse_spaces (dropWhile is_space r)
      else c # collapse_spaces r)"
  by pat_completeness auto
termination
  by (relation "measure length") (auto simp: length_dropWhile_le le_imp_less_Suc)

definition normalize_mnemonic :: "string \<Rightarrow> string" where
  "normalize_mnemonic m = collapse_spaces (toLowerCase (trim m))"

lemma is_space_blank [simp]: "is_space (CHR '' '')"
  by (simp add: is_space_def code_def)

lemma is_space_lower [simp]: "is_space (lower_char c) = is_space c"
  by (auto simp: is_space_def lower_char_def code_def)

lemma lower_char_space: "is_space c \<Longrightarrow> lower_char c = c"
  by (auto simp: is_space_def lower_char_def code_def)

lemma dropWhile_space_lower:
  "dropWhile is_space (toLowerCase s) = toLowerCase (dropWhile is_space s)"
  by (induction s) (auto simp: toLowerCase_def)

lemma collapse_spaces_lower: "toLowerCase (collapse_spaces s) = collapse_spaces (toLowerCase s)"
proof (induction s rule: collapse_spaces.induct)
  case (2 c r)
  then show ?case
    using dropWhile_space_lower [of r] lower_char_space [of "CHR '' ''"]
    by (auto simp: toLowerCase_def)
qed (simp add: toLowerCase_def)

lemma dropWhile_starts: "dropWhile P r = [] \<or> \<not> P (hd (dropWhile P r))"
  using hd_dropWhile [of P r] by blast

lemma dropWhile_collapse:
  "t = [] \<or> \<not> is_space (hd t) \<Longrightarrow> dropWhile is_space (collapse_spaces t) = collapse_spaces t"
  by (cases t) auto

lemma collapse_spaces_idem [simp]: "collapse_spaces (collapse_spaces s) = collapse_spaces s"
proof (induction s rule: collapse_spaces.induct)
  case (2 c r)
  then show ?case using dropWhile_collapse [OF dropWhile_starts [of is_space r]] by simp
qed simp

lemma collapse_spaces_ends:
  "s \<noteq> [] \<Longrightarrow> \<not> is_space (hd s) \<Longrightarrow> \<not> is_space (last s)
     \<Longrightarrow> collapse_spaces s \<noteq> [] \<and> hd (collapse_spaces s) = hd s \<and> last (collapse_spaces s) = last s"
proof -
  have ends: "s \<noteq> [] \<Longrightarrow> \<not> is_space (last s) \<Longrightarrow> collapse_spaces s \<noteq> [] \<and> last (collapse_spaces s) = last s" for s
  proof (induction s rule: collapse_spaces.induct)
    case (2 c r)
    show ?case
    proof (cases "is_space c")
      case True
      have r: "r \<noteq> []" using 2(4) True by (cases r) simp_all
      have nl: "\<not> is_space (last r)" using 2(4) r by simp
      have ne: "dropWhile is_space r \<noteq> []"
        using nl last_in_set [OF r] unfolding dropWhile_eq_Nil_conv by blast
      have "last (takeWhile is_space r @ dropWhile is_space r) = last (dropWhile is_space r)"
        using ne by (rule last_appendR)
      then have l: "last (dropWhile is_space r) = last r" by simp
      have "collapse_spaces (dropWhile is_space r) \<noteq> [] \<and> last (collapse_spaces (dropWhile is_space r)) = last r"
        using 2(1) True ne nl l by simp
      then show ?thesis using True r by simp
    next
      case False
      then show ?thesis using 2 by (cases "r = []") auto
    qed
  qed simp
  assume "s \<noteq> []" "\<not> is_space (hd s)" "\<not> is_space (last s)"
  moreover from this have "hd (collapse_spaces s) = hd s" by (cases s) auto
  ultimately show ?thesis using ends by blast
qed

lemma trim_id: "s = [] \<or> (\<not> is_space (hd s) \<and> \<not> is_space (last s)) \<Longrightarrow> trim s = s"
proof (cases "s = []")
  case False
  assume "s = [] \<or> (\<not> is_space (hd s) \<and> \<not> is_space (last s))"
  then have "dropWhile is_space s = s" "dropWhile is_space (rev s) = rev s"
    using False by (simp_all add: dropWhile_eq_self_iff hd_rev)
  then show ?thesis by (simp add: trim_def)
qed (simp add: trim_def)

lemma trim_ends: "trim s = [] \<or> (\<not> is_space (hd (trim s)) \<and> \<not> is_space (last (trim s)))"
proof (cases "trim s = []")
  case False
  let ?d = "dropWhile is_space s"
  have e: "trim s = rev (dropWhile is_space (rev ?d))" by (simp add: trim_def)
  with False have ne: "dropWhile is_space (rev ?d) \<noteq> []" by (metis rev.simps(1))
  then have last: "\<not> is_space (last (trim s))" using hd_dropWhile [OF ne] by (simp add: e last_rev)
  have "?d \<noteq> []" using ne by (metis dropWhile.simps(1) rev.simps(1))
  then have "\<not> is_space (hd ?d)" by (rule hd_dropWhile)
  moreover obtain t where "?d = trim s @ t"
    using takeWhile_dropWhile_id [of is_space "rev ?d"] unfolding e by (metis rev_append rev_rev_ident)
  ultimately have "\<not> is_space (hd (trim s))" using False by simp
  then show ?thesis using last by simp
qed simp

lemma normalize_mnemonic_idem [simp]: "normalize_mnemonic (normalize_mnemonic m) = normalize_mnemonic m"
proof -
  let ?t = "toLowerCase (trim m)"
  have "?t = [] \<or> (\<not> is_space (hd ?t) \<and> \<not> is_space (last ?t))"
    using trim_ends [of m] by (cases "trim m = []") (auto simp: toLowerCase_def hd_map last_map)
  then have "collapse_spaces ?t = [] \<or> (\<not> is_space (hd (collapse_spaces ?t)) \<and> \<not> is_space (last (collapse_spaces ?t)))"
    using collapse_spaces_ends [of ?t] by (cases "?t = []") (metis collapse_spaces.simps(1), metis)
  then have "trim (collapse_spaces ?t) = collapse_spaces ?t" by (rule trim_id)
  then show ?thesis by (simp add: normalize_mnemonic_def collapse_spaces_lower)
qed

subsection \<open>Keys from a phrase\<close>

text \<open>
  \<open>validateMnemonic\<close> and \<open>mnemonicToSeed\<close> of \<open>bip39\<close>; \<open>signFromSeed\<close> is the 64-byte secret key
  of \<open>nacl.sign.keyPair.fromSeed\<close>, which throws unless the seed has 32 bytes.
\<close>

record bip39_ops =
  validateMnemonic :: "string \<Rightarrow> bool"
  mnemonicToSeed :: "string \<Rightarrow> bytes res"
  signFromSeed :: "bytes \<Rightarrow> bytes res"

definition computePubkeyHash :: "prims \<Rightarrow> bytes \<Rightarrow> hex res" where
  "computePubkeyHash P pk =
     (if length pk \<noteq> 32 then Inl (Error ''Public key must be exactly 32 bytes'')
      else Inr (bytesToHex P (sha256 P pk)))"

definition box_fromSecretKey :: "prims \<Rightarrow> bytes \<Rightarrow> bytes res" where
  "box_fromSecretKey P sk = (if length sk \<noteq> 32 then Inl LibError else Inr (boxPublic P sk))"

definition deriveIdentityFromMnemonic :: "prims \<Rightarrow> bip39_ops \<Rightarrow> string \<Rightarrow> identity res" where
  "deriveIdentityFromMnemonic P B m =
     bindR (mnemonicToSeed B m) (\<lambda>seed.
     bindR (signFromSeed B (take 32 seed)) (\<lambda>ssk.
     let sign = \<lparr>publicKey = signPublic P ssk, secretKey = ssk,
                 publicKeyHex = bytesToHex P (signPublic P ssk)\<rparr>;
         bsk = take 32 (drop 32 seed)
     in bindR (box_fromSecretKey P bsk) (\<lambda>bpk.
     let enc = \<lparr>publicKey = bpk, secretKey = bsk, publicKeyHex = bytesToHex P bpk\<rparr>
     in bindR (computePubkeyHash P (publicKey sign)) (\<lambda>h.
     Inr \<lparr>mnemonic = m, signingKey = sign, encryptionKey = enc, recipientPubkeyHash = h\<rparr>))))"

text \<open>\<open>gen\<close> is what \<open>bip39.generateMnemonic\<close> returned for the strength it was called with.\<close>

definition generateIdentity :: "prims \<Rightarrow> bip39_ops \<Rightarrow> (nat \<Rightarrow> string res) \<Rightarrow> nat \<Rightarrow> identity res" where
  "generateIdentity P B gen wordCount =
     (let strength = (if wordCount = 24 then 256 else 128)
      in catchR (bindR (gen strength) (deriveIdentityFromMnemonic P B))
           (\<lambda>e. Inl (Error (''Failed to generate identity: '' @ exn_message e))))"

definition restoreIdentity :: "prims \<Rightarrow> bip39_ops \<Rightarrow> string \<Rightarrow> identity res" where
  "restoreIdentity P B m =
     (let trimmed = normalize_mnemonic m
      in if \<not> validateMnemonic B trimmed
         then Inl (Error ''Invalid BIP-39 mnemonic phrase or checksum mismatch'')
         else deriveIdentityFromMnemonic P B trimmed)"

record public_identity =
  signingPublicKeyHex :: hex
  encryptionPublicKeyHex :: hex
  pub_recipientPubkeyHash :: hex

definition getPublicIdentity :: "identity \<Rightarrow> public_identity" where
  "getPublicIdentity u =
     \<lparr>signingPublicKeyHex = publicKeyHex (signingKey u),
      encryptionPublicKeyHex = publicKeyHex (encryptionKey u),
      pub_recipientPubkeyHash = recipientPubkeyHash u\<rparr>"

lemma deriveIdentity_mnemonic:
  "deriveIdentityFromMnemonic P B m = Inr u \<Longrightarrow> mnemonic u = m"
  by (auto simp: deriveIdentityFromMnemonic_def bindR_Inr_iff Let_def)

lemma restoreIdentity_mnemonic:
  "restoreIdentity P B m = Inr u \<Longrightarrow> mnemonic u = normalize_mnemonic m"
  by (auto simp: restoreIdentity_def Let_def deriveIdentity_mnemonic split: if_splits)

lemma restoreIdentity_normalize:
  "normalize_mnemonic m = normalize_mnemonic m' \<Longrightarrow> restoreIdentity P B m = restoreIdentity P B m'"
  by (simp add: restoreIdentity_def)

text \<open>\<open>nacl.sign.keyPair.fromSeed\<close> documents a 64-byte secret key.\<close>

definition seed_keys :: "bip39_ops \<Rightarrow> bool" where
  "seed_keys B \<longleftrightarrow> (\<forall>s. if length s = 32 then (\<exists>sk. signFromSeed B s = Inr sk \<and> length sk = 64)
                       else signFromSeed B s = Inl LibError)"

lemma deriveIdentity_wf:
  assumes "seed_keys B" and "sign_correct P" and "deriveIdentityFromMnemonic P B m = Inr u"
  shows "wf_identity P u"
proof -
  obtain seed ssk where s: "mnemonicToSeed B m = Inr seed" "signFromSeed B (take 32 seed) = Inr ssk"
    using assms(3) by (auto simp: deriveIdentityFromMnemonic_def bindR_Inr_iff)
  then have "length ssk = 64"
    using assms(1) by (metis Inl_Inr_False seed_keys_def sum.inject(2))
  then show ?thesis using assms(3) s
    by (auto simp: deriveIdentityFromMnemonic_def bindR_Inr_iff Let_def wf_identity_def
        sign_keypair_def box_keypair_def computePubkeyHash_def box_fromSecretKey_def split: if_splits)
qed

subsection \<open>Signatures over 32-byte values\<close>

definition signChallenge :: "prims \<Rightarrow> hex \<Rightarrow> bytes \<Rightarrow> hex res" where
  "signChallenge P challengeHex sk =
     (if length sk \<noteq> 64 then Inl (Error ''Ed25519 secret key must be exactly 64 bytes'')
      else bindR (hexToBytes P challengeHex) (\<lambda>c.
        if length c \<noteq> 32 then Inl (Error ''Challenge nonce must be exactly 32 bytes'')
        else bindR (sign_detached P c sk) (\<lambda>sg. Inr (bytesToHex P sg))))"

definition verifySignature :: "prims \<Rightarrow> hex \<Rightarrow> hex \<Rightarrow> hex \<Rightarrow> bool" where
  "verifySignature P challengeHex signatureHex pkHex =
     (case bindR (hexToBytes P challengeHex) (\<lambda>c.
           bindR (hexToBytes P signatureHex) (\<lambda>sg.
           bindR (hexToBytes P pkHex) (\<lambda>pk.
           verify_detached P c sg pk))) of
        Inl e \<Rightarrow> False | Inr b \<Rightarrow> b)"

lemma signChallenge_verifies:
  assumes "hex_codec P" and "sign_correct P" and "sign_keypair P kp"
    and "hexToBytes P ch = Inr c" and "length c = 32"
  shows "\<exists>sg. signChallenge P ch (secretKey kp) = Inr sg \<and> verifySignature P ch sg (publicKeyHex kp)"
proof -
  obtain sg where "sign_detached P c (secretKey kp) = Inr sg"
    and "verify_detached P c sg (signPublic P (secretKey kp)) = Inr True"
    using assms(2,3) unfolding sign_correct_def sign_keypair_def by blast
  then show ?thesis
    using assms by (simp add: signChallenge_def verifySignature_def sign_keypair_def prim_laws)
qed

lemma verifySignature_lower:
  "hex_codec P \<Longrightarrow> verifySignature P (toLowerCase c) (toLowerCase s) (toLowerCase k) = verifySignature P c s k"
  by (simp add: verifySignature_def prim_laws)

subsection \<open>The keychain\<close>

text \<open>
  \<open>getGenericPassword\<close> gives the stored password, or \<open>None\<close> where the module returns \<open>false\<close>;
  \<open>setGenericPassword\<close> tells whether its result was an object.
\<close>

record 'k keychain_ops =
  getGenericPassword :: "string \<Rightarrow> ('k, string option) M"
  setGenericPassword :: "string \<Rightarrow> string \<Rightarrow> ('k, bool) M"
  resetGenericPassword :: "string \<Rightarrow> ('k, bool) M"

definition saveIdentityToKeychain ::
  "'k keychain_ops option \<Rightarrow> string \<Rightarrow> identity \<Rightarrow> ('k, bool) M" where
  "saveIdentityToKeychain kc service u =
     (case kc of None \<Rightarrow> ret True
      | Some K \<Rightarrow>
          tryM (setGenericPassword K service (JSON_stringify (JObj [(''mnemonic'', JStr (mnemonic u))])))
            (\<lambda>e. throwM (Error (''Failed to save identity to Keychain: '' @ exn_message e))))"

definition restore_from_json :: "prims \<Rightarrow> bip39_ops \<Rightarrow> json \<Rightarrow> identity option res" where
  "restore_from_json P B parsed =
     (if \<not> jtruthy (Some parsed) then Inr None
      else bindR (jprop parsed ''mnemonic'') (\<lambda>m.
        if \<not> jtruthy m then Inr None
        else (case m of
                Some (JStr s) \<Rightarrow> bindR (restoreIdentity P B s) (\<lambda>u. Inr (Some u))
              | _ \<Rightarrow> Inl LibError)))"

definition loadIdentityFromKeychain ::
  "prims \<Rightarrow> bip39_ops \<Rightarrow> 'k keychain_ops option \<Rightarrow> string \<Rightarrow> ('k, identity option) M" where
  "loadIdentityFromKeychain P B kc service =
     (case kc of None \<Rightarrow> ret None
      | Some K \<Rightarrow>
          tryM (bindM (getGenericPassword K service) (\<lambda>cred.
                  if \<not> truthy cred then ret None
                  else liftM (bindR (JSON_parse (the cred)) (restore_from_json P B))))
            (\<lambda>e. throwM (Error (''Failed to load identity from Keychain: '' @ exn_message e))))"

definition clearIdentityFromKeychain ::
  "'k keychain_ops option \<Rightarrow> string \<Rightarrow> ('k, bool) M" where
  "clearIdentityFromKeychain kc service =
     (case kc of None \<Rightarrow> ret True
      | Some K \<Rightarrow>
          tryM (resetGenericPassword K service)
            (\<lambda>e. throwM (Error (''Failed to clear identity from Keychain: '' @ exn_message e))))"

text \<open>Documented behaviour of \<open>react-native-keychain\<close>: a stored password is read back.\<close>

definition keychain_stores :: "'k keychain_ops \<Rightarrow> bool" where
  "keychain_stores K \<longleftrightarrow>
     (\<forall>svc pw k. \<exists>k'. setGenericPassword K svc pw k = (Inr True, k') \<and>
        getGenericPassword K svc k' = (Inr (Some pw), k'))"

lemma JSON_stringify_nonempty: "JSON_stringify (JObj ms) \<noteq> []"
  by (simp add: JSON_stringify_def)

lemma restore_from_json_mnemonic:
  "m \<noteq> [] \<Longrightarrow> restore_from_json P B (JObj [(''mnemonic'', JStr m)])
     = bindR (restoreIdentity P B m) (\<lambda>u. Inr (Some u))"
  by (simp add: restore_from_json_def jprop_def jtruthy_def obj_get_def)

text \<open>Saving an identity that was restored from a non-empty phrase in the keychain and loading
  it again gives the same identity, whatever case and spacing the phrase was typed with.\<close>

theorem keychain_roundtrip:
  assumes "keychain_stores K" and "restoreIdentity P B m = Inr u" and "normalize_mnemonic m \<noteq> []"
  shows "\<exists>k'. saveIdentityToKeychain (Some K) svc u k = (Inr True, k')
            \<and> loadIdentityFromKeychain P B (Some K) svc k' = (Inr (Some u), k')"
proof -
  let ?pw = "JSON_stringify (JObj [(''mnemonic'', JStr (mnemonic u))])"
  obtain k' where s: "setGenericPassword K svc ?pw k = (Inr True, k')"
    and g: "getGenericPassword K svc k' = (Inr (Some ?pw), k')"
    using assms(1) unfolding keychain_stores_def by blast
  have m: "mnemonic u = normalize_mnemonic m" using assms(2) by (rule restoreIdentity_mnemonic)
  then have "restoreIdentity P B (mnemonic u) = Inr u"
    using assms(2) restoreIdentity_normalize [of "mnemonic u" m] by simp
  then have "bindR (JSON_parse ?pw) (restore_from_json P B) = Inr (Some u)"
    using m assms(3) by (simp add: JSON_parse_stringify restore_from_json_mnemonic)
  then show ?thesis
    using s g JSON_stringify_nonempty
    by (simp add: saveIdentityToKeychain_def loadIdentityFromKeychain_def tryM_def bindM_def)
qed

text \<open>A keychain that is a map from services to passwords, and a trivial phrase book.\<close>

definition map_keychain :: "(string \<Rightarrow> string option) keychain_ops" where
  "map_keychain =
     \<lparr>getGenericPassword = (\<lambda>svc. getM (\<lambda>k. k svc)),
      setGenericPassword = (\<lambda>svc pw. bindM (modifyM (\<lambda>k. k(svc \<mapsto> pw))) (\<lambda>_. ret True)),
      resetGenericPassword = (\<lambda>svc. bindM (modifyM (\<lambda>k. k(svc := None))) (\<lambda>_. ret True))\<rparr>"

definition model_bip39 :: bip39_ops where
  "model_bip39 =
     \<lparr>validateMnemonic = (\<lambda>m. m \<noteq> []),
      mnemonicToSeed = (\<lambda>m. Inr (fit 64 (bytes_of_string m))),
      signFromSeed = (\<lambda>s. if length s = 32 then Inr (s @ s) else Inl LibError)\<rparr>"

lemma map_keychain_stores: "keychain_stores map_keychain"
  by (simp add: keychain_stores_def map_keychain_def)

lemma model_seed_keys: "seed_keys model_bip39"
  by (simp add: seed_keys_def model_bip39_def)

lemma model_derives: "\<exists>u. deriveIdentityFromMnemonic model_prims model_bip39 m = Inr u"
  by (simp add: deriveIdentityFromMnemonic_def model_bip39_def computePubkeyHash_def
      box_fromSecretKey_def model_prims_def Let_def)

lemma normalize_mnemonic_sample: "normalize_mnemonic ''  Zoo  ABLE '' = ''zoo able''"
  by code_simp

theorem keychain_roundtrip_witness:
  "\<exists>u k'. restoreIdentity model_prims model_bip39 ''  Zoo  ABLE '' = Inr u
     \<and> saveIdentityToKeychain (Some map_keychain) ''svc'' u Map.empty = (Inr True, k')
     \<and> loadIdentityFromKeychain model_prims model_bip39 (Some map_keychain) ''svc'' k' = (Inr (Some u), k')"
proof -
  obtain u where u: "restoreIdentity model_prims model_bip39 ''  Zoo  ABLE '' = Inr u"
    using model_derives [of "''zoo able''"]
    by (auto simp: restoreIdentity_def normalize_mnemonic_sample model_bip39_def Let_def)
  show ?thesis
    using u keychain_roundtrip [OF map_keychain_stores u, of "''svc''" Map.empty]
    by (auto simp: normalize_mnemonic_sample)
qed

end
