(* ===== verification/Base64.thy ===== *)
theory Base64
  imports Text_Codec
begin

section \<open>Base64 and its URL-safe form\<close>

text \<open>
  \<open>Buffer.toString('base64')\<close> and \<open>Buffer.from(s, 'base64')\<close>, and the URL-safe form the client
  puts into contact and device-link URIs: \<open>+\<close> and \<open>/\<close> become \<open>-\<close> and \<open>_\<close>, the padding
  is removed, and both are undone before decoding. The decoder of \<open>Buffer\<close> accepts both
  alphabets and skips white space and padding; the model skips every character outside the
  two alphabets.
\<close>

subsection \<open>The standard encoding\<close>

definition b64_char :: "nat \<Rightarrow> char" where
  "b64_char n =
     (if n < 26 then char_of (65 + n)
      else if n < 52 then char_of (71 + n)
      else if n < 62 then char_of (n - 4)
      else if n = 62 then CHR ''+'' else CHR ''/'')"

definition b64_val :: "char \<Rightarrow> nat option" where
  "b64_val c =
     (let n = code c in
      if 65 \<le> n \<and> n \<le> 90 then Some (n - 65)
      else if 97 \<le> n \<and> n \<le> 122 then Some (n - 71)
      else if 48 \<le> n \<and> n \<le> 57 then Some (n + 4)
      else if n = 43 \<or> n = 45 then Some 62
      else if n = 47 \<or> n = 95 then Some 63
      else None)"

fun b64_sextets :: "nat list \<Rightarrow> nat list" where
  "b64_sextets [] = []"
| "b64_sextets [a] = [a div 4, (a mod 4) * 16]"
| "b64_sextets [a, b] = [a div 4, (a mod 4) * 16 + b div 16, (b mod 16) * 4]"
| "b64_sextets (a # b # c # r) =
     a div 4 # ((a mod 4) * 16 + b div 16) # ((b mod 16) * 4 + c div 64) # (c mod 64) # b64_sextets r"

fun b64_octets :: "nat list \<Rightarrow> nat list" where
  "b64_octets (w # x # y # z # r) =
     (w * 4 + x div 16) # ((x mod 16) * 16 + y div 4) # ((y mod 4) * 64 + z) # b64_octets r"
| "b64_octets [w, x, y] = [w * 4 + x div 16, (x mod 16) * 16 + y div 4]"
| "b64_octets [w, x] = [w * 4 + x div 16]"
| "b64_octets _ = []"

definition b64_padding :: "nat \<Rightarrow> string" where
  "b64_padding n = replicate ((3 - n mod 3) mod 3) (CHR ''='')"

definition b64_encode :: "bytes \<Rightarrow> string" where
  "b64_encode bs = map b64_char (b64_sextets (map unat bs)) @ b64_padding (length bs)"

definition b64_decode :: "string \<Rightarrow> bytes" where
  "b64_decode s = map of_nat (b64_octets (List.map_filter b64_val s))"

lemma b64_val_char [simp]: "n < 64 \<Longrightarrow> b64_val (b64_char n) = Some n"
  by (auto simp: b64_val_def b64_char_def code_def Let_def)

lemma b64_val_pad [simp]: "b64_val (CHR ''='') = None"
  by (simp add: b64_val_def code_def)

lemma b64_sextets_bound:
  "\<forall>a \<in> set ns. a < 256 \<Longrightarrow> \<forall>x \<in> set (b64_sextets ns). x < 64"
proof (induction ns rule: b64_sextets.induct)
  case (4 a b c r)
  have "a div 4 < 64" "b div 16 < 16" "c div 64 < 4"
    using "4.prems" by (auto simp: less_mult_imp_div_less)
  moreover have "(a mod 4) * 16 \<le> 48" "(b mod 16) * 4 \<le> 60" "c mod 64 < 64"
    by simp_all
  ultimately show ?case using 4 by auto
qed (auto simp: less_mult_imp_div_less)

lemma b64_octets_sextets:
  "\<forall>a \<in> set ns. a < 256 \<Longrightarrow> b64_octets (b64_sextets ns) = ns"
proof (induction ns rule: b64_sextets.induct)
  case (4 a b c r)
  have "b div 16 < 16" "c div 64 < 4"
    using "4.prems" by (auto simp: less_mult_imp_div_less)
  moreover have "a div 4 * 4 + a mod 4 = a" "b div 16 * 16 + b mod 16 = b" "c div 64 * 64 + c mod 64 = c"
    by simp_all
  ultimately show ?case using 4 by simp
next
  case (3 a b)
  have "b div 16 < 16" using "3.prems" by (auto simp: less_mult_imp_div_less)
  then show ?case by simp
qed simp_all

lemma map_filter_append:
  "List.map_filter f (xs @ ys) = List.map_filter f xs @ List.map_filter f ys"
  by (simp add: List.map_filter_def)

lemma map_filter_b64_sextets:
  "\<forall>x \<in> set xs. x < 64 \<Longrightarrow> List.map_filter b64_val (map b64_char xs @ t) = xs @ List.map_filter b64_val t"
  by (induction xs) (simp_all add: List.map_filter_simps)

lemma map_filter_replicate_pad [simp]: "List.map_filter b64_val (replicate n (CHR ''='')) = []"
  by (induction n) (simp_all add: List.map_filter_simps)

lemma map_filter_padding [simp]: "List.map_filter b64_val (b64_padding n) = []"
  by (simp add: b64_padding_def)

lemma bytes_lt_256: "\<forall>a \<in> set (map unat (bs :: bytes)). a < 256"
  using unsigned_less [where 'b = 8 and 'a = nat] by simp

lemma b64_decode_encode [simp]: "b64_decode (b64_encode bs) = bs"
proof -
  have "List.map_filter b64_val (b64_encode bs) = b64_sextets (map unat bs)"
    unfolding b64_encode_def
    by (simp only: map_filter_b64_sextets [OF b64_sextets_bound [OF bytes_lt_256]]
        map_filter_padding append_Nil2)
  then show ?thesis
    by (simp add: b64_decode_def b64_octets_sextets [OF bytes_lt_256] comp_def)
qed

subsection \<open>The URL-safe form\<close>

definition strip_padding :: "string \<Rightarrow> string" where
  "strip_padding s = rev (dropWhile (\<lambda>c. c = CHR ''='') (rev s))"

definition to_url_safe :: "string \<Rightarrow> string" where
  "to_url_safe s =
     strip_padding
       (map (\<lambda>c. if c = CHR ''/'' then CHR ''_'' else c)
         (map (\<lambda>c. if c = CHR ''+'' then CHR ''-'' else c) s))"

text \<open>The loop \<open>while (s.length % 4 !== 0) s += '='\<close>.\<close>

function pad4 :: "string \<Rightarrow> string" where
  "pad4 s = (if length s mod 4 = 0 then s else pad4 (s @ ''=''))"
  by pat_completeness auto
termination
proof (relation "measure (\<lambda>s. (4 - length s mod 4) mod 4)")
  fix s :: string
  assume "length s mod 4 \<noteq> 0"
  moreover have "length s mod 4 < 4" by simp
  ultimately consider "length s mod 4 = 1" | "length s mod 4 = 2" | "length s mod 4 = 3"
    by linarith
  then show "(s @ ''='', s) \<in> measure (\<lambda>s. (4 - length s mod 4) mod 4)"
    by cases (simp_all add: mod_Suc)
qed simp

declare pad4.simps [simp del]

definition from_url_safe :: "string \<Rightarrow> string" where
  "from_url_safe s =
     pad4 (map (\<lambda>c. if c = CHR ''_'' then CHR ''/'' else c)
            (map (\<lambda>c. if c = CHR ''-'' then CHR ''+'' else c) s))"

lemma pad4_length: "length (pad4 s) mod 4 = 0"
  by (induction s rule: pad4.induct) (subst pad4.simps, simp)

lemma map_filter_pad4 [simp]: "List.map_filter b64_val (pad4 s) = List.map_filter b64_val s"
proof (induction s rule: pad4.induct)
  case (1 s)
  then show ?case
    by (subst pad4.simps) (simp add: map_filter_append List.map_filter_simps)
qed

lemma map_filter_map_cong:
  "(\<And>c. f (g c) = f c) \<Longrightarrow> List.map_filter f (map g s) = List.map_filter f s"
  by (induction s) (simp_all add: List.map_filter_simps split: option.split)

lemma map_filter_strip_padding [simp]:
  "List.map_filter b64_val (strip_padding s) = List.map_filter b64_val s"
proof -
  have "\<exists>n. s = strip_padding s @ replicate n (CHR ''='')"
  proof (induction s rule: rev_induct)
    case (snoc c s)
    then obtain n where n: "s = strip_padding s @ replicate n (CHR ''='')" by blast
    show ?case
    proof (cases "c = CHR ''=''")
      case True
      then have "strip_padding (s @ [c]) = strip_padding s" by (simp add: strip_padding_def)
      then have "s @ [c] = strip_padding (s @ [c]) @ replicate (Suc n) (CHR ''='')"
        using n True by (metis append_assoc replicate_append_same replicate_Suc)
      then show ?thesis by blast
    next
      case False
      then have "strip_padding (s @ [c]) = s @ [c]" by (simp add: strip_padding_def)
      then show ?thesis by (metis append_Nil2 replicate_0)
    qed
  qed (simp add: strip_padding_def)
  then obtain n where n: "s = strip_padding s @ replicate n (CHR ''='')" by blast
  have "List.map_filter b64_val s
      = List.map_filter b64_val (strip_padding s @ replicate n (CHR ''=''))"
    using n by simp
  then show ?thesis by (simp add: map_filter_append)
qed

lemma b64_decode_url_safe [simp]: "b64_decode (from_url_safe (to_url_safe s)) = b64_decode s"
proof -
  have swap: "b64_val (if c = CHR ''_'' then CHR ''/'' else c) = b64_val c"
    "b64_val (if c = CHR ''-'' then CHR ''+'' else c) = b64_val c"
    "b64_val (if c = CHR ''/'' then CHR ''_'' else c) = b64_val c"
    "b64_val (if c = CHR ''+'' then CHR ''-'' else c) = b64_val c" for c
    by (simp_all add: b64_val_def code_def)
  show ?thesis
    unfolding b64_decode_def from_url_safe_def to_url_safe_def
    by (simp add: map_filter_map_cong swap)
qed

text \<open>The characters of a URL-safe text need no escaping in a URI.\<close>

definition url_safe_char :: "char \<Rightarrow> bool" where
  "url_safe_char c \<longleftrightarrow> b64_val c \<noteq> None \<and> c \<noteq> CHR ''+'' \<and> c \<noteq> CHR ''/''"

lemma strip_padding_set: "set (strip_padding s) \<subseteq> set s"
  by (auto simp: strip_padding_def dest: set_dropWhileD)

lemma strip_padding_replicate:
  "CHR ''='' \<notin> set s \<Longrightarrow> strip_padding (s @ replicate n (CHR ''='')) = s"
proof -
  assume *: "CHR ''='' \<notin> set s"
  have "dropWhile (\<lambda>c. c = CHR ''='') (replicate n (CHR ''='') @ rev s) = rev s"
  proof (induction n)
    case 0
    have "rev s = [] \<or> hd (rev s) \<noteq> CHR ''=''"
      using * hd_in_set [of "rev s"] by auto
    then show ?case by (simp add: dropWhile_eq_self_iff)
  qed simp
  then show ?thesis by (simp add: strip_padding_def)
qed

lemma to_url_safe_chars: "list_all url_safe_char (to_url_safe (b64_encode bs))"
proof -
  let ?g = "\<lambda>c. (if c = CHR ''/'' then CHR ''_'' else c) :: char"
  let ?h = "\<lambda>c. (if c = CHR ''+'' then CHR ''-'' else c) :: char"
  let ?body = "map (\<lambda>n. ?g (?h (b64_char n))) (b64_sextets (map unat bs))"
  let ?k = "(3 - length bs mod 3) mod 3"
  have pad: "map ?g (map ?h (b64_padding (length bs))) = replicate ?k (CHR ''='')"
    by (simp add: b64_padding_def)
  have swapped: "url_safe_char (CHR ''_'')" "url_safe_char (CHR ''-'')"
    by (simp_all add: url_safe_char_def b64_val_def code_def)
  have ok: "url_safe_char (?g (?h (b64_char n)))" if "n < 64" for n
    using that swapped by (simp add: url_safe_char_def)
  have body: "list_all url_safe_char ?body"
    unfolding list_all_iff set_map using b64_sextets_bound [OF bytes_lt_256, of bs] ok by blast
  have "CHR ''='' \<notin> set ?body"
    using body b64_val_pad unfolding list_all_iff url_safe_char_def by blast
  then have "to_url_safe (b64_encode bs) = ?body"
    unfolding to_url_safe_def b64_encode_def map_append pad
    by (simp add: strip_padding_replicate comp_def)
  then show ?thesis using body by simp
qed

end
