(* ===== verification/Ws_Client.thy ===== *)
theory Ws_Client
  imports Ws_Frames Json Identity Base64
begin

section \<open>The WebSocket client\<close>

text \<open>
  \<open>client/src/network/TorWebSocketClient.ts\<close>: the client as a state machine. Each method is a
  function on the state of the object; the asynchronous ones are cut where they wait, so that
  \<open>ws_step\<close> takes one event of the environment: a call from the application, a connection
  attempt that succeeds or fails, data, error or close of a socket, a timer. Sockets and
  connection attempts are numbered, since a new attempt can start while an older one is still
  waiting. The callbacks are recorded in \<open>ws_log\<close>, the bytes written in \<open>ws_sent\<close>.
\<close>

subsection \<open>The state\<close>

record tor_config =
  socksProxyHost :: string
  socksProxyPort :: int
  targetHost :: string
  targetPort :: int
  devMode :: bool

datatype ws_state =
  DISCONNECTED | CONNECTING | AWAITING_CHALLENGE | AUTHENTICATING | CONNECTED_AUTHENTICATED | RECONNECTING | CLOSED

datatype ws_callback =
  OnStateChange ws_state
| OnAuthenticated "json option"
| OnMessage "json option" "json option" "json option"
| OnWsError exn
| OnDisconnect string

text \<open>
  A socket: whether it is destroyed, the bytes of the handshake while its listener is attached,
  whether the promise of the handshake settled, and how often the stream handlers are attached.
\<close>

record sock =
  so_destroyed :: bool
  so_upgrade :: "bytes option"
  so_settled :: bool
  so_handlers :: nat

definition dead_sock :: sock where
  "dead_sock = \<lparr>so_destroyed = True, so_upgrade = None, so_settled = True, so_handlers = 0\<rparr>"

record ws_client =
  ws_config :: tor_config
  ws_identity :: identity
  ws_state :: ws_state
  ws_socket :: "nat option"
  ws_autoReconnect :: bool
  ws_reconnectAttempts :: nat
  ws_reconnectTimer :: "nat option"
  ws_pingTimer :: bool
  ws_buffer :: bytes
  ws_socks :: "nat \<Rightarrow> sock"
  ws_dialling :: "nat list"
  ws_armed :: "(nat \<times> int) list"
  ws_next :: nat
  ws_sent :: "(nat \<times> bytes) list"
  ws_log :: "ws_callback list"

text \<open>What the environment draws at random: masks, handshake keys and the jitter in milliseconds.\<close>

record ws_env =
  mask_at :: "nat \<Rightarrow> bytes"
  key_at :: "nat \<Rightarrow> bytes"
  jitter_at :: "nat \<Rightarrow> int"

definition new_TorWebSocketClient :: "tor_config \<Rightarrow> identity \<Rightarrow> ws_client" where
  "new_TorWebSocketClient cfg u =
     \<lparr>ws_config = cfg, ws_identity = u, ws_state = DISCONNECTED, ws_socket = None, ws_autoReconnect = True,
      ws_reconnectAttempts = 0, ws_reconnectTimer = None, ws_pingTimer = False, ws_buffer = [],
      ws_socks = (\<lambda>_. dead_sock), ws_dialling = [], ws_armed = [], ws_next = 0, ws_sent = [], ws_log = []\<rparr>"

definition call_back :: "ws_callback \<Rightarrow> ws_client \<Rightarrow> ws_client" where
  "call_back c w = w\<lparr>ws_log := ws_log w @ [c]\<rparr>"

definition setState :: "ws_state \<Rightarrow> ws_client \<Rightarrow> ws_client" where
  "setState st w = call_back (OnStateChange st) (w\<lparr>ws_state := st\<rparr>)"

subsection \<open>Timers, sockets and reconnection\<close>

definition maxReconnectDelayMs :: int where
  "maxReconnectDelayMs = 30000"

definition reconnect_delay :: "nat \<Rightarrow> int \<Rightarrow> int" where
  "reconnect_delay attempts jitter = min (1000 * 2 ^ min attempts 5) maxReconnectDelayMs + jitter"

definition cleanupTimers :: "ws_client \<Rightarrow> ws_client" where
  "cleanupTimers w =
     w\<lparr>ws_pingTimer := False,
       ws_armed := (case ws_reconnectTimer w of None \<Rightarrow> ws_armed w
                    | Some i \<Rightarrow> filter (\<lambda>t. fst t \<noteq> i) (ws_armed w)),
       ws_reconnectTimer := None\<rparr>"

definition cleanupSocket :: "ws_client \<Rightarrow> ws_client" where
  "cleanupSocket w =
     (case ws_socket w of None \<Rightarrow> w
      | Some n \<Rightarrow> w\<lparr>ws_socks := (ws_socks w)(n := dead_sock), ws_socket := None\<rparr>)\<lparr>ws_buffer := []\<rparr>"

definition scheduleReconnect :: "ws_env \<Rightarrow> ws_client \<Rightarrow> ws_client" where
  "scheduleReconnect E w0 =
     (let w = cleanupSocket (setState RECONNECTING w0);
          attempts = ws_reconnectAttempts w + 1; i = ws_next w in
      w\<lparr>ws_reconnectAttempts := attempts, ws_reconnectTimer := Some i,
        ws_armed := (i, reconnect_delay attempts (jitter_at E i)) # ws_armed w, ws_next := i + 1\<rparr>)"

definition handleConnectionFailure :: "ws_env \<Rightarrow> exn \<Rightarrow> ws_client \<Rightarrow> ws_client" where
  "handleConnectionFailure E e w0 =
     (let w = call_back (OnWsError e) w0 in
      if ws_autoReconnect w then scheduleReconnect E w else setState DISCONNECTED w)"

definition disconnect :: "ws_client \<Rightarrow> ws_client" where
  "disconnect w = setState CLOSED (cleanupSocket (cleanupTimers (w\<lparr>ws_autoReconnect := False\<rparr>)))"

subsection \<open>Sending\<close>

definition sendRawFrame :: "ws_env \<Rightarrow> byte \<Rightarrow> bytes \<Rightarrow> ws_client \<Rightarrow> ws_client" where
  "sendRawFrame E opcode payload w =
     (case ws_socket w of None \<Rightarrow> w
      | Some n \<Rightarrow>
          if so_destroyed (ws_socks w n) then w
          else w\<lparr>ws_sent := ws_sent w @ [(n, build_frame opcode (mask_at E (ws_next w)) payload)],
                 ws_next := ws_next w + 1\<rparr>)"

definition sendJson :: "ws_env \<Rightarrow> json \<Rightarrow> ws_client \<Rightarrow> ws_client" where
  "sendJson E v = sendRawFrame E 0x01 (text_encode (JSON_stringify v))"

definition startPingKeepAlive :: "ws_client \<Rightarrow> ws_client" where
  "startPingKeepAlive w = (cleanupTimers w)\<lparr>ws_pingTimer := True\<rparr>"

subsection \<open>Receiving\<close>

text \<open>\<open>signChallenge\<close> on a field of any type: what is not text makes \<open>hexToBytes\<close> throw.\<close>

definition sign_field :: "prims \<Rightarrow> json option \<Rightarrow> bytes \<Rightarrow> hex res" where
  "sign_field P ch sk =
     (case ch of Some (JStr h) \<Rightarrow> signChallenge P h sk
      | _ \<Rightarrow> if length sk \<noteq> 64 then Inl (Error ''Ed25519 secret key must be exactly 64 bytes'') else Inl LibError)"

definition auth_reply :: "hex \<Rightarrow> hex \<Rightarrow> json" where
  "auth_reply pk sg = JObj [(''type'', JStr ''auth''), (''public_key'', JStr pk), (''signature'', JStr sg)]"

definition handleServerChallenge :: "prims \<Rightarrow> ws_env \<Rightarrow> json option \<Rightarrow> ws_client \<Rightarrow> ws_client" where
  "handleServerChallenge P E ch w0 =
     (let w = setState AUTHENTICATING w0 in
      case sign_field P ch (secretKey (signingKey (ws_identity w))) of
        Inr sg \<Rightarrow> sendJson E (auth_reply (publicKeyHex (signingKey (ws_identity w))) sg) w
      | Inl e \<Rightarrow> handleConnectionFailure E e w)"

definition jfield :: "json \<Rightarrow> string \<Rightarrow> json option" where
  "jfield v k = (case jprop v k of Inr o1 \<Rightarrow> o1 | Inl _ \<Rightarrow> None)"

text \<open>A value in a template string.\<close>

fun template_text :: "json \<Rightarrow> string" where
  "template_text JNull = ''null''"
| "template_text (JBool b) = (if b then ''true'' else ''false'')"
| "template_text (JNum i) = show_int i"
| "template_text (JReal s) = s"
| "template_text (JStr s) = s"
| "template_text (JArr []) = []"
| "template_text (JArr [v]) = (if v = JNull then [] else template_text v)"
| "template_text (JArr (v # w # vs)) = (if v = JNull then [] else template_text v) @ '','' @ template_text (JArr (w # vs))"
| "template_text (JObj ms) = ''[object Object]''"

definition handleTextMessage :: "prims \<Rightarrow> ws_env \<Rightarrow> string \<Rightarrow> ws_client \<Rightarrow> ws_client" where
  "handleTextMessage P E text w =
     (case JSON_parse text of Inl _ \<Rightarrow> w
      | Inr msg \<Rightarrow>
          (let ty = jfield msg ''type'' in
           if ty = Some (JStr ''challenge'') then handleServerChallenge P E (jfield msg ''challenge'') w
           else if ty = Some (JStr ''authenticated'') then
             call_back (OnAuthenticated (jfield msg ''recipient_pubkey_hash''))
               (startPingKeepAlive (setState CONNECTED_AUTHENTICATED w))
           else if ty = Some (JStr ''message'') then
             call_back (OnMessage (jfield msg ''encrypted_payload'') (jfield msg ''nonce'') (jfield msg ''created_at'')) w
           else if ty = Some (JStr ''error'') then 
             call_back (OnWsError (Error (''Server error: '' @
               (case jfield msg ''message'' of None \<Rightarrow> ''undefined'' | Some v \<Rightarrow> template_text v)))) w
           else w))"

definition processFrame :: "prims \<Rightarrow> ws_env \<Rightarrow> byte \<Rightarrow> bytes \<Rightarrow> ws_client \<Rightarrow> ws_client" where
  "processFrame P E opcode payload w =
     (if opcode = 0x01 then handleTextMessage P E (utf8_toString payload) w
      else if opcode = 0x08 then disconnect w
      else if opcode = 0x09 then sendRawFrame E 0x0a payload w
      else w)"

named_theorems ws_defs \<open>the methods of the client\<close>
lemmas ws_method_defs [ws_defs] = call_back_def setState_def cleanupTimers_def scheduleReconnect_def
  handleConnectionFailure_def disconnect_def sendRawFrame_def sendJson_def startPingKeepAlive_def
  handleServerChallenge_def

lemma cleanupSocket_sel [simp]:
  "ws_buffer (cleanupSocket w) = []" "ws_socket (cleanupSocket w) = None"
  "ws_state (cleanupSocket w) = ws_state w" "ws_autoReconnect (cleanupSocket w) = ws_autoReconnect w"
  "ws_armed (cleanupSocket w) = ws_armed w" "ws_reconnectTimer (cleanupSocket w) = ws_reconnectTimer w"
  "ws_next (cleanupSocket w) = ws_next w" "ws_reconnectAttempts (cleanupSocket w) = ws_reconnectAttempts w"
  "ws_pingTimer (cleanupSocket w) = ws_pingTimer w" "ws_log (cleanupSocket w) = ws_log w"
  "ws_sent (cleanupSocket w) = ws_sent w" "ws_identity (cleanupSocket w) = ws_identity w"
  "ws_dialling (cleanupSocket w) = ws_dialling w"
  by (simp_all add: cleanupSocket_def split: option.splits)

text \<open>A frame leaves the buffer alone or empties it, so the loop of \<open>handleRawData\<close> ends.\<close>

lemma handleServerChallenge_buffer:
  "ws_buffer (handleServerChallenge P E ch w) = ws_buffer w \<or> ws_buffer (handleServerChallenge P E ch w) = []"
  by (auto simp: ws_defs Let_def split: sum.splits option.splits)

lemma processFrame_buffer:
  "ws_buffer (processFrame P E opcode payload w) = ws_buffer w \<or> ws_buffer (processFrame P E opcode payload w) = []"
  using handleServerChallenge_buffer
  by (auto simp: processFrame_def handleTextMessage_def disconnect_def sendRawFrame_def call_back_def setState_def
      startPingKeepAlive_def cleanupTimers_def Let_def split: sum.splits option.splits)

lemma processFrame_length: "length (ws_buffer (processFrame P E opcode payload w)) \<le> length (ws_buffer w)"
  using processFrame_buffer [of P E opcode payload w] by auto

function raw_loop :: "prims \<Rightarrow> ws_env \<Rightarrow> ws_client \<Rightarrow> ws_client" where
  "raw_loop P E w =
     (case next_frame (ws_buffer w) of None \<Rightarrow> w
      | Some ((opcode, payload), rest) \<Rightarrow> raw_loop P E (processFrame P E opcode payload (w\<lparr>ws_buffer := rest\<rparr>)))"
  by pat_completeness auto
termination
  by (relation "measure (\<lambda>(P, E, w). length (ws_buffer w))")
    (auto dest!: ws.consumes intro: le_less_trans [OF processFrame_length])

declare raw_loop.simps [simp del]

definition handleRawData :: "prims \<Rightarrow> ws_env \<Rightarrow> bytes \<Rightarrow> ws_client \<Rightarrow> ws_client" where
  "handleRawData P E chunk w = raw_loop P E (w\<lparr>ws_buffer := ws_buffer w @ chunk\<rparr>)"

subsection \<open>Connecting\<close>

definition crlf :: string where
  "crlf = [CHR 0x0D, CHR 0x0A]"

definition upgrade_request :: "tor_config \<Rightarrow> string \<Rightarrow> string" where
  "upgrade_request cfg secWebSocketKey =
     ''GET /api/v1/stream HTTP/1.1'' @ crlf @
     ''Host: '' @ targetHost cfg @ '':'' @ show_int (targetPort cfg) @ crlf @
     ''Upgrade: websocket'' @ crlf @ ''Connection: Upgrade'' @ crlf @
     ''Sec-WebSocket-Key: '' @ secWebSocketKey @ crlf @
     ''Sec-WebSocket-Version: 13'' @ crlf @ crlf"

text \<open>\<open>connect\<close> up to the dialling of the socket.\<close>

definition connect :: "ws_client \<Rightarrow> ws_client" where
  "connect w0 =
     (if ws_state w0 = CONNECTING \<or> ws_state w0 = CONNECTED_AUTHENTICATED then w0
      else
        let w = setState CONNECTING (w0\<lparr>ws_autoReconnect := True\<rparr>) in
        w\<lparr>ws_dialling := ws_next w # ws_dialling w, ws_next := ws_next w + 1\<rparr>)"

text \<open>The socket is there: it becomes the current one and the handshake is written to it.\<close>

definition performWebSocketUpgrade :: "ws_env \<Rightarrow> nat \<Rightarrow> ws_client \<Rightarrow> ws_client" where
  "performWebSocketUpgrade E n w =
     w\<lparr>ws_dialling := removeAll n (ws_dialling w), ws_socket := Some n,
       ws_socks := (ws_socks w)(n := \<lparr>so_destroyed = False, so_upgrade = Some [], so_settled = False, so_handlers = 0\<rparr>),
       ws_sent := ws_sent w @ [(n, text_encode (upgrade_request (ws_config w) (b64_encode (key_at E (ws_next w)))))],
       ws_next := ws_next w + 1\<rparr>"

definition setupSocketHandlers :: "ws_client \<Rightarrow> ws_client" where
  "setupSocketHandlers w =
     (case ws_socket w of None \<Rightarrow> w
      | Some n \<Rightarrow> w\<lparr>ws_socks := (ws_socks w)(n := (ws_socks w n)\<lparr>so_handlers := so_handlers (ws_socks w n) + 1\<rparr>)\<rparr>)"

text \<open>The rest of \<open>connect\<close> once the handshake succeeded.\<close>

definition connect_upgraded :: "prims \<Rightarrow> ws_env \<Rightarrow> bytes \<Rightarrow> ws_client \<Rightarrow> ws_client" where
  "connect_upgraded P E leftover w0 =
     (let w = setupSocketHandlers (setState AWAITING_CHALLENGE w0);
          w' = (if leftover \<noteq> [] then handleRawData P E leftover w else w) in
      w'\<lparr>ws_reconnectAttempts := 0\<rparr>)"

datatype upgrade_result = Waiting | Upgraded bytes | Refused string

text \<open>The listener of the handshake; the last component tells how its promise settles now.\<close>

definition onHandshakeData :: "nat \<Rightarrow> bytes \<Rightarrow> ws_client \<Rightarrow> ws_client \<times> upgrade_result" where
  "onHandshakeData n chunk w =
     (let so = ws_socks w n in
      case so_upgrade so of None \<Rightarrow> (w, Waiting)
      | Some raw0 \<Rightarrow>
          let raw = raw0 @ chunk in
          case split_at (text_encode (crlf @ crlf)) raw of
            None \<Rightarrow> (w\<lparr>ws_socks := (ws_socks w)(n := so\<lparr>so_upgrade := Some raw\<rparr>)\<rparr>, Waiting)
          | Some (headerBytes, leftover) \<Rightarrow>
              let headerString = utf8_toString headerBytes;
                  listener = (if ws_socket w = Some n then None else Some raw) in
              (w\<lparr>ws_socks := (ws_socks w)(n := so\<lparr>so_upgrade := listener, so_settled := True\<rparr>)\<rparr>,
               if so_settled so then Waiting
               else if startsWith headerString ''HTTP/1.1 101'' then Upgraded leftover
               else Refused headerString))"

subsection \<open>Events\<close>

definition on_data :: "prims \<Rightarrow> ws_env \<Rightarrow> nat \<Rightarrow> bytes \<Rightarrow> ws_client \<Rightarrow> ws_client" where
  "on_data P E n chunk w =
     (if so_destroyed (ws_socks w n) then w
      else
        let (w1, settled) = onHandshakeData n chunk w;
            w2 = (handleRawData P E chunk ^^ so_handlers (ws_socks w n)) w1 in
        case settled of
          Waiting \<Rightarrow> w2
        | Upgraded leftover \<Rightarrow> connect_upgraded P E leftover w2
        | Refused headerString \<Rightarrow>
            handleConnectionFailure E (Error (''WebSocket upgrade rejected: '' @ headerString)) w2)"

definition close_handler :: "ws_env \<Rightarrow> ws_client \<Rightarrow> ws_client" where
  "close_handler E w0 =
     (let w = cleanupTimers w0 in
      if ws_state w \<noteq> CLOSED \<and> ws_state w \<noteq> DISCONNECTED then
        let w' = call_back (OnDisconnect ''Socket connection closed'') w in
        if ws_autoReconnect w' then scheduleReconnect E w' else setState DISCONNECTED w'
      else w)"

definition on_close :: "ws_env \<Rightarrow> nat \<Rightarrow> ws_client \<Rightarrow> ws_client" where
  "on_close E n w =
     (let so = ws_socks w n in
      if so_destroyed so then w
      else (close_handler E ^^ so_handlers so) (w\<lparr>ws_socks := (ws_socks w)(n := so\<lparr>so_destroyed := True\<rparr>)\<rparr>))"

definition on_error :: "nat \<Rightarrow> string \<Rightarrow> ws_client \<Rightarrow> ws_client" where
  "on_error n msg w = (call_back (OnWsError (Error msg)) ^^ so_handlers (ws_socks w n)) w"

datatype ws_event =
  Connect | Disconnect | SendJson json
| Dialled nat | DialFailed nat exn
| Data nat bytes | SocketClosed nat | SocketFailed nat string
| PingTick | ReconnectFires nat

fun ws_step :: "prims \<Rightarrow> ws_env \<Rightarrow> ws_event \<Rightarrow> ws_client \<Rightarrow> ws_client" where
  "ws_step P E Connect w = connect w"
| "ws_step P E Disconnect w = disconnect w"
| "ws_step P E (SendJson v) w = sendJson E v w"
| "ws_step P E (Dialled n) w = (if n \<in> set (ws_dialling w) then performWebSocketUpgrade E n w else w)"
| "ws_step P E (DialFailed n e) w =
     (if n \<in> set (ws_dialling w)
      then handleConnectionFailure E e (w\<lparr>ws_dialling := removeAll n (ws_dialling w)\<rparr>) else w)"
| "ws_step P E (Data n chunk) w = on_data P E n chunk w"
| "ws_step P E (SocketClosed n) w = on_close E n w"
| "ws_step P E (SocketFailed n msg) w = on_error n msg w"
| "ws_step P E PingTick w =
     (if ws_pingTimer w then sendJson E (JObj [(''type'', JStr ''ping'')]) w else w)"
| "ws_step P E (ReconnectFires i) w =
     (if i \<in> fst ` set (ws_armed w)
      then connect (w\<lparr>ws_armed := filter (\<lambda>t. fst t \<noteq> i) (ws_armed w)\<rparr>) else w)"

definition ws_run :: "prims \<Rightarrow> ws_env \<Rightarrow> ws_event list \<Rightarrow> ws_client \<Rightarrow> ws_client" where
  "ws_run P E events w = fold (ws_step P E) events w"

end
