(* ===== verification/Signal_Store.thy ===== *)
theory Signal_Store
  imports Identity
begin

section \<open>The store interface of the crypto engine, and its in-memory provider\<close>

text \<open>
  \<open>client/src/crypto/ISignalStore.ts\<close> as a record of methods over a state of the provider, the
  contract the engine relies on as the locale \<open>signal_store\<close>, and
  \<open>client/src/crypto/InMemorySignalStore.ts\<close> with the interpretation that discharges it. The SQLite
  provider is in \<open>Sqlite_Store\<close>.

  The in-memory store hands out the very session object it holds, so a method that changes the
  object it got from \<open>getSession\<close> changes the store before it calls \<open>saveSession\<close>, and the
  change stays when the method throws. \<open>mutateSession k v\<close> is that effect: what becomes of the
  store when the object read under \<open>k\<close> now has the fields \<open>v\<close>. A store that builds a new
  object for every read is not affected.
\<close>

record 's store_ops =
  getIdentity :: "('s, identity) M"
  saveSignedPreKey :: "int \<Rightarrow> signed_prekey \<Rightarrow> ('s, unit) M"
  getSignedPreKey :: "int \<Rightarrow> ('s, signed_prekey option) M"
  getLatestSignedPreKey :: "('s, signed_prekey option) M"
  saveOneTimePreKey :: "int \<Rightarrow> one_time_prekey \<Rightarrow> ('s, unit) M"
  getOneTimePreKey :: "int \<Rightarrow> ('s, one_time_prekey option) M"
  removeOneTimePreKey :: "int \<Rightarrow> ('s, unit) M"
  countOneTimePreKeys :: "('s, nat) M"
  saveSession :: "hex \<Rightarrow> session \<Rightarrow> ('s, unit) M"
  getSession :: "hex \<Rightarrow> ('s, session option) M"
  hasSession :: "hex \<Rightarrow> ('s, bool) M"
  removeSession :: "hex \<Rightarrow> ('s, unit) M"
  mutateSession :: "hex \<Rightarrow> session \<Rightarrow> 's \<Rightarrow> 's"

subsection \<open>What can be stored\<close>

text \<open>
  A provider may serialise what it stores. A key pair survives when its hexadecimal form is
  that of its public key and the secret key is read back from its own, a session when in
  addition its dictionary has no key twice.
\<close>

definition storable_keypair :: "prims \<Rightarrow> keypair \<Rightarrow> bool" where
  "storable_keypair P kp \<longleftrightarrow> hexToBytes P (publicKeyHex kp) = Inr (publicKey kp) \<and>
     hexToBytes P (bytesToHex P (secretKey kp)) = Inr (secretKey kp)"

definition storable_session :: "prims \<Rightarrow> session \<Rightarrow> bool" where
  "storable_session P v \<longleftrightarrow>
     storable_keypair P (localDhKeyPair v) \<and> distinct (map fst (skippedMessageKeys v))"

lemma box_keypair_storable: "hex_codec P \<Longrightarrow> box_keypair P kp \<Longrightarrow> storable_keypair P kp"
  by (simp add: storable_keypair_def box_keypair_def prim_laws)

subsection \<open>The contract\<close>

locale signal_store =
  fixes S :: "'s store_ops"
    and P :: prims
    and invar :: "'s \<Rightarrow> bool"
    and ident :: "'s \<Rightarrow> identity"
    and spks :: "'s \<Rightarrow> int \<Rightarrow> signed_prekey option"
    and otks :: "'s \<Rightarrow> int \<Rightarrow> one_time_prekey option"
    and sess :: "'s \<Rightarrow> hex \<Rightarrow> session option"
  assumes getIdentity: "getIdentity S s = (Inr (ident s), s)"
    and getSignedPreKey: "invar s \<Longrightarrow> getSignedPreKey S i s = (Inr (spks s i), s)"
    and getLatestSignedPreKey: "invar s \<Longrightarrow> \<exists>r. getLatestSignedPreKey S s = (Inr r, s)
          \<and> (r = None \<longleftrightarrow> spks s = Map.empty)
          \<and> (\<forall>k. r = Some k \<longrightarrow> k \<in> ran (spks s) \<and> (\<forall>k' \<in> ran (spks s). spk_createdAt k' \<le> spk_createdAt k))"
    and saveSignedPreKey: "invar s \<Longrightarrow> storable_keypair P (spk_keyPair v) \<Longrightarrow>
          \<exists>s'. saveSignedPreKey S i v s = (Inr (), s') \<and> invar s' \<and> spks s' = (spks s)(i \<mapsto> v)
             \<and> otks s' = otks s \<and> sess s' = sess s \<and> ident s' = ident s"
    and getOneTimePreKey: "invar s \<Longrightarrow> getOneTimePreKey S i s = (Inr (otks s i), s)"
    and saveOneTimePreKey: "invar s \<Longrightarrow> storable_keypair P (otk_keyPair v') \<Longrightarrow>
          \<exists>s'. saveOneTimePreKey S i v' s = (Inr (), s') \<and> invar s' \<and> otks s' = (otks s)(i \<mapsto> v')
             \<and> spks s' = spks s \<and> sess s' = sess s \<and> ident s' = ident s"
    and removeOneTimePreKey: "invar s \<Longrightarrow>
          \<exists>s'. removeOneTimePreKey S i s = (Inr (), s') \<and> invar s' \<and> otks s' = (otks s)(i := None)
             \<and> spks s' = spks s \<and> sess s' = sess s \<and> ident s' = ident s"
    and countOneTimePreKeys: "invar s \<Longrightarrow> countOneTimePreKeys S s = (Inr (card (dom (otks s))), s)"
    and getSession: "invar s \<Longrightarrow> getSession S k s = (Inr (sess s (toLowerCase k)), s)"
    and hasSession: "invar s \<Longrightarrow> hasSession S k s = (Inr (sess s (toLowerCase k) \<noteq> None), s)"
    and saveSession: "invar s \<Longrightarrow> storable_session P w \<Longrightarrow>
          \<exists>s'. saveSession S k w s = (Inr (), s') \<and> invar s' \<and> sess s' = (sess s)(toLowerCase k \<mapsto> w)
             \<and> spks s' = spks s \<and> otks s' = otks s \<and> ident s' = ident s"
    and removeSession: "invar s \<Longrightarrow>
          \<exists>s'. removeSession S k s = (Inr (), s') \<and> invar s' \<and> sess s' = (sess s)(toLowerCase k := None)
             \<and> spks s' = spks s \<and> otks s' = otks s \<and> ident s' = ident s"
    and mutateSession: "invar s \<Longrightarrow> storable_session P w \<Longrightarrow> invar (mutateSession S k w s)
             \<and> (\<forall>k'. k' \<noteq> toLowerCase k \<longrightarrow> sess (mutateSession S k w s) k' = sess s k')
             \<and> sess (mutateSession S k w s) (toLowerCase k) \<in> {sess s (toLowerCase k), Some w}
             \<and> spks (mutateSession S k w s) = spks s \<and> otks (mutateSession S k w s) = otks s
             \<and> ident (mutateSession S k w s) = ident s"
begin

text \<open>A session that was saved is read back, whatever the case of the key.\<close>

lemma getSession_saveSession:
  assumes "invar s" and "storable_session P w" and "toLowerCase k' = toLowerCase k"
  shows "\<exists>s'. saveSession S k w s = (Inr (), s') \<and> invar s' \<and> getSession S k' s' = (Inr (Some w), s')"
proof -
  obtain s' where "saveSession S k w s = (Inr (), s')" "invar s'" "sess s' = (sess s)(toLowerCase k \<mapsto> w)"
    using saveSession [OF assms(1,2)] by blast
  then show ?thesis using getSession assms(3) by fastforce
qed

text \<open>A one-time pre-key that was removed is gone, the others stay.\<close>

lemma getOneTimePreKey_remove:
  assumes "invar s"
  shows "\<exists>s'. removeOneTimePreKey S i s = (Inr (), s') \<and> invar s'
     \<and> getOneTimePreKey S j s' = (Inr (if j = i then None else otks s j), s')"
proof -
  obtain s' where "removeOneTimePreKey S i s = (Inr (), s')" "invar s'" "otks s' = (otks s)(i := None)"
    using removeOneTimePreKey [OF assms] by blast
  then show ?thesis using getOneTimePreKey by fastforce
qed

text \<open>A signed pre-key newer than all others is the latest after it was saved.\<close>

lemma latest_after_save:
  assumes "invar s" and "storable_keypair P (spk_keyPair v)"
    and "\<forall>k \<in> ran (spks s). spk_createdAt k < spk_createdAt v"
  shows "\<exists>s'. saveSignedPreKey S i v s = (Inr (), s') \<and> invar s'
     \<and> getLatestSignedPreKey S s' = (Inr (Some v), s') \<and> spks s' = (spks s)(i \<mapsto> v)
     \<and> otks s' = otks s \<and> sess s' = sess s \<and> ident s' = ident s"
proof -
  obtain s' where s': "saveSignedPreKey S i v s = (Inr (), s')" "invar s'" "spks s' = (spks s)(i \<mapsto> v)"
    "otks s' = otks s" "sess s' = sess s" "ident s' = ident s"
    using saveSignedPreKey [OF assms(1,2)] by blast
  obtain r where r: "getLatestSignedPreKey S s' = (Inr r, s')" "r = None \<longleftrightarrow> spks s' = Map.empty"
    "\<And>k. r = Some k \<Longrightarrow> k \<in> ran (spks s') \<and> (\<forall>k' \<in> ran (spks s'). spk_createdAt k' \<le> spk_createdAt k)"
    using getLatestSignedPreKey [OF s'(2)] by blast
  have v: "v \<in> ran (spks s')" using s'(3) by (auto simp: ran_def)
  then have "spks s' \<noteq> Map.empty" by (auto simp: ran_def)
  then obtain k where k: "r = Some k" using r(2) by auto
  then have "k \<in> ran (spks s')" "spk_createdAt v \<le> spk_createdAt k" using r(3) v by auto
  moreover have "k \<in> insert v (ran (spks s))"
    using calculation(1) s'(3) by (auto simp: ran_def split: if_splits)
  ultimately have "k = v" using assms(3) by force
  then show ?thesis using s' r(1) k by blast
qed

end

subsection \<open>InMemorySignalStore\<close>

text \<open>A JavaScript \<open>Map\<close> keeps insertion order; \<open>set\<close> on an existing key keeps its place.\<close>

record mem_store =
  ms_identity :: identity
  ms_signedPreKeys :: "(int \<times> signed_prekey) list"
  ms_oneTimePreKeys :: "(int \<times> one_time_prekey) list"
  ms_sessions :: "(hex \<times> session) list"

definition new_mem_store :: "identity \<Rightarrow> mem_store" where
  "new_mem_store u = \<lparr>ms_identity = u, ms_signedPreKeys = [], ms_oneTimePreKeys = [], ms_sessions = []\<rparr>"

definition mem_saveSignedPreKey :: "int \<Rightarrow> signed_prekey \<Rightarrow> (mem_store, unit) M" where
  "mem_saveSignedPreKey i v = modifyM (\<lambda>s. s\<lparr>ms_signedPreKeys := AList.update i v (ms_signedPreKeys s)\<rparr>)"

definition mem_getSignedPreKey :: "int \<Rightarrow> (mem_store, signed_prekey option) M" where
  "mem_getSignedPreKey i = getM (\<lambda>s. map_of (ms_signedPreKeys s) i)"

definition newer :: "signed_prekey \<Rightarrow> signed_prekey option \<Rightarrow> signed_prekey option" where
  "newer k latest =
     (case latest of None \<Rightarrow> Some k
      | Some l \<Rightarrow> if spk_createdAt k > spk_createdAt l then Some k else latest)"

definition mem_getLatestSignedPreKey :: "(mem_store, signed_prekey option) M" where
  "mem_getLatestSignedPreKey = getM (\<lambda>s. fold newer (map snd (ms_signedPreKeys s)) None)"

definition mem_saveOneTimePreKey :: "int \<Rightarrow> one_time_prekey \<Rightarrow> (mem_store, unit) M" where
  "mem_saveOneTimePreKey i v = modifyM (\<lambda>s. s\<lparr>ms_oneTimePreKeys := AList.update i v (ms_oneTimePreKeys s)\<rparr>)"

definition mem_getOneTimePreKey :: "int \<Rightarrow> (mem_store, one_time_prekey option) M" where
  "mem_getOneTimePreKey i = getM (\<lambda>s. map_of (ms_oneTimePreKeys s) i)"

definition mem_removeOneTimePreKey :: "int \<Rightarrow> (mem_store, unit) M" where
  "mem_removeOneTimePreKey i = modifyM (\<lambda>s. s\<lparr>ms_oneTimePreKeys := AList.delete i (ms_oneTimePreKeys s)\<rparr>)"

definition mem_countOneTimePreKeys :: "(mem_store, nat) M" where
  "mem_countOneTimePreKeys = getM (\<lambda>s. length (ms_oneTimePreKeys s))"

definition mem_saveSession :: "hex \<Rightarrow> session \<Rightarrow> (mem_store, unit) M" where
  "mem_saveSession k v = modifyM (\<lambda>s. s\<lparr>ms_sessions := AList.update (toLowerCase k) v (ms_sessions s)\<rparr>)"

definition mem_getSession :: "hex \<Rightarrow> (mem_store, session option) M" where
  "mem_getSession k = getM (\<lambda>s. map_of (ms_sessions s) (toLowerCase k))"

definition mem_hasSession :: "hex \<Rightarrow> (mem_store, bool) M" where
  "mem_hasSession k = getM (\<lambda>s. map_of (ms_sessions s) (toLowerCase k) \<noteq> None)"

definition mem_removeSession :: "hex \<Rightarrow> (mem_store, unit) M" where
  "mem_removeSession k = modifyM (\<lambda>s. s\<lparr>ms_sessions := AList.delete (toLowerCase k) (ms_sessions s)\<rparr>)"

text \<open>The aliasing effect: the object in the map is the one the caller changes.\<close>

definition mem_mutateSession :: "hex \<Rightarrow> session \<Rightarrow> mem_store \<Rightarrow> mem_store" where
  "mem_mutateSession k v s =
     (if map_of (ms_sessions s) (toLowerCase k) = None then s
      else s\<lparr>ms_sessions := AList.update (toLowerCase k) v (ms_sessions s)\<rparr>)"

definition mem_ops :: "mem_store store_ops" where
  "mem_ops =
     \<lparr>getIdentity = getM ms_identity,
      saveSignedPreKey = mem_saveSignedPreKey, getSignedPreKey = mem_getSignedPreKey,
      getLatestSignedPreKey = mem_getLatestSignedPreKey,
      saveOneTimePreKey = mem_saveOneTimePreKey, getOneTimePreKey = mem_getOneTimePreKey,
      removeOneTimePreKey = mem_removeOneTimePreKey, countOneTimePreKeys = mem_countOneTimePreKeys,
      saveSession = mem_saveSession, getSession = mem_getSession, hasSession = mem_hasSession,
      removeSession = mem_removeSession, mutateSession = mem_mutateSession\<rparr>"

lemmas mem_ops_defs = mem_ops_def mem_saveSignedPreKey_def mem_getSignedPreKey_def
  mem_getLatestSignedPreKey_def mem_saveOneTimePreKey_def mem_getOneTimePreKey_def
  mem_removeOneTimePreKey_def mem_countOneTimePreKeys_def mem_saveSession_def mem_getSession_def
  mem_hasSession_def mem_removeSession_def mem_mutateSession_def

definition mem_invar :: "mem_store \<Rightarrow> bool" where
  "mem_invar s \<longleftrightarrow> distinct (map fst (ms_signedPreKeys s)) \<and> distinct (map fst (ms_oneTimePreKeys s))
     \<and> distinct (map fst (ms_sessions s))"

lemma new_mem_store_invar: "mem_invar (new_mem_store u)"
  by (simp add: mem_invar_def new_mem_store_def)

lemma fold_newer:
  "fold newer ks (Some l) \<noteq> None
   \<and> (\<forall>k. fold newer ks (Some l) = Some k \<longrightarrow> k \<in> insert l (set ks)
        \<and> spk_createdAt l \<le> spk_createdAt k \<and> (\<forall>k' \<in> set ks. spk_createdAt k' \<le> spk_createdAt k))"
proof (induction ks arbitrary: l)
  case (Cons a ks)
  show ?case
    using Cons.IH [of l] Cons.IH [of a] by (cases "spk_createdAt a > spk_createdAt l") (auto simp: newer_def; fastforce)+
qed simp

lemma fold_newer_None:
  "fold newer ks None = r \<Longrightarrow> (r = None \<longleftrightarrow> ks = [])
     \<and> (\<forall>k. r = Some k \<longrightarrow> k \<in> set ks \<and> (\<forall>k' \<in> set ks. spk_createdAt k' \<le> spk_createdAt k))"
  using fold_newer [of "tl ks" "hd ks"] by (cases ks) (auto simp: newer_def)

lemma ran_map_of: "distinct (map fst xs) \<Longrightarrow> ran (map_of xs) = snd ` set xs"
  by (rule ran_distinct)

lemma map_of_empty_iff: "map_of xs = Map.empty \<longleftrightarrow> xs = []"
  by (cases xs) (auto simp: fun_eq_iff)

lemma card_dom_map_of: "distinct (map fst xs) \<Longrightarrow> card (dom (map_of xs)) = length xs"
  by (simp add: dom_map_of_conv_image_fst distinct_card flip: set_map)

lemma mem_latest:
  assumes "mem_invar s"
  shows "\<exists>r. mem_getLatestSignedPreKey s = (Inr r, s)
     \<and> (r = None \<longleftrightarrow> map_of (ms_signedPreKeys s) = Map.empty)
     \<and> (\<forall>k. r = Some k \<longrightarrow> k \<in> ran (map_of (ms_signedPreKeys s))
          \<and> (\<forall>k' \<in> ran (map_of (ms_signedPreKeys s)). spk_createdAt k' \<le> spk_createdAt k))"
  using assms fold_newer_None [of "map snd (ms_signedPreKeys s)", OF refl]
  by (simp add: mem_getLatestSignedPreKey_def mem_invar_def ran_map_of map_of_empty_iff)

lemma mem_mutate:
  "mem_invar s \<Longrightarrow> mem_invar (mem_mutateSession k w s)"
  "k' \<noteq> toLowerCase k \<Longrightarrow> map_of (ms_sessions (mem_mutateSession k w s)) k' = map_of (ms_sessions s) k'"
  "map_of (ms_sessions (mem_mutateSession k w s)) (toLowerCase k) \<in> {map_of (ms_sessions s) (toLowerCase k), Some w}"
  "ms_signedPreKeys (mem_mutateSession k w s) = ms_signedPreKeys s"
  "ms_oneTimePreKeys (mem_mutateSession k w s) = ms_oneTimePreKeys s"
  "ms_identity (mem_mutateSession k w s) = ms_identity s"
  by (simp_all add: mem_mutateSession_def mem_invar_def update_conv' distinct_update)

interpretation mem: signal_store mem_ops P mem_invar ms_identity
  "\<lambda>s. map_of (ms_signedPreKeys s)" "\<lambda>s. map_of (ms_oneTimePreKeys s)" "\<lambda>s. map_of (ms_sessions s)"
proof (unfold_locales, goal_cases)
  case (3 s)
  then show ?case using mem_latest [of s] by (simp add: mem_ops_def)
next
  case (13 s w k)
  have "mutateSession mem_ops = mem_mutateSession" by (simp add: mem_ops_def)
  then show ?case using 13(1) mem_mutate by metis
qed (simp_all add: mem_ops_defs mem_invar_def update_conv' delete_conv' distinct_update
      distinct_delete card_dom_map_of)

end
