(* ===== verification/Crypto_Engine.thy ===== *)
theory Crypto_Engine
  imports Base64 Signal_Store
begin

section \<open>The crypto engine\<close>

text \<open>
  \<open>client/src/crypto/CryptoEngine.ts\<close>: X3DH key agreement and the double ratchet, over any
  store with the methods of \<open>store_ops\<close>. The secret keys, nonces and identifiers that
  \<open>nacl.box.keyPair()\<close>, \<open>nacl.randomBytes\<close> and \<open>Math.random\<close> draw are arguments, as is the
  time \<open>Date.now()\<close> reads (one value per call of an operation). The helpers that change the
  session object they are given are state-and-exception functions on \<open>session\<close>;
  \<open>on_session\<close> runs one on the object the store handed out. Overwriting a message key with
  zeros after its use has no effect a later step can see and is left out.

  Sequence numbers are integers (JavaScript numbers in the range where they are exact).
\<close>

definition MAX_SKIP_MESSAGES :: int where
  "MAX_SKIP_MESSAGES = 2000"

definition HKDF_INFO_X3DH :: bytes where
  "HKDF_INFO_X3DH = text_encode ''TorE2EE-X3DH-MasterSecret''"

definition HKDF_INFO_ROOT :: bytes where
  "HKDF_INFO_ROOT = text_encode ''TorE2EE-RootKDF''"

definition HKDF_INFO_CHAIN :: bytes where
  "HKDF_INFO_CHAIN = text_encode ''TorE2EE-ChainKDF''"

subsection \<open>Key derivation\<close>

text \<open>\<open>kdfRoot\<close> returns the next root key and the chain key, \<open>kdfChain\<close> the next chain key and
  the message key.\<close>

definition kdfRoot :: "prims \<Rightarrow> bytes \<Rightarrow> bytes \<Rightarrow> bytes \<times> bytes" where
  "kdfRoot P rootKey dhOut =
     (let derived = hkdf_sha256 P dhOut rootKey HKDF_INFO_ROOT 64
      in (take 32 derived, take 32 (drop 32 derived)))"

definition kdfChain :: "prims \<Rightarrow> bytes \<Rightarrow> bytes \<times> bytes" where
  "kdfChain P chainKey =
     (let derived = hkdf_sha256 P [1] chainKey HKDF_INFO_CHAIN 64
      in (take 32 derived, take 32 (drop 32 derived)))"

definition generateCurve25519KeyPair :: "prims \<Rightarrow> bytes \<Rightarrow> keypair" where
  "generateCurve25519KeyPair P sk =
     \<lparr>publicKey = boxPublic P sk, secretKey = sk, publicKeyHex = bytesToHex P (boxPublic P sk)\<rparr>"

text \<open>\<open>concatUint8Arrays\<close> fills a zeroed array at a running offset.\<close>

definition set_at :: "bytes \<Rightarrow> nat \<Rightarrow> bytes \<Rightarrow> bytes" where
  "set_at buf off src = take off buf @ src @ drop (off + length src) buf"

definition concatUint8Arrays :: "bytes list \<Rightarrow> bytes" where
  "concatUint8Arrays arrays =
     (let totalLen = fold (\<lambda>curr acc. acc + length curr) arrays 0
      in fst (fold (\<lambda>arr (result, offset). (set_at result offset arr, offset + length arr))
                arrays (replicate totalLen 0, 0)))"

definition x3dh_master :: "prims \<Rightarrow> bytes list \<Rightarrow> bytes" where
  "x3dh_master P dhs = hkdf_sha256 P (concatUint8Arrays dhs) (replicate 32 0) HKDF_INFO_X3DH 32"

subsection \<open>Publishing keys\<close>

text \<open>The loop that stores one-time pre-keys; \<open>draw i\<close> is the secret key and the identifier
  drawn in round \<open>i\<close>.\<close>

fun store_oneTimePreKeys ::
  "prims \<Rightarrow> 's store_ops \<Rightarrow> (nat \<Rightarrow> bytes \<times> int) \<Rightarrow> nat \<Rightarrow> nat \<Rightarrow> ('s, unit) M" where
  "store_oneTimePreKeys P S draw i 0 = ret ()"
| "store_oneTimePreKeys P S draw i (Suc n) =
     bindM (saveOneTimePreKey S (snd (draw i))
         \<lparr>otk_keyId = snd (draw i), otk_keyPair = generateCurve25519KeyPair P (fst (draw i))\<rparr>)
       (\<lambda>_. store_oneTimePreKeys P S draw (i + 1) n)"

definition generatePreKeyBundle ::
  "prims \<Rightarrow> 's store_ops \<Rightarrow> bytes \<Rightarrow> int \<Rightarrow> (nat \<Rightarrow> bytes \<times> int) \<Rightarrow> int \<Rightarrow> nat \<Rightarrow> ('s, prekey_bundle) M" where
  "generatePreKeyBundle P S spkSecret spkId draw now oneTimePreKeyCount =
     bindM (getIdentity S) (\<lambda>u.
     let spkKeyPair = generateCurve25519KeyPair P spkSecret in
     bindM (liftM (signChallenge P (publicKeyHex spkKeyPair) (secretKey (signingKey u)))) (\<lambda>sg.
     bindM (saveSignedPreKey S spkId
         \<lparr>spk_keyId = spkId, spk_keyPair = spkKeyPair, spk_signatureHex = sg, spk_createdAt = now\<rparr>) (\<lambda>_.
     bindM (store_oneTimePreKeys P S draw 0 oneTimePreKeyCount) (\<lambda>_.
     ret \<lparr>pb_identityKeyHex = publicKeyHex (encryptionKey u),
          pb_signingKeyHex = publicKeyHex (signingKey u),
          pb_signedPreKey = \<lparr>sp_keyId = spkId, sp_publicKeyHex = publicKeyHex spkKeyPair,
                             sp_signatureHex = sg\<rparr>,
          pb_oneTimePreKey =
            (if 0 < oneTimePreKeyCount
             then Some \<lparr>op_keyId = snd (draw 0),
                        op_publicKeyHex = publicKeyHex (generateCurve25519KeyPair P (fst (draw 0)))\<rparr>
             else None)\<rparr>))))"

subsection \<open>Starting a session\<close>

definition x3dh_initiator :: "prims \<Rightarrow> identity \<Rightarrow> prekey_bundle \<Rightarrow> keypair \<Rightarrow> (bytes \<times> bytes) res" where
  "x3dh_initiator P u bundle ekA =
     bindR (hexToBytes P (pb_identityKeyHex bundle)) (\<lambda>ikB.
     bindR (hexToBytes P (sp_publicKeyHex (pb_signedPreKey bundle))) (\<lambda>spkB.
     bindR (scalarMult P (secretKey (encryptionKey u)) spkB) (\<lambda>dh1.
     bindR (scalarMult P (secretKey ekA) ikB) (\<lambda>dh2.
     bindR (scalarMult P (secretKey ekA) spkB) (\<lambda>dh3.
     bindR (case pb_oneTimePreKey bundle of
              Some o1 \<Rightarrow> bindR (hexToBytes P (op_publicKeyHex o1)) (\<lambda>opkB.
                        bindR (scalarMult P (secretKey ekA) opkB) (\<lambda>dh4. Inr [dh1, dh2, dh3, dh4]))
            | None \<Rightarrow> Inr [dh1, dh2, dh3]) (\<lambda>dhs.
     bindR (scalarMult P (secretKey ekA) spkB) (\<lambda>initialDh.
     Inr (kdfRoot P (x3dh_master P dhs) initialDh))))))))"

definition initiateSession ::
  "prims \<Rightarrow> 's store_ops \<Rightarrow> bytes \<Rightarrow> int \<Rightarrow> hex \<Rightarrow> prekey_bundle \<Rightarrow> ('s, session) M" where
  "initiateSession P S ekSecret now recipientKeyHex bundle =
     bindM (getIdentity S) (\<lambda>u.
     if \<not> verifySignature P (sp_publicKeyHex (pb_signedPreKey bundle))
            (sp_signatureHex (pb_signedPreKey bundle)) (pb_signingKeyHex bundle)
     then throwM (Error ''Recipient's Signed PreKey signature verification failed'')
     else
       let ekA = generateCurve25519KeyPair P ekSecret in
       bindM (liftM (x3dh_initiator P u bundle ekA)) (\<lambda>(nextRootKey, sendChainKey).
       let ses = \<lparr>recipientIdentityKeyHex = toLowerCase (pb_identityKeyHex bundle),
                  rootKeyHex = bytesToHex P nextRootKey,
                  sendChainKeyHex = Some (bytesToHex P sendChainKey),
                  receiveChainKeyHex = None,
                  localDhKeyPair = ekA,
                  remoteDhPublicKeyHex = Some (toLowerCase (sp_publicKeyHex (pb_signedPreKey bundle))),
                  sendSequenceNumber = 0, receiveSequenceNumber = 0, previousChainLength = 0,
                  skippedMessageKeys = [], createdAt = now, updatedAt = now,
                  oneTimePreKeyId = map_option op_keyId (pb_oneTimePreKey bundle)\<rparr> in
       bindM (saveSession S recipientKeyHex ses) (\<lambda>_. ret ses)))"

definition x3dh_responder ::
  "prims \<Rightarrow> identity \<Rightarrow> keypair \<Rightarrow> keypair option \<Rightarrow> bytes \<Rightarrow> bytes \<Rightarrow> hex \<Rightarrow> (bytes \<times> bytes) res" where
  "x3dh_responder P u spk opk ikA ekA ephemeralHex =
     bindR (scalarMult P (secretKey spk) ikA) (\<lambda>dh1.
     bindR (scalarMult P (secretKey (encryptionKey u)) ekA) (\<lambda>dh2.
     bindR (scalarMult P (secretKey spk) ekA) (\<lambda>dh3.
     bindR (case opk of
              Some kp \<Rightarrow> bindR (scalarMult P (secretKey kp) ekA) (\<lambda>dh4. Inr [dh1, dh2, dh3, dh4])
            | None \<Rightarrow> Inr [dh1, dh2, dh3]) (\<lambda>dhs.
     bindR (hexToBytes P ephemeralHex) (\<lambda>eph.
     bindR (scalarMult P (secretKey spk) eph) (\<lambda>initialDh.
     Inr (kdfRoot P (x3dh_master P dhs) initialDh)))))))"

definition take_oneTimePreKey :: "'s store_ops \<Rightarrow> int option \<Rightarrow> ('s, one_time_prekey option) M" where
  "take_oneTimePreKey S io =
     (case io of None \<Rightarrow> ret None
      | Some i \<Rightarrow> bindM (getOneTimePreKey S i) (\<lambda>opk.
          case opk of None \<Rightarrow> ret None
          | Some k \<Rightarrow> bindM (removeOneTimePreKey S i) (\<lambda>_. ret (Some k))))"

definition initiateBobSession ::
  "prims \<Rightarrow> 's store_ops \<Rightarrow> bytes \<Rightarrow> int \<Rightarrow> hex \<Rightarrow> encrypted_message \<Rightarrow> ('s, session) M" where
  "initiateBobSession P S dhsSecret now senderKeyHex msg =
     (if \<not> truthy (em_initialEphemeralKeyHex msg) \<or> \<not> truthy (em_initialIdentityKeyHex msg)
      then throwM (Error ''Initial message missing X3DH parameters'')
      else
        bindM (getIdentity S) (\<lambda>u.
        bindM (liftM (hexToBytes P (the (em_initialIdentityKeyHex msg)))) (\<lambda>ikA.
        bindM (liftM (hexToBytes P (the (em_initialEphemeralKeyHex msg)))) (\<lambda>ekA.
        bindM (getLatestSignedPreKey S) (\<lambda>spko.
        case spko of None \<Rightarrow> throwM (Error ''No Signed PreKey found in store'')
        | Some spk \<Rightarrow>
          bindM (take_oneTimePreKey S (em_oneTimePreKeyId msg)) (\<lambda>opk.
          bindM (liftM (x3dh_responder P u (spk_keyPair spk) (map_option otk_keyPair opk) ikA ekA
                          (em_ephemeralPublicKeyHex msg))) (\<lambda>(nextRootKey, receiveChainKey).
          let ses = \<lparr>recipientIdentityKeyHex = toLowerCase senderKeyHex,
                     rootKeyHex = bytesToHex P nextRootKey,
                     sendChainKeyHex = None,
                     receiveChainKeyHex = Some (bytesToHex P receiveChainKey),
                     localDhKeyPair = generateCurve25519KeyPair P dhsSecret,
                     remoteDhPublicKeyHex = Some (toLowerCase (em_ephemeralPublicKeyHex msg)),
                     sendSequenceNumber = 0, receiveSequenceNumber = 0, previousChainLength = 0,
                     skippedMessageKeys = [], createdAt = now, updatedAt = now,
                     oneTimePreKeyId = None\<rparr> in
          bindM (saveSession S senderKeyHex ses) (\<lambda>_. ret ses))))))))"

subsection \<open>Operations on a session object\<close>

definition on_session :: "'s store_ops \<Rightarrow> hex \<Rightarrow> (session, 'a) M \<Rightarrow> session \<Rightarrow> ('s, 'a \<times> session) M" where
  "on_session S k m ses s =
     (case m ses of
        (Inl e, ses') \<Rightarrow> (Inl e, mutateSession S k ses' s)
      | (Inr a, ses') \<Rightarrow> (Inr (a, ses'), mutateSession S k ses' s))"

text \<open>The start of \<open>encrypt\<close>: a responder derives its sending chain when it first sends.\<close>

definition ensureSendChain :: "prims \<Rightarrow> (session, unit) M" where
  "ensureSendChain P =
     bindM (getM id) (\<lambda>ses.
     if truthy (sendChainKeyHex ses) then ret ()
     else if \<not> truthy (remoteDhPublicKeyHex ses)
     then throwM (Error ''Cannot initialize sending chain without remote DH key'')
     else
       bindM (liftM (hexToBytes P (rootKeyHex ses))) (\<lambda>rootKey.
       bindM (liftM (hexToBytes P (the (remoteDhPublicKeyHex ses)))) (\<lambda>remoteDh.
       bindM (liftM (scalarMult P (secretKey (localDhKeyPair ses)) remoteDh)) (\<lambda>dhSend.
       let (nextRootKey, chainKey) = kdfRoot P rootKey dhSend in
       modifyM (\<lambda>t. t\<lparr>rootKeyHex := bytesToHex P nextRootKey,
                      sendChainKeyHex := Some (bytesToHex P chainKey)\<rparr>)))))"

text \<open>The rest of \<open>encrypt\<close> up to \<open>saveSession\<close>: the sequence number used and the ciphertext.\<close>

definition encryptStep :: "prims \<Rightarrow> bytes \<Rightarrow> int \<Rightarrow> string \<Rightarrow> (session, int \<times> bytes) M" where
  "encryptStep P nonce now plaintext =
     bindM (ensureSendChain P) (\<lambda>_.
     bindM (getM id) (\<lambda>ses.
     bindM (liftM (hexToBytes P (the (sendChainKeyHex ses)))) (\<lambda>currentSendChainKey.
     let (nextChainKey, messageKey) = kdfChain P currentSendChainKey;
         seqNum = sendSequenceNumber ses in
     bindM (modifyM (\<lambda>t. t\<lparr>sendChainKeyHex := Some (bytesToHex P nextChainKey),
                           sendSequenceNumber := seqNum + 1, updatedAt := now\<rparr>)) (\<lambda>_.
     bindM (liftM (secretbox P (text_encode plaintext) nonce messageKey)) (\<lambda>ciphertext.
     ret (seqNum, ciphertext))))))"

definition encrypt ::
  "prims \<Rightarrow> 's store_ops \<Rightarrow> bytes \<Rightarrow> int \<Rightarrow> hex \<Rightarrow> string \<Rightarrow> int option \<Rightarrow> ('s, encrypted_message) M" where
  "encrypt P S nonce now recipientKeyHex plaintext contextOtkId =
     bindM (getSession S recipientKeyHex) (\<lambda>so.
     case so of None \<Rightarrow> throwM (Error (''No active session found for '' @ recipientKeyHex))
     | Some ses0 \<Rightarrow>
       bindM (on_session S recipientKeyHex (encryptStep P nonce now plaintext) ses0) (\<lambda>((seqNum, ciphertext), ses).
       let otkIdToSend = (if contextOtkId \<noteq> None then contextOtkId
                          else if seqNum = 0 then oneTimePreKeyId ses else None) in
       bindM (saveSession S recipientKeyHex ses) (\<lambda>_.
       bindM (getIdentity S) (\<lambda>u.
       ret \<lparr>em_ephemeralPublicKeyHex = publicKeyHex (localDhKeyPair ses),
            em_sequenceNumber = seqNum,
            em_previousChainLength = previousChainLength ses,
            em_ciphertext = b64_encode ciphertext,
            em_nonce = bytesToHex P nonce,
            em_oneTimePreKeyId = otkIdToSend,
            em_initialIdentityKeyHex = Some (publicKeyHex (encryptionKey u)),
            em_initialEphemeralKeyHex = Some (publicKeyHex (localDhKeyPair ses))\<rparr>))))"

definition dhRatchetStep :: "prims \<Rightarrow> bytes \<Rightarrow> hex \<Rightarrow> (session, unit) M" where
  "dhRatchetStep P newSecret newRemoteDhPublicKeyHex =
     bindM (getM id) (\<lambda>ses.
     bindM (liftM (hexToBytes P (rootKeyHex ses))) (\<lambda>rootKey.
     bindM (liftM (hexToBytes P newRemoteDhPublicKeyHex)) (\<lambda>remoteDh.
     bindM (modifyM (\<lambda>t. t\<lparr>previousChainLength := sendSequenceNumber t, sendSequenceNumber := 0,
                           receiveSequenceNumber := 0,
                           remoteDhPublicKeyHex := Some (toLowerCase newRemoteDhPublicKeyHex)\<rparr>)) (\<lambda>_.
     bindM (liftM (scalarMult P (secretKey (localDhKeyPair ses)) remoteDh)) (\<lambda>dhReceive.
     let (root1, receiveChain) = kdfRoot P rootKey dhReceive;
         newPair = generateCurve25519KeyPair P newSecret in
     bindM (modifyM (\<lambda>t. t\<lparr>receiveChainKeyHex := Some (bytesToHex P receiveChain),
                           localDhKeyPair := newPair\<rparr>)) (\<lambda>_.
     bindM (liftM (scalarMult P (secretKey newPair) remoteDh)) (\<lambda>dhSend.
     let (root2, sendChain) = kdfRoot P root1 dhSend in
     modifyM (\<lambda>t. t\<lparr>rootKeyHex := bytesToHex P root2,
                    sendChainKeyHex := Some (bytesToHex P sendChain)\<rparr>))))))))"

definition skippedKeyId :: "hex \<Rightarrow> int \<Rightarrow> string" where
  "skippedKeyId dhHex n = toLowerCase dhHex @ '':'' @ show_int n"

text \<open>The loop of \<open>skipMessageKeys\<close> on its chain key, number and dictionary.\<close>

function skip_loop :: "prims \<Rightarrow> hex \<Rightarrow> int \<Rightarrow> bytes \<Rightarrow> int \<Rightarrow> hex jsobj \<Rightarrow> bytes \<times> int \<times> hex jsobj" where
  "skip_loop P remote until chain n ob =
     (if n < until
      then let (nextChainKey, messageKey) = kdfChain P chain
           in skip_loop P remote until nextChainKey (n + 1)
                (obj_set (skippedKeyId remote n) (bytesToHex P messageKey) ob)
      else (chain, n, ob))"
  by pat_completeness auto
termination
  by (relation "measure (\<lambda>(P, remote, until, chain, n, ob). nat (until - n))") auto

declare skip_loop.simps [simp del]

definition skipMessageKeys :: "prims \<Rightarrow> int \<Rightarrow> (session, unit) M" where
  "skipMessageKeys P until =
     bindM (getM id) (\<lambda>ses.
     if \<not> truthy (receiveChainKeyHex ses) \<or> \<not> truthy (remoteDhPublicKeyHex ses) then ret ()
     else if receiveSequenceNumber ses + MAX_SKIP_MESSAGES < until
     then throwM (Error ''Too many skipped messages'')
     else
       bindM (liftM (hexToBytes P (the (receiveChainKeyHex ses)))) (\<lambda>chain0.
       let (chain, n, skipped) = skip_loop P (the (remoteDhPublicKeyHex ses)) until chain0
                                   (receiveSequenceNumber ses) (skippedMessageKeys ses) in
       modifyM (\<lambda>t. t\<lparr>skippedMessageKeys := skipped, receiveSequenceNumber := n,
                      receiveChainKeyHex := Some (bytesToHex P chain)\<rparr>)))"

definition decryptWithKey :: "prims \<Rightarrow> encrypted_message \<Rightarrow> bytes \<Rightarrow> string res" where
  "decryptWithKey P msg messageKey =
     bindR (hexToBytes P (em_nonce msg)) (\<lambda>nonce.
     bindR (secretbox_open P (b64_decode (em_ciphertext msg)) nonce messageKey) (\<lambda>ro.
     case ro of None \<Rightarrow> Inl (Error ''Decryption failed or message corrupted / tampered with'')
     | Some decrypted \<Rightarrow> Inr (text_decode decrypted)))"

text \<open>
  The two ways \<open>decrypt\<close> finds a message key on the session object: a stored skipped key, which
  it deletes, or the receiving chain, after a ratchet step when the header key is new.
\<close>

definition takeSkippedKey :: "prims \<Rightarrow> encrypted_message \<Rightarrow> (session, bytes) M" where
  "takeSkippedKey P msg =
     bindM (getM id) (\<lambda>ses.
     let keyId = skippedKeyId (em_ephemeralPublicKeyHex msg) (em_sequenceNumber msg) in
     bindM (liftM (hexToBytes P (the (obj_get (skippedMessageKeys ses) keyId)))) (\<lambda>messageKey.
     bindM (modifyM (\<lambda>t. t\<lparr>skippedMessageKeys := obj_delete keyId (skippedMessageKeys t)\<rparr>)) (\<lambda>_.
     ret messageKey)))"

definition needsRatchet :: "session \<Rightarrow> encrypted_message \<Rightarrow> bool" where
  "needsRatchet ses msg \<longleftrightarrow>
     \<not> truthy (remoteDhPublicKeyHex ses) \<or>
     toLowerCase (the (remoteDhPublicKeyHex ses)) \<noteq> toLowerCase (em_ephemeralPublicKeyHex msg)"

definition advanceChain :: "prims \<Rightarrow> int \<Rightarrow> (session, bytes) M" where
  "advanceChain P now =
     bindM (getM id) (\<lambda>ses.
     if \<not> truthy (receiveChainKeyHex ses) then throwM (Error ''Receiving chain key not available'')
     else
       bindM (liftM (hexToBytes P (the (receiveChainKeyHex ses)))) (\<lambda>chain.
       let (nextChainKey, messageKey) = kdfChain P chain in
       bindM (modifyM (\<lambda>t. t\<lparr>receiveChainKeyHex := Some (bytesToHex P nextChainKey),
                             receiveSequenceNumber := receiveSequenceNumber t + 1,
                             updatedAt := now\<rparr>)) (\<lambda>_.
       ret messageKey)))"

definition deriveMessageKey :: "prims \<Rightarrow> bytes \<Rightarrow> int \<Rightarrow> encrypted_message \<Rightarrow> (session, bytes) M" where
  "deriveMessageKey P ratchetSecret now msg =
     bindM (getM id) (\<lambda>ses.
     bindM (if needsRatchet ses msg
            then bindM (skipMessageKeys P (em_previousChainLength msg)) (\<lambda>_.
                   dhRatchetStep P ratchetSecret (em_ephemeralPublicKeyHex msg))
            else ret ()) (\<lambda>_.
     bindM (skipMessageKeys P (em_sequenceNumber msg)) (\<lambda>_.
     advanceChain P now)))"

definition hasSkippedKey :: "session \<Rightarrow> encrypted_message \<Rightarrow> bool" where
  "hasSkippedKey ses msg =
     truthy (obj_get (skippedMessageKeys ses)
       (skippedKeyId (em_ephemeralPublicKeyHex msg) (em_sequenceNumber msg)))"

text \<open>
  \<open>bobSecret\<close> is drawn when a session has to be created, \<open>ratchetSecret\<close> by a ratchet step.
  In both branches the changed session is saved before the message is opened.
\<close>

definition decrypt ::
  "prims \<Rightarrow> 's store_ops \<Rightarrow> bytes \<Rightarrow> bytes \<Rightarrow> int \<Rightarrow> hex \<Rightarrow> encrypted_message \<Rightarrow> ('s, string) M" where
  "decrypt P S bobSecret ratchetSecret now senderKeyHex msg =
     bindM (getSession S senderKeyHex) (\<lambda>so.
     bindM (case so of None \<Rightarrow> initiateBobSession P S bobSecret now senderKeyHex msg
            | Some ses \<Rightarrow> ret ses) (\<lambda>ses0.
     if hasSkippedKey ses0 msg
     then
       bindM (on_session S senderKeyHex (takeSkippedKey P msg) ses0) (\<lambda>(messageKey, ses).
       bindM (saveSession S senderKeyHex ses) (\<lambda>_.
       liftM (decryptWithKey P msg messageKey)))
     else
       bindM (on_session S senderKeyHex (deriveMessageKey P ratchetSecret now msg) ses0) (\<lambda>(messageKey, ses).
       bindM (saveSession S senderKeyHex ses) (\<lambda>_.
       liftM (decryptWithKey P msg messageKey)))))"

end
