(* ===== verification/Ratchet.thy ===== *)
theory Ratchet
  imports Crypto_Engine
begin

section \<open>The double ratchet on session objects\<close>

text \<open>
  What the session operations of \<open>Crypto_Engine\<close> compute, in terms of the sequence of chain and
  message keys a chain key generates, and the invariant of two sessions that talk to each
  other: whoever ratcheted last is ahead of the other by one root step, and every message in
  flight has its key stored, ahead on the current receiving chain, or on the chain the
  receiver has not seen yet.
\<close>

subsection \<open>Chains\<close>

primrec chain_key :: "prims \<Rightarrow> bytes \<Rightarrow> nat \<Rightarrow> bytes" where
  "chain_key P c 0 = c"
| "chain_key P c (Suc n) = fst (kdfChain P (chain_key P c n))"

definition message_key :: "prims \<Rightarrow> bytes \<Rightarrow> nat \<Rightarrow> bytes" where
  "message_key P c n = snd (kdfChain P (chain_key P c n))"

lemma kdfChain_chain_key: "kdfChain P (chain_key P c n) = (chain_key P c (Suc n), message_key P c n)"
  by (simp add: message_key_def)

lemma length_kdf [simp]:
  assumes "kdf_length P"
  shows "length (fst (kdfRoot P r d)) = 32" "length (snd (kdfRoot P r d)) = 32"
    "length (fst (kdfChain P c)) = 32" "length (snd (kdfChain P c)) = 32"
  using assms by (simp_all add: kdfRoot_def kdfChain_def Let_def prim_laws)

lemma length_chain_key [simp]: "kdf_length P \<Longrightarrow> length c = 32 \<Longrightarrow> length (chain_key P c n) = 32"
  by (cases n) simp_all

lemma length_message_key [simp]: "kdf_length P \<Longrightarrow> length (message_key P c n) = 32"
  by (simp add: message_key_def)

subsection \<open>Identifiers of skipped keys\<close>

text \<open>A normalised header key: lower-case hexadecimal, so the identifiers are injective.\<close>

definition wf_header :: "hex \<Rightarrow> bool" where
  "wf_header h \<longleftrightarrow> h \<noteq> [] \<and> toLowerCase h = h \<and> CHR '':'' \<notin> set h"

lemma wf_header_keypair:
  assumes "hex_codec P" and "dh_agreement P" and "box_keypair P kp"
  shows "wf_header (publicKeyHex kp)"
proof -
  have "publicKey kp \<noteq> []"
    using assms(2,3) length_boxPublic [of P "secretKey kp"] by (auto simp: box_keypair_def)
  then show ?thesis
    using assms(1,3) by (simp add: wf_header_def box_keypair_def prim_laws bytesToHex_no_colon)
qed

lemma skippedKeyId_inject:
  "wf_header h \<Longrightarrow> wf_header h' \<Longrightarrow> skippedKeyId h i = skippedKeyId h' j \<longleftrightarrow> h = h' \<and> i = j"
  by (simp add: skippedKeyId_def wf_header_def append_sep_inject)

lemma skippedKeyId_same [simp]: "skippedKeyId h i = skippedKeyId h j \<longleftrightarrow> i = j"
  by (simp add: skippedKeyId_def)

lemma skippedKeyId_lower [simp]: "skippedKeyId (toLowerCase h) i = skippedKeyId h i"
  by (simp add: skippedKeyId_def)

text \<open>The dictionary after the keys of the indices \<open>is\<close> of a chain were stored.\<close>

definition store_keys :: "prims \<Rightarrow> hex \<Rightarrow> bytes \<Rightarrow> nat list \<Rightarrow> hex jsobj \<Rightarrow> hex jsobj" where
  "store_keys P h c is ob =
     fold (\<lambda>i. obj_set (skippedKeyId h (int i)) (bytesToHex P (message_key P c i))) is ob"

lemma store_keys_Nil [simp]: "store_keys P h c [] ob = ob"
  by (simp add: store_keys_def)

lemma store_keys_Cons [simp]: "store_keys P h c (i # is) ob
  = store_keys P h c is (obj_set (skippedKeyId h (int i)) (bytesToHex P (message_key P c i)) ob)"
  by (simp add: store_keys_def)

lemma obj_get_store_keys:
  "obj_get (store_keys P h c is ob) (skippedKeyId h (int j))
     = (if j \<in> set is then Some (bytesToHex P (message_key P c j)) else obj_get ob (skippedKeyId h (int j)))"
  by (induction "is" arbitrary: ob) auto

lemma obj_get_store_keys_other:
  "(\<forall>i \<in> set is. k \<noteq> skippedKeyId h (int i)) \<Longrightarrow> obj_get (store_keys P h c is ob) k = obj_get ob k"
  by (induction "is" arbitrary: ob) auto

lemma distinct_store_keys: "distinct (map fst ob) \<Longrightarrow> distinct (map fst (store_keys P h c is ob))"
  by (induction "is" arbitrary: ob) auto

lemma skip_loop_eq:
  "skip_loop P h (int u) (chain_key P c n) (int n) ob
     = (chain_key P c (max n u), int (max n u), store_keys P h c [n..<u] ob)"
proof (induction "u - n" arbitrary: n ob)
  case 0
  then show ?case by (subst skip_loop.simps) (simp add: max_def)
next
  case (Suc d)
  then have lt: "n < u" and "d = u - Suc n" by auto
  then have "skip_loop P h (int u) (chain_key P c (Suc n)) (int (Suc n)) ob'
     = (chain_key P c (max (Suc n) u), int (max (Suc n) u), store_keys P h c [Suc n..<u] ob')" for ob'
    using Suc.hyps(1) by blast
  then show ?case
    using lt by (subst skip_loop.simps)
      (simp add: kdfChain_chain_key upt_conv_Cons max_def add.commute del: chain_key.simps)
qed

subsection \<open>The session operations\<close>

definition recv_at :: "prims \<Rightarrow> session \<Rightarrow> bytes \<Rightarrow> nat \<Rightarrow> bool" where
  "recv_at P ses c n \<longleftrightarrow> length c = 32 \<and> receiveSequenceNumber ses = int n \<and>
     receiveChainKeyHex ses = Some (bytesToHex P (chain_key P c n))"

definition send_at :: "prims \<Rightarrow> session \<Rightarrow> bytes \<Rightarrow> nat \<Rightarrow> bool" where
  "send_at P ses c n \<longleftrightarrow> length c = 32 \<and> sendSequenceNumber ses = int n \<and>
     sendChainKeyHex ses = Some (bytesToHex P (chain_key P c n))"

lemma hex_key_nonempty: "hex_codec P \<Longrightarrow> length b = 32 \<Longrightarrow> bytesToHex P b \<noteq> []"
  by (auto simp: prim_laws)

text \<open>Skipping up to number \<open>u\<close> stores the keys in between and nothing else.\<close>

definition skip_to :: "prims \<Rightarrow> bytes \<Rightarrow> hex \<Rightarrow> nat \<Rightarrow> nat \<Rightarrow> session \<Rightarrow> session" where
  "skip_to P c h n u ses = ses
     \<lparr>skippedMessageKeys := store_keys P h c [n..<u] (skippedMessageKeys ses),
      receiveSequenceNumber := int (max n u),
      receiveChainKeyHex := Some (bytesToHex P (chain_key P c (max n u)))\<rparr>"

lemma skipMessageKeys_at:
  assumes "hex_codec P" "kdf_length P" "recv_at P ses c n"
    and "remoteDhPublicKeyHex ses = Some h" "h \<noteq> []" "int u \<le> int n + MAX_SKIP_MESSAGES"
  shows "skipMessageKeys P (int u) ses = (Inr (), skip_to P c h n u ses)"
proof -
  have "bytesToHex P (chain_key P c n) \<noteq> []"
    using assms by (simp add: recv_at_def hex_key_nonempty)
  then show ?thesis
    using assms by (simp add: skipMessageKeys_def recv_at_def prim_laws skip_loop_eq skip_to_def not_less)
qed

lemma skipMessageKeys_none:
  "receiveChainKeyHex ses = None \<Longrightarrow> skipMessageKeys P u ses = (Inr (), ses)"
  by (simp add: skipMessageKeys_def)

lemma skip_to_recv: "recv_at P ses c n \<Longrightarrow> recv_at P (skip_to P c h n u ses) c (max n u)"
  by (simp add: recv_at_def skip_to_def)

lemma skip_to_sel [simp]:
  "remoteDhPublicKeyHex (skip_to P c h n u ses) = remoteDhPublicKeyHex ses"
  "localDhKeyPair (skip_to P c h n u ses) = localDhKeyPair ses"
  "rootKeyHex (skip_to P c h n u ses) = rootKeyHex ses"
  "sendChainKeyHex (skip_to P c h n u ses) = sendChainKeyHex ses"
  "sendSequenceNumber (skip_to P c h n u ses) = sendSequenceNumber ses"
  "previousChainLength (skip_to P c h n u ses) = previousChainLength ses"
  "skippedMessageKeys (skip_to P c h n u ses) = store_keys P h c [n..<u] (skippedMessageKeys ses)"
  by (simp_all add: skip_to_def)

definition advanced :: "prims \<Rightarrow> bytes \<Rightarrow> nat \<Rightarrow> int \<Rightarrow> session \<Rightarrow> session" where
  "advanced P c n now ses = ses
     \<lparr>receiveChainKeyHex := Some (bytesToHex P (chain_key P c (Suc n))),
      receiveSequenceNumber := int (Suc n), updatedAt := now\<rparr>"

lemma advanced_sel [simp]:
  "remoteDhPublicKeyHex (advanced P c n now ses) = remoteDhPublicKeyHex ses"
  "localDhKeyPair (advanced P c n now ses) = localDhKeyPair ses"
  "rootKeyHex (advanced P c n now ses) = rootKeyHex ses"
  "sendChainKeyHex (advanced P c n now ses) = sendChainKeyHex ses"
  "sendSequenceNumber (advanced P c n now ses) = sendSequenceNumber ses"
  "previousChainLength (advanced P c n now ses) = previousChainLength ses"
  "skippedMessageKeys (advanced P c n now ses) = skippedMessageKeys ses"
  by (simp_all add: advanced_def)

lemma advanced_recv: "recv_at P ses c n \<Longrightarrow> recv_at P (advanced P c n now ses) c (Suc n)"
  by (simp add: recv_at_def advanced_def)

lemma advanceChain_at:
  assumes "hex_codec P" "kdf_length P" "recv_at P ses c n"
  shows "advanceChain P now ses = (Inr (message_key P c n), advanced P c n now ses)"
proof -
  have "bytesToHex P (chain_key P c n) \<noteq> []"
    using assms by (simp add: recv_at_def hex_key_nonempty)
  then show ?thesis
    using assms by (simp add: advanceChain_def recv_at_def prim_laws kdfChain_chain_key advanced_def
        del: chain_key.simps)
qed

text \<open>A message on the current receiving chain, at or after the next expected number.\<close>

lemma deriveMessageKey_current:
  assumes "hex_codec P" "kdf_length P" "recv_at P ses c n"
    and "remoteDhPublicKeyHex ses = Some h" "h \<noteq> []"
    and "toLowerCase (em_ephemeralPublicKeyHex msg) = toLowerCase h"
    and "em_sequenceNumber msg = int m" "n \<le> m" "int m \<le> int n + MAX_SKIP_MESSAGES"
  shows "deriveMessageKey P sk now msg ses
     = (Inr (message_key P c m), advanced P c m now (skip_to P c h n m ses))"
proof -
  have "\<not> needsRatchet ses msg" using assms(4-6) by (simp add: needsRatchet_def)
  moreover have "recv_at P (skip_to P c h n m ses) c m"
    using skip_to_recv [OF assms(3), of h m] assms(8) by (simp add: max_def)
  ultimately show ?thesis
    using skipMessageKeys_at [OF assms(1-5,9)] advanceChain_at [OF assms(1,2)] assms(7)
    by (simp add: deriveMessageKey_def bindM_def)
qed

text \<open>One step of the root key, as the owner of a session computes it for a remote key.\<close>

definition root_step :: "prims \<Rightarrow> session \<Rightarrow> bytes \<Rightarrow> bytes \<Rightarrow> bytes \<Rightarrow> bool" where
  "root_step P ses pub r c \<longleftrightarrow> (\<exists>root dh. length root = 32 \<and> rootKeyHex ses = bytesToHex P root \<and>
     scalarMult P (secretKey (localDhKeyPair ses)) pub = Inr dh \<and> kdfRoot P root dh = (r, c))"

text \<open>The session after a ratchet step to the header key \<open>hx\<close> with the new secret \<open>sk\<close>.\<close>

definition ratcheted ::
  "prims \<Rightarrow> bytes \<Rightarrow> hex \<Rightarrow> bytes \<Rightarrow> bytes \<Rightarrow> bytes \<Rightarrow> session \<Rightarrow> session" where
  "ratcheted P sk hx c1 r2 c2 ses = ses
     \<lparr>previousChainLength := sendSequenceNumber ses, sendSequenceNumber := 0,
      receiveSequenceNumber := 0, remoteDhPublicKeyHex := Some (toLowerCase hx),
      receiveChainKeyHex := Some (bytesToHex P c1),
      localDhKeyPair := generateCurve25519KeyPair P sk,
      rootKeyHex := bytesToHex P r2, sendChainKeyHex := Some (bytesToHex P c2)\<rparr>"

lemma dhRatchetStep_eq:
  assumes "hex_codec P" and "root_step P ses pub r1 c1" and "hexToBytes P hx = Inr pub"
    and "scalarMult P sk pub = Inr dh2" and "kdfRoot P r1 dh2 = (r2, c2)"
  shows "dhRatchetStep P sk hx ses = (Inr (), ratcheted P sk hx c1 r2 c2 ses)"
  using assms by (auto simp: dhRatchetStep_def root_step_def prim_laws generateCurve25519KeyPair_def
      ratcheted_def Let_def)

end
