(* ===== verification/Ratchet_Pair.thy ===== *)
theory Ratchet_Pair
  imports Ratchet
begin

section \<open>Two sessions that talk to each other\<close>

text \<open>
  The invariant of a pair of sessions of \<open>CryptoEngine.ts\<close> and of the messages in flight between
  them, and its preservation by sending (\<open>encryptStep\<close>) and receiving (\<open>openSession\<close>: what
  \<open>decrypt\<close> does to an existing session). Ghost data: the set \<open>used\<close> of header keys either side
  has had, the messages in flight with their plaintexts. One side, X, is ahead: its sending chain
  starts one root step after the root key of Y, and Y has not seen a message of that chain.
\<close>

named_theorems pair_simps \<open>the parts of the pair invariant\<close>

type_synonym flight = "encrypted_message \<times> string"

definition ratchet_laws :: "prims \<Rightarrow> bool" where
  "ratchet_laws P \<longleftrightarrow> hex_codec P \<and> dh_agreement P \<and> kdf_length P \<and> secretbox_correct P"

lemma ratchet_lawsD:
  assumes "ratchet_laws P"
  shows "hex_codec P" "dh_agreement P" "kdf_length P" "secretbox_correct P"
  using assms by (simp_all add: ratchet_laws_def)

definition openSession :: "prims \<Rightarrow> bytes \<Rightarrow> int \<Rightarrow> encrypted_message \<Rightarrow> (session, bytes) M" where
  "openSession P sk now msg ses =
     (if hasSkippedKey ses msg then takeSkippedKey P msg ses else deriveMessageKey P sk now msg ses)"

subsection \<open>Where the key of a message in flight is\<close>

definition flight_id :: "flight \<Rightarrow> string" where
  "flight_id f = skippedKeyId (em_ephemeralPublicKeyHex (fst f)) (em_sequenceNumber (fst f))"

definition opens :: "prims \<Rightarrow> flight \<Rightarrow> bytes \<Rightarrow> bool" where
  "opens P f mk \<longleftrightarrow> length mk = 32 \<and> decryptWithKey P (fst f) mk = Inr (snd f)"

definition in_skip :: "prims \<Rightarrow> session \<Rightarrow> flight \<Rightarrow> bool" where
  "in_skip P R f \<longleftrightarrow>
     (\<exists>mk. obj_get (skippedMessageKeys R) (flight_id f) = Some (bytesToHex P mk) \<and> opens P f mk)"

definition in_cur :: "prims \<Rightarrow> session \<Rightarrow> bytes \<Rightarrow> int \<Rightarrow> flight \<Rightarrow> bool" where
  "in_cur P R c lim f \<longleftrightarrow>
     (\<exists>n. em_sequenceNumber (fst f) = int n \<and> remoteDhPublicKeyHex R = Some (em_ephemeralPublicKeyHex (fst f)) \<and>
          receiveSequenceNumber R \<le> int n \<and> int n < lim \<and> opens P f (message_key P c n))"

definition in_new :: "prims \<Rightarrow> session \<Rightarrow> bytes \<Rightarrow> flight \<Rightarrow> bool" where
  "in_new P D c f \<longleftrightarrow>
     (\<exists>n. em_sequenceNumber (fst f) = int n \<and>
          em_ephemeralPublicKeyHex (fst f) = publicKeyHex (localDhKeyPair D) \<and>
          em_previousChainLength (fst f) = previousChainLength D \<and>
          int n < sendSequenceNumber D \<and> opens P f (message_key P c n))"

subsection \<open>The parts of the invariant\<close>

definition keys_used :: "hex set \<Rightarrow> session \<Rightarrow> bool" where
  "keys_used used ses \<longleftrightarrow> (\<forall>k v. obj_get (skippedMessageKeys ses) k = Some v \<longrightarrow>
     (\<exists>h \<in> used. \<exists>i. k = skippedKeyId h i))"

definition party :: "prims \<Rightarrow> hex set \<Rightarrow> session \<Rightarrow> bool" where
  "party P used ses \<longleftrightarrow> box_keypair P (localDhKeyPair ses) \<and> publicKeyHex (localDhKeyPair ses) \<in> used \<and>
     keys_used used ses \<and> distinct (map fst (skippedMessageKeys ses)) \<and>
     (\<forall>h. remoteDhPublicKeyHex ses = Some h \<longrightarrow> h \<in> used)"

definition recv_ok :: "prims \<Rightarrow> session \<Rightarrow> bytes \<Rightarrow> int \<Rightarrow> bool" where
  "recv_ok P R c lim \<longleftrightarrow>
     (\<exists>m h. remoteDhPublicKeyHex R = Some h \<and> wf_header h \<and> recv_at P R c m \<and> int m \<le> lim \<and>
        (\<forall>i \<ge> m. obj_get (skippedMessageKeys R) (skippedKeyId h (int i)) = None))"

definition ahead_send :: "prims \<Rightarrow> session \<Rightarrow> session \<Rightarrow> bytes \<Rightarrow> bool" where
  "ahead_send P X Y cX \<longleftrightarrow>
     (\<exists>rX. root_step P Y (publicKey (localDhKeyPair X)) rX cX \<and>
        ((\<exists>n. send_at P X cX n) \<and> rootKeyHex X = bytesToHex P rX
         \<or> sendChainKeyHex X = None \<and> sendSequenceNumber X = 0 \<and> rootKeyHex X = rootKeyHex Y))"

definition flights_ok :: "hex set \<Rightarrow> flight list \<Rightarrow> bool" where
  "flights_ok used F \<longleftrightarrow> distinct (map flight_id F) \<and>
     (\<forall>f \<in> set F. em_ephemeralPublicKeyHex (fst f) \<in> used)"

text \<open>
  X is ahead of Y; \<open>F\<close> is in flight from X to Y, \<open>G\<close> from Y to X. \<open>cX\<close>, \<open>cY\<close> start the sending
  chains of X and Y, \<open>cO\<close> starts the chain of X that Y is receiving.
\<close>

definition ahead_at ::
  "prims \<Rightarrow> hex set \<Rightarrow> session \<Rightarrow> session \<Rightarrow> flight list \<Rightarrow> flight list \<Rightarrow> bytes \<Rightarrow> bytes \<Rightarrow> bytes \<Rightarrow> bool" where
  "ahead_at P used X Y F G cX cY cO \<longleftrightarrow>
     (\<forall>h \<in> used. wf_header h) \<and> party P used X \<and> party P used Y \<and>
     flights_ok used F \<and> flights_ok used G \<and>
     ahead_send P X Y cX \<and> (\<exists>n. send_at P Y cY n) \<and>
     remoteDhPublicKeyHex X = Some (publicKeyHex (localDhKeyPair Y)) \<and>
     (\<exists>h. remoteDhPublicKeyHex Y = Some h \<and> h \<noteq> publicKeyHex (localDhKeyPair X)) \<and>
     recv_ok P X cY (sendSequenceNumber Y) \<and>
     (receiveChainKeyHex Y = None \<and> previousChainLength X = 0 \<or> recv_ok P Y cO (previousChainLength X)) \<and>
     0 \<le> previousChainLength X \<and>
     (\<forall>i. obj_get (skippedMessageKeys Y) (skippedKeyId (publicKeyHex (localDhKeyPair X)) i) = None) \<and>
     (\<forall>f \<in> set F. in_skip P Y f \<or> in_new P X cX f \<or> (receiveChainKeyHex Y \<noteq> None \<and> in_cur P Y cO (previousChainLength X) f)) \<and>
     (\<forall>g \<in> set G. in_skip P X g \<or> in_cur P X cY (sendSequenceNumber Y) g)"

definition ahead :: "prims \<Rightarrow> hex set \<Rightarrow> session \<Rightarrow> session \<Rightarrow> flight list \<Rightarrow> flight list \<Rightarrow> bool" where
  "ahead P used X Y F G \<longleftrightarrow> (\<exists>cX cY cO. ahead_at P used X Y F G cX cY cO)"

text \<open>The invariant of a pair: one of the two is ahead.\<close>

definition linked :: "prims \<Rightarrow> hex set \<Rightarrow> session \<Rightarrow> session \<Rightarrow> flight list \<Rightarrow> flight list \<Rightarrow> bool" where
  "linked P used A B FAB FBA \<longleftrightarrow> ahead P used A B FAB FBA \<or> ahead P used B A FBA FAB"

text \<open>The gaps the code tolerates (\<open>MAX_SKIP_MESSAGES\<close>).\<close>

definition within_gap :: "session \<Rightarrow> encrypted_message \<Rightarrow> bool" where
  "within_gap ses msg \<longleftrightarrow> hasSkippedKey ses msg \<or>
     (if needsRatchet ses msg
      then em_previousChainLength msg \<le> receiveSequenceNumber ses + MAX_SKIP_MESSAGES
         \<and> em_sequenceNumber msg \<le> MAX_SKIP_MESSAGES
      else em_sequenceNumber msg \<le> receiveSequenceNumber ses + MAX_SKIP_MESSAGES)"

subsection \<open>Receiving on a chain that is known\<close>

text \<open>What a receipt that needs no ratchet step leaves as it was.\<close>

definition receives :: "prims \<Rightarrow> bytes \<Rightarrow> int \<Rightarrow> flight \<Rightarrow> session \<Rightarrow> session \<Rightarrow> bool" where
  "receives P c lim f R R' \<longleftrightarrow>
     localDhKeyPair R' = localDhKeyPair R \<and> rootKeyHex R' = rootKeyHex R \<and>
     sendChainKeyHex R' = sendChainKeyHex R \<and> sendSequenceNumber R' = sendSequenceNumber R \<and>
     previousChainLength R' = previousChainLength R \<and> remoteDhPublicKeyHex R' = remoteDhPublicKeyHex R \<and>
     (receiveChainKeyHex R' = None \<longleftrightarrow> receiveChainKeyHex R = None) \<and>
     (\<forall>f'. flight_id f' \<noteq> flight_id f \<longrightarrow> in_skip P R f' \<longrightarrow> in_skip P R' f') \<and>
     (\<forall>f'. flight_id f' \<noteq> flight_id f \<longrightarrow> in_cur P R c lim f' \<longrightarrow> in_skip P R' f' \<or> in_cur P R' c lim f') \<and>
     (\<forall>h i. wf_header h \<longrightarrow> remoteDhPublicKeyHex R \<noteq> Some h \<longrightarrow>
        obj_get (skippedMessageKeys R) (skippedKeyId h i) = None \<longrightarrow>
        obj_get (skippedMessageKeys R') (skippedKeyId h i) = None) \<and>
     (\<forall>used. party P used R \<longrightarrow> party P used R') \<and>
     (recv_ok P R c lim \<longrightarrow> recv_ok P R' c lim)"

lemma hasSkippedKey_iff:
  "ratchet_laws P \<Longrightarrow> in_skip P R f \<Longrightarrow> hasSkippedKey R (fst f)"
  by (auto simp: hasSkippedKey_def in_skip_def opens_def flight_id_def hex_key_nonempty ratchet_lawsD)

lemma receive_skipped:
  assumes "ratchet_laws P" and "in_skip P R f"
  shows "\<exists>mk R'. openSession P sk now (fst f) R = (Inr mk, R') \<and> opens P f mk \<and> receives P c lim f R R'"
proof -
  obtain mk where mk: "obj_get (skippedMessageKeys R) (flight_id f) = Some (bytesToHex P mk)" "opens P f mk"
    using assms(2) by (auto simp: in_skip_def)
  let ?R' = "R\<lparr>skippedMessageKeys := obj_delete (flight_id f) (skippedMessageKeys R)\<rparr>"
  have "openSession P sk now (fst f) R = (Inr mk, ?R')"
    using hasSkippedKey_iff [OF assms] mk ratchet_lawsD [OF assms(1)]
    by (simp add: openSession_def takeSkippedKey_def flight_id_def prim_laws Let_def)
  moreover have "receives P c lim f R ?R'"
    by (auto simp: receives_def in_skip_def in_cur_def party_def keys_used_def recv_ok_def recv_at_def)
  ultimately show ?thesis using mk(2) by blast
qed

text \<open>Storing the keys between the expected number and that of the message.\<close>

lemma advance_receives:
  assumes "wf_header h" "remoteDhPublicKeyHex R = Some h" "recv_at P R c m"
    and "\<forall>i \<ge> m. obj_get (skippedMessageKeys R) (skippedKeyId h (int i)) = None"
    and "flight_id f = skippedKeyId h (int n)" "m \<le> n" "int n < lim"
  shows "receives P c lim f R (advanced P c n now (skip_to P c h m n R))"
proof -
  let ?R' = "advanced P c n now (skip_to P c h m n R)"
  have get: "obj_get (skippedMessageKeys ?R') k = (if \<exists>i \<in> {m..<n}. k = skippedKeyId h (int i)
      then obj_get (skippedMessageKeys ?R') k else obj_get (skippedMessageKeys R) k)" for k
    using obj_get_store_keys_other [of "[m..<n]" k h] by (auto simp: Ball_def)
  have new: "obj_get (skippedMessageKeys ?R') (skippedKeyId h (int i)) = Some (bytesToHex P (message_key P c i))"
    if "m \<le> i" "i < n" for i
    using that by (simp add: obj_get_store_keys)
  have r: "recv_at P ?R' c (Suc n)"
    using advanced_recv skip_to_recv [OF assms(3)] assms(6) by (metis max.absorb2)
  have rs: "receiveSequenceNumber ?R' = int (Suc n)"
    by (simp add: advanced_def)
  have skip: "in_skip P ?R' f'" if "in_skip P R f'" for f'
  proof -
    have "\<not> (\<exists>i \<in> {m..<n}. flight_id f' = skippedKeyId h (int i))"
      using that assms(4) by (auto simp: in_skip_def)
    then show ?thesis using that get [of "flight_id f'"] by (simp add: in_skip_def)
  qed
  have cur: "in_skip P ?R' f' \<or> in_cur P ?R' c lim f'"
    if ic: "in_cur P R c lim f'" and ne: "flight_id f' \<noteq> flight_id f" for f'
  proof -
    obtain j where j: "em_sequenceNumber (fst f') = int j" "em_ephemeralPublicKeyHex (fst f') = h"
      "m \<le> j" "int j < lim" "opens P f' (message_key P c j)"
      using ic assms(2,3) by (auto simp: in_cur_def recv_at_def)
    have "j \<noteq> n" using ne assms(5) j(1,2) by (auto simp: flight_id_def)
    then consider "j < n" | "n < j" by linarith
    then show ?thesis
    proof cases
      case 1
      then show ?thesis using new [OF j(3) 1] j by (auto simp: in_skip_def flight_id_def)
    next
      case 2
      then show ?thesis using j rs assms(2) by (auto simp: in_cur_def)
    qed
  qed
  have other: "obj_get (skippedMessageKeys ?R') (skippedKeyId h' i) = None"
    if "wf_header h'" "h' \<noteq> h" "obj_get (skippedMessageKeys R) (skippedKeyId h' i) = None" for h' i
    using that get [of "skippedKeyId h' i"] skippedKeyId_inject [OF that(1) assms(1)] by auto
  have party: "party P used ?R'" if "party P used R" for used
  proof -
    have "keys_used used ?R'"
      unfolding keys_used_def
    proof (intro allI impI)
      fix k v assume kv: "obj_get (skippedMessageKeys ?R') k = Some v"
      show "\<exists>h \<in> used. \<exists>i. k = skippedKeyId h i"
      proof (cases "\<exists>i \<in> {m..<n}. k = skippedKeyId h (int i)")
        case True
        then show ?thesis using that assms(2) by (auto simp: party_def)
      next
        case False
        then have "obj_get (skippedMessageKeys R) k = Some v" using get [of k] kv by auto
        then show ?thesis using that by (auto simp: party_def keys_used_def)
      qed
    qed
    then show ?thesis using that by (simp add: party_def distinct_store_keys)
  qed
  have tail: "\<forall>i \<ge> Suc n. obj_get (skippedMessageKeys ?R') (skippedKeyId h (int i)) = None"
    using assms(4,6) by (auto simp: obj_get_store_keys)
  have "recv_ok P ?R' c lim"
    unfolding recv_ok_def using r tail assms(1,2,7)
    by (intro exI [of _ "Suc n"] exI [of _ h]) simp
  moreover have "receiveChainKeyHex ?R' \<noteq> None" "receiveChainKeyHex R \<noteq> None"
    using r assms(3) by (simp_all add: recv_at_def)
  ultimately show ?thesis
    unfolding receives_def using skip cur other party assms(2) by auto
qed

lemma receive_current:
  assumes "ratchet_laws P" "recv_ok P R c lim" "in_cur P R c lim f" "\<not> in_skip P R f" "within_gap R (fst f)"
  shows "\<exists>mk R'. openSession P sk now (fst f) R = (Inr mk, R') \<and> opens P f mk \<and> receives P c lim f R R'"
proof -
  obtain m h where R: "remoteDhPublicKeyHex R = Some h" "wf_header h" "recv_at P R c m"
    "\<forall>i \<ge> m. obj_get (skippedMessageKeys R) (skippedKeyId h (int i)) = None"
    using assms(2) by (auto simp: recv_ok_def)
  obtain n where n: "em_sequenceNumber (fst f) = int n" "em_ephemeralPublicKeyHex (fst f) = h" "m \<le> n"
    "int n < lim" "opens P f (message_key P c n)"
    using assms(3) R(1,3) by (auto simp: in_cur_def recv_at_def)
  have h: "h \<noteq> []" "toLowerCase h = h" using R(2) by (auto simp: wf_header_def)
  have nosk: "\<not> hasSkippedKey R (fst f)"
    using R(4) n(1-3) by (simp add: hasSkippedKey_def)
  have nr: "\<not> needsRatchet R (fst f)"
    using R(1) n(2) h by (simp add: needsRatchet_def)
  have gap: "int n \<le> int m + MAX_SKIP_MESSAGES"
    using assms(5) nosk nr n(1) R(3) by (simp add: within_gap_def recv_at_def)
  let ?R' = "advanced P c n now (skip_to P c h m n R)"
  have "openSession P sk now (fst f) R = (Inr (message_key P c n), ?R')"
    using deriveMessageKey_current [OF ratchet_lawsD(1,3) [OF assms(1)] R(3,1) h(1) _ n(1,3) gap] n(2) nosk
    by (simp add: openSession_def)
  moreover have "flight_id f = skippedKeyId h (int n)" using n by (simp add: flight_id_def)
  ultimately show ?thesis
    using advance_receives [OF R(2,1,3,4) _ n(3,4), of f now] n(5) by blast
qed

subsection \<open>The invariant is preserved by a receipt on a known chain\<close>

lemma receivesD:
  assumes "receives P c lim f R R'"
  shows "localDhKeyPair R' = localDhKeyPair R" "rootKeyHex R' = rootKeyHex R"
    "sendChainKeyHex R' = sendChainKeyHex R" "sendSequenceNumber R' = sendSequenceNumber R"
    "previousChainLength R' = previousChainLength R" "remoteDhPublicKeyHex R' = remoteDhPublicKeyHex R"
    "receiveChainKeyHex R' = None \<longleftrightarrow> receiveChainKeyHex R = None"
    "flight_id f' \<noteq> flight_id f \<Longrightarrow> in_skip P R f' \<Longrightarrow> in_skip P R' f'"
    "flight_id f' \<noteq> flight_id f \<Longrightarrow> in_cur P R c lim f' \<Longrightarrow> in_skip P R' f' \<or> in_cur P R' c lim f'"
    "wf_header h \<Longrightarrow> remoteDhPublicKeyHex R \<noteq> Some h \<Longrightarrow>
       obj_get (skippedMessageKeys R) (skippedKeyId h i) = None \<Longrightarrow>
       obj_get (skippedMessageKeys R') (skippedKeyId h i) = None"
    "party P used R \<Longrightarrow> party P used R'"
    "recv_ok P R c lim \<Longrightarrow> recv_ok P R' c lim"
  using assms unfolding receives_def by blast+

lemma flights_okD:
  assumes "flights_ok used (F1 @ f # F2)"
  shows "flights_ok used (F1 @ F2)" "\<forall>f' \<in> set (F1 @ F2). flight_id f' \<noteq> flight_id f"
  using assms by (auto simp: flights_ok_def) (metis image_eqI)+

lemma ahead_send_cong:
  assumes "ahead_send P X Y cX" "localDhKeyPair X' = localDhKeyPair X" "rootKeyHex X' = rootKeyHex X"
    "sendChainKeyHex X' = sendChainKeyHex X" "sendSequenceNumber X' = sendSequenceNumber X"
    "localDhKeyPair Y' = localDhKeyPair Y" "rootKeyHex Y' = rootKeyHex Y"
  shows "ahead_send P X' Y' cX"
  using assms by (simp add: ahead_send_def root_step_def send_at_def)

lemma ahead_at_receive_X:
  assumes "ahead_at P used X Y F (G1 @ g # G2) cX cY cO"
    and "receives P cY (sendSequenceNumber Y) g X X'"
  shows "ahead_at P used X' Y F (G1 @ G2) cX cY cO"
proof -
  note A = assms(1)[unfolded ahead_at_def] and R = receivesD [OF assms(2)]
  have fl: "flights_ok used (G1 @ G2)" "\<forall>g' \<in> set (G1 @ G2). flight_id g' \<noteq> flight_id g"
    using A flights_okD by blast+
  have "\<forall>g' \<in> set (G1 @ G2). in_skip P X' g' \<or> in_cur P X' cY (sendSequenceNumber Y) g'"
    using A fl(2) R(8,9) by fastforce
  moreover have "ahead_send P X' Y cX" using A ahead_send_cong R(1-4) by metis
  moreover have "in_new P X' cX f = in_new P X cX f" for f using R(1,4,5) by (simp add: in_new_def)
  ultimately show ?thesis
    unfolding ahead_at_def using A fl(1) R(1,5,6,11,12) by presburger
qed

lemma ahead_at_receive_Y:
  assumes "ahead_at P used X Y (F1 @ f # F2) G cX cY cO"
    and "receives P cO (previousChainLength X) f Y Y'"
  shows "ahead_at P used X Y' (F1 @ F2) G cX cY cO"
proof -
  note A = assms(1)[unfolded ahead_at_def] and R = receivesD [OF assms(2)]
  have fl: "flights_ok used (F1 @ F2)" "\<forall>f' \<in> set (F1 @ F2). flight_id f' \<noteq> flight_id f"
    using A flights_okD by blast+
  have hX: "wf_header (publicKeyHex (localDhKeyPair X))"
    "remoteDhPublicKeyHex Y \<noteq> Some (publicKeyHex (localDhKeyPair X))"
    using A by (auto simp: party_def)
  have "\<forall>f' \<in> set (F1 @ F2). in_skip P Y' f' \<or> in_new P X cX f'
      \<or> (receiveChainKeyHex Y' \<noteq> None \<and> in_cur P Y' cO (previousChainLength X) f')"
    using A fl(2) R(7,8,9) by fastforce
  moreover have "ahead_send P X Y' cX" using A ahead_send_cong R(1,2) by metis
  moreover have "\<exists>n. send_at P Y cY n" using A by blast
  then have "\<exists>n. send_at P Y' cY n" using R(3,4) by (simp add: send_at_def)
  moreover have "\<forall>i. obj_get (skippedMessageKeys Y') (skippedKeyId (publicKeyHex (localDhKeyPair X)) i) = None"
    using A R(10) hX by blast
  ultimately show ?thesis
    using A fl(1) R(11) [of used] R(12) unfolding ahead_at_def R(1,4,6,7) by blast
qed

subsection \<open>The invariant is preserved by a ratchet step\<close>

lemma root_step_length: "kdf_length P \<Longrightarrow> root_step P ses pub r c \<Longrightarrow> length r = 32 \<and> length c = 32"
  by (auto simp: root_step_def dest: arg_cong [where f = fst] arg_cong [where f = snd])
     (metis length_kdf(1) fst_conv, metis length_kdf(2) snd_conv)

text \<open>The old chain is wound up: every key it still owes a message is stored.\<close>

lemma wind_up:
  assumes "ratchet_laws P" "0 \<le> p"
    and "receiveChainKeyHex Y = None \<and> p = 0 \<or> recv_ok P Y cO p"
    and "p \<le> receiveSequenceNumber Y + MAX_SKIP_MESSAGES"
  shows "\<exists>Y1. skipMessageKeys P p Y = (Inr (), Y1) \<and>
     localDhKeyPair Y1 = localDhKeyPair Y \<and> rootKeyHex Y1 = rootKeyHex Y \<and>
     sendSequenceNumber Y1 = sendSequenceNumber Y \<and>
     (\<forall>f. in_skip P Y f \<or> receiveChainKeyHex Y \<noteq> None \<and> in_cur P Y cO p f \<longrightarrow> in_skip P Y1 f) \<and>
     (\<forall>h i. wf_header h \<longrightarrow> remoteDhPublicKeyHex Y \<noteq> Some h \<longrightarrow>
        obj_get (skippedMessageKeys Y) (skippedKeyId h i) = None \<longrightarrow>
        obj_get (skippedMessageKeys Y1) (skippedKeyId h i) = None) \<and>
     (\<forall>used. party P used Y \<longrightarrow> party P used Y1)"
proof (cases "receiveChainKeyHex Y = None")
  case True
  then show ?thesis using skipMessageKeys_none by fastforce
next
  case False
  then obtain m h where Y: "remoteDhPublicKeyHex Y = Some h" "wf_header h" "recv_at P Y cO m" "int m \<le> p"
    "\<forall>i \<ge> m. obj_get (skippedMessageKeys Y) (skippedKeyId h (int i)) = None"
    using assms(3) by (auto simp: recv_ok_def)
  obtain u where u: "p = int u" using assms(2) nonneg_int_cases by blast
  have h: "h \<noteq> []" using Y(2) by (simp add: wf_header_def)
  let ?Y1 = "skip_to P cO h m u Y"
  have run: "skipMessageKeys P p Y = (Inr (), ?Y1)"
    unfolding u using assms(4) Y(3) u
    by (intro skipMessageKeys_at [OF ratchet_lawsD(1,3) [OF assms(1)] Y(3,1) h]) (simp add: recv_at_def)
  text \<open>The chain is left one key further than a receipt of message \<open>u\<close> would store.\<close>
  define f0 :: flight where "f0 = (\<lparr>em_ephemeralPublicKeyHex = h, em_sequenceNumber = int u,
     em_previousChainLength = 0, em_ciphertext = [], em_nonce = [], em_oneTimePreKeyId = None,
     em_initialIdentityKeyHex = None, em_initialEphemeralKeyHex = None\<rparr>, [])"
  have f0: "flight_id f0 = skippedKeyId h (int u)" by (simp add: f0_def flight_id_def)
  have mu: "m \<le> u" using Y(4) u by simp
  let ?Y2 = "advanced P cO u 0 ?Y1"
  have rec: "receives P cO (p + 1) f0 Y ?Y2"
    using advance_receives [OF Y(2,1,3,5) f0 mu] u by simp
  have keys: "skippedMessageKeys ?Y2 = skippedMessageKeys ?Y1" by simp
  have sk: "in_skip P ?Y1 f = in_skip P ?Y2 f" for f by (simp add: in_skip_def)
  have "in_skip P ?Y1 f" if f: "in_skip P Y f \<or> in_cur P Y cO p f" for f
  proof -
    have ne: "flight_id f \<noteq> flight_id f0" using f
    proof
      assume "in_skip P Y f"
      then show ?thesis using Y(5) mu f0 by (auto simp: in_skip_def)
    next
      assume "in_cur P Y cO p f"
      then show ?thesis using Y(1) u f0 by (auto simp: in_cur_def flight_id_def)
    qed
    have up: "in_cur P Y cO p f \<Longrightarrow> in_cur P Y cO (p + 1) f" by (auto simp: in_cur_def)
    have "\<not> in_cur P ?Y2 cO (p + 1) f" if "in_cur P Y cO p f"
      using that u by (auto simp: in_cur_def advanced_def)
    then show ?thesis using receivesD(8,9) [OF rec ne] f up sk by blast
  qed
  moreover have "party P used ?Y1" if "party P used Y" for used
    using receivesD(11) [OF rec that] by (simp add: party_def keys_used_def)
  moreover have "obj_get (skippedMessageKeys ?Y1) (skippedKeyId h' i) = None"
    if "wf_header h'" "remoteDhPublicKeyHex Y \<noteq> Some h'"
      "obj_get (skippedMessageKeys Y) (skippedKeyId h' i) = None" for h' i
    using receivesD(10) [OF rec that] by simp
  ultimately show ?thesis using run by auto
qed

text \<open>
  Receiving the first message of a chain not seen yet: the old chain is wound up, and the
  receiver is ahead afterwards. The new key must be one neither side has used.
\<close>

lemma hasSkippedKey_None:
  "obj_get (skippedMessageKeys R) (flight_id f) = None \<Longrightarrow> \<not> hasSkippedKey R (fst f)"
  by (simp add: hasSkippedKey_def flight_id_def)

lemma keys_used_fresh:
  assumes "keys_used used R" "\<forall>h \<in> used. wf_header h" "wf_header h" "h \<notin> used"
  shows "obj_get (skippedMessageKeys R) (skippedKeyId h i) = None"
  using assms skippedKeyId_inject by (metis keys_used_def option.exhaust)

lemma party_mono: "party P used R \<Longrightarrow> used \<subseteq> used' \<Longrightarrow> party P used' R"
  unfolding party_def keys_used_def by blast

lemma flights_ok_mono: "flights_ok used F \<Longrightarrow> used \<subseteq> used' \<Longrightarrow> flights_ok used' F"
  by (auto simp: flights_ok_def)

lemma generated_keypair: "length sk = 32 \<Longrightarrow> box_keypair P (generateCurve25519KeyPair P sk)"
  by (simp add: box_keypair_def generateCurve25519KeyPair_def)

lemma generated_sel [simp]:
  "publicKey (generateCurve25519KeyPair P sk) = boxPublic P sk"
  "secretKey (generateCurve25519KeyPair P sk) = sk"
  "publicKeyHex (generateCurve25519KeyPair P sk) = bytesToHex P (boxPublic P sk)"
  by (simp_all add: generateCurve25519KeyPair_def)

lemma ratcheted_sel [simp]:
  "localDhKeyPair (ratcheted P sk hx c1 r2 c2 R) = generateCurve25519KeyPair P sk"
  "rootKeyHex (ratcheted P sk hx c1 r2 c2 R) = bytesToHex P r2"
  "sendChainKeyHex (ratcheted P sk hx c1 r2 c2 R) = Some (bytesToHex P c2)"
  "sendSequenceNumber (ratcheted P sk hx c1 r2 c2 R) = 0"
  "previousChainLength (ratcheted P sk hx c1 r2 c2 R) = sendSequenceNumber R"
  "remoteDhPublicKeyHex (ratcheted P sk hx c1 r2 c2 R) = Some (toLowerCase hx)"
  "receiveSequenceNumber (ratcheted P sk hx c1 r2 c2 R) = 0"
  "receiveChainKeyHex (ratcheted P sk hx c1 r2 c2 R) = Some (bytesToHex P c1)"
  "skippedMessageKeys (ratcheted P sk hx c1 r2 c2 R) = skippedMessageKeys R"
  by (simp_all add: ratcheted_def)

text \<open>The run of \<open>openSession\<close> on such a message.\<close>

lemma openSession_ratchet:
  assumes L: "ratchet_laws P" and sk: "length sk = 32"
    and A: "ahead_at P used X Y F G cX cY cO" and f: "in_new P X cX f"
    and gap: "within_gap Y (fst f)"
  shows "\<exists>n Y1 r2 c2. em_sequenceNumber (fst f) = int n \<and> opens P f (message_key P cX n) \<and>
     skipMessageKeys P (previousChainLength X) Y = (Inr (), Y1) \<and>
     root_step P X (boxPublic P sk) r2 c2 \<and> length r2 = 32 \<and> length c2 = 32 \<and>
     openSession P sk now (fst f) Y = (Inr (message_key P cX n),
       advanced P cX n now (skip_to P cX (publicKeyHex (localDhKeyPair X)) 0 n
         (ratcheted P sk (publicKeyHex (localDhKeyPair X)) cX r2 c2 Y1)))
     \<and> previousChainLength X \<le> receiveSequenceNumber Y + MAX_SKIP_MESSAGES"
proof -
  note laws = ratchet_lawsD [OF L] and A = A[unfolded ahead_at_def]
  let ?hx = "publicKeyHex (localDhKeyPair X)"
  obtain n where n: "em_sequenceNumber (fst f) = int n" "em_ephemeralPublicKeyHex (fst f) = ?hx"
    "em_previousChainLength (fst f) = previousChainLength X" "int n < sendSequenceNumber X"
    "opens P f (message_key P cX n)" using f by (auto simp: in_new_def)
  have bX: "box_keypair P (localDhKeyPair X)" and bY: "box_keypair P (localDhKeyPair Y)"
    using A by (auto simp: party_def)
  have hx: "wf_header ?hx" using wf_header_keypair [OF laws(1,2) bX] .
  obtain h where h: "remoteDhPublicKeyHex Y = Some h" "h \<noteq> ?hx" "wf_header h"
    using A by (auto simp: party_def)
  have ratchet: "needsRatchet Y (fst f)"
    using h hx n(2) by (simp add: needsRatchet_def wf_header_def)
  have nosk: "\<not> hasSkippedKey Y (fst f)"
    using A n(2) by (intro hasSkippedKey_None) (simp add: flight_id_def)
  have gap': "previousChainLength X \<le> receiveSequenceNumber Y + MAX_SKIP_MESSAGES" "int n \<le> MAX_SKIP_MESSAGES"
    using gap ratchet nosk n(1,3) by (simp_all add: within_gap_def)
  obtain rX where rX: "root_step P Y (publicKey (localDhKeyPair X)) rX cX"
    "rootKeyHex X = bytesToHex P rX"
    using A n(4) by (auto simp: ahead_send_def)
  have lenX: "length rX = 32" "length cX = 32" using root_step_length [OF laws(3) rX(1)] by auto
  have "0 \<le> previousChainLength X" and
    old: "receiveChainKeyHex Y = None \<and> previousChainLength X = 0 \<or> recv_ok P Y cO (previousChainLength X)"
    using A by auto
  then obtain Y1 where Y1: "skipMessageKeys P (previousChainLength X) Y = (Inr (), Y1)"
    "localDhKeyPair Y1 = localDhKeyPair Y" "rootKeyHex Y1 = rootKeyHex Y"
    using wind_up [OF L _ _ gap'(1)] by blast
  have step1: "root_step P Y1 (publicKey (localDhKeyPair X)) rX cX"
    using rX(1) Y1(2,3) by (simp add: root_step_def)
  have pX: "publicKey (localDhKeyPair X) = boxPublic P (secretKey (localDhKeyPair X))"
    "length (secretKey (localDhKeyPair X)) = 32" using bX by (auto simp: box_keypair_def)
  obtain dh2 where dh2: "scalarMult P sk (publicKey (localDhKeyPair X)) = Inr dh2"
    using scalarMult_defined [OF laws(2) sk] pX laws(2) length_boxPublic by metis
  obtain r2 c2 where kd: "kdfRoot P rX dh2 = (r2, c2)" by fastforce
  have stepX: "root_step P X (boxPublic P sk) r2 c2"
    using rX(2) lenX dh2 kd scalarMult_commute [OF laws(2) sk pX(2)] pX(1)
    by (auto simp: root_step_def)
  have len2: "length r2 = 32" "length c2 = 32" using root_step_length [OF laws(3) stepX] by auto
  have hexX: "hexToBytes P ?hx = Inr (publicKey (localDhKeyPair X))"
    using bX laws(1) by (simp add: box_keypair_def prim_laws)
  let ?Y2 = "ratcheted P sk ?hx cX r2 c2 Y1"
  have step: "dhRatchetStep P sk ?hx Y1 = (Inr (), ?Y2)"
    using dhRatchetStep_eq [OF laws(1) step1 hexX dh2 kd] .
  have recv2: "recv_at P ?Y2 cX 0" using lenX by (simp add: recv_at_def)
  have rem2: "remoteDhPublicKeyHex ?Y2 = Some ?hx" using hx by (simp add: wf_header_def)
  have skip2: "skipMessageKeys P (int n) ?Y2 = (Inr (), skip_to P cX ?hx 0 n ?Y2)"
    using skipMessageKeys_at [OF laws(1,3) recv2 rem2] hx gap'(2) by (simp add: wf_header_def)
  have recv3: "recv_at P (skip_to P cX ?hx 0 n ?Y2) cX n"
    using skip_to_recv [OF recv2, of ?hx n] by simp
  have "deriveMessageKey P sk now (fst f) Y = (Inr (message_key P cX n),
          advanced P cX n now (skip_to P cX ?hx 0 n ?Y2))"
    using ratchet Y1(1) step skip2 advanceChain_at [OF laws(1,3) recv3] n(1-3)
    by (simp add: deriveMessageKey_def bindM_def)
  then show ?thesis using n(1,5) Y1(1) stepX len2 nosk gap'(1)
    by (auto simp: openSession_def)
qed

lemma ahead_at_ratchet:
  assumes L: "ratchet_laws P" and sk: "length sk = 32"
    and A0: "ahead_at P used X Y (F1 @ f # F2) G cX cY cO" and f: "in_new P X cX f"
    and gap: "within_gap Y (fst f)" and fresh: "bytesToHex P (boxPublic P sk) \<notin> used"
  shows "\<exists>mk Y' c2. openSession P sk now (fst f) Y = (Inr mk, Y') \<and> opens P f mk \<and>
     ahead_at P (insert (bytesToHex P (boxPublic P sk)) used) Y' X G (F1 @ F2) c2 cX cY"
proof -
  note laws = ratchet_lawsD [OF L] and A = A0[unfolded ahead_at_def]
  let ?hx = "publicKeyHex (localDhKeyPair X)" and ?hn = "bytesToHex P (boxPublic P sk)"
  let ?used = "insert ?hn used"
  obtain n Y1 r2 c2 where n: "em_sequenceNumber (fst f) = int n" "opens P f (message_key P cX n)"
    and Y1: "skipMessageKeys P (previousChainLength X) Y = (Inr (), Y1)"
    and r2: "root_step P X (boxPublic P sk) r2 c2" "length r2 = 32" "length c2 = 32"
    and run: "openSession P sk now (fst f) Y = (Inr (message_key P cX n),
       advanced P cX n now (skip_to P cX ?hx 0 n (ratcheted P sk ?hx cX r2 c2 Y1)))"
    and gap': "previousChainLength X \<le> receiveSequenceNumber Y + MAX_SKIP_MESSAGES"
    using openSession_ratchet [OF L sk A0 f gap] by blast
  let ?Y2 = "ratcheted P sk ?hx cX r2 c2 Y1"
  let ?Y' = "advanced P cX n now (skip_to P cX ?hx 0 n ?Y2)"
  have "0 \<le> previousChainLength X"
    "receiveChainKeyHex Y = None \<and> previousChainLength X = 0 \<or> recv_ok P Y cO (previousChainLength X)"
    using A by auto
  from wind_up [OF L this gap'] Y1
  have W: "sendSequenceNumber Y1 = sendSequenceNumber Y"
    "\<And>f. in_skip P Y f \<or> receiveChainKeyHex Y \<noteq> None \<and> in_cur P Y cO (previousChainLength X) f \<Longrightarrow> in_skip P Y1 f"
    "\<And>h i. wf_header h \<Longrightarrow> remoteDhPublicKeyHex Y \<noteq> Some h \<Longrightarrow>
       obj_get (skippedMessageKeys Y) (skippedKeyId h i) = None \<Longrightarrow>
       obj_get (skippedMessageKeys Y1) (skippedKeyId h i) = None"
    "\<And>used. party P used Y \<Longrightarrow> party P used Y1"
    by auto
  have hx: "wf_header ?hx" "?hx \<in> used" using A by (auto simp: party_def)
  have hn: "wf_header ?hn"
    using wf_header_keypair [OF laws(1,2) generated_keypair [OF sk]] by simp
  have lenX: "length cX = 32" using A laws(3) root_step_length by (auto simp: ahead_send_def)
  have nX: "int n < sendSequenceNumber X" and hdr: "em_ephemeralPublicKeyHex (fst f) = ?hx"
    using f n(1) by (auto simp: in_new_def)
  have recv2: "recv_at P ?Y2 cX 0" using lenX by (simp add: recv_at_def)
  have rem2: "remoteDhPublicKeyHex ?Y2 = Some ?hx" using hx by (simp add: wf_header_def)
  have noX: "obj_get (skippedMessageKeys ?Y2) (skippedKeyId ?hx i) = None" for i
    using A W(3) [OF hx(1)] by auto
  have ok2: "recv_ok P ?Y2 cX (sendSequenceNumber X)"
    unfolding recv_ok_def using recv2 rem2 hx(1) noX nX
    by (intro exI [of _ 0] exI [of _ ?hx]) simp
  have fid: "flight_id f = skippedKeyId ?hx (int n)" using n(1) hdr by (simp add: flight_id_def)
  have rec: "receives P cX (sendSequenceNumber X) f ?Y2 ?Y'"
    using advance_receives [OF hx(1) rem2 recv2 _ fid _ nX] noX by simp
  note R = receivesD [OF rec]
  have party1: "party P used Y1" using A W(4) by blast
  have party2: "party P ?used ?Y2"
    using party_mono [OF party1, of ?used] hx(2) rem2
    by (auto simp: party_def keys_used_def generated_keypair [OF sk])
  have "\<exists>c. sendChainKeyHex X = Some c \<and> True"
    using A nX by (auto simp: ahead_send_def send_at_def)
  then have sX: "\<exists>n. send_at P X cX n" using A by (auto simp: ahead_send_def)
  have freshX: "obj_get (skippedMessageKeys X) (skippedKeyId ?hn i) = None" for i
    using keys_used_fresh [OF _ _ hn fresh] A by (simp add: party_def)
  have flight: "in_skip P ?Y' f' \<or> in_cur P ?Y' cX (sendSequenceNumber X) f'" if f': "f' \<in> set (F1 @ F2)" for f'
  proof -
    have ne: "flight_id f' \<noteq> flight_id f" using f' A flights_okD(2) by blast
    have "f' \<in> set (F1 @ f # F2)" using f' by auto
    then consider "in_skip P Y f' \<or> receiveChainKeyHex Y \<noteq> None \<and> in_cur P Y cO (previousChainLength X) f'"
      | "in_new P X cX f'" using A by blast
    then show ?thesis
    proof cases
      case 1
      then have "in_skip P Y1 f'" using W(2) by blast
      then have "in_skip P ?Y2 f'" by (simp add: in_skip_def)
      then show ?thesis using R(8) [OF ne] by blast
    next
      case 2
      then have "in_cur P ?Y2 cX (sendSequenceNumber X) f'" using rem2 by (auto simp: in_new_def in_cur_def)
      then show ?thesis using R(9) [OF ne] by blast
    qed
  qed
  have "ahead_send P ?Y' X c2"
    using r2 by (auto simp: ahead_send_def send_at_def intro!: exI [of _ r2] exI [of _ "0::nat"])
  moreover have "\<forall>h \<in> ?used. wf_header h" using A hn by blast
  moreover have "party P ?used ?Y'" using R(11) [OF party2] .
  moreover have "party P ?used X" using A party_mono by blast
  moreover have "flights_ok ?used G" "flights_ok ?used (F1 @ F2)"
    using A flights_okD(1) flights_ok_mono by blast+
  moreover have "recv_ok P ?Y' cX (sendSequenceNumber X)" using R(12) [OF ok2] .
  moreover have "remoteDhPublicKeyHex ?Y' = Some ?hx" using rem2 by simp
  moreover have "remoteDhPublicKeyHex X = Some (publicKeyHex (localDhKeyPair Y))" using A by blast
  moreover have "publicKeyHex (localDhKeyPair Y) \<noteq> ?hn" using A fresh by (auto simp: party_def)
  moreover have "recv_ok P X cY (previousChainLength ?Y')" using A W(1) by simp
  moreover have "0 \<le> previousChainLength ?Y'" using A W(1) by (auto simp: send_at_def)
  moreover have "receiveChainKeyHex X \<noteq> None" using A by (auto simp: recv_ok_def recv_at_def)
  moreover have "\<forall>g \<in> set G. in_skip P X g \<or> in_cur P X cY (previousChainLength ?Y') g"
    using A W(1) by simp
  ultimately have "ahead_at P ?used ?Y' X G (F1 @ F2) c2 cX cY"
    unfolding ahead_at_def using sX freshX flight by auto
  then show ?thesis using run n(2) by blast
qed

text \<open>Any message in flight to either side, in any order.\<close>

lemma linked_receive:
  assumes "ratchet_laws P" "length sk = 32" "linked P used A B (F1 @ f # F2) G" "within_gap B (fst f)"
    and "bytesToHex P (boxPublic P sk) \<notin> used"
  shows "\<exists>mk B' used'. openSession P sk now (fst f) B = (Inr mk, B') \<and> opens P f mk \<and>
     linked P used' A B' (F1 @ F2) G \<and> used' \<subseteq> insert (bytesToHex P (boxPublic P sk)) used"
proof -
  note L = assms(1)
  consider (ahead) cX cY cO where "ahead_at P used A B (F1 @ f # F2) G cX cY cO"
    | (behind) cX cY cO where "ahead_at P used B A G (F1 @ f # F2) cX cY cO"
    using assms(3) unfolding linked_def ahead_def by blast
  then show ?thesis
  proof cases
    case ahead
    have old: ?thesis if "\<exists>mk R'. openSession P sk now (fst f) B = (Inr mk, R') \<and> opens P f mk \<and>
        receives P cO (previousChainLength A) f B R'"
      using that ahead_at_receive_Y [OF ahead] unfolding linked_def ahead_def by blast
    consider "in_skip P B f" | "in_new P A cX f"
      | "\<not> in_skip P B f" "receiveChainKeyHex B \<noteq> None" "in_cur P B cO (previousChainLength A) f"
      using ahead unfolding ahead_at_def by auto
    then show ?thesis
    proof cases
      case 1 then show ?thesis using old receive_skipped [OF L] by blast
    next
      case 2 then show ?thesis
        using ahead_at_ratchet [OF L assms(2) ahead _ assms(4,5), of now] unfolding linked_def ahead_def by blast
    next
      case 3
      then have "recv_ok P B cO (previousChainLength A)" using ahead unfolding ahead_at_def by auto
      then show ?thesis using old receive_current [OF L _ 3(3,1) assms(4)] by blast
    qed
  next
    case behind
    have old: ?thesis if "\<exists>mk R'. openSession P sk now (fst f) B = (Inr mk, R') \<and> opens P f mk \<and>
        receives P cY (sendSequenceNumber A) f B R'"
      using that ahead_at_receive_X [OF behind] unfolding linked_def ahead_def by blast
    consider "in_skip P B f" | "\<not> in_skip P B f" "in_cur P B cY (sendSequenceNumber A) f"
      using behind unfolding ahead_at_def by auto
    then show ?thesis
    proof cases
      case 1 then show ?thesis using old receive_skipped [OF L] by blast
    next
      case 2
      have "recv_ok P B cY (sendSequenceNumber A)" using behind unfolding ahead_at_def by blast
      then show ?thesis using old receive_current [OF L _ 2(2,1) assms(4)] by blast
    qed
  qed
qed

subsection \<open>Sending\<close>

text \<open>The message \<open>encrypt\<close> builds from the changed session and the result of \<open>encryptStep\<close>.\<close>

definition carries :: "prims \<Rightarrow> session \<Rightarrow> bytes \<Rightarrow> int \<Rightarrow> bytes \<Rightarrow> encrypted_message \<Rightarrow> bool" where
  "carries P ses nonce n ct msg \<longleftrightarrow>
     em_ephemeralPublicKeyHex msg = publicKeyHex (localDhKeyPair ses) \<and> em_sequenceNumber msg = n \<and>
     em_previousChainLength msg = previousChainLength ses \<and> em_ciphertext msg = b64_encode ct \<and>
     em_nonce msg = bytesToHex P nonce"

definition sent :: "prims \<Rightarrow> bytes \<Rightarrow> nat \<Rightarrow> int \<Rightarrow> session \<Rightarrow> session" where
  "sent P c n now ses = ses\<lparr>sendChainKeyHex := Some (bytesToHex P (chain_key P c (Suc n))),
                            sendSequenceNumber := int (Suc n), updatedAt := now\<rparr>"

lemma sent_sel [simp]:
  "localDhKeyPair (sent P c n now ses) = localDhKeyPair ses"
  "rootKeyHex (sent P c n now ses) = rootKeyHex ses"
  "remoteDhPublicKeyHex (sent P c n now ses) = remoteDhPublicKeyHex ses"
  "previousChainLength (sent P c n now ses) = previousChainLength ses"
  "skippedMessageKeys (sent P c n now ses) = skippedMessageKeys ses"
  "receiveChainKeyHex (sent P c n now ses) = receiveChainKeyHex ses"
  "receiveSequenceNumber (sent P c n now ses) = receiveSequenceNumber ses"
  "sendSequenceNumber (sent P c n now ses) = int (Suc n)"
  by (simp_all add: sent_def)

lemma sent_send_at: "send_at P ses c n \<Longrightarrow> send_at P (sent P c n now ses) c (Suc n)"
  by (simp add: send_at_def sent_def)

lemma encryptStep_at:
  assumes L: "ratchet_laws P" and "ensureSendChain P ses = (Inr (), ses1)" "send_at P ses1 c n"
    and "length nonce = 24"
  shows "\<exists>ct. encryptStep P nonce now pt ses = (Inr (int n, ct), sent P c n now ses1) \<and>
     (\<forall>ses' msg. carries P ses' nonce (int n) ct msg \<longrightarrow>
        opens P (msg, text_decode (text_encode pt)) (message_key P c n))"
proof -
  note laws = ratchet_lawsD [OF L]
  obtain ct where ct: "secretbox P (text_encode pt) nonce (message_key P c n) = Inr ct"
    "secretbox_open P ct nonce (message_key P c n) = Inr (Some (text_encode pt))"
    using laws(3,4) assms(4) by (metis secretbox_correct_def length_message_key)
  have s: "sendChainKeyHex ses1 = Some (bytesToHex P (chain_key P c n))" "sendSequenceNumber ses1 = int n"
    using assms(3) by (simp_all add: send_at_def)
  have n1: "int n + 1 = int (Suc n)" by simp
  have "encryptStep P nonce now pt ses = (Inr (int n, ct), sent P c n now ses1)"
    unfolding encryptStep_def bindM_Inr [where m = "ensureSendChain P", OF assms(2)]
    by (simp only: bindM_getM id_apply s option.sel hexToBytes_bytesToHex [OF laws(1)] bindM_liftM_Inr
        kdfChain_chain_key Let_def prod.case bindM_modifyM n1 ct(1) ret_apply sent_def)
  moreover have "opens P (msg, text_decode (text_encode pt)) (message_key P c n)"
    if "carries P ses' nonce (int n) ct msg" for ses' msg
    using that ct(2) laws(1,3) by (simp add: opens_def decryptWithKey_def carries_def prim_laws)
  ultimately show ?thesis by blast
qed

lemma ensureSendChain_at:
  assumes "hex_codec P" "kdf_length P" "send_at P ses c n"
  shows "ensureSendChain P ses = (Inr (), ses)"
proof -
  have "bytesToHex P (chain_key P c n) \<noteq> []" using assms by (simp add: hex_key_nonempty send_at_def)
  then show ?thesis using assms(3) by (simp add: ensureSendChain_def send_at_def)
qed

text \<open>A responder that has not sent yet takes the root step its peer expects.\<close>

lemma ensureSendChain_pending:
  assumes L: "ratchet_laws P" and "box_keypair P (localDhKeyPair X)" "box_keypair P (localDhKeyPair Y)"
    and "remoteDhPublicKeyHex X = Some (publicKeyHex (localDhKeyPair Y))"
    and "sendChainKeyHex X = None" "rootKeyHex X = rootKeyHex Y"
    and "root_step P Y (publicKey (localDhKeyPair X)) rX cX"
  shows "ensureSendChain P X = (Inr (), X\<lparr>rootKeyHex := bytesToHex P rX, sendChainKeyHex := Some (bytesToHex P cX)\<rparr>)"
proof -
  note laws = ratchet_lawsD [OF L]
  have "publicKeyHex (localDhKeyPair Y) \<noteq> []"
    using wf_header_keypair [OF laws(1,2) assms(3)] by (simp add: wf_header_def)
  moreover have "scalarMult P (secretKey (localDhKeyPair X)) (publicKey (localDhKeyPair Y))
      = scalarMult P (secretKey (localDhKeyPair Y)) (publicKey (localDhKeyPair X))"
    using scalarMult_commute laws(2) assms(2,3) by (simp add: box_keypair_def)
  ultimately show ?thesis
    using assms(3-7) laws(1) by (auto simp: ensureSendChain_def root_step_def prim_laws box_keypair_def)
qed

text \<open>The receiving side of a session does not depend on the fields sending changes.\<close>

lemma receiving_cong:
  assumes "remoteDhPublicKeyHex R' = remoteDhPublicKeyHex R" "skippedMessageKeys R' = skippedMessageKeys R"
    "receiveChainKeyHex R' = receiveChainKeyHex R" "receiveSequenceNumber R' = receiveSequenceNumber R"
  shows "recv_ok P R' c lim = recv_ok P R c lim" "in_skip P R' f = in_skip P R f"
    "in_cur P R' c lim f = in_cur P R c lim f"
  using assms by (simp_all add: recv_ok_def recv_at_def in_skip_def in_cur_def)

lemma limit_mono:
  "lim \<le> lim' \<Longrightarrow> recv_ok P R c lim \<Longrightarrow> recv_ok P R c lim'"
  "lim \<le> lim' \<Longrightarrow> in_cur P R c lim f \<Longrightarrow> in_cur P R c lim' f"
  by (auto simp: recv_ok_def recv_at_def in_cur_def)

lemma in_new_sent: "in_new P X c f \<Longrightarrow> sendSequenceNumber X \<le> int (Suc n) \<Longrightarrow>
    localDhKeyPair X' = localDhKeyPair X \<Longrightarrow> previousChainLength X' = previousChainLength X \<Longrightarrow>
    in_new P (sent P c n now X') c f"
  by (auto simp: in_new_def)

lemma flights_ok_snoc:
  "flights_ok used F \<Longrightarrow> em_ephemeralPublicKeyHex (fst f) \<in> used \<Longrightarrow> (\<And>f'. f' \<in> set F \<Longrightarrow> flight_id f' \<noteq> flight_id f)
    \<Longrightarrow> flights_ok used (F @ [f])"
  unfolding flights_ok_def by force

lemma linked_send_ahead:
  assumes L: "ratchet_laws P" and A0: "ahead_at P used X Y F G cX cY cO" and nonce: "length nonce = 24"
  shows "\<exists>n ct X'. encryptStep P nonce now pt X = (Inr (n, ct), X') \<and>
     (\<forall>msg. carries P X' nonce n ct msg \<longrightarrow>
        ahead_at P used X' Y (F @ [(msg, text_decode (text_encode pt))]) G cX cY cO)"
proof -
  note A = A0[unfolded ahead_at_def] and laws = ratchet_lawsD [OF L]
  let ?hx = "publicKeyHex (localDhKeyPair X)"
  obtain rX where rX: "root_step P Y (publicKey (localDhKeyPair X)) rX cX"
    "(\<exists>n. send_at P X cX n) \<and> rootKeyHex X = bytesToHex P rX
      \<or> sendChainKeyHex X = None \<and> sendSequenceNumber X = 0 \<and> rootKeyHex X = rootKeyHex Y"
    using A by (auto simp: ahead_send_def)
  let ?X1 = "X\<lparr>rootKeyHex := bytesToHex P rX, sendChainKeyHex := Some (bytesToHex P cX)\<rparr>"
  have lenX: "length cX = 32" using root_step_length [OF laws(3) rX(1)] by simp
  have "\<exists>n X1. ensureSendChain P X = (Inr (), X1) \<and> send_at P X1 cX n \<and> X1 \<in> {X, ?X1}
      \<and> rootKeyHex X1 = bytesToHex P rX \<and> int n = sendSequenceNumber X"
    using rX(2)
  proof (elim disjE conjE exE)
    fix n assume s: "send_at P X cX n" "rootKeyHex X = bytesToHex P rX"
    then show ?thesis using ensureSendChain_at [OF laws(1,3) s(1)] by (auto simp: send_at_def)
  next
    assume s: "sendChainKeyHex X = None" "sendSequenceNumber X = 0" "rootKeyHex X = rootKeyHex Y"
    have "ensureSendChain P X = (Inr (), ?X1)"
      using ensureSendChain_pending [OF L _ _ _ s(1,3) rX(1)] A by (simp add: party_def)
    moreover have "send_at P ?X1 cX 0" using lenX s(2) by (simp add: send_at_def)
    ultimately show ?thesis using s(2) by force
  qed
  then obtain n X1 where X1: "ensureSendChain P X = (Inr (), X1)" "send_at P X1 cX n" "X1 \<in> {X, ?X1}"
    "rootKeyHex X1 = bytesToHex P rX" "int n = sendSequenceNumber X" by blast
  have same: "localDhKeyPair X1 = localDhKeyPair X" "previousChainLength X1 = previousChainLength X"
    "remoteDhPublicKeyHex X1 = remoteDhPublicKeyHex X" "skippedMessageKeys X1 = skippedMessageKeys X"
    "receiveChainKeyHex X1 = receiveChainKeyHex X" "receiveSequenceNumber X1 = receiveSequenceNumber X"
    using X1(3) by auto
  obtain ct where ct: "encryptStep P nonce now pt X = (Inr (int n, ct), sent P cX n now X1)"
    "\<And>ses' msg. carries P ses' nonce (int n) ct msg \<Longrightarrow>
        opens P (msg, text_decode (text_encode pt)) (message_key P cX n)"
    using encryptStep_at [OF L X1(1,2) nonce] by blast
  let ?X' = "sent P cX n now X1"
  have "ahead_at P used ?X' Y (F @ [(msg, text_decode (text_encode pt))]) G cX cY cO"
    if msg: "carries P ?X' nonce (int n) ct msg" for msg
  proof -
    let ?f = "(msg, text_decode (text_encode pt))"
    have new: "in_new P ?X' cX ?f"
      using ct(2) [OF msg] msg by (simp add: in_new_def carries_def)
    have fid: "flight_id ?f = skippedKeyId ?hx (int n)" using msg same by (simp add: carries_def flight_id_def)
    have "flight_id f \<noteq> flight_id ?f" if "f \<in> set F" for f
    proof
      assume eq: "flight_id f = flight_id ?f"
      have "wf_header (em_ephemeralPublicKeyHex (fst f))" "wf_header ?hx"
        using that A by (auto simp: flights_ok_def party_def)
      then have h: "em_ephemeralPublicKeyHex (fst f) = ?hx" "em_sequenceNumber (fst f) = int n"
        using eq fid skippedKeyId_inject by (auto simp: flight_id_def)
      have "\<not> in_new P X cX f" using h(2) X1(5) by (auto simp: in_new_def)
      moreover have "\<not> in_skip P Y f" using A eq fid by (simp add: in_skip_def)
      moreover have "\<not> in_cur P Y cO (previousChainLength X) f" using A h(1) by (auto simp: in_cur_def)
      ultimately show False using A that by blast
    qed
    moreover have "em_ephemeralPublicKeyHex (fst ?f) \<in> used" "flights_ok used F"
      using A msg same by (auto simp: carries_def party_def)
    ultimately have "flights_ok used (F @ [?f])" using flights_ok_snoc by blast
    moreover have "ahead_send P ?X' Y cX"
      using rX(1) sent_send_at [OF X1(2)] X1(4) same by (auto simp: ahead_send_def root_step_def)
    moreover have "party P used ?X'" using A same by (simp add: party_def keys_used_def)
    moreover have recv: "recv_ok P ?X' c l = recv_ok P X c l" "in_skip P ?X' g = in_skip P X g"
      "in_cur P ?X' c l g = in_cur P X c l g" for c l g
      using same by (intro receiving_cong; simp)+
    moreover have "\<forall>f \<in> set (F @ [?f]). in_skip P Y f \<or> in_new P ?X' cX f
        \<or> (receiveChainKeyHex Y \<noteq> None \<and> in_cur P Y cO (previousChainLength ?X') f)"
      using A new in_new_sent [of P X cX _ n X1 now] X1(5) same by auto
    ultimately show ?thesis using A same unfolding ahead_at_def recv sent_sel same by blast
  qed
  then show ?thesis using ct(1) by blast
qed

lemma linked_send_behind:
  assumes L: "ratchet_laws P" and A0: "ahead_at P used X Y F G cX cY cO" and nonce: "length nonce = 24"
  shows "\<exists>n ct Y'. encryptStep P nonce now pt Y = (Inr (n, ct), Y') \<and>
     (\<forall>msg. carries P Y' nonce n ct msg \<longrightarrow>
        ahead_at P used X Y' F (G @ [(msg, text_decode (text_encode pt))]) cX cY cO)"
proof -
  note A = A0[unfolded ahead_at_def] and laws = ratchet_lawsD [OF L]
  let ?hy = "publicKeyHex (localDhKeyPair Y)"
  obtain n where n: "send_at P Y cY n" using A by blast
  obtain ct where ct: "encryptStep P nonce now pt Y = (Inr (int n, ct), sent P cY n now Y)"
    "\<And>ses' msg. carries P ses' nonce (int n) ct msg \<Longrightarrow>
        opens P (msg, text_decode (text_encode pt)) (message_key P cY n)"
    using encryptStep_at [OF L ensureSendChain_at [OF laws(1,3) n] n nonce] by blast
  let ?Y' = "sent P cY n now Y"
  have sY: "sendSequenceNumber Y = int n" using n by (simp add: send_at_def)
  have "ahead_at P used X ?Y' F (G @ [(msg, text_decode (text_encode pt))]) cX cY cO"
    if msg: "carries P ?Y' nonce (int n) ct msg" for msg
  proof -
    let ?g = "(msg, text_decode (text_encode pt))"
    have fid: "flight_id ?g = skippedKeyId ?hy (int n)" using msg by (simp add: carries_def flight_id_def)
    obtain m where m: "recv_at P X cY m" "int m \<le> int n"
      "\<forall>i \<ge> m. obj_get (skippedMessageKeys X) (skippedKeyId ?hy (int i)) = None"
      using A sY by (auto simp: recv_ok_def)
    have cur: "in_cur P X cY (sendSequenceNumber ?Y') ?g"
      using ct(2) [OF msg] msg m A by (simp add: in_cur_def carries_def recv_at_def)
    have "flight_id g \<noteq> flight_id ?g" if "g \<in> set G" for g
    proof
      assume eq: "flight_id g = flight_id ?g"
      have "wf_header (em_ephemeralPublicKeyHex (fst g))" "wf_header ?hy"
        using that A by (auto simp: flights_ok_def party_def)
      then have "em_sequenceNumber (fst g) = int n"
        using eq fid skippedKeyId_inject by (auto simp: flight_id_def)
      then have "\<not> in_cur P X cY (sendSequenceNumber Y) g" using sY by (auto simp: in_cur_def)
      moreover have "\<not> in_skip P X g" using m(2,3) eq fid by (auto simp: in_skip_def)
      ultimately show False using A that by blast
    qed
    moreover have "em_ephemeralPublicKeyHex (fst ?g) \<in> used" "flights_ok used G"
      using A msg by (auto simp: carries_def party_def)
    ultimately have "flights_ok used (G @ [?g])" using flights_ok_snoc by blast
    moreover have "ahead_send P X ?Y' cX" using A ahead_send_cong by (metis sent_sel(1,2))
    moreover have "\<exists>n. send_at P ?Y' cY n" using sent_send_at [OF n] by blast
    moreover have "party P used ?Y'" using A by (simp add: party_def keys_used_def)
    moreover have le: "sendSequenceNumber Y \<le> sendSequenceNumber ?Y'" using sY by simp
    then have "recv_ok P X cY (sendSequenceNumber ?Y')" using A limit_mono(1) by blast
    moreover have recv: "recv_ok P ?Y' c l = recv_ok P Y c l" "in_skip P ?Y' f = in_skip P Y f"
      "in_cur P ?Y' c l f = in_cur P Y c l f" for c l f
      by (intro receiving_cong; simp)+
    moreover have "\<forall>g \<in> set (G @ [?g]). in_skip P X g \<or> in_cur P X cY (sendSequenceNumber ?Y') g"
    proof
      fix g assume "g \<in> set (G @ [?g])"
      then consider "g \<in> set G" | "g = ?g" by auto
      then show "in_skip P X g \<or> in_cur P X cY (sendSequenceNumber ?Y') g"
        using A cur limit_mono(2) [OF le] by cases blast+
    qed
    ultimately show ?thesis using A unfolding ahead_at_def recv sent_sel(1,3-7) by blast
  qed
  then show ?thesis using ct(1) by blast
qed

lemma linked_send:
  assumes "ratchet_laws P" "linked P used A B F G" "length nonce = 24"
  shows "\<exists>n ct A'. encryptStep P nonce now pt A = (Inr (n, ct), A') \<and>
     (\<forall>msg. carries P A' nonce n ct msg \<longrightarrow>
        linked P used A' B (F @ [(msg, text_decode (text_encode pt))]) G)"
  using assms(2) linked_send_ahead [OF assms(1) _ assms(3)] linked_send_behind [OF assms(1) _ assms(3)]
  unfolding linked_def ahead_def by metis

lemma linked_sym: "linked P used A B F G = linked P used B A G F"
  by (auto simp: linked_def)

end
