(* ===== verification/Engine_Runs.thy ===== *)
theory Engine_Runs
  imports Ratchet_Pair
begin

section \<open>Runs of the engine over any store\<close>

text \<open>
  The engine's operations over a store that keeps the contract \<open>signal_store\<close>: what a run of
  \<open>encrypt\<close>, \<open>decrypt\<close>, \<open>generatePreKeyBundle\<close>, \<open>initiateSession\<close> and \<open>initiateBobSession\<close>
  does to the tables of the store, in terms of the session functions. These lemmas hold for
  every provider.
\<close>

lemma party_storable:
  "hex_codec P \<Longrightarrow> party P used ses \<Longrightarrow> storable_session P ses"
  by (simp add: party_def storable_session_def box_keypair_storable)

lemma bindM_run: "m s = (Inr a, s') \<Longrightarrow> bindM m f s = f a s'"
  by (rule bindM_Inr)

lemma on_session_Inr: "m ses = (Inr a, ses') \<Longrightarrow> on_session S k m ses s = (Inr (a, ses'), mutateSession S k ses' s)"
  by (simp add: on_session_def)

context signal_store
begin

text \<open>Changing the session object and saving it under the same key.\<close>

lemma save_mutated:
  assumes "invar s" "storable_session P w"
  shows "\<exists>s'. saveSession S k w (mutateSession S k w s) = (Inr (), s') \<and> invar s' \<and>
     sess s' = (sess s)(toLowerCase k \<mapsto> w) \<and> spks s' = spks s \<and> otks s' = otks s \<and> ident s' = ident s"
proof -
  let ?s1 = "mutateSession S k w s"
  note m = mutateSession [OF assms, of k]
  obtain s' where s': "saveSession S k w ?s1 = (Inr (), s')" "invar s'"
    "sess s' = (sess ?s1)(toLowerCase k \<mapsto> w)" "spks s' = spks ?s1" "otks s' = otks ?s1" "ident s' = ident ?s1"
    using saveSession [OF conjunct1 [OF m] assms(2), of k] by blast
  have "sess s' = (sess s)(toLowerCase k \<mapsto> w)"
  proof
    fix k' show "sess s' k' = ((sess s)(toLowerCase k \<mapsto> w)) k'"
      using s'(3) m by (cases "k' = toLowerCase k") auto
  qed
  then show ?thesis using s' m by auto
qed

lemma encrypt_run:
  assumes "invar s" "sess s (toLowerCase k) = Some ses"
    and step: "encryptStep P nonce now pt ses = (Inr (n, ct), ses')" and "storable_session P ses'"
  shows "\<exists>msg s'. encrypt P S nonce now k pt None s = (Inr msg, s') \<and> carries P ses' nonce n ct msg \<and>
     em_oneTimePreKeyId msg = (if n = 0 then oneTimePreKeyId ses' else None) \<and>
     em_initialIdentityKeyHex msg = Some (publicKeyHex (encryptionKey (ident s))) \<and>
     em_initialEphemeralKeyHex msg = Some (publicKeyHex (localDhKeyPair ses')) \<and>
     invar s' \<and> sess s' = (sess s)(toLowerCase k \<mapsto> ses') \<and> spks s' = spks s \<and> otks s' = otks s \<and>
     ident s' = ident s"
proof -
  obtain s' where s': "saveSession S k ses' (mutateSession S k ses' s) = (Inr (), s')" "invar s'"
    "sess s' = (sess s)(toLowerCase k \<mapsto> ses')" "spks s' = spks s" "otks s' = otks s" "ident s' = ident s"
    using save_mutated [OF assms(1,4)] by blast
  have get: "getSession S k s = (Inr (Some ses), s)" using getSession [OF assms(1)] assms(2) by simp
  show ?thesis
    unfolding encrypt_def bindM_run [where m = "getSession S k", OF get]
    using on_session_Inr [where m = "encryptStep P nonce now pt" and s = s and S = S and k = k, OF step] s' getIdentity
    by (simp add: bindM_def carries_def Let_def)
qed

text \<open>\<open>decrypt\<close> on an existing session, when the message opens.\<close>

lemma decrypt_run:
  assumes "invar s" "sess s (toLowerCase k) = Some ses"
    and step: "openSession P rk now msg ses = (Inr mk, ses')" and "storable_session P ses'"
  shows "\<exists>s'. decrypt P S bk rk now k msg s = (decryptWithKey P msg mk, s') \<and> invar s' \<and>
     sess s' = (sess s)(toLowerCase k \<mapsto> ses') \<and> spks s' = spks s \<and> otks s' = otks s \<and> ident s' = ident s"
proof -
  obtain s' where s': "saveSession S k ses' (mutateSession S k ses' s) = (Inr (), s')" "invar s'"
    "sess s' = (sess s)(toLowerCase k \<mapsto> ses')" "spks s' = spks s" "otks s' = otks s" "ident s' = ident s"
    using save_mutated [OF assms(1,4)] by blast
  have get: "getSession S k s = (Inr (Some ses), s)" using getSession [OF assms(1)] assms(2) by simp
  show ?thesis
  proof (cases "hasSkippedKey ses msg")
    case True
    then have "on_session S k (takeSkippedKey P msg) ses s = (Inr (mk, ses'), mutateSession S k ses' s)"
      using step by (intro on_session_Inr) (simp add: openSession_def)
    then show ?thesis
      unfolding decrypt_def bindM_run [where m = "getSession S k", OF get]
      using True s' by (simp add: bindM_def)
  next
    case False
    then have "on_session S k (deriveMessageKey P rk now msg) ses s = (Inr (mk, ses'), mutateSession S k ses' s)"
      using step by (intro on_session_Inr) (simp add: openSession_def)
    then show ?thesis
      unfolding decrypt_def bindM_run [where m = "getSession S k", OF get]
      using False s' by (simp add: bindM_def)
  qed
qed

text \<open>The first message: a session is created and saved, then used.\<close>

lemma decrypt_first:
  assumes "invar s" "sess s (toLowerCase k) = None"
    and "initiateBobSession P S bk now k msg s = (Inr ses, s1)"
    and "invar s1" "sess s1 (toLowerCase k) = Some ses"
  shows "decrypt P S bk rk now k msg s = decrypt P S bk' rk now k msg s1"
proof -
  have "getSession S k s = (Inr None, s)" "getSession S k s1 = (Inr (Some ses), s1)"
    using getSession assms(1,2,4,5) by auto
  then show ?thesis using assms(3) by (simp add: decrypt_def bindM_def)
qed

subsection \<open>Publishing a bundle\<close>

lemma store_oneTimePreKeys_run:
  assumes "hex_codec P" "\<forall>i. length (fst (draw i)) = 32" "invar s"
  shows "\<exists>s'. store_oneTimePreKeys P S draw i n s = (Inr (), s') \<and> invar s' \<and> spks s' = spks s \<and>
     sess s' = sess s \<and> ident s' = ident s \<and>
     (\<forall>j. inj_on (\<lambda>j. snd (draw j)) {i..<i + n} \<longrightarrow> i \<le> j \<longrightarrow> j < i + n \<longrightarrow> otks s' (snd (draw j)) =
        Some \<lparr>otk_keyId = snd (draw j), otk_keyPair = generateCurve25519KeyPair P (fst (draw j))\<rparr>) \<and>
     (\<forall>x. x \<notin> (\<lambda>j. snd (draw j)) ` {i..<i + n} \<longrightarrow> otks s' x = otks s x)"
  using assms(3)
proof (induction n arbitrary: i s)
  case (Suc n)
  let ?k = "\<lambda>j. \<lparr>otk_keyId = snd (draw j), otk_keyPair = generateCurve25519KeyPair P (fst (draw j))\<rparr>"
  have "storable_keypair P (otk_keyPair (?k i))"
    using assms(1,2) generated_keypair box_keypair_storable by simp
  then obtain s1 where s1: "saveOneTimePreKey S (snd (draw i)) (?k i) s = (Inr (), s1)" "invar s1"
    "otks s1 = (otks s)(snd (draw i) \<mapsto> ?k i)" "spks s1 = spks s" "sess s1 = sess s" "ident s1 = ident s"
    using saveOneTimePreKey [OF Suc.prems] by blast
  obtain s' where s': "store_oneTimePreKeys P S draw (Suc i) n s1 = (Inr (), s')" "invar s'" "spks s' = spks s"
    "sess s' = sess s" "ident s' = ident s"
    "\<And>j. inj_on (\<lambda>j. snd (draw j)) {Suc i..<Suc i + n} \<Longrightarrow> Suc i \<le> j \<Longrightarrow> j < Suc i + n \<Longrightarrow> otks s' (snd (draw j)) = Some (?k j)"
    "\<And>x. x \<notin> (\<lambda>j. snd (draw j)) ` {Suc i..<Suc i + n} \<Longrightarrow> otks s' x = otks s1 x"
    using Suc.IH [OF s1(2), of "Suc i"] s1(4-6) by auto
  have set: "{i..<i + Suc n} = insert i {Suc i..<Suc i + n}" by auto
  have "otks s' (snd (draw j)) = Some (?k j)"
    if inj: "inj_on (\<lambda>j. snd (draw j)) {i..<i + Suc n}" and j: "i \<le> j" "j < i + Suc n" for j
  proof (cases "j = i")
    case True
    have "snd (draw i) \<notin> (\<lambda>j. snd (draw j)) ` {Suc i..<Suc i + n}"
      using inj unfolding set by (auto simp: inj_on_def)
    then show ?thesis using s'(7) s1(3) True by simp
  next
    case False
    have "inj_on (\<lambda>j. snd (draw j)) {Suc i..<Suc i + n}" using inj unfolding set by (simp add: inj_on_def)
    then show ?thesis using s'(6) j False by simp
  qed
  moreover have "otks s' x = otks s x" if "x \<notin> (\<lambda>j. snd (draw j)) ` {i..<i + Suc n}" for x
    using s'(7) [of x] s1(3) that unfolding set by auto
  ultimately show ?case using s1(1) s'(1-5) by (simp add: bindM_def)
qed (simp add: Ball_def)

text \<open>What a published bundle holds, and what publishing leaves of the keys that were there.\<close>

lemma generatePreKeyBundle_full:
  assumes "hex_codec P" "dh_agreement P" "sign_correct P" "wf_identity P (ident s)" "invar s"
    and "length spkSecret = 32" "\<forall>i. length (fst (draw i)) = 32"
    and "\<forall>k \<in> ran (spks s). spk_createdAt k < now"
    and "inj_on (\<lambda>j. snd (draw j)) {0..<n}"
  shows "\<exists>bundle spk s'. generatePreKeyBundle P S spkSecret spkId draw now n s = (Inr bundle, s') \<and> invar s' \<and>
     sess s' = sess s \<and> ident s' = ident s \<and>
     verifySignature P (sp_publicKeyHex (pb_signedPreKey bundle)) (sp_signatureHex (pb_signedPreKey bundle))
        (pb_signingKeyHex bundle) \<and>
     pb_identityKeyHex bundle = publicKeyHex (encryptionKey (ident s)) \<and>
     sp_publicKeyHex (pb_signedPreKey bundle) = publicKeyHex (generateCurve25519KeyPair P spkSecret) \<and>
     getLatestSignedPreKey S s' = (Inr (Some spk), s') \<and> spk_keyPair spk = generateCurve25519KeyPair P spkSecret \<and>
     (case pb_oneTimePreKey bundle of None \<Rightarrow> n = 0
      | Some op \<Rightarrow> 0 < n \<and> op_keyId op = snd (draw 0) \<and>
          op_publicKeyHex op = publicKeyHex (generateCurve25519KeyPair P (fst (draw 0))) \<and>
          otks s' (op_keyId op) =
            Some \<lparr>otk_keyId = snd (draw 0), otk_keyPair = generateCurve25519KeyPair P (fst (draw 0))\<rparr>) \<and>
     (\<forall>x. x \<notin> (\<lambda>j. snd (draw j)) ` {0..<n} \<longrightarrow> otks s' x = otks s x) \<and>
     (\<forall>k \<in> ran (spks s'). spk_createdAt k \<le> now)"
proof -
  let ?kp = "generateCurve25519KeyPair P spkSecret" and ?sk = "signingKey (ident s)"
  have hx: "hexToBytes P (publicKeyHex ?kp) = Inr (boxPublic P spkSecret)"
    "length (boxPublic P spkSecret) = 32"
    using assms(1,2,6) by (simp_all add: prim_laws)
  have sk: "sign_keypair P ?sk" using assms(4) by (simp add: wf_identity_def)
  obtain sg where sg: "signChallenge P (publicKeyHex ?kp) (secretKey ?sk) = Inr sg"
    "verifySignature P (publicKeyHex ?kp) sg (publicKeyHex ?sk)"
    using signChallenge_verifies [OF assms(1,3) sk hx] by blast
  let ?spk = "\<lparr>spk_keyId = spkId, spk_keyPair = ?kp, spk_signatureHex = sg, spk_createdAt = now\<rparr>"
  have "storable_keypair P (spk_keyPair ?spk)"
    using assms(1,6) generated_keypair box_keypair_storable by simp
  then obtain s1 where s1: "saveSignedPreKey S spkId ?spk s = (Inr (), s1)" "invar s1"
    "spks s1 = (spks s)(spkId \<mapsto> ?spk)" "sess s1 = sess s" "ident s1 = ident s" "otks s1 = otks s"
    using latest_after_save [OF assms(5), of ?spk spkId] assms(8) by auto
  obtain s' where s': "store_oneTimePreKeys P S draw 0 n s1 = (Inr (), s')" "invar s'" "spks s' = spks s1"
    "sess s' = sess s1" "ident s' = ident s1"
    "0 < n \<Longrightarrow> otks s' (snd (draw 0)) =
        Some \<lparr>otk_keyId = snd (draw 0), otk_keyPair = generateCurve25519KeyPair P (fst (draw 0))\<rparr>"
    "\<And>x. x \<notin> (\<lambda>j. snd (draw j)) ` {0..<n} \<Longrightarrow> otks s' x = otks s x"
    using store_oneTimePreKeys_run [OF assms(1,7) s1(2), of 0 n] assms(9) s1(6) by auto
  have "spks s' = (spks s)(spkId \<mapsto> ?spk)" using s'(3) s1(3) by simp
  then have ran: "ran (spks s') \<subseteq> insert ?spk (ran (spks s))" "?spk \<in> ran (spks s')"
    by (auto simp: ran_def)
  obtain r where r: "getLatestSignedPreKey S s' = (Inr r, s')" "r = None \<longleftrightarrow> spks s' = Map.empty"
    "\<And>k. r = Some k \<Longrightarrow> k \<in> ran (spks s') \<and> (\<forall>k' \<in> ran (spks s'). spk_createdAt k' \<le> spk_createdAt k)"
    using getLatestSignedPreKey [OF s'(2)] by blast
  have "spks s' \<noteq> Map.empty" using ran(2) by (auto simp: ran_def)
  then obtain k where k: "r = Some k" using r(2) by auto
  then have "k \<in> insert ?spk (ran (spks s))" "now \<le> spk_createdAt k" using r(3) ran by force+
  then have "k = ?spk" using assms(8) by force
  then have latest: "getLatestSignedPreKey S s' = (Inr (Some ?spk), s')" using r(1) k by simp
  have "\<forall>k \<in> ran (spks s'). spk_createdAt k \<le> now" using ran(1) assms(8) by fastforce
  then show ?thesis
    using getIdentity [of s] sg s1 s' latest assms(5)
    by (auto simp: generatePreKeyBundle_def bindM_def Let_def)
qed

lemma generatePreKeyBundle_run:
  assumes "hex_codec P" "dh_agreement P" "sign_correct P" "wf_identity P (ident s)" "invar s"
    and "length spkSecret = 32" "\<forall>i. length (fst (draw i)) = 32"
    and "\<forall>k \<in> ran (spks s). spk_createdAt k < now"
    and "inj_on (\<lambda>j. snd (draw j)) {0..<n}"
  shows "\<exists>bundle spk s'. generatePreKeyBundle P S spkSecret spkId draw now n s = (Inr bundle, s') \<and> invar s' \<and>
     sess s' = sess s \<and> ident s' = ident s \<and>
     verifySignature P (sp_publicKeyHex (pb_signedPreKey bundle)) (sp_signatureHex (pb_signedPreKey bundle))
        (pb_signingKeyHex bundle) \<and>
     pb_identityKeyHex bundle = publicKeyHex (encryptionKey (ident s)) \<and>
     sp_publicKeyHex (pb_signedPreKey bundle) = publicKeyHex (generateCurve25519KeyPair P spkSecret) \<and>
     getLatestSignedPreKey S s' = (Inr (Some spk), s') \<and> spk_keyPair spk = generateCurve25519KeyPair P spkSecret \<and>
     (case pb_oneTimePreKey bundle of None \<Rightarrow> n = 0
      | Some op \<Rightarrow> 0 < n \<and> op_keyId op = snd (draw 0) \<and>
          op_publicKeyHex op = publicKeyHex (generateCurve25519KeyPair P (fst (draw 0))) \<and>
          otks s' (op_keyId op) =
            Some \<lparr>otk_keyId = snd (draw 0), otk_keyPair = generateCurve25519KeyPair P (fst (draw 0))\<rparr>)"
  using generatePreKeyBundle_full [OF assms, of spkId] by (elim exE conjE) (intro exI conjI; assumption)

end

end
