(* ===== verification/Secure_Channel.thy ===== *)
theory Secure_Channel
  imports Engine_Runs
begin

section \<open>Session establishment and the channel of two parties\<close>

text \<open>
  From the published pre-key bundle to an arbitrary interleaving of sends and deliveries: the
  X3DH agreement of \<open>initiateSession\<close> and \<open>initiateBobSession\<close>, the state before the responder has
  a session (\<open>greeting\<close>), and the step relation \<open>channel\<close> of two parties that call \<open>encrypt\<close> and
  \<open>decrypt\<close> on their stores while a network reorders, delays and drops messages.
\<close>

subsection \<open>X3DH\<close>

text \<open>Both sides of the key agreement derive the same root key and chain key.\<close>

lemma x3dh_agree:
  assumes "hex_codec P" "dh_agreement P" "kdf_length P"
    and "box_keypair P (encryptionKey uA)" "box_keypair P (encryptionKey uB)"
    and "box_keypair P spk" "box_keypair P ekA" "\<forall>kp. opk = Some kp \<longrightarrow> box_keypair P kp"
    and "pb_identityKeyHex bundle = publicKeyHex (encryptionKey uB)"
    and "sp_publicKeyHex (pb_signedPreKey bundle) = publicKeyHex spk"
    and "map_option op_publicKeyHex (pb_oneTimePreKey bundle) = map_option publicKeyHex opk"
  shows "\<exists>r c. x3dh_initiator P uA bundle ekA = Inr (r, c) \<and> length r = 32 \<and> length c = 32 \<and>
     x3dh_responder P uB spk opk (publicKey (encryptionKey uA)) (publicKey ekA) (publicKeyHex ekA) = Inr (r, c)"
proof -
  have hx: "hexToBytes P (publicKeyHex kp) = Inr (publicKey kp)" if "box_keypair P kp" for kp
    using that assms(1) by (simp add: box_keypair_def prim_laws)
  have dh: "\<exists>z. scalarMult P (secretKey a) (publicKey b) = Inr z \<and> scalarMult P (secretKey b) (publicKey a) = Inr z"
    if "box_keypair P a" "box_keypair P b" for a b
    using that scalarMult_commute [OF assms(2)] scalarMult_defined [OF assms(2)] assms(2)
    by (metis box_keypair_def length_boxPublic)
  obtain z1 where z1: "scalarMult P (secretKey (encryptionKey uA)) (publicKey spk) = Inr z1"
    "scalarMult P (secretKey spk) (publicKey (encryptionKey uA)) = Inr z1" using dh assms(4,6) by blast
  obtain z2 where z2: "scalarMult P (secretKey ekA) (publicKey (encryptionKey uB)) = Inr z2"
    "scalarMult P (secretKey (encryptionKey uB)) (publicKey ekA) = Inr z2" using dh assms(5,7) by blast
  obtain z3 where z3: "scalarMult P (secretKey ekA) (publicKey spk) = Inr z3"
    "scalarMult P (secretKey spk) (publicKey ekA) = Inr z3" using dh assms(6,7) by blast
  note simps = x3dh_initiator_def x3dh_responder_def assms(9,10) hx [OF assms(5)] hx [OF assms(6)]
    hx [OF assms(7)] z1 z2 z3
  have len: "\<exists>r c. kdfRoot P m d = (r, c) \<and> length r = 32 \<and> length c = 32" for m d
    by (metis length_kdf(1,2) [OF assms(3)] prod.collapse)
  show ?thesis
  proof (cases opk)
    case None
    then have "pb_oneTimePreKey bundle = None" using assms(11) by simp
    moreover obtain r c where "kdfRoot P (x3dh_master P [z1, z2, z3]) z3 = (r, c)" "length r = 32" "length c = 32"
      using len by blast
    ultimately show ?thesis using None by (simp add: simps)
  next
    case (Some kp)
    then obtain op where op: "pb_oneTimePreKey bundle = Some op" "op_publicKeyHex op = publicKeyHex kp"
      using assms(11) by auto
    have kp: "box_keypair P kp" using assms(8) Some by simp
    obtain z4 where z4: "scalarMult P (secretKey ekA) (publicKey kp) = Inr z4"
      "scalarMult P (secretKey kp) (publicKey ekA) = Inr z4" using dh assms(7) kp by blast
    obtain r c where "kdfRoot P (x3dh_master P [z1, z2, z3, z4]) z3 = (r, c)" "length r = 32" "length c = 32"
      using len by blast
    then show ?thesis using Some op hx [OF kp] z4 by (simp add: simps)
  qed
qed

subsection \<open>Before the responder has a session\<close>

text \<open>What Bob published, as his store holds it: the signed pre-key his store returns as the
  latest one, and the one-time pre-key of the bundle.\<close>

definition published ::
  "prims \<Rightarrow> identity \<Rightarrow> signed_prekey \<Rightarrow> (int \<Rightarrow> one_time_prekey option) \<Rightarrow> prekey_bundle \<Rightarrow> bool" where
  "published P uB spk otk bundle \<longleftrightarrow>
     box_keypair P (encryptionKey uB) \<and> box_keypair P (spk_keyPair spk) \<and>
     pb_identityKeyHex bundle = publicKeyHex (encryptionKey uB) \<and>
     sp_publicKeyHex (pb_signedPreKey bundle) = publicKeyHex (spk_keyPair spk) \<and>
     verifySignature P (sp_publicKeyHex (pb_signedPreKey bundle)) (sp_signatureHex (pb_signedPreKey bundle))
        (pb_signingKeyHex bundle) \<and>
     (\<forall>op. pb_oneTimePreKey bundle = Some op \<longrightarrow>
        (\<exists>k. otk (op_keyId op) = Some k \<and> box_keypair P (otk_keyPair k) \<and>
             op_publicKeyHex op = publicKeyHex (otk_keyPair k)))"

text \<open>A message Alice sent with number \<open>n\<close> on her first chain.\<close>

definition first_chain_msg ::
  "prims \<Rightarrow> identity \<Rightarrow> prekey_bundle \<Rightarrow> session \<Rightarrow> bytes \<Rightarrow> flight \<Rightarrow> bool" where
  "first_chain_msg P uA bundle ses c f \<longleftrightarrow>
     (\<exists>n. em_sequenceNumber (fst f) = int n \<and> int n < sendSequenceNumber ses \<and>
        em_ephemeralPublicKeyHex (fst f) = publicKeyHex (localDhKeyPair ses) \<and>
        em_initialEphemeralKeyHex (fst f) = Some (publicKeyHex (localDhKeyPair ses)) \<and>
        em_initialIdentityKeyHex (fst f) = Some (publicKeyHex (encryptionKey uA)) \<and>
        em_oneTimePreKeyId (fst f) = (if n = 0 then map_option op_keyId (pb_oneTimePreKey bundle) else None) \<and>
        opens P f (message_key P c n))"

definition greeting ::
  "prims \<Rightarrow> identity \<Rightarrow> identity \<Rightarrow> signed_prekey \<Rightarrow> (int \<Rightarrow> one_time_prekey option) \<Rightarrow> prekey_bundle
     \<Rightarrow> session \<Rightarrow> flight list \<Rightarrow> bool" where
  "greeting P uA uB spk otk bundle ses F \<longleftrightarrow>
     published P uB spk otk bundle \<and> box_keypair P (encryptionKey uA) \<and> box_keypair P (localDhKeyPair ses) \<and>
     (\<exists>r c n. x3dh_initiator P uA bundle (localDhKeyPair ses) = Inr (r, c) \<and> length r = 32 \<and>
        rootKeyHex ses = bytesToHex P r \<and> send_at P ses c n \<and>
        (\<forall>f \<in> set F. first_chain_msg P uA bundle ses c f)) \<and>
     receiveChainKeyHex ses = None \<and> previousChainLength ses = 0 \<and> skippedMessageKeys ses = [] \<and>
     remoteDhPublicKeyHex ses = Some (publicKeyHex (spk_keyPair spk)) \<and>
     oneTimePreKeyId ses = map_option op_keyId (pb_oneTimePreKey bundle) \<and>
     distinct (map flight_id F)"

lemma greeting_send:
  assumes L: "ratchet_laws P" and A0: "greeting P uA uB spk otk bundle ses F" and nonce: "length nonce = 24"
  shows "\<exists>n ct ses'. encryptStep P nonce now pt ses = (Inr (n, ct), ses') \<and> storable_session P ses' \<and>
     localDhKeyPair ses' = localDhKeyPair ses \<and> n = sendSequenceNumber ses \<and>
     (\<forall>msg. carries P ses' nonce n ct msg \<longrightarrow>
        em_oneTimePreKeyId msg = (if n = 0 then oneTimePreKeyId ses' else None) \<longrightarrow>
        em_initialIdentityKeyHex msg = Some (publicKeyHex (encryptionKey uA)) \<longrightarrow>
        em_initialEphemeralKeyHex msg = Some (publicKeyHex (localDhKeyPair ses')) \<longrightarrow>
        greeting P uA uB spk otk bundle ses' (F @ [(msg, text_decode (text_encode pt))]))"
proof -
  note A = A0[unfolded greeting_def] and laws = ratchet_lawsD [OF L]
  obtain r c n where r: "x3dh_initiator P uA bundle (localDhKeyPair ses) = Inr (r, c)" "length r = 32"
    "rootKeyHex ses = bytesToHex P r" "send_at P ses c n" "\<forall>f \<in> set F. first_chain_msg P uA bundle ses c f"
    using A by blast
  obtain ct where ct: "encryptStep P nonce now pt ses = (Inr (int n, ct), sent P c n now ses)"
    "\<And>ses' msg. carries P ses' nonce (int n) ct msg \<Longrightarrow>
        opens P (msg, text_decode (text_encode pt)) (message_key P c n)"
    using encryptStep_at [OF L ensureSendChain_at [OF laws(1,3) r(4)] r(4) nonce] by blast
  let ?ses' = "sent P c n now ses"
  have otk: "oneTimePreKeyId (sent P c j now ses) = oneTimePreKeyId ses" for j by (simp add: sent_def)
  have seq: "sendSequenceNumber ses = int n" using r(4) by (simp add: send_at_def)
  have "greeting P uA uB spk otk bundle ?ses' (F @ [(msg, text_decode (text_encode pt))])"
    if msg: "carries P ?ses' nonce (int n) ct msg"
      "em_oneTimePreKeyId msg = (if int n = 0 then oneTimePreKeyId ?ses' else None)"
      "em_initialIdentityKeyHex msg = Some (publicKeyHex (encryptionKey uA))"
      "em_initialEphemeralKeyHex msg = Some (publicKeyHex (localDhKeyPair ?ses'))" for msg
  proof -
    let ?f = "(msg, text_decode (text_encode pt))"
    have new: "first_chain_msg P uA bundle ?ses' c ?f"
      using msg ct(2) [OF msg(1)] A otk by (simp add: first_chain_msg_def carries_def)
    have old: "first_chain_msg P uA bundle ?ses' c f" if "f \<in> set F" for f
      using r(5) that seq by (fastforce simp: first_chain_msg_def)
    have "flight_id f \<noteq> flight_id ?f" if "f \<in> set F" for f
      using r(5) that seq msg(1) by (fastforce simp: first_chain_msg_def flight_id_def carries_def)
    then have "distinct (map flight_id (F @ [?f]))"
      using A by (simp add: image_iff) metis
    then show ?thesis
      unfolding greeting_def using A otk r(1-3) sent_send_at [OF r(4)] new old by auto
  qed
  moreover have "storable_session P ?ses'"
    using A laws(1) by (simp add: storable_session_def box_keypair_storable)
  moreover have "localDhKeyPair ?ses' = localDhKeyPair ses" by simp
  ultimately show ?thesis using ct(1) seq [symmetric] by blast
qed

text \<open>The session Bob creates for a message of Alice's first chain that carries the one-time
  pre-key identifier of the bundle is linked to hers.\<close>

definition bob_session :: "prims \<Rightarrow> bytes \<Rightarrow> int \<Rightarrow> hex \<Rightarrow> hex \<Rightarrow> bytes \<times> bytes \<Rightarrow> session" where
  "bob_session P dhsSecret now senderKeyHex ephemeralHex rc =
     \<lparr>recipientIdentityKeyHex = toLowerCase senderKeyHex, rootKeyHex = bytesToHex P (fst rc),
      sendChainKeyHex = None, receiveChainKeyHex = Some (bytesToHex P (snd rc)),
      localDhKeyPair = generateCurve25519KeyPair P dhsSecret,
      remoteDhPublicKeyHex = Some (toLowerCase ephemeralHex), sendSequenceNumber = 0,
      receiveSequenceNumber = 0, previousChainLength = 0, skippedMessageKeys = [],
      createdAt = now, updatedAt = now, oneTimePreKeyId = None\<rparr>"

lemma greeting_linked:
  assumes L: "ratchet_laws P" and A0: "greeting P uA uB spk otk bundle ses F" and "length dhsSecret = 32"
    and x: "x3dh_initiator P uA bundle (localDhKeyPair ses) = Inr (r, c)"
    and fresh: "bytesToHex P (boxPublic P dhsSecret) \<noteq> publicKeyHex (spk_keyPair spk)"
  shows "linked P {publicKeyHex (localDhKeyPair ses), publicKeyHex (spk_keyPair spk), bytesToHex P (boxPublic P dhsSecret)}
     ses (bob_session P dhsSecret now k (publicKeyHex (localDhKeyPair ses)) (r, c)) F []"
proof -
  note A = A0[unfolded greeting_def] and laws = ratchet_lawsD [OF L]
  let ?B = "bob_session P dhsSecret now k (publicKeyHex (localDhKeyPair ses)) (r, c)"
  let ?dhs = "generateCurve25519KeyPair P dhsSecret"
  let ?used = "{publicKeyHex (localDhKeyPair ses), publicKeyHex (spk_keyPair spk), bytesToHex P (boxPublic P dhsSecret)}"
  obtain n where n: "length r = 32" "rootKeyHex ses = bytesToHex P r" "send_at P ses c n"
    "\<forall>f \<in> set F. first_chain_msg P uA bundle ses c f"
    using A x by auto
  have kp: "box_keypair P (localDhKeyPair ses)" "box_keypair P (spk_keyPair spk)" "box_keypair P ?dhs"
    using A generated_keypair assms(3) by (auto simp: published_def)
  have wf: "\<forall>h \<in> ?used. wf_header h"
    using kp wf_header_keypair [OF laws(1,2)] generated_sel by (metis emptyE insertE)
  obtain z where z: "scalarMult P (secretKey (localDhKeyPair ses)) (boxPublic P dhsSecret) = Inr z"
    using scalarMult_defined [OF laws(2)] kp(1) assms(3) laws(2)
    by (metis box_keypair_def length_boxPublic)
  obtain r' c' where rc: "kdfRoot P r z = (r', c')" by fastforce
  have "root_step P ses (publicKey (localDhKeyPair ?B)) r' c'"
    using n z rc by (auto simp: root_step_def bob_session_def intro!: exI [of _ r])
  then have "ahead_send P ?B ses c'"
    using n(2) by (auto simp: ahead_send_def bob_session_def)
  moreover have "party P ?used ses" "party P ?used ?B"
    using A kp wf by (auto simp: party_def keys_used_def bob_session_def wf_header_def)
  moreover have "flights_ok ?used F"
    using A n(4) by (auto simp: flights_ok_def first_chain_msg_def)
  moreover have "remoteDhPublicKeyHex ?B = Some (publicKeyHex (localDhKeyPair ses))"
    using wf by (simp add: bob_session_def wf_header_def)
  moreover have "recv_ok P ?B c (sendSequenceNumber ses)"
    unfolding recv_ok_def using calculation(5) wf n(3)
    by (intro exI [of _ 0] exI [of _ "publicKeyHex (localDhKeyPair ses)"])
      (simp add: recv_at_def bob_session_def send_at_def)
  moreover have "\<forall>f \<in> set F. in_skip P ?B f \<or> in_cur P ?B c (sendSequenceNumber ses) f"
    using n(4) calculation(5) by (fastforce simp: first_chain_msg_def in_cur_def bob_session_def)
  ultimately have "ahead_at P ?used ?B ses [] F c' c c"
    unfolding ahead_at_def using A wf n(3) fresh
    by (auto simp: bob_session_def flights_ok_def)
  then show ?thesis unfolding linked_def ahead_def by blast
qed

context signal_store
begin

lemma take_oneTimePreKey_run:
  assumes "invar s"
  shows "\<exists>s'. take_oneTimePreKey S io s = (Inr (case io of None \<Rightarrow> None | Some i \<Rightarrow> otks s i), s') \<and> invar s' \<and>
     spks s' = spks s \<and> sess s' = sess s \<and> ident s' = ident s"
proof (cases io)
  case (Some i)
  obtain s' where "removeOneTimePreKey S i s = (Inr (), s')" "invar s'" "spks s' = spks s" "sess s' = sess s"
    "ident s' = ident s"
    using removeOneTimePreKey [OF assms, of i] by blast
  then show ?thesis
    using Some assms getOneTimePreKey [OF assms, of i]
    by (cases "otks s i") (simp_all add: take_oneTimePreKey_def bindM_def)
qed (simp add: take_oneTimePreKey_def assms)

lemma initiateSession_run:
  assumes L: "ratchet_laws P" and inv: "invar s" and "box_keypair P (encryptionKey (ident s))"
    and pub: "published P uB spk otk bundle" and ek: "length ekSecret = 32"
  shows "\<exists>ses s'. initiateSession P S ekSecret now k bundle s = (Inr ses, s') \<and> invar s' \<and> ident s' = ident s \<and>
     sess s' = (sess s)(toLowerCase k \<mapsto> ses) \<and> spks s' = spks s \<and> otks s' = otks s \<and>
     localDhKeyPair ses = generateCurve25519KeyPair P ekSecret \<and> sendSequenceNumber ses = 0 \<and>
     greeting P (ident s) uB spk otk bundle ses []"
proof -
  note laws = ratchet_lawsD [OF L]
  let ?ekA = "generateCurve25519KeyPair P ekSecret"
  have ekA: "box_keypair P ?ekA" using generated_keypair ek .
  define opk where "opk = (case pb_oneTimePreKey bundle of None \<Rightarrow> None
     | Some op \<Rightarrow> map_option otk_keyPair (otk (op_keyId op)))"
  have opk: "\<forall>kp. opk = Some kp \<longrightarrow> box_keypair P kp"
    "map_option op_publicKeyHex (pb_oneTimePreKey bundle) = map_option publicKeyHex opk"
    using pub by (auto simp: published_def opk_def split: option.splits)
  obtain r c where rc: "x3dh_initiator P (ident s) bundle ?ekA = Inr (r, c)" "length r = 32" "length c = 32"
    using x3dh_agree [OF laws(1-3) assms(3) _ _ ekA opk(1) _ _ opk(2)] pub unfolding published_def by blast
  have spk: "wf_header (publicKeyHex (spk_keyPair spk))"
    using pub wf_header_keypair [OF laws(1,2)] by (simp add: published_def)
  define ses where "ses = \<lparr>recipientIdentityKeyHex = toLowerCase (pb_identityKeyHex bundle),
      rootKeyHex = bytesToHex P r, sendChainKeyHex = Some (bytesToHex P c), receiveChainKeyHex = None,
      localDhKeyPair = ?ekA, remoteDhPublicKeyHex = Some (toLowerCase (sp_publicKeyHex (pb_signedPreKey bundle))),
      sendSequenceNumber = 0, receiveSequenceNumber = 0, previousChainLength = 0, skippedMessageKeys = [],
      createdAt = now, updatedAt = now, oneTimePreKeyId = map_option op_keyId (pb_oneTimePreKey bundle)\<rparr>"
  have "storable_session P ses"
    using box_keypair_storable [OF laws(1) ekA] by (simp add: storable_session_def ses_def)
  then obtain s' where s': "saveSession S k ses s = (Inr (), s')" "invar s'"
    "sess s' = (sess s)(toLowerCase k \<mapsto> ses)" "spks s' = spks s" "otks s' = otks s" "ident s' = ident s"
    using saveSession [OF inv] by blast
  have "send_at P ses c 0" using rc(3) by (simp add: send_at_def ses_def)
  then have "greeting P (ident s) uB spk otk bundle ses []"
    unfolding greeting_def using pub assms(3) ekA rc spk
    by (auto simp: ses_def published_def wf_header_def)
  moreover have sig: "verifySignature P (sp_publicKeyHex (pb_signedPreKey bundle))
      (sp_signatureHex (pb_signedPreKey bundle)) (pb_signingKeyHex bundle)"
    using pub unfolding published_def by blast
  then have "initiateSession P S ekSecret now k bundle s = (Inr ses, s')"
    using getIdentity [of s] sig rc(1) s'(1)
    by (simp add: initiateSession_def bindM_def Let_def ses_def)
  ultimately show ?thesis using s' by (auto simp: ses_def)
qed

text \<open>The session Bob creates, from a message that carries the key identifier of the bundle.\<close>

lemma initiateBobSession_run:
  assumes L: "ratchet_laws P" and inv: "invar s" and g: "greeting P uA (ident s) spk (otks s) bundle ses F"
    and latest: "getLatestSignedPreKey S s = (Inr (Some spk), s)"
    and f: "f \<in> set F" "em_oneTimePreKeyId (fst f) = map_option op_keyId (pb_oneTimePreKey bundle)"
    and dhs: "length dhsSecret = 32"
  shows "\<exists>r c s'. x3dh_initiator P uA bundle (localDhKeyPair ses) = Inr (r, c) \<and>
     initiateBobSession P S dhsSecret now k (fst f) s =
       (Inr (bob_session P dhsSecret now k (publicKeyHex (localDhKeyPair ses)) (r, c)), s') \<and> invar s' \<and>
     sess s' = (sess s)(toLowerCase k \<mapsto> bob_session P dhsSecret now k (publicKeyHex (localDhKeyPair ses)) (r, c)) \<and>
     ident s' = ident s"
proof -
  note laws = ratchet_lawsD [OF L] and G = g[unfolded greeting_def]
  let ?ekA = "localDhKeyPair ses"
  define opk where "opk = (case pb_oneTimePreKey bundle of None \<Rightarrow> None
     | Some op \<Rightarrow> map_option otk_keyPair (otks s (op_keyId op)))"
  have opk: "\<forall>kp. opk = Some kp \<longrightarrow> box_keypair P kp"
    "map_option op_publicKeyHex (pb_oneTimePreKey bundle) = map_option publicKeyHex opk"
    using G by (auto simp: published_def opk_def split: option.splits)
  obtain r c where rc: "x3dh_initiator P uA bundle ?ekA = Inr (r, c)"
    "x3dh_responder P (ident s) (spk_keyPair spk) opk (publicKey (encryptionKey uA)) (publicKey ?ekA) (publicKeyHex ?ekA) = Inr (r, c)"
    using x3dh_agree [OF laws(1-3) _ _ _ _ opk(1) _ _ opk(2), where uA = uA and uB = "ident s" and spk = "spk_keyPair spk" and ekA = ?ekA]
      G unfolding published_def by blast
  let ?B = "bob_session P dhsSecret now k (publicKeyHex ?ekA) (r, c)"
  obtain s1 where s1: "take_oneTimePreKey S (em_oneTimePreKeyId (fst f)) s =
      (Inr (case em_oneTimePreKeyId (fst f) of None \<Rightarrow> None | Some i \<Rightarrow> otks s i), s1)"
    "invar s1" "sess s1 = sess s" "ident s1 = ident s"
    using take_oneTimePreKey_run [OF inv] by blast
  have o1: "map_option otk_keyPair (case em_oneTimePreKeyId (fst f) of None \<Rightarrow> None | Some i \<Rightarrow> otks s i) = opk"
    using f(2) by (auto simp: opk_def split: option.splits)
  have "storable_session P ?B"
    using laws(1) dhs box_keypair_storable generated_keypair
    by (simp add: storable_session_def bob_session_def)
  then obtain s' where s': "saveSession S k ?B s1 = (Inr (), s')" "invar s'"
    "sess s' = (sess s1)(toLowerCase k \<mapsto> ?B)" "ident s' = ident s1"
    using saveSession [OF s1(2)] by blast
  have m: "em_initialEphemeralKeyHex (fst f) = Some (publicKeyHex ?ekA)"
    "em_initialIdentityKeyHex (fst f) = Some (publicKeyHex (encryptionKey uA))"
    "em_ephemeralPublicKeyHex (fst f) = publicKeyHex ?ekA"
    using G f(1) by (auto simp: first_chain_msg_def)
  have ne: "publicKeyHex ?ekA \<noteq> []" "publicKeyHex (encryptionKey uA) \<noteq> []"
    and hx: "hexToBytes P (publicKeyHex ?ekA) = Inr (publicKey ?ekA)"
      "hexToBytes P (publicKeyHex (encryptionKey uA)) = Inr (publicKey (encryptionKey uA))"
    using G wf_header_keypair [OF laws(1,2)] laws(1)
    by (auto simp: wf_header_def box_keypair_def prim_laws)
  have "initiateBobSession P S dhsSecret now k (fst f) s = (Inr ?B, s')"
    using m ne hx getIdentity [of s] latest s1(1) o1 rc(2) s'(1)
    by (simp add: initiateBobSession_def bindM_def Let_def bob_session_def)
  then show ?thesis using rc(1) s' s1 by auto
qed

end

end
