(* ===== verification/Channel_System.thy ===== *)
theory Channel_System
  imports Secure_Channel
begin

section \<open>Two parties, their stores and a network\<close>

text \<open>
  The step relation of two devices that run \<open>CryptoEngine.ts\<close>: Bob publishes a bundle, Alice
  opens a session with it, and from then on either side encrypts whenever it likes while the
  network delivers the messages in any order, at any time, or drops them. The log records for
  every delivery the plaintext that was sent and what \<open>decrypt\<close> returned. The steps call the
  engine's operations on the stores; nothing of the protocol is abstracted.
\<close>

datatype side = Alice | Bob

primrec other :: "side \<Rightarrow> side" where
  "other Alice = Bob"
| "other Bob = Alice"

record 's world =
  store_of :: "side \<Rightarrow> 's"
  wire :: "side \<Rightarrow> flight list"
  offered :: "int option"
  used_keys :: "hex set"
  log_of :: "side \<Rightarrow> (string \<times> string res) list"

definition session_of :: "'s store_ops \<Rightarrow> hex \<Rightarrow> 's \<Rightarrow> session option" where
  "session_of S k s = (case getSession S k s of (Inr so, _) \<Rightarrow> so | (Inl _, _) \<Rightarrow> None)"

text \<open>Text that survives encoding: well-formed Unicode without a leading byte order mark.\<close>

definition sendable :: "string \<Rightarrow> bool" where
  "sendable pt \<longleftrightarrow> text_decode (text_encode pt) = pt"

text \<open>
  A delivery the protocol promises to open: on an existing session the gap is within
  \<open>MAX_SKIP_MESSAGES\<close>; the message that makes Bob create his session carries the identifier of
  the one-time pre-key he offered.
\<close>

definition deliverable :: "'s store_ops \<Rightarrow> hex \<Rightarrow> int option \<Rightarrow> encrypted_message \<Rightarrow> 's \<Rightarrow> bool" where
  "deliverable S k otkId msg s \<longleftrightarrow>
     (case session_of S k s of
        Some ses \<Rightarrow> within_gap ses msg
      | None \<Rightarrow> em_oneTimePreKeyId msg = otkId \<and> em_sequenceNumber msg \<le> MAX_SKIP_MESSAGES)"

definition fresh_secret :: "prims \<Rightarrow> hex set \<Rightarrow> bytes \<Rightarrow> bool" where
  "fresh_secret P used sk \<longleftrightarrow> length sk = 32 \<and> bytesToHex P (boxPublic P sk) \<notin> used"

inductive channel ::
  "prims \<Rightarrow> 's store_ops \<Rightarrow> (side \<Rightarrow> hex) \<Rightarrow> (side \<Rightarrow> 's) \<Rightarrow> 's world \<Rightarrow> bool"
  for P :: prims and S :: "'s store_ops" and key :: "side \<Rightarrow> hex" and start :: "side \<Rightarrow> 's" where
  start: "channel P S key start
     \<lparr>store_of = (\<lambda>d. case d of Alice \<Rightarrow> sA | Bob \<Rightarrow> sB), wire = (\<lambda>_. []),
      offered = map_option op_keyId (pb_oneTimePreKey bdl),
      used_keys = {bytesToHex P (boxPublic P ekSecret), bytesToHex P (boxPublic P spkSecret)},
      log_of = (\<lambda>_. [])\<rparr>"
  if "generatePreKeyBundle P S spkSecret spkId draw now n (start Bob) = (Inr bdl, sB)"
    and "initiateSession P S ekSecret now' (key Bob) bdl (start Alice) = (Inr ses, sA)"
    and "length spkSecret = 32" and "length ekSecret = 32" and "\<forall>i. length (fst (draw i)) = 32"
    and "inj_on (\<lambda>j. snd (draw j)) {0..<n}"
| send: "channel P S key start
     (w\<lparr>store_of := (store_of w)(d := s'), wire := (wire w)(other d := wire w (other d) @ [(msg, pt)])\<rparr>)"
  if "channel P S key start w"
    and "encrypt P S nonce now (key (other d)) pt None (store_of w d) = (Inr msg, s')"
    and "length nonce = 24" and "sendable pt"
| deliver: "channel P S key start
     (w\<lparr>store_of := (store_of w)(d := s'), wire := (wire w)(d := F1 @ F2),
        used_keys := insert (bytesToHex P (boxPublic P bk)) (insert (bytesToHex P (boxPublic P rk)) (used_keys w)),
        log_of := (log_of w)(d := log_of w d @ [(pt, r)])\<rparr>)"
  if "channel P S key start w" and "wire w d = F1 @ (msg, pt) # F2"
    and "deliverable S (key (other d)) (offered w) msg (store_of w d)"
    and "decrypt P S bk rk now (key (other d)) msg (store_of w d) = (r, s')"
    and "fresh_secret P (used_keys w) bk"
    and "fresh_secret P (insert (bytesToHex P (boxPublic P bk)) (used_keys w)) rk"
| drop: "channel P S key start (w\<lparr>wire := (wire w)(d := F1 @ F2)\<rparr>)"
  if "channel P S key start w" and "wire w d = F1 @ f # F2"

subsection \<open>The invariant\<close>

lemma ahead_at_drop:
  "ahead_at P used X Y (F1 @ f # F2) G cX cY cO \<Longrightarrow> ahead_at P used X Y (F1 @ F2) G cX cY cO"
  "ahead_at P used X Y F (G1 @ g # G2) cX cY cO \<Longrightarrow> ahead_at P used X Y F (G1 @ G2) cX cY cO"
proof -
  have sub: "set (H1 @ H2) \<subseteq> set (H1 @ h # H2)" for h :: flight and H1 H2 by auto
  show "ahead_at P used X Y (F1 @ f # F2) G cX cY cO \<Longrightarrow> ahead_at P used X Y (F1 @ F2) G cX cY cO"
    unfolding ahead_at_def using flights_okD(1) sub [of F1 F2 f] by blast
  show "ahead_at P used X Y F (G1 @ g # G2) cX cY cO \<Longrightarrow> ahead_at P used X Y F (G1 @ G2) cX cY cO"
    unfolding ahead_at_def using flights_okD(1) sub [of G1 G2 g] by blast
qed

lemma linked_drop: "linked P used A B (F1 @ f # F2) G \<Longrightarrow> linked P used A B (F1 @ F2) G"
  unfolding linked_def ahead_def by (metis ahead_at_drop)

lemma greeting_drop: "greeting P uA uB spk otk bdl ses (F1 @ f # F2)
    \<Longrightarrow> greeting P uA uB spk otk bdl ses (F1 @ F2)"
  unfolding greeting_def by auto

lemma carries_example:
  "carries P ses nonce n ct \<lparr>em_ephemeralPublicKeyHex = publicKeyHex (localDhKeyPair ses), em_sequenceNumber = n,
     em_previousChainLength = previousChainLength ses, em_ciphertext = b64_encode ct,
     em_nonce = bytesToHex P nonce, em_oneTimePreKeyId = None, em_initialIdentityKeyHex = None,
     em_initialEphemeralKeyHex = None\<rparr>"
  by (simp add: carries_def)

lemma linked_parties: "linked P used A B F G \<Longrightarrow> party P used A \<and> party P used B"
  unfolding linked_def ahead_def ahead_at_def by blast


text \<open>Either Alice has greeted Bob and he has no session yet, or the two sessions are linked.\<close>

definition greeted ::
  "prims \<Rightarrow> 's store_ops \<Rightarrow> ('s \<Rightarrow> identity) \<Rightarrow> ('s \<Rightarrow> int \<Rightarrow> one_time_prekey option) \<Rightarrow>
   ('s \<Rightarrow> hex \<Rightarrow> session option) \<Rightarrow> (side \<Rightarrow> hex) \<Rightarrow> 's world \<Rightarrow> bool" where
  "greeted P S ident otks sess key w \<longleftrightarrow>
     (\<exists>ses spk bdl.
        sess (store_of w Alice) (toLowerCase (key Bob)) = Some ses \<and>
        sess (store_of w Bob) (toLowerCase (key Alice)) = None \<and>
        getLatestSignedPreKey S (store_of w Bob) = (Inr (Some spk), store_of w Bob) \<and>
        greeting P (ident (store_of w Alice)) (ident (store_of w Bob)) spk (otks (store_of w Bob)) bdl ses (wire w Bob) \<and>
        wire w Alice = [] \<and> offered w = map_option op_keyId (pb_oneTimePreKey bdl) \<and>
        {publicKeyHex (localDhKeyPair ses), publicKeyHex (spk_keyPair spk)} \<subseteq> used_keys w)"

definition talking ::
  "prims \<Rightarrow> ('s \<Rightarrow> hex \<Rightarrow> session option) \<Rightarrow> (side \<Rightarrow> hex) \<Rightarrow> 's world \<Rightarrow> bool" where
  "talking P sess key w \<longleftrightarrow>
     (\<exists>used A B. used \<subseteq> used_keys w \<and>
        sess (store_of w Alice) (toLowerCase (key Bob)) = Some A \<and>
        sess (store_of w Bob) (toLowerCase (key Alice)) = Some B \<and>
        linked P used A B (wire w Bob) (wire w Alice))"

definition logs_ok :: "'s world \<Rightarrow> bool" where
  "logs_ok w \<longleftrightarrow> (\<forall>d. \<forall>(pt, r) \<in> set (log_of w d). r = Inr pt)"

text \<open>The two sides of a talking pair, seen from side \<open>d\<close>.\<close>

lemma talking_side:
  "talking P sess key w \<longleftrightarrow>
     (\<exists>used A B. used \<subseteq> used_keys w \<and>
        sess (store_of w d) (toLowerCase (key (other d))) = Some A \<and>
        sess (store_of w (other d)) (toLowerCase (key d)) = Some B \<and>
        linked P used A B (wire w (other d)) (wire w d))"
  by (cases d) (auto simp: talking_def linked_sym)

lemma talkingI:
  assumes "used \<subseteq> used_keys w" "sess (store_of w d) (toLowerCase (key (other d))) = Some A"
    and "sess (store_of w (other d)) (toLowerCase (key d)) = Some B"
    and "linked P used A B (wire w (other d)) (wire w d)"
  shows "talking P sess key w"
  using assms talking_side [of P sess key w d] by blast

lemma greeted_drop:
  assumes "greeted P S ident otks sess key w" "wire w d = F1 @ f # F2"
  shows "greeted P S ident otks sess key (w\<lparr>wire := (wire w)(d := F1 @ F2)\<rparr>)"
proof -
  obtain ses spk bdl where G: "sess (store_of w Alice) (toLowerCase (key Bob)) = Some ses"
    "sess (store_of w Bob) (toLowerCase (key Alice)) = None"
    "getLatestSignedPreKey S (store_of w Bob) = (Inr (Some spk), store_of w Bob)"
    "greeting P (ident (store_of w Alice)) (ident (store_of w Bob)) spk (otks (store_of w Bob)) bdl ses (wire w Bob)"
    "wire w Alice = []" "offered w = map_option op_keyId (pb_oneTimePreKey bdl)"
    "{publicKeyHex (localDhKeyPair ses), publicKeyHex (spk_keyPair spk)} \<subseteq> used_keys w"
    using assms(1) unfolding greeted_def by blast
  have "d = Bob" using assms(2) G(5) by (cases d) auto
  then show ?thesis
    unfolding greeted_def using G assms(2) greeting_drop
    by (intro exI [of _ ses] exI [of _ spk] exI [of _ bdl]) auto
qed

lemma other_neq [simp]: "other d \<noteq> d" "d \<noteq> other d"
  by (cases d; simp)+

lemma talking_drop:
  assumes "talking P sess key w" "wire w d = F1 @ f # F2"
  shows "talking P sess key (w\<lparr>wire := (wire w)(d := F1 @ F2)\<rparr>)"
proof -
  obtain used A B where U: "used \<subseteq> used_keys w" "sess (store_of w d) (toLowerCase (key (other d))) = Some A"
    "sess (store_of w (other d)) (toLowerCase (key d)) = Some B" "linked P used A B (wire w (other d)) (wire w d)"
    using assms(1) talking_side [of P sess key w d] by blast
  have "linked P used A B (wire w (other d)) (F1 @ F2)"
    using U(4) assms(2) linked_drop linked_sym by metis
  then show ?thesis
    using U by (intro talkingI [where d = d and used = used and A = A and B = B]) auto
qed

context signal_store
begin

lemma session_of_sess: "invar s \<Longrightarrow> session_of S k s = sess s (toLowerCase k)"
  by (simp add: session_of_def getSession)

lemma talking_send:
  assumes L: "ratchet_laws P" and inv: "\<forall>d. invar (store_of w d)" and t: "talking P sess key w"
    and e: "encrypt P S nonce now (key (other d)) pt None (store_of w d) = (Inr msg, s')"
    and "length nonce = 24" "sendable pt"
  shows "invar s' \<and> talking P sess key
     (w\<lparr>store_of := (store_of w)(d := s'), wire := (wire w)(other d := wire w (other d) @ [(msg, pt)])\<rparr>)"
proof -
  obtain used A B where U: "used \<subseteq> used_keys w" "sess (store_of w d) (toLowerCase (key (other d))) = Some A"
    "sess (store_of w (other d)) (toLowerCase (key d)) = Some B" "linked P used A B (wire w (other d)) (wire w d)"
    using t talking_side [of P sess key w d] by blast
  obtain n ct A' where step: "encryptStep P nonce now pt A = (Inr (n, ct), A')"
    "\<And>m. carries P A' nonce n ct m \<Longrightarrow>
       linked P used A' B (wire w (other d) @ [(m, text_decode (text_encode pt))]) (wire w d)"
    using linked_send [OF L U(4) assms(5)] by blast
  have "storable_session P A'"
    using step(2) [OF carries_example] linked_parties party_storable [OF ratchet_lawsD(1) [OF L]] by blast
  then obtain s'' where s'': "invar s''" "sess s'' = (sess (store_of w d))(toLowerCase (key (other d)) \<mapsto> A')"
    "s'' = s'" "carries P A' nonce n ct msg"
    using encrypt_run [OF inv [rule_format] U(2) step(1)] e by auto
  have "talking P sess key
     (w\<lparr>store_of := (store_of w)(d := s'), wire := (wire w)(other d := wire w (other d) @ [(msg, pt)])\<rparr>)"
    using U(1,3) s'' step(2) [OF s''(4)] assms(6)
    by (intro talkingI [where d = d and used = used and A = A' and B = B]) (auto simp: sendable_def)
  then show ?thesis using s'' by blast
qed

lemma talking_deliver:
  assumes L: "ratchet_laws P" and inv: "\<forall>d. invar (store_of w d)" and t: "talking P sess key w"
    and wire: "wire w d = F1 @ (msg, pt) # F2"
    and gap: "deliverable S (key (other d)) (offered w) msg (store_of w d)"
    and dec: "decrypt P S bk rk now (key (other d)) msg (store_of w d) = (r, s')"
    and fresh: "fresh_secret P used0 rk" "used_keys w \<subseteq> used0"
    and w': "store_of w' = (store_of w)(d := s')" "wire w' = (wire w)(d := F1 @ F2)"
      "insert (bytesToHex P (boxPublic P rk)) (used_keys w) \<subseteq> used_keys w'"
  shows "invar s' \<and> r = Inr pt \<and> talking P sess key w'"
proof -
  obtain used A B where U: "used \<subseteq> used_keys w" "sess (store_of w d) (toLowerCase (key (other d))) = Some A"
    "sess (store_of w (other d)) (toLowerCase (key d)) = Some B" "linked P used A B (wire w (other d)) (wire w d)"
    using t talking_side [of P sess key w d] by blast
  have l: "linked P used B A (F1 @ (msg, pt) # F2) (wire w (other d))"
    using U(4) wire linked_sym by simp
  have g: "within_gap A (fst (msg, pt))"
    using gap U(2) inv by (simp add: deliverable_def session_of_sess)
  have f: "length rk = 32" "bytesToHex P (boxPublic P rk) \<notin> used"
    using fresh U(1) by (auto simp: fresh_secret_def)
  obtain mk A' used' where o: "openSession P rk now msg A = (Inr mk, A')" "opens P (msg, pt) mk"
    "linked P used' B A' (F1 @ F2) (wire w (other d))" "used' \<subseteq> insert (bytesToHex P (boxPublic P rk)) used"
    using linked_receive [OF L f(1) l g f(2), of now] by auto
  have "storable_session P A'" using linked_parties [OF o(3)] party_storable [OF ratchet_lawsD(1) [OF L]] by blast
  then obtain s'' where s'': "decrypt P S bk rk now (key (other d)) msg (store_of w d) = (decryptWithKey P msg mk, s'')"
    "invar s''" "sess s'' = (sess (store_of w d))(toLowerCase (key (other d)) \<mapsto> A')"
    using decrypt_run [OF inv [rule_format] U(2) o(1)] by blast
  have r: "r = Inr pt" "s'' = s'" using s''(1) dec o(2) by (auto simp: opens_def)
  have "talking P sess key w'"
    using U s'' r(2) o w' by (intro talkingI [where d = d and used = used' and A = A' and B = B])
      (auto simp: linked_sym)
  then show ?thesis using r s'' by blast
qed

lemma greeted_start:
  assumes L: "ratchet_laws P" "sign_correct P" and inv: "\<forall>d. invar (start d)"
    and idents: "\<forall>d. wf_identity P (ident (start d))"
    and empty: "spks (start Bob) = Map.empty" "sess (start Bob) (toLowerCase (key Alice)) = None"
    and g: "generatePreKeyBundle P S spkSecret spkId draw now n (start Bob) = (Inr bdl, sB)"
    and i: "initiateSession P S ekSecret now' (key Bob) bdl (start Alice) = (Inr ses, sA)"
    and len: "length spkSecret = 32" "length ekSecret = 32" "\<forall>i. length (fst (draw i)) = 32"
    and inj: "inj_on (\<lambda>j. snd (draw j)) {0..<n}"
    and w: "store_of w Alice = sA" "store_of w Bob = sB" "wire w = (\<lambda>_. [])"
      "offered w = map_option op_keyId (pb_oneTimePreKey bdl)"
      "used_keys w = {bytesToHex P (boxPublic P ekSecret), bytesToHex P (boxPublic P spkSecret)}"
  shows "invar sA \<and> invar sB \<and> greeted P S ident otks sess key w"
proof -
  note laws = ratchet_lawsD [OF L(1)]
  have older: "\<forall>k \<in> ran (spks (start Bob)). spk_createdAt k < now" using empty(1) by simp
  obtain bdl' spk sB' where B': "generatePreKeyBundle P S spkSecret spkId draw now n (start Bob) = (Inr bdl', sB')"
    "invar sB'" "sess sB' = sess (start Bob)" "ident sB' = ident (start Bob)"
    "verifySignature P (sp_publicKeyHex (pb_signedPreKey bdl')) (sp_signatureHex (pb_signedPreKey bdl'))
        (pb_signingKeyHex bdl')"
    "pb_identityKeyHex bdl' = publicKeyHex (encryptionKey (ident (start Bob)))"
    "sp_publicKeyHex (pb_signedPreKey bdl') = publicKeyHex (generateCurve25519KeyPair P spkSecret)"
    "getLatestSignedPreKey S sB' = (Inr (Some spk), sB')" "spk_keyPair spk = generateCurve25519KeyPair P spkSecret"
    "case pb_oneTimePreKey bdl' of None \<Rightarrow> n = 0
      | Some op \<Rightarrow> 0 < n \<and> op_keyId op = snd (draw 0) \<and>
          op_publicKeyHex op = publicKeyHex (generateCurve25519KeyPair P (fst (draw 0))) \<and>
          otks sB' (op_keyId op) =
            Some \<lparr>otk_keyId = snd (draw 0), otk_keyPair = generateCurve25519KeyPair P (fst (draw 0))\<rparr>"
    using generatePreKeyBundle_run [OF laws(1,2) L(2) idents [rule_format] inv [rule_format] len(1,3) older inj, of spkId]
    by blast
  have eqB: "bdl' = bdl" "sB' = sB" using B'(1) g by auto
  note B = B'(2-) [unfolded eqB]
  have enc: "box_keypair P (encryptionKey (ident (start d)))" for d
    using idents by (simp add: wf_identity_def)
  have pub: "published P (ident sB) spk (otks sB) bdl"
    unfolding published_def using B enc [of Bob] generated_keypair len
    by (auto split: option.splits)
  obtain ses' sA' where A: "initiateSession P S ekSecret now' (key Bob) bdl (start Alice) = (Inr ses', sA')"
    "invar sA'" "ident sA' = ident (start Alice)" "sess sA' = (sess (start Alice))(toLowerCase (key Bob) \<mapsto> ses')"
    "localDhKeyPair ses' = generateCurve25519KeyPair P ekSecret"
    "greeting P (ident (start Alice)) (ident sB) spk (otks sB) bdl ses' []"
    using initiateSession_run [OF L(1) inv [rule_format] enc pub len(2)] by blast
  have eq: "ses' = ses" "sA' = sA" using A(1) i by auto
  have "greeted P S ident otks sess key w"
    unfolding greeted_def using A B w empty(2) eq
    by (intro exI [of _ ses] exI [of _ spk] exI [of _ bdl]) simp
  then show ?thesis using A B eq by simp
qed

lemma greeted_send:
  assumes L: "ratchet_laws P" and inv: "\<forall>d. invar (store_of w d)" and g: "greeted P S ident otks sess key w"
    and e: "encrypt P S nonce now (key (other d)) pt None (store_of w d) = (Inr msg, s')"
    and "length nonce = 24" "sendable pt"
    and w': "w' = w\<lparr>store_of := (store_of w)(d := s'), wire := (wire w)(other d := wire w (other d) @ [(msg, pt)])\<rparr>"
  shows "invar s' \<and> greeted P S ident otks sess key w'"
proof -
  obtain ses spk bdl where G: "sess (store_of w Alice) (toLowerCase (key Bob)) = Some ses"
    "sess (store_of w Bob) (toLowerCase (key Alice)) = None"
    "getLatestSignedPreKey S (store_of w Bob) = (Inr (Some spk), store_of w Bob)"
    "greeting P (ident (store_of w Alice)) (ident (store_of w Bob)) spk (otks (store_of w Bob)) bdl ses (wire w Bob)"
    "wire w Alice = []" "offered w = map_option op_keyId (pb_oneTimePreKey bdl)"
    "{publicKeyHex (localDhKeyPair ses), publicKeyHex (spk_keyPair spk)} \<subseteq> used_keys w"
    using g unfolding greeted_def by blast
  have "d = Alice"
  proof (rule ccontr)
    assume "d \<noteq> Alice"
    then have d: "d = Bob" by (cases d) auto
    have "getSession S (key Alice) (store_of w Bob) = (Inr None, store_of w Bob)"
      using getSession inv G(2) by simp
    then show False using e d by (simp add: encrypt_def bindM_def)
  qed
  obtain n ct ses' where step: "encryptStep P nonce now pt ses = (Inr (n, ct), ses')" "storable_session P ses'"
    "localDhKeyPair ses' = localDhKeyPair ses"
    "\<And>m. carries P ses' nonce n ct m \<Longrightarrow> em_oneTimePreKeyId m = (if n = 0 then oneTimePreKeyId ses' else None) \<Longrightarrow>
        em_initialIdentityKeyHex m = Some (publicKeyHex (encryptionKey (ident (store_of w Alice)))) \<Longrightarrow>
        em_initialEphemeralKeyHex m = Some (publicKeyHex (localDhKeyPair ses')) \<Longrightarrow>
        greeting P (ident (store_of w Alice)) (ident (store_of w Bob)) spk (otks (store_of w Bob)) bdl ses'
          (wire w Bob @ [(m, text_decode (text_encode pt))])"
    using greeting_send [OF L G(4) assms(5)] by blast
  obtain m s'' where run: "encrypt P S nonce now (key Bob) pt None (store_of w Alice) = (Inr m, s'')"
    "carries P ses' nonce n ct m" "em_oneTimePreKeyId m = (if n = 0 then oneTimePreKeyId ses' else None)"
    "em_initialIdentityKeyHex m = Some (publicKeyHex (encryptionKey (ident (store_of w Alice))))"
    "em_initialEphemeralKeyHex m = Some (publicKeyHex (localDhKeyPair ses'))" "invar s''"
    "sess s'' = (sess (store_of w Alice))(toLowerCase (key Bob) \<mapsto> ses')"
    "ident s'' = ident (store_of w Alice)"
    using encrypt_run [OF inv [rule_format] G(1) step(1,2)] by blast
  have eq: "m = msg" "s'' = s'" using run(1) e \<open>d = Alice\<close> by auto
  have "greeting P (ident (store_of w Alice)) (ident (store_of w Bob)) spk (otks (store_of w Bob)) bdl ses'
          (wire w Bob @ [(msg, pt)])"
    using step(4) [OF run(2-5)] assms(6) eq(1) by (simp add: sendable_def)
  then have "greeted P S ident otks sess key w'"
    unfolding greeted_def using G run(7,8) eq step(3) \<open>d = Alice\<close> w'
    by (intro exI [of _ ses'] exI [of _ spk] exI [of _ bdl]) simp
  then show ?thesis using run(6) eq by simp
qed

text \<open>The delivery at which Bob creates his session.\<close>

lemma greeted_deliver:
  assumes L: "ratchet_laws P" and inv: "\<forall>d. invar (store_of w d)" and g: "greeted P S ident otks sess key w"
    and wire: "wire w d = F1 @ (msg, pt) # F2"
    and gap: "deliverable S (key (other d)) (offered w) msg (store_of w d)"
    and dec: "decrypt P S bk rk now (key (other d)) msg (store_of w d) = (r, s')"
    and fresh: "fresh_secret P (used_keys w) bk" "fresh_secret P (insert (bytesToHex P (boxPublic P bk)) (used_keys w)) rk"
    and w': "store_of w' = (store_of w)(d := s')" "wire w' = (wire w)(d := F1 @ F2)"
      "used_keys w' = insert (bytesToHex P (boxPublic P bk)) (insert (bytesToHex P (boxPublic P rk)) (used_keys w))"
  shows "invar s' \<and> r = Inr pt \<and> talking P sess key w'"
proof -
  obtain ses spk bdl where G: "sess (store_of w Alice) (toLowerCase (key Bob)) = Some ses"
    "sess (store_of w Bob) (toLowerCase (key Alice)) = None"
    "getLatestSignedPreKey S (store_of w Bob) = (Inr (Some spk), store_of w Bob)"
    "greeting P (ident (store_of w Alice)) (ident (store_of w Bob)) spk (otks (store_of w Bob)) bdl ses (wire w Bob)"
    "wire w Alice = []" "offered w = map_option op_keyId (pb_oneTimePreKey bdl)"
    "{publicKeyHex (localDhKeyPair ses), publicKeyHex (spk_keyPair spk)} \<subseteq> used_keys w"
    using g unfolding greeted_def by blast
  have d: "d = Bob" using wire G(5) by (cases d) auto
  have iB: "invar (store_of w Bob)" using inv by simp
  have f: "(msg, pt) \<in> set (wire w Bob)" using wire d by simp
  have ds: "em_oneTimePreKeyId msg = map_option op_keyId (pb_oneTimePreKey bdl)"
    "em_sequenceNumber msg \<le> MAX_SKIP_MESSAGES"
    using gap G(2,6) d session_of_sess [OF iB] by (simp_all add: deliverable_def)
  have lb: "length bk = 32" "bytesToHex P (boxPublic P bk) \<notin> used_keys w" using fresh(1) by (auto simp: fresh_secret_def)
  let ?hx = "publicKeyHex (localDhKeyPair ses)"
  obtain r0 c0 s1 where B: "x3dh_initiator P (ident (store_of w Alice)) bdl (localDhKeyPair ses) = Inr (r0, c0)"
    "initiateBobSession P S bk now (key Alice) msg (store_of w Bob) = (Inr (bob_session P bk now (key Alice) ?hx (r0, c0)), s1)"
    "invar s1" "sess s1 = (sess (store_of w Bob))(toLowerCase (key Alice) \<mapsto> bob_session P bk now (key Alice) ?hx (r0, c0))"
    using initiateBobSession_run [OF L iB G(4,3) f _ lb(1), of now "key Alice"] ds by auto
  let ?ses0 = "bob_session P bk now (key Alice) ?hx (r0, c0)"
  let ?w1 = "w\<lparr>store_of := (store_of w)(Bob := s1), used_keys := insert (bytesToHex P (boxPublic P bk)) (used_keys w)\<rparr>"
  have ne: "bytesToHex P (boxPublic P bk) \<noteq> publicKeyHex (spk_keyPair spk)" using G(7) lb(2) by auto
  have linked: "linked P {?hx, publicKeyHex (spk_keyPair spk), bytesToHex P (boxPublic P bk)} ses ?ses0 (wire w Bob) []"
    using greeting_linked [OF L G(4) lb(1) B(1) ne] by simp
  have t1: "talking P sess key ?w1"
    unfolding talking_def using linked G(1,5,7) B(4)
    by (intro exI [of _ "{?hx, publicKeyHex (spk_keyPair spk), bytesToHex P (boxPublic P bk)}"] exI [of _ ses] exI [of _ ?ses0]) auto
  have hdr: "em_ephemeralPublicKeyHex msg = ?hx"
    using G(4) f unfolding greeting_def by (fastforce simp: first_chain_msg_def)
  have "wf_header ?hx"
    using G(4) wf_header_keypair ratchet_lawsD(1,2) [OF L] unfolding greeting_def by blast
  then have "within_gap ?ses0 msg"
    using hdr ds(2) by (simp add: within_gap_def needsRatchet_def bob_session_def wf_header_def)
  then have gap1: "deliverable S (key (other Bob)) (offered ?w1) msg (store_of ?w1 Bob)"
    using B(3,4) by (simp add: deliverable_def session_of_sess)
  have "decrypt P S bk rk now (key Alice) msg (store_of w Bob) = decrypt P S bk rk now (key Alice) msg s1"
    using decrypt_first [OF iB G(2) B(2,3)] B(4) by simp
  then have dec1: "decrypt P S bk rk now (key (other Bob)) msg (store_of ?w1 Bob) = (r, s')"
    using dec d by simp
  have "\<forall>d. invar (store_of ?w1 d)" using inv B(3) by simp
  from talking_deliver [OF L this t1 _ gap1 dec1 fresh(2), of F1 pt F2 w'] w' wire d
  show ?thesis by auto
qed

theorem channel_invariant:
  assumes L: "ratchet_laws P" "sign_correct P" and inv: "\<forall>d. invar (start d)"
    and idents: "\<forall>d. wf_identity P (ident (start d))"
    and empty: "spks (start Bob) = Map.empty" "sess (start Bob) (toLowerCase (key Alice)) = None"
    and "channel P S key start w"
  shows "(\<forall>d. invar (store_of w d)) \<and> (greeted P S ident otks sess key w \<or> talking P sess key w) \<and> logs_ok w"
  using assms(7)
proof (induction rule: channel.induct)
  case (start spkSecret spkId draw now n bdl sB ekSecret now' ses sA)
  let ?w = "\<lparr>store_of = (\<lambda>d. case d of Alice \<Rightarrow> sA | Bob \<Rightarrow> sB), wire = (\<lambda>_. []),
      offered = map_option op_keyId (pb_oneTimePreKey bdl),
      used_keys = {bytesToHex P (boxPublic P ekSecret), bytesToHex P (boxPublic P spkSecret)},
      log_of = (\<lambda>_. [])\<rparr>"
  have "invar sA \<and> invar sB \<and> greeted P S ident otks sess key ?w"
    by (rule greeted_start [OF L inv idents empty start]) simp_all
  then show ?case by (auto simp: logs_ok_def split: side.splits)
next
  case (send w nonce now d pt msg s')
  let ?w' = "w\<lparr>store_of := (store_of w)(d := s'), wire := (wire w)(other d := wire w (other d) @ [(msg, pt)])\<rparr>"
  have i: "\<forall>d. invar (store_of w d)" and lg: "logs_ok w"
    and ph: "greeted P S ident otks sess key w \<or> talking P sess key w" using send.IH by auto
  have "invar s' \<and> (greeted P S ident otks sess key ?w' \<or> talking P sess key ?w')"
    using ph
  proof
    assume "greeted P S ident otks sess key w"
    from greeted_send [OF L(1) i this send.hyps(2-4) refl] show ?thesis by blast
  next
    assume "talking P sess key w"
    from talking_send [OF L(1) i this send.hyps(2-4)] show ?thesis by blast
  qed
  moreover have "logs_ok ?w'" using lg by (simp add: logs_ok_def)
  ultimately show ?case using i by simp
next
  case (deliver w d F1 msg pt F2 bk rk now r s')
  let ?w' = "w\<lparr>store_of := (store_of w)(d := s'), wire := (wire w)(d := F1 @ F2),
        used_keys := insert (bytesToHex P (boxPublic P bk)) (insert (bytesToHex P (boxPublic P rk)) (used_keys w)),
        log_of := (log_of w)(d := log_of w d @ [(pt, r)])\<rparr>"
  have i: "\<forall>d. invar (store_of w d)" and lg: "logs_ok w"
    and ph: "greeted P S ident otks sess key w \<or> talking P sess key w" using deliver.IH by auto
  have "invar s' \<and> r = Inr pt \<and> talking P sess key ?w'"
    using ph
  proof
    assume g: "greeted P S ident otks sess key w"
    show ?thesis by (rule greeted_deliver [OF L(1) i g deliver.hyps(2-6)]) simp_all
  next
    assume t: "talking P sess key w"
    show ?thesis by (rule talking_deliver [OF L(1) i t deliver.hyps(2-4) deliver.hyps(6)]) auto
  qed
  then show ?case using i lg by (auto simp: logs_ok_def)
next
  case (drop w d F1 f F2)
  let ?w' = "w\<lparr>wire := (wire w)(d := F1 @ F2)\<rparr>"
  have "greeted P S ident otks sess key w \<Longrightarrow> greeted P S ident otks sess key ?w'"
    using greeted_drop [where w = w and d = d, OF _ drop.hyps(2)] by blast
  moreover have "talking P sess key w \<Longrightarrow> talking P sess key ?w'"
    using talking_drop [where w = w and d = d, OF _ drop.hyps(2)] by blast
  ultimately show ?case using drop.IH by (auto simp: logs_ok_def)
qed

subsection \<open>Progress\<close>

text \<open>Sending never fails: Alice from the start, Bob once he has a session.\<close>

lemma send_enabled:
  assumes L: "ratchet_laws P" and inv: "\<forall>d. invar (store_of w d)" and nonce: "length nonce = 24"
    and ph: "greeted P S ident otks sess key w \<or> talking P sess key w"
    and d: "d = Alice \<or> session_of S (key (other d)) (store_of w d) \<noteq> None"
  shows "\<exists>msg s'. encrypt P S nonce now (key (other d)) pt None (store_of w d) = (Inr msg, s')"
proof -
  have run: "\<exists>msg s'. encrypt P S nonce now (key (other d)) pt None (store_of w d) = (Inr msg, s')"
    if "sess (store_of w d) (toLowerCase (key (other d))) = Some ses"
      "\<exists>n ct ses'. encryptStep P nonce now pt ses = (Inr (n, ct), ses') \<and> storable_session P ses'" for ses
    using that encrypt_run [OF inv [rule_format]] by metis
  show ?thesis
    using ph
  proof
    assume "greeted P S ident otks sess key w"
    then obtain ses spk bdl where G: "sess (store_of w Alice) (toLowerCase (key Bob)) = Some ses"
      "sess (store_of w Bob) (toLowerCase (key Alice)) = None"
      "greeting P (ident (store_of w Alice)) (ident (store_of w Bob)) spk (otks (store_of w Bob)) bdl ses (wire w Bob)"
      unfolding greeted_def by blast
    have "d = Alice" using d G(2) inv by (cases d) (auto simp: session_of_sess)
    then show ?thesis using run [of ses] G(1) greeting_send [OF L G(3) nonce, of now pt] by auto
  next
    assume "talking P sess key w"
    then obtain used A B where U: "sess (store_of w d) (toLowerCase (key (other d))) = Some A"
      "linked P used A B (wire w (other d)) (wire w d)"
      using talking_side [of P sess key w d] by blast
    obtain n ct A' where step: "encryptStep P nonce now pt A = (Inr (n, ct), A')"
      "\<And>m. carries P A' nonce n ct m \<Longrightarrow>
         linked P used A' B (wire w (other d) @ [(m, text_decode (text_encode pt))]) (wire w d)"
      using linked_send [OF L U(2) nonce, of now pt] by blast
    have "storable_session P A'"
      using step(2) [OF carries_example] linked_parties party_storable [OF ratchet_lawsD(1) [OF L]] by blast
    then show ?thesis using run U(1) step(1) by blast
  qed
qed

text \<open>From empty stores a first message can be sent and delivered.\<close>

lemma channel_flight:
  fixes nonce :: bytes
  assumes L: "ratchet_laws P" "sign_correct P" and inv: "\<forall>d. invar (start d)"
    and idents: "\<forall>d. wf_identity P (ident (start d))"
    and empty: "spks (start Bob) = Map.empty" "sess (start Bob) (toLowerCase (key Alice)) = None"
    and len: "length spkSecret = 32" "length ekSecret = 32" "length bk = 32" "length rk = 32" "length nonce = 24"
    and dist: "distinct (map (boxPublic P) [spkSecret, ekSecret, bk, rk])" and pt: "sendable pt"
  shows "\<exists>w msg. channel P S key start w \<and> wire w Bob = [(msg, pt)] \<and>
     deliverable S (key (other Bob)) (offered w) msg (store_of w Bob) \<and> fresh_secret P (used_keys w) bk \<and>
     fresh_secret P (insert (bytesToHex P (boxPublic P bk)) (used_keys w)) rk"
proof -
  note laws = ratchet_lawsD [OF L(1)]
  have older: "\<forall>k \<in> ran (spks (start Bob)). spk_createdAt k < 0" using empty(1) by simp
  define draw :: "nat \<Rightarrow> bytes \<times> int" where "draw = (\<lambda>i. (spkSecret, 0))"
  define n :: nat where "n = 0"
  have draw: "\<forall>i. length (fst (draw i)) = 32" "inj_on (\<lambda>j. snd (draw j)) {0..<n}"
    using len(1) by (auto simp: draw_def n_def)
  obtain bdl spk sB where g: "generatePreKeyBundle P S spkSecret 0 draw 0 n (start Bob) = (Inr bdl, sB)"
    "invar sB" "sess sB = sess (start Bob)" "ident sB = ident (start Bob)"
    "verifySignature P (sp_publicKeyHex (pb_signedPreKey bdl)) (sp_signatureHex (pb_signedPreKey bdl)) (pb_signingKeyHex bdl)"
    "pb_identityKeyHex bdl = publicKeyHex (encryptionKey (ident (start Bob)))"
    "sp_publicKeyHex (pb_signedPreKey bdl) = publicKeyHex (generateCurve25519KeyPair P spkSecret)"
    "getLatestSignedPreKey S sB = (Inr (Some spk), sB)" "spk_keyPair spk = generateCurve25519KeyPair P spkSecret"
    "case pb_oneTimePreKey bdl of None \<Rightarrow> n = 0
      | Some op \<Rightarrow> 0 < n \<and> op_keyId op = snd (draw 0) \<and>
          op_publicKeyHex op = publicKeyHex (generateCurve25519KeyPair P (fst (draw 0))) \<and>
          otks sB (op_keyId op) =
            Some \<lparr>otk_keyId = snd (draw 0), otk_keyPair = generateCurve25519KeyPair P (fst (draw 0))\<rparr>"
    using generatePreKeyBundle_run [OF laws(1,2) L(2) idents [rule_format] inv [rule_format] len(1) draw(1) older draw(2), of 0]
    by blast
  have none: "pb_oneTimePreKey bdl = None" using g(10) n_def by (simp split: option.splits)
  have enc: "box_keypair P (encryptionKey (ident (start d)))" for d using idents by (simp add: wf_identity_def)
  have pub: "published P (ident sB) spk (otks sB) bdl"
    unfolding published_def using g none enc [of Bob] generated_keypair len by auto
  obtain ses sA where i: "initiateSession P S ekSecret 0 (key Bob) bdl (start Alice) = (Inr ses, sA)" "invar sA"
    "sess sA = (sess (start Alice))(toLowerCase (key Bob) \<mapsto> ses)" "sendSequenceNumber ses = 0" and idA: "ident sA = ident (start Alice)" and i5:
    "greeting P (ident (start Alice)) (ident sB) spk (otks sB) bdl ses []"
    using initiateSession_run [OF L(1) inv [rule_format] enc pub len(2), of 0 "key Bob"] by blast
  define w0 where "w0 = \<lparr>store_of = (\<lambda>d. case d of Alice \<Rightarrow> sA | Bob \<Rightarrow> sB), wire = (\<lambda>_. []),
      offered = map_option op_keyId (pb_oneTimePreKey bdl),
      used_keys = {bytesToHex P (boxPublic P ekSecret), bytesToHex P (boxPublic P spkSecret)}, log_of = (\<lambda>_. [])\<rparr>"
  have w0: "channel P S key start w0"
    unfolding w0_def by (rule channel.start [where start = start and key = key, OF g(1) i(1) len(1,2) draw])
  obtain sn ct ses' where st: "encryptStep P nonce 0 pt ses = (Inr (sn, ct), ses')" "storable_session P ses'" "sn = 0"
    "\<And>m. carries P ses' nonce sn ct m \<Longrightarrow> em_oneTimePreKeyId m = (if sn = 0 then oneTimePreKeyId ses' else None) \<Longrightarrow>
        em_initialIdentityKeyHex m = Some (publicKeyHex (encryptionKey (ident (start Alice)))) \<Longrightarrow>
        em_initialEphemeralKeyHex m = Some (publicKeyHex (localDhKeyPair ses')) \<Longrightarrow>
        greeting P (ident (start Alice)) (ident sB) spk (otks sB) bdl ses' [(m, text_decode (text_encode pt))]"
    using greeting_send [OF L(1) i5 len(5), of 0 pt] i(4) by auto
  have sA: "sess sA (toLowerCase (key Bob)) = Some ses" using i(3) by simp
  obtain msg s' where e: "encrypt P S nonce 0 (key Bob) pt None sA = (Inr msg, s')" "carries P ses' nonce sn ct msg"
    "em_oneTimePreKeyId msg = (if sn = 0 then oneTimePreKeyId ses' else None)"
    "em_initialIdentityKeyHex msg = Some (publicKeyHex (encryptionKey (ident sA)))"
    "em_initialEphemeralKeyHex msg = Some (publicKeyHex (localDhKeyPair ses'))"
    using encrypt_run [OF i(2) sA st(1,2)] by blast
  define w1 where "w1 = w0\<lparr>store_of := (store_of w0)(Alice := s'), wire := (wire w0)(other Alice := wire w0 (other Alice) @ [(msg, pt)])\<rparr>"
  have w1: "channel P S key start w1"
    unfolding w1_def using channel.send [OF w0, of nonce 0 Alice pt msg s'] e(1) len(5) pt by (simp add: w0_def)
  have "oneTimePreKeyId ses' = None"
    using st(4) [OF e(2,3) e(4) [unfolded idA] e(5)] none by (simp add: greeting_def)
  then have "em_oneTimePreKeyId msg = offered w1" "em_sequenceNumber msg = 0"
    using e(2,3) st(3) none by (simp_all add: w1_def w0_def carries_def)
  moreover have "session_of S (key Alice) sB = None"
    using session_of_sess [OF g(2)] g(3) empty(2) by simp
  ultimately have d1: "deliverable S (key (other Bob)) (offered w1) msg (store_of w1 Bob)"
    by (simp add: deliverable_def w1_def w0_def MAX_SKIP_MESSAGES_def)
  have f: "fresh_secret P (used_keys w1) bk" "fresh_secret P (insert (bytesToHex P (boxPublic P bk)) (used_keys w1)) rk"
    using len dist laws(1) by (auto simp: fresh_secret_def w1_def w0_def prim_laws)
  have "wire w1 Bob = [(msg, pt)]" by (simp add: w1_def w0_def)
  then show ?thesis using w1 d1 f by blast
qed

lemma channel_example:
  fixes nonce :: bytes
  assumes L: "ratchet_laws P" "sign_correct P" and inv: "\<forall>d. invar (start d)"
    and idents: "\<forall>d. wf_identity P (ident (start d))"
    and empty: "spks (start Bob) = Map.empty" "sess (start Bob) (toLowerCase (key Alice)) = None"
    and len: "length spkSecret = 32" "length ekSecret = 32" "length bk = 32" "length rk = 32" "length nonce = 24"
    and dist: "distinct (map (boxPublic P) [spkSecret, ekSecret, bk, rk])" and pt: "sendable pt"
  shows "\<exists>w. channel P S key start w \<and> (\<exists>r. (pt, r) \<in> set (log_of w Bob))"
proof -
  obtain w msg where w: "channel P S key start w" "wire w Bob = [] @ (msg, pt) # []"
    "deliverable S (key (other Bob)) (offered w) msg (store_of w Bob)" "fresh_secret P (used_keys w) bk"
    "fresh_secret P (insert (bytesToHex P (boxPublic P bk)) (used_keys w)) rk"
    using channel_flight [where start = start and key = key, OF assms] by auto
  obtain r s where "decrypt P S bk rk 0 (key (other Bob)) msg (store_of w Bob) = (r, s)" by fastforce
  from channel.deliver [OF w(1-3) this w(4,5)] show ?thesis by force
qed

end

end
