(* ===== verification/Database.thy ===== *)
theory Database
  imports Identity
begin

section \<open>The database\<close>

text \<open>
  \<open>client/src/storage/DatabaseManager.ts\<close> and the meaning of the SQL statements the repositories
  issue. A table is the list of its rows in table order; \<open>INSERT ... ON CONFLICT DO UPDATE\<close> is
  \<open>upsert\<close>, \<open>ORDER BY\<close> is a stable sort (rows with equal keys come in table order, one of the
  orders SQL allows), \<open>WHERE\<close> is \<open>filter\<close> or \<open>find\<close>. The foreign key of \<open>messages\<close> is checked
  while \<open>PRAGMA foreign_keys\<close> is on; a violated constraint throws. The interface \<open>keyed_table\<close>
  states what the repositories rely on, and is interpreted on every table here.

  Opening a database file and decrypting it belongs to \<open>better-sqlite3\<close> and the file system: the
  function \<open>open_file\<close> of \<open>initialize\<close> is a parameter.
\<close>

subsection \<open>Tables\<close>

definition upsert :: "('r \<Rightarrow> 'k) \<Rightarrow> ('r \<Rightarrow> 'r \<Rightarrow> 'r) \<Rightarrow> 'r \<Rightarrow> 'r list \<Rightarrow> 'r list" where
  "upsert key merge new rows =
     (if list_ex (\<lambda>r. key r = key new) rows
      then map (\<lambda>r. if key r = key new then merge r new else r) rows
      else rows @ [new])"

definition select_key :: "('r \<Rightarrow> 'k) \<Rightarrow> 'k \<Rightarrow> 'r list \<Rightarrow> 'r option" where
  "select_key key k rows = find (\<lambda>r. key r = k) rows"

definition delete_key :: "('r \<Rightarrow> 'k) \<Rightarrow> 'k \<Rightarrow> 'r list \<Rightarrow> 'r list" where
  "delete_key key k rows = filter (\<lambda>r. key r \<noteq> k) rows"

definition update_where :: "('r \<Rightarrow> bool) \<Rightarrow> ('r \<Rightarrow> 'r) \<Rightarrow> 'r list \<Rightarrow> 'r list" where
  "update_where p f rows = map (\<lambda>r. if p r then f r else r) rows"

definition order_by_asc :: "('r \<Rightarrow> int) \<Rightarrow> 'r list \<Rightarrow> 'r list" where
  "order_by_asc f rows = sort_key f rows"

definition order_by_desc :: "('r \<Rightarrow> int) \<Rightarrow> 'r list \<Rightarrow> 'r list" where
  "order_by_desc f rows = sort_key (\<lambda>r. - f r) rows"

definition limit_offset :: "nat \<Rightarrow> nat \<Rightarrow> 'r list \<Rightarrow> 'r list" where
  "limit_offset limit off rows = take limit (drop off rows)"

lemma list_ex_key: "list_ex (\<lambda>r. key r = k) rows \<longleftrightarrow> k \<in> key ` set rows"
  by (auto simp: list_ex_iff)

lemma select_key_Some: "select_key key k rows = Some r \<Longrightarrow> r \<in> set rows \<and> key r = k"
  by (auto simp: select_key_def find_Some_iff)

lemma select_key_None: "select_key key k rows = None \<longleftrightarrow> k \<notin> key ` set rows"
  by (auto simp: select_key_def find_None_iff)

lemma select_key_unique:
  "distinct (map key rows) \<Longrightarrow> r \<in> set rows \<Longrightarrow> select_key key (key r) rows = Some r"
  by (induction rows) (auto simp: select_key_def)

locale keyed_table =
  fixes key :: "'r \<Rightarrow> 'k"
    and merge :: "'r \<Rightarrow> 'r \<Rightarrow> 'r"
  assumes key_merge: "key (merge r n) = key r"
begin

lemma key_merged [simp]: "key (if b then merge r n else r) = key r"
  by (simp add: key_merge)

lemma keys_upsert: "key ` set (upsert key merge n rows) = insert (key n) (key ` set rows)"
proof (cases "list_ex (\<lambda>r. key r = key n) rows")
  case True
  then have "key n \<in> key ` set rows" by (simp add: list_ex_key)
  moreover have "map key (upsert key merge n rows) = map key rows" using True by (simp add: upsert_def)
  then have "key ` set (upsert key merge n rows) = key ` set rows" by (metis set_map)
  ultimately show ?thesis by (simp add: insert_absorb)
qed (simp add: upsert_def)

lemma distinct_upsert:
  assumes "distinct (map key rows)"
  shows "distinct (map key (upsert key merge n rows))"
proof (cases "list_ex (\<lambda>r. key r = key n) rows")
  case True
  have "map key (upsert key merge n rows) = map key rows"
    using True by (simp add: upsert_def key_merge)
  then show ?thesis using assms by simp
next
  case False
  then show ?thesis using assms by (auto simp: upsert_def list_ex_key)
qed

lemma find_merged:
  "find (\<lambda>r. key r = k) (map (\<lambda>r. if key r = key n then merge r n else r) rows)
     = map_option (\<lambda>r. if key r = key n then merge r n else r) (find (\<lambda>r. key r = k) rows)"
  by (induction rows) (simp_all add: key_merge)

lemma select_upsert:
  "select_key key k (upsert key merge n rows) =
     (if k = key n then Some (case select_key key k rows of None \<Rightarrow> n | Some r \<Rightarrow> merge r n)
      else select_key key k rows)"
proof (cases "list_ex (\<lambda>r. key r = key n) rows")
  case True
  then have in_rows: "key n \<in> key ` set rows" by (simp add: list_ex_key)
  show ?thesis
  proof (cases "select_key key k rows")
    case None
    then have "k \<noteq> key n" using in_rows select_key_None by metis
    then show ?thesis using None True by (simp add: upsert_def select_key_def find_merged)
  next
    case (Some r)
    then have "key r = k" using select_key_Some by metis
    then show ?thesis using Some True by (cases "k = key n") (simp_all add: upsert_def select_key_def find_merged)
  qed
next
  case False
  then have none: "select_key key (key n) rows = None" by (simp add: select_key_None list_ex_key)
  have app: "find Q (xs @ [n]) = (case find Q xs of None \<Rightarrow> find Q [n] | Some r \<Rightarrow> Some r)" for Q xs
    by (induction xs) simp_all
  show ?thesis
    using False none by (auto simp: upsert_def select_key_def app split: option.splits)
qed

lemma select_delete: "select_key key k (delete_key key k' rows) = (if k = k' then None else select_key key k rows)"
  by (induction rows) (auto simp: select_key_def delete_key_def)

lemma distinct_delete: "distinct (map key rows) \<Longrightarrow> distinct (map key (delete_key key k rows))"
  by (auto simp: delete_key_def distinct_map_filter)

lemma upsert_members:
  "r \<in> set (upsert key merge n rows) \<Longrightarrow> r \<in> set rows \<or> r = n \<or> (\<exists>r0 \<in> set rows. key r0 = key n \<and> r = merge r0 n)"
  by (auto simp: upsert_def split: if_splits)

lemma length_upsert:
  "length (upsert key merge n rows) = length rows + (if key n \<in> key ` set rows then 0 else 1)"
  by (auto simp: upsert_def list_ex_key)

end

subsection \<open>The schema\<close>

record contact_row =
  c_recipient_pubkey_hash :: hex
  c_identity_pubkey_hex :: hex
  c_signing_pubkey_hex :: hex
  c_alias :: "string option"
  c_created_at :: int
  c_linked_devices :: "string option"

record session_row =
  s_recipient_identity_pubkey_hex :: hex
  s_session_data :: string
  s_updated_at :: int

record signed_prekey_row =
  sk_key_id :: int
  sk_key_data :: string
  sk_created_at :: int

record one_time_prekey_row =
  ok_key_id :: int
  ok_key_data :: string

record message_row =
  m_id :: string
  m_contact_pubkey_hash :: hex
  m_sender_identity_hex :: hex
  m_recipient_identity_hex :: hex
  m_body :: string
  m_timestamp :: int
  m_is_outgoing :: int
  m_is_read :: int
  m_delivery_status :: string

record own_device_row =
  d_device_id :: int
  d_device_name :: string
  d_recipient_pubkey_hash :: hex
  d_identity_pubkey_hex :: hex
  d_created_at :: int

text \<open>
  \<open>tables\<close> and \<open>has_linked_devices\<close> are the schema, \<open>foreign_keys\<close> the pragma of the connection.
\<close>

record database =
  tables :: "string list"
  has_linked_devices :: bool
  foreign_keys :: bool
  schema_migrations :: "(int \<times> int) list"
  contacts :: "contact_row list"
  sessions :: "session_row list"
  signed_prekeys :: "signed_prekey_row list"
  one_time_prekeys :: "one_time_prekey_row list"
  messages :: "message_row list"
  own_linked_devices :: "own_device_row list"

definition empty_database :: database where
  "empty_database = \<lparr>tables = [], has_linked_devices = False, foreign_keys = False, schema_migrations = [],
     contacts = [], sessions = [], signed_prekeys = [], one_time_prekeys = [], messages = [],
     own_linked_devices = []\<rparr>"

subsection \<open>Migrations\<close>

definition with_table :: "string \<Rightarrow> database \<Rightarrow> database" where
  "with_table t d = (if t \<in> set (tables d) then d else d\<lparr>tables := tables d @ [t]\<rparr>)"

text \<open>\<open>CREATE TABLE IF NOT EXISTS\<close>.\<close>

definition create_table :: "string \<Rightarrow> (database, unit) M" where
  "create_table t = modifyM (with_table t)"

text \<open>\<open>ALTER TABLE contacts ADD COLUMN linked_devices TEXT DEFAULT '[]'\<close>.\<close>

definition add_linked_devices_column :: "(database, unit) M" where
  "add_linked_devices_column =
     bindM (getM (\<lambda>d. ''contacts'' \<in> set (tables d) \<and> \<not> has_linked_devices d)) (\<lambda>possible.
     if possible
     then modifyM (\<lambda>d. d\<lparr>has_linked_devices := True,
            contacts := map (\<lambda>r. r\<lparr>c_linked_devices := Some ''[]''\<rparr>) (contacts d)\<rparr>)
     else throwM LibError)"

definition insert_migration :: "int \<Rightarrow> int \<Rightarrow> (database, unit) M" where
  "insert_migration v now =
     bindM (getM (\<lambda>d. v \<in> fst ` set (schema_migrations d))) (\<lambda>dup.
     if dup then throwM LibError
     else modifyM (\<lambda>d. d\<lparr>schema_migrations := schema_migrations d @ [(v, now)]\<rparr>))"

definition applyMigrationV1 :: "int \<Rightarrow> (database, unit) M" where
  "applyMigrationV1 now =
     bindM (create_table ''contacts'') (\<lambda>_.
     bindM (create_table ''sessions'') (\<lambda>_.
     bindM (create_table ''signed_prekeys'') (\<lambda>_.
     bindM (create_table ''one_time_prekeys'') (\<lambda>_.
     bindM (create_table ''messages'') (\<lambda>_.
     insert_migration 1 now)))))"

definition applyMigrationV2 :: "int \<Rightarrow> (database, unit) M" where
  "applyMigrationV2 now =
     bindM (tryM add_linked_devices_column (\<lambda>_. ret ())) (\<lambda>_.
     bindM (create_table ''own_linked_devices'') (\<lambda>_.
     insert_migration 2 now))"

text \<open>\<open>SELECT MAX(version)\<close>, or 0 where the table is empty.\<close>

definition current_version :: "database \<Rightarrow> int" where
  "current_version d = fold max (map fst (schema_migrations d)) 0"

definition runMigrations :: "int \<Rightarrow> (database, unit) M" where
  "runMigrations now =
     bindM (create_table ''schema_migrations'') (\<lambda>_.
     bindM (getM current_version) (\<lambda>v.
     bindM (if v < 1 then applyMigrationV1 now else ret ()) (\<lambda>_.
     if v < 2 then applyMigrationV2 now else ret ())))"

subsection \<open>The key of the database\<close>

text \<open>
  \<open>KEYCHAIN_DB_KEY_SERVICE\<close>, and the key: the stored one, else 32 random bytes (\<open>drawn\<close>) that are
  stored; where the keychain is missing or throws, other random bytes (\<open>fallback\<close>) that are not.
\<close>

definition KEYCHAIN_DB_KEY_SERVICE :: string where
  "KEYCHAIN_DB_KEY_SERVICE = ''tore2ee.database.key''"

definition getOrCreateDatabaseKey ::
  "prims \<Rightarrow> 'k keychain_ops option \<Rightarrow> string \<Rightarrow> bytes \<Rightarrow> bytes \<Rightarrow> ('k, hex) M" where
  "getOrCreateDatabaseKey P kc service drawn fallback =
     (case kc of None \<Rightarrow> ret (bytesToHex P fallback)
      | Some K \<Rightarrow>
          tryM (bindM (getGenericPassword K service) (\<lambda>cred.
                  if truthy cred then ret (the cred)
                  else bindM (setGenericPassword K service (bytesToHex P drawn)) (\<lambda>_.
                       ret (bytesToHex P drawn))))
            (\<lambda>_. ret (bytesToHex P fallback)))"

subsection \<open>The manager\<close>

record db_manager =
  dm_name :: string
  dm_isMemory :: bool
  dm_encryptionKey :: "hex option"
  dm_driver :: "database option"
  dm_isInitialized :: bool

definition new_DatabaseManager :: "string option \<Rightarrow> bool option \<Rightarrow> db_manager" where
  "new_DatabaseManager name isMemory =
     \<lparr>dm_name = (if truthy name then the name else ''tore2ee_vault.db''),
      dm_isMemory = (case isMemory of None \<Rightarrow> False | Some b \<Rightarrow> b),
      dm_encryptionKey = None, dm_driver = None, dm_isInitialized = False\<rparr>"

definition getDriver :: "(db_manager, database) M" where
  "getDriver m =
     (case dm_driver m of
        Some d \<Rightarrow> if dm_isInitialized m then (Inr d, m)
                  else (Inl (Error ''DatabaseManager has not been initialized. Call initialize() first.''), m)
      | None \<Rightarrow> (Inl (Error ''DatabaseManager has not been initialized. Call initialize() first.''), m))"

text \<open>\<open>execute\<close>, \<open>query\<close> and \<open>queryOne\<close>: a statement run on the driver of the manager.\<close>

definition on_driver :: "(database, 'a) M \<Rightarrow> (db_manager, 'a) M" where
  "on_driver stmt =
     bindM getDriver (\<lambda>d m. let (r, d') = stmt d in (r, m\<lparr>dm_driver := Some d'\<rparr>))"

definition execute :: "(database, unit) M \<Rightarrow> (db_manager, unit) M" where
  "execute stmt = on_driver stmt"

definition query :: "(database \<Rightarrow> 'a list) \<Rightarrow> (db_manager, 'a list) M" where
  "query f = on_driver (getM f)"

definition queryOne :: "(database \<Rightarrow> 'a option) \<Rightarrow> (db_manager, 'a option) M" where
  "queryOne f = on_driver (getM f)"

text \<open>A statement run on a driver before the manager is marked as initialised.\<close>

definition on_open_driver :: "(database, unit) M \<Rightarrow> (db_manager, unit) M" where
  "on_open_driver stmt m =
     (case dm_driver m of None \<Rightarrow> (Inl LibError, m)
      | Some d \<Rightarrow> let (r, d') = stmt d in (r, m\<lparr>dm_driver := Some d'\<rparr>))"

definition initialize ::
  "prims \<Rightarrow> (string \<Rightarrow> hex option \<Rightarrow> database res) \<Rightarrow> 'k keychain_ops option \<Rightarrow> bytes \<Rightarrow> bytes \<Rightarrow> int
     \<Rightarrow> (db_manager \<times> 'k, unit) M" where
  "initialize P open_file kc drawn fallback now mk =
     (let (m, kst) = mk in
      if dm_isInitialized m then (Inr (), mk)
      else
        let (m1, kst1) =
          (if \<not> truthy (dm_encryptionKey m) \<and> \<not> dm_isMemory m
           then (case getOrCreateDatabaseKey P kc KEYCHAIN_DB_KEY_SERVICE drawn fallback kst of
                   (Inr key, kst') \<Rightarrow> (m\<lparr>dm_encryptionKey := Some key\<rparr>, kst')
                 | (Inl _, kst') \<Rightarrow> (m, kst'))
           else (m, kst)) in
        case (if dm_isMemory m1 then Inr empty_database else open_file (dm_name m1) (dm_encryptionKey m1)) of
          Inl _ \<Rightarrow> (Inl (Error ''SQLite driver initialization failed''), (m1, kst1))
        | Inr d \<Rightarrow>
            (case bindM (on_open_driver (bindM (modifyM (\<lambda>d. d\<lparr>foreign_keys := True\<rparr>)) (\<lambda>_. runMigrations now)))
                    (\<lambda>_. modifyM (\<lambda>m. m\<lparr>dm_isInitialized := True\<rparr>)) (m1\<lparr>dm_driver := Some d\<rparr>) of
               (r, m2) \<Rightarrow> (r, (m2, kst1))))"

definition close_manager :: "(db_manager, unit) M" where
  "close_manager =
     modifyM (\<lambda>m. if dm_driver m = None then m else m\<lparr>dm_driver := None, dm_isInitialized := False\<rparr>)"

subsection \<open>What every statement keeps\<close>

definition db_ok :: "database \<Rightarrow> bool" where
  "db_ok d \<longleftrightarrow> foreign_keys d \<and>
     distinct (map c_recipient_pubkey_hash (contacts d)) \<and>
     distinct (map s_recipient_identity_pubkey_hex (sessions d)) \<and>
     distinct (map sk_key_id (signed_prekeys d)) \<and>
     distinct (map ok_key_id (one_time_prekeys d)) \<and>
     distinct (map m_id (messages d)) \<and>
     distinct (map d_device_id (own_linked_devices d)) \<and>
     (\<forall>r \<in> set (messages d). m_contact_pubkey_hash r \<in> c_recipient_pubkey_hash ` set (contacts d))"

definition dm_ready :: "db_manager \<Rightarrow> bool" where
  "dm_ready m \<longleftrightarrow> dm_isInitialized m \<and> (\<exists>d. dm_driver m = Some d \<and> db_ok d)"

definition db_of :: "db_manager \<Rightarrow> database" where
  "db_of m = (case dm_driver m of Some d \<Rightarrow> d | None \<Rightarrow> empty_database)"

lemma on_driver_ready:
  "dm_ready m \<Longrightarrow> on_driver stmt m = (let (r, d') = stmt (db_of m) in (r, m\<lparr>dm_driver := Some d'\<rparr>))"
  by (auto simp: dm_ready_def on_driver_def getDriver_def db_of_def bindM_def split: prod.splits)

lemma dm_ready_db_ok: "dm_ready m \<Longrightarrow> db_ok (db_of m)"
  by (auto simp: dm_ready_def db_of_def)

lemma dm_ready_update: "dm_ready m \<Longrightarrow> db_ok d \<Longrightarrow> dm_ready (m\<lparr>dm_driver := Some d\<rparr>)"
  by (simp add: dm_ready_def)

lemma db_of_update [simp]: "db_of (m\<lparr>dm_driver := Some d\<rparr>) = d"
  by (simp add: db_of_def)

lemma dm_same: "dm_ready m \<Longrightarrow> m\<lparr>dm_driver := Some (db_of m)\<rparr> = m"
  by (auto simp: dm_ready_def db_of_def)

lemma query_ready: "dm_ready m \<Longrightarrow> query f m = (Inr (f (db_of m)), m)"
  by (simp add: query_def on_driver_ready dm_same)

lemma queryOne_ready: "dm_ready m \<Longrightarrow> queryOne g m = (Inr (g (db_of m)), m)"
  by (simp add: queryOne_def on_driver_ready dm_same)

lemma execute_modify: "dm_ready m \<Longrightarrow> execute (modifyM f) m = (Inr (), m\<lparr>dm_driver := Some (f (db_of m))\<rparr>)"
  by (simp add: execute_def on_driver_ready)

subsection \<open>Migrations reach the same schema from every version\<close>

definition all_tables :: "string set" where
  "all_tables = {''schema_migrations'', ''contacts'', ''sessions'', ''signed_prekeys'', ''one_time_prekeys'',
     ''messages'', ''own_linked_devices''}"

text \<open>The schemas an earlier run can have left: new, after the first migration, complete.\<close>

definition schema_version :: "database \<Rightarrow> int \<Rightarrow> bool" where
  "schema_version d v \<longleftrightarrow>
     (v = 0 \<and> schema_migrations d = [] \<and> \<not> has_linked_devices d) \<or>
     (v = 1 \<and> fst ` set (schema_migrations d) = {1} \<and> \<not> has_linked_devices d \<and>
        all_tables - {''own_linked_devices''} \<subseteq> set (tables d)) \<or>
     (v = 2 \<and> fst ` set (schema_migrations d) = {1, 2} \<and> has_linked_devices d \<and> all_tables \<subseteq> set (tables d))"

lemma fold_max_set: "fold max xs (a :: int) = Max (insert a (set xs))"
  using Max.set_eq_fold [of a xs] by simp

lemma current_version_set: "current_version d = Max (insert 0 (fst ` set (schema_migrations d)))"
  by (simp add: current_version_def fold_max_set)

lemma create_table_run [simp]: "bindM (create_table t) f d = f () (with_table t d)"
  by (simp add: create_table_def)

lemma with_table_sel [simp]:
  "has_linked_devices (with_table t d) = has_linked_devices d"
  "schema_migrations (with_table t d) = schema_migrations d"
  "contacts (with_table t d) = contacts d"
  "set (tables (with_table t d)) = insert t (set (tables d))"
  by (auto simp: with_table_def)

text \<open>The rows a migration must not lose: all of them, the new column apart.\<close>

definition same_rows :: "database \<Rightarrow> database \<Rightarrow> bool" where
  "same_rows d d' \<longleftrightarrow>
     map (\<lambda>r. r\<lparr>c_linked_devices := None\<rparr>) (contacts d') = map (\<lambda>r. r\<lparr>c_linked_devices := None\<rparr>) (contacts d) \<and>
     sessions d' = sessions d \<and> signed_prekeys d' = signed_prekeys d \<and> one_time_prekeys d' = one_time_prekeys d \<and>
     messages d' = messages d \<and> own_linked_devices d' = own_linked_devices d \<and> foreign_keys d' = foreign_keys d"

lemma same_rows_refl [simp]: "same_rows d d"
  by (simp add: same_rows_def)

lemma same_rows_tables [simp]: "same_rows d0 (d\<lparr>tables := ts\<rparr>) = same_rows d0 d"
  "same_rows d0 (d\<lparr>schema_migrations := ms\<rparr>) = same_rows d0 d"
  "same_rows d0 (with_table t d) = same_rows d0 d"
  by (simp_all add: same_rows_def with_table_def)

lemma same_rows_column [simp]:
  "same_rows d0 (d\<lparr>has_linked_devices := b, contacts := map (\<lambda>r. r\<lparr>c_linked_devices := Some x\<rparr>) (contacts d)\<rparr>) = same_rows d0 d"
  by (simp add: same_rows_def o_def)

lemma same_rows_trans: "same_rows a b \<Longrightarrow> same_rows b c \<Longrightarrow> same_rows a c"
  by (simp add: same_rows_def)

lemma insert_migration_run:
  "v \<notin> fst ` set (schema_migrations d) \<Longrightarrow>
     insert_migration v now d = (Inr (), d\<lparr>schema_migrations := schema_migrations d @ [(v, now)]\<rparr>)"
  by (simp add: insert_migration_def)

lemma V1_run:
  assumes "schema_migrations d = []" "\<not> has_linked_devices d" "''schema_migrations'' \<in> set (tables d)"
  shows "\<exists>d'. applyMigrationV1 now d = (Inr (), d') \<and> schema_version d' 1 \<and> same_rows d d'
     \<and> schema_migrations d' = [(1, now)]"
  using assms unfolding applyMigrationV1_def
  by (simp add: insert_migration_run schema_version_def) (auto simp: all_tables_def)

lemma V2_run:
  assumes "schema_version d 1"
  shows "\<exists>d'. applyMigrationV2 now d = (Inr (), d') \<and> schema_version d' 2 \<and> same_rows d d'
     \<and> schema_migrations d' = schema_migrations d @ [(2, now)]"
proof -
  have d: "fst ` set (schema_migrations d) = {1}" "\<not> has_linked_devices d"
    "all_tables - {''own_linked_devices''} \<subseteq> set (tables d)"
    using assms by (auto simp: schema_version_def)
  let ?d1 = "d\<lparr>has_linked_devices := True, contacts := map (\<lambda>r. r\<lparr>c_linked_devices := Some ''[]''\<rparr>) (contacts d)\<rparr>"
  have "tryM add_linked_devices_column (\<lambda>_. ret ()) d = (Inr (), ?d1)"
    using d(2,3) by (auto simp: tryM_def add_linked_devices_column_def all_tables_def)
  moreover have "2 \<notin> fst ` set (schema_migrations d)" using d(1) by simp
  ultimately have "applyMigrationV2 now d = (Inr (), (with_table ''own_linked_devices'' ?d1)
      \<lparr>schema_migrations := schema_migrations d @ [(2, now)]\<rparr>)"
    by (simp add: applyMigrationV2_def bindM_Inr [where m = "tryM add_linked_devices_column (\<lambda>_. ret ())"]
        insert_migration_run)
  moreover have "schema_version ((with_table ''own_linked_devices'' ?d1)
      \<lparr>schema_migrations := schema_migrations d @ [(2, now)]\<rparr>) 2"
    using d by (auto simp: schema_version_def)
  ultimately show ?thesis by simp
qed

lemma schema_version_current: "schema_version d v \<Longrightarrow> current_version d = v"
  by (auto simp: schema_version_def current_version_set)

lemma with_table_idem: "t \<in> set (tables d) \<Longrightarrow> with_table t d = d"
  by (simp add: with_table_def)

lemma runMigrations_run:
  assumes "schema_version d v"
  shows "\<exists>d'. runMigrations now d = (Inr (), d') \<and> schema_version d' 2 \<and> same_rows d d' \<and> (v = 2 \<longrightarrow> d' = d)"
proof -
  let ?d0 = "with_table ''schema_migrations'' d"
  have cv: "current_version ?d0 = v"
    using schema_version_current [OF assms] by (simp add: current_version_def)
  have run: "runMigrations now d = bindM (if v < 1 then applyMigrationV1 now else ret ())
      (\<lambda>_. if v < 2 then applyMigrationV2 now else ret ()) ?d0"
    by (simp add: runMigrations_def cv)
  consider "v = 0" | "v = 1" | "v = 2" using assms by (auto simp: schema_version_def)
  then show ?thesis
  proof cases
    case 1
    then obtain d1 where d1: "applyMigrationV1 now ?d0 = (Inr (), d1)" "schema_version d1 1" "same_rows ?d0 d1"
      using V1_run [of ?d0 now] assms by (auto simp: schema_version_def)
    obtain d2 where "applyMigrationV2 now d1 = (Inr (), d2)" "schema_version d2 2" "same_rows d1 d2"
      using V2_run [OF d1(2)] by blast
    moreover have "same_rows d d2"
      using same_rows_trans [OF d1(3) calculation(3)] by (simp add: same_rows_def with_table_def split: if_splits)
    ultimately show ?thesis using run 1 d1(1) by (simp add: bindM_def)
  next
    case 2
    then have "?d0 = d" using assms by (auto simp: schema_version_def all_tables_def intro: with_table_idem)
    then show ?thesis using run 2 assms V2_run [of d now] by auto
  next
    case 3
    then have "?d0 = d" using assms by (auto simp: schema_version_def all_tables_def intro: with_table_idem)
    then show ?thesis using run 3 assms by simp
  qed
qed

text \<open>C33. The migrations bring a database left by any earlier version of the client (a new file, one
  after the first migration, a complete one) to the current schema without losing a row, and
  running them again changes nothing.\<close>

theorem migrations_upgrade:
  assumes "schema_version d v"
  shows "\<exists>d'. runMigrations now d = (Inr (), d') \<and> schema_version d' 2 \<and> same_rows d d' \<and>
     runMigrations now' d' = (Inr (), d')"
proof -
  obtain d' where d': "runMigrations now d = (Inr (), d')" "schema_version d' 2" "same_rows d d'"
    using runMigrations_run [OF assms] by blast
  moreover have "runMigrations now' d' = (Inr (), d')" using runMigrations_run [OF d'(2), of now'] by auto
  ultimately show ?thesis by blast
qed

theorem migrations_upgrade_witness:
  "\<exists>d'. runMigrations 5 empty_database = (Inr (), d') \<and> schema_version d' 2 \<and>
     runMigrations 6 d' = (Inr (), d')"
proof -
  have "schema_version empty_database 0" by (simp add: schema_version_def empty_database_def)
  from migrations_upgrade [OF this, of 5 6] show ?thesis by blast
qed

text \<open>While the keychain works, every start of the client finds the same database key, whatever
  random bytes are drawn.\<close>

theorem database_key_stable:
  assumes "keychain_stores K" "hex_codec P" "drawn \<noteq> []"
    and "getOrCreateDatabaseKey P (Some K) service drawn fallback k = (r, k1)"
    and "\<forall>k. \<exists>c. getGenericPassword K service k = (Inr c, k)"
  shows "\<exists>key. r = Inr key \<and> getOrCreateDatabaseKey P (Some K) service drawn' fallback' k1 = (Inr key, k1)"
proof -
  obtain c where c: "getGenericPassword K service k = (Inr c, k)" using assms(5) by blast
  show ?thesis
  proof (cases "truthy c")
    case True
    then show ?thesis using c assms(4) by (auto simp: getOrCreateDatabaseKey_def tryM_def bindM_def)
  next
    case False
    obtain k' where k': "setGenericPassword K service (bytesToHex P drawn) k = (Inr True, k')"
      "getGenericPassword K service k' = (Inr (Some (bytesToHex P drawn)), k')"
      using assms(1) unfolding keychain_stores_def by blast
    have "bytesToHex P drawn \<noteq> []" using assms(2,3) by (simp add: prim_laws)
    then show ?thesis
      using False c k' assms(4) by (auto simp: getOrCreateDatabaseKey_def tryM_def bindM_def)
  qed
qed

theorem database_key_stable_witness:
  "\<exists>key k1. getOrCreateDatabaseKey model_prims (Some map_keychain) KEYCHAIN_DB_KEY_SERVICE [1, 2] [] Map.empty = (Inr key, k1) \<and>
     getOrCreateDatabaseKey model_prims (Some map_keychain) KEYCHAIN_DB_KEY_SERVICE [3, 4] [] k1 = (Inr key, k1)"
proof -
  obtain r k1 where r: "getOrCreateDatabaseKey model_prims (Some map_keychain) KEYCHAIN_DB_KEY_SERVICE [1, 2] [] Map.empty = (r, k1)"
    by fastforce
  have "\<forall>k. \<exists>c. getGenericPassword map_keychain KEYCHAIN_DB_KEY_SERVICE k = (Inr c, k)"
    by (simp add: map_keychain_def)
  from database_key_stable [OF map_keychain_stores model_hex_codec _ r this, of "[3, 4]" "[]"] r
  show ?thesis by auto
qed

subsection \<open>The tables as instances\<close>

definition merge_contact :: "contact_row \<Rightarrow> contact_row \<Rightarrow> contact_row" where
  "merge_contact r n = r\<lparr>c_identity_pubkey_hex := c_identity_pubkey_hex n,
     c_signing_pubkey_hex := c_signing_pubkey_hex n, c_alias := c_alias n,
     c_linked_devices := c_linked_devices n\<rparr>"

definition merge_session :: "session_row \<Rightarrow> session_row \<Rightarrow> session_row" where
  "merge_session r n = r\<lparr>s_session_data := s_session_data n, s_updated_at := s_updated_at n\<rparr>"

definition merge_signed_prekey :: "signed_prekey_row \<Rightarrow> signed_prekey_row \<Rightarrow> signed_prekey_row" where
  "merge_signed_prekey r n = r\<lparr>sk_key_data := sk_key_data n, sk_created_at := sk_created_at n\<rparr>"

definition merge_one_time_prekey :: "one_time_prekey_row \<Rightarrow> one_time_prekey_row \<Rightarrow> one_time_prekey_row" where
  "merge_one_time_prekey r n = r\<lparr>ok_key_data := ok_key_data n\<rparr>"

definition merge_message :: "message_row \<Rightarrow> message_row \<Rightarrow> message_row" where
  "merge_message r n = r\<lparr>m_body := m_body n, m_is_read := m_is_read n, m_delivery_status := m_delivery_status n\<rparr>"

definition merge_own_device :: "own_device_row \<Rightarrow> own_device_row \<Rightarrow> own_device_row" where
  "merge_own_device r n = r\<lparr>d_device_name := d_device_name n, d_recipient_pubkey_hash := d_recipient_pubkey_hash n,
     d_identity_pubkey_hex := d_identity_pubkey_hex n\<rparr>"

interpretation contacts_tab: keyed_table c_recipient_pubkey_hash merge_contact
  by unfold_locales (simp add: merge_contact_def)

interpretation sessions_tab: keyed_table s_recipient_identity_pubkey_hex merge_session
  by unfold_locales (simp add: merge_session_def)

interpretation spk_tab: keyed_table sk_key_id merge_signed_prekey
  by unfold_locales (simp add: merge_signed_prekey_def)

interpretation otk_tab: keyed_table ok_key_id merge_one_time_prekey
  by unfold_locales (simp add: merge_one_time_prekey_def)

interpretation messages_tab: keyed_table m_id merge_message
  by unfold_locales (simp add: merge_message_def)

interpretation own_devices_tab: keyed_table d_device_id merge_own_device
  by unfold_locales (simp add: merge_own_device_def)

text \<open>An initialised manager has the current schema and enforces its constraints.\<close>

lemma initialize_memory:
  assumes "\<not> dm_isInitialized m" "dm_isMemory m"
  shows "\<exists>m'. initialize P open_file kc drawn fallback now (m, k) = (Inr (), (m', k)) \<and> dm_ready m' \<and>
     schema_version (db_of m') 2 \<and> same_rows (empty_database\<lparr>foreign_keys := True\<rparr>) (db_of m')"
proof -
  let ?d = "empty_database\<lparr>foreign_keys := True\<rparr>"
  have v: "schema_version ?d 0" by (simp add: schema_version_def empty_database_def)
  obtain d' where d': "runMigrations now ?d = (Inr (), d')" "schema_version d' 2" "same_rows ?d d'"
    using runMigrations_run [OF v] by blast
  have "db_ok d'" using d'(3) by (simp add: same_rows_def db_ok_def empty_database_def)
  then show ?thesis
    using assms d' by (simp add: initialize_def on_open_driver_def bindM_def dm_ready_def Let_def db_of_def)
qed

end
