(* ===== verification/Sqlite_Store.thy ===== *)
theory Sqlite_Store
  imports Channel_System Database
begin

section \<open>The SQLite store of the crypto engine\<close>

text \<open>
  \<open>client/src/storage/SqliteSignalStore.ts\<close>: the methods of the store interface as SQL statements on
  rows that hold JSON text, the (de)serialisers, and the interpretation that shows the store keeps
  the contract \<open>signal_store\<close>, so that everything proved of the engine holds over it.

  A column read back is trusted to have the shape the store wrote: a field that is missing or
  of another type is a \<open>LibError\<close> here, where the source would go on with \<open>undefined\<close>.
\<close>

subsection \<open>Fields of a JSON object\<close>

definition jget :: "(json \<Rightarrow> 'a res) \<Rightarrow> json \<Rightarrow> string \<Rightarrow> 'a res" where
  "jget f v k = bindR (jprop v k) (\<lambda>o1. case o1 of Some w \<Rightarrow> f w | None \<Rightarrow> Inl LibError)"

definition as_int :: "json \<Rightarrow> int res" where
  "as_int v = (case v of JNum i \<Rightarrow> Inr i | _ \<Rightarrow> Inl LibError)"

definition as_str :: "json \<Rightarrow> string res" where
  "as_str v = (case v of JStr s \<Rightarrow> Inr s | _ \<Rightarrow> Inl LibError)"

definition as_str_or_null :: "json \<Rightarrow> string option res" where
  "as_str_or_null v = (case v of JStr s \<Rightarrow> Inr (Some s) | JNull \<Rightarrow> Inr None | _ \<Rightarrow> Inl LibError)"

fun as_strings :: "(string \<times> json) list \<Rightarrow> (string \<times> string) list res" where
  "as_strings [] = Inr []"
| "as_strings ((k, v) # ms) = bindR (as_str v) (\<lambda>s. bindR (as_strings ms) (\<lambda>r. Inr ((k, s) # r)))"

definition as_dict :: "json \<Rightarrow> string jsobj res" where
  "as_dict v = (case v of JObj ms \<Rightarrow> as_strings ms | _ \<Rightarrow> Inl LibError)"

definition jget_opt :: "(json \<Rightarrow> 'a res) \<Rightarrow> json \<Rightarrow> string \<Rightarrow> 'a option res" where
  "jget_opt f v k =
     bindR (jprop v k) (\<lambda>o1. case o1 of Some w \<Rightarrow> bindR (f w) (\<lambda>a. Inr (Some a)) | None \<Rightarrow> Inr None)"

definition or_null :: "string option \<Rightarrow> json" where
  "or_null o1 = (case o1 of None \<Rightarrow> JNull | Some s \<Rightarrow> JStr s)"

definition of_dict :: "string jsobj \<Rightarrow> json" where
  "of_dict ob = JObj (map (\<lambda>(k, s). (k, JStr s)) ob)"

lemma as_strings_of [simp]: "as_strings (map (\<lambda>(k, s). (k, JStr s)) ob) = Inr ob"
  by (induction ob) (auto simp: as_str_def)

lemma as_dict_of [simp]: "as_dict (of_dict ob) = Inr ob"
  by (simp add: as_dict_def of_dict_def)

lemma as_or_null [simp]: "as_str_or_null (or_null o1) = Inr o1"
  by (simp add: as_str_or_null_def or_null_def split: option.splits)

lemma as_simps [simp]: "as_int (JNum i) = Inr i" "as_str (JStr s) = Inr s"
  by (simp_all add: as_int_def as_str_def)

lemma jget_obj [simp]: "jget f (JObj ms) k = (case map_of ms k of Some w \<Rightarrow> f w | None \<Rightarrow> Inl LibError)"
  by (simp add: jget_def jprop_def obj_get_def)

lemma jget_opt_obj [simp]:
  "jget_opt f (JObj ms) k = (case map_of ms k of Some w \<Rightarrow> bindR (f w) (\<lambda>a. Inr (Some a)) | None \<Rightarrow> Inr None)"
  by (simp add: jget_opt_def jprop_def obj_get_def)

lemma wf_members_strings: "wf_members (map (\<lambda>(k, s). (k, JStr s)) ob)"
  by (induction ob) auto

lemma wf_of_dict:
  assumes "distinct (map fst ob)"
  shows "wf_json (of_dict ob)"
proof -
  have "map fst (map (\<lambda>(k, s). (k, JStr s)) ob) = map fst ob" by (simp add: case_prod_unfold)
  then show ?thesis using assms wf_members_strings unfolding of_dict_def wf_json.simps by metis
qed

lemma wf_or_null [simp]: "wf_json (or_null o1)"
  by (simp add: or_null_def split: option.splits)

subsection \<open>Serialisers\<close>

definition serializeKeyPair :: "prims \<Rightarrow> keypair \<Rightarrow> json" where
  "serializeKeyPair P kp =
     JObj [(''publicKeyHex'', JStr (publicKeyHex kp)), (''secretKeyHex'', JStr (bytesToHex P (secretKey kp)))]"

definition deserializeKeyPair :: "prims \<Rightarrow> json \<Rightarrow> keypair res" where
  "deserializeKeyPair P v =
     bindR (jget as_str v ''publicKeyHex'') (\<lambda>pkHex.
     bindR (hexToBytes P pkHex) (\<lambda>pk.
     bindR (jget as_str v ''secretKeyHex'') (\<lambda>skHex.
     bindR (hexToBytes P skHex) (\<lambda>sk.
     Inr \<lparr>publicKey = pk, secretKey = sk, publicKeyHex = pkHex\<rparr>))))"

definition serializeSignedPreKey :: "prims \<Rightarrow> signed_prekey \<Rightarrow> json" where
  "serializeSignedPreKey P k =
     JObj [(''keyId'', JNum (spk_keyId k)), (''keyPair'', serializeKeyPair P (spk_keyPair k)),
           (''signatureHex'', JStr (spk_signatureHex k)), (''createdAt'', JNum (spk_createdAt k))]"

definition deserializeSignedPreKey :: "prims \<Rightarrow> json \<Rightarrow> signed_prekey res" where
  "deserializeSignedPreKey P v =
     bindR (jget as_int v ''keyId'') (\<lambda>i.
     bindR (jget (deserializeKeyPair P) v ''keyPair'') (\<lambda>kp.
     bindR (jget as_str v ''signatureHex'') (\<lambda>sg.
     bindR (jget as_int v ''createdAt'') (\<lambda>t.
     Inr \<lparr>spk_keyId = i, spk_keyPair = kp, spk_signatureHex = sg, spk_createdAt = t\<rparr>))))"

definition serializeOneTimePreKey :: "prims \<Rightarrow> one_time_prekey \<Rightarrow> json" where
  "serializeOneTimePreKey P k =
     JObj [(''keyId'', JNum (otk_keyId k)), (''keyPair'', serializeKeyPair P (otk_keyPair k))]"

definition deserializeOneTimePreKey :: "prims \<Rightarrow> json \<Rightarrow> one_time_prekey res" where
  "deserializeOneTimePreKey P v =
     bindR (jget as_int v ''keyId'') (\<lambda>i.
     bindR (jget (deserializeKeyPair P) v ''keyPair'') (\<lambda>kp.
     Inr \<lparr>otk_keyId = i, otk_keyPair = kp\<rparr>))"

text \<open>A session is spread into the JSON object in the order of its fields; \<open>undefined\<close> is left out.\<close>

definition serializeSession :: "prims \<Rightarrow> session \<Rightarrow> json" where
  "serializeSession P w =
     JObj ([(''recipientIdentityKeyHex'', JStr (recipientIdentityKeyHex w)),
            (''rootKeyHex'', JStr (rootKeyHex w)),
            (''sendChainKeyHex'', or_null (sendChainKeyHex w)),
            (''receiveChainKeyHex'', or_null (receiveChainKeyHex w)),
            (''localDhKeyPair'', serializeKeyPair P (localDhKeyPair w)),
            (''remoteDhPublicKeyHex'', or_null (remoteDhPublicKeyHex w)),
            (''sendSequenceNumber'', JNum (sendSequenceNumber w)),
            (''receiveSequenceNumber'', JNum (receiveSequenceNumber w)),
            (''previousChainLength'', JNum (previousChainLength w)),
            (''skippedMessageKeys'', of_dict (skippedMessageKeys w)),
            (''createdAt'', JNum (createdAt w)),
            (''updatedAt'', JNum (updatedAt w))]
           @ opt_member ''oneTimePreKeyId'' JNum (oneTimePreKeyId w))"

definition deserializeSession :: "prims \<Rightarrow> json \<Rightarrow> session res" where
  "deserializeSession P v =
     bindR (jget as_str v ''recipientIdentityKeyHex'') (\<lambda>ri.
     bindR (jget as_str v ''rootKeyHex'') (\<lambda>rk.
     bindR (jget as_str_or_null v ''sendChainKeyHex'') (\<lambda>sc.
     bindR (jget as_str_or_null v ''receiveChainKeyHex'') (\<lambda>rc.
     bindR (jget (deserializeKeyPair P) v ''localDhKeyPair'') (\<lambda>kp.
     bindR (jget as_str_or_null v ''remoteDhPublicKeyHex'') (\<lambda>rd.
     bindR (jget as_int v ''sendSequenceNumber'') (\<lambda>sn.
     bindR (jget as_int v ''receiveSequenceNumber'') (\<lambda>rn.
     bindR (jget as_int v ''previousChainLength'') (\<lambda>pl.
     bindR (jget as_dict v ''skippedMessageKeys'') (\<lambda>sk.
     bindR (jget as_int v ''createdAt'') (\<lambda>ca.
     bindR (jget as_int v ''updatedAt'') (\<lambda>ua.
     bindR (jget_opt as_int v ''oneTimePreKeyId'') (\<lambda>ot.
     Inr \<lparr>recipientIdentityKeyHex = ri, rootKeyHex = rk, sendChainKeyHex = sc, receiveChainKeyHex = rc,
          localDhKeyPair = kp, remoteDhPublicKeyHex = rd, sendSequenceNumber = sn,
          receiveSequenceNumber = rn, previousChainLength = pl, skippedMessageKeys = sk,
          createdAt = ca, updatedAt = ua, oneTimePreKeyId = ot\<rparr>)))))))))))))"

lemma deserialize_keypair:
  "storable_keypair P kp \<Longrightarrow> deserializeKeyPair P (serializeKeyPair P kp) = Inr kp"
  by (simp add: deserializeKeyPair_def serializeKeyPair_def storable_keypair_def prim_laws)

lemma deserialize_spk:
  "storable_keypair P (spk_keyPair k) \<Longrightarrow>
     deserializeSignedPreKey P (serializeSignedPreKey P k) = Inr k"
  by (simp add: deserializeSignedPreKey_def serializeSignedPreKey_def deserialize_keypair)

lemma deserialize_otk:
  "storable_keypair P (otk_keyPair k') \<Longrightarrow>
     deserializeOneTimePreKey P (serializeOneTimePreKey P k') = Inr k'"
  by (simp add: deserializeOneTimePreKey_def serializeOneTimePreKey_def deserialize_keypair)

lemma deserialize_session:
  "storable_session P w \<Longrightarrow> deserializeSession P (serializeSession P w) = Inr w"
  by (simp add: deserializeSession_def serializeSession_def deserialize_keypair storable_session_def
      opt_member_def split: option.splits)

lemma wf_keypair [simp]: "wf_json (serializeKeyPair P kp)"
  by (simp add: serializeKeyPair_def)

lemma wf_spk [simp]: "wf_json (serializeSignedPreKey P k)"
  by (simp add: serializeSignedPreKey_def)

lemma wf_otk [simp]: "wf_json (serializeOneTimePreKey P k')"
  by (simp add: serializeOneTimePreKey_def)

lemma wf_session: "storable_session P w \<Longrightarrow> wf_json (serializeSession P w)"
  by (simp add: serializeSession_def storable_session_def wf_of_dict opt_member_def split: option.splits)

text \<open>What is stored comes back: each kind of row, through the JSON text.\<close>

lemma read_spk:
  "storable_keypair P (spk_keyPair k) \<Longrightarrow>
     bindR (JSON_parse (JSON_stringify (serializeSignedPreKey P k))) (deserializeSignedPreKey P) = Inr k"
  by (simp add: JSON_parse_stringify deserialize_spk)

lemma read_otk:
  "storable_keypair P (otk_keyPair k') \<Longrightarrow>
     bindR (JSON_parse (JSON_stringify (serializeOneTimePreKey P k'))) (deserializeOneTimePreKey P) = Inr k'"
  by (simp add: JSON_parse_stringify deserialize_otk)

lemma read_session:
  "storable_session P w \<Longrightarrow>
     bindR (JSON_parse (JSON_stringify (serializeSession P w))) (deserializeSession P) = Inr w"
  by (simp add: JSON_parse_stringify deserialize_session wf_session)

subsection \<open>The methods\<close>

record sql_store =
  ss_identity :: identity
  ss_db :: db_manager

definition on_db :: "(db_manager, 'a) M \<Rightarrow> (sql_store, 'a) M" where
  "on_db m s = (let (r, db') = m (ss_db s) in (r, s\<lparr>ss_db := db'\<rparr>))"

text \<open>\<open>if (!row) return null; return deserialize(JSON.parse(row.data))\<close>.\<close>

definition read_row :: "('r \<Rightarrow> string) \<Rightarrow> (json \<Rightarrow> 'a res) \<Rightarrow> 'r option \<Rightarrow> 'a option res" where
  "read_row data f row =
     (case row of None \<Rightarrow> Inr None
      | Some r \<Rightarrow> bindR (JSON_parse (data r)) (\<lambda>v. bindR (f v) (\<lambda>a. Inr (Some a))))"

definition sql_saveSignedPreKey :: "prims \<Rightarrow> int \<Rightarrow> signed_prekey \<Rightarrow> (sql_store, unit) M" where
  "sql_saveSignedPreKey P i k =
     on_db (execute (modifyM (\<lambda>d. d\<lparr>signed_prekeys := upsert sk_key_id merge_signed_prekey
       \<lparr>sk_key_id = i, sk_key_data = JSON_stringify (serializeSignedPreKey P k), sk_created_at = spk_createdAt k\<rparr>
       (signed_prekeys d)\<rparr>)))"

definition sql_getSignedPreKey :: "prims \<Rightarrow> int \<Rightarrow> (sql_store, signed_prekey option) M" where
  "sql_getSignedPreKey P i =
     bindM (on_db (queryOne (\<lambda>d. select_key sk_key_id i (signed_prekeys d))))
       (\<lambda>row. liftM (read_row sk_key_data (deserializeSignedPreKey P) row))"

definition sql_getLatestSignedPreKey :: "prims \<Rightarrow> (sql_store, signed_prekey option) M" where
  "sql_getLatestSignedPreKey P =
     bindM (on_db (queryOne (\<lambda>d. case order_by_desc sk_created_at (signed_prekeys d) of [] \<Rightarrow> None | r # _ \<Rightarrow> Some r)))
       (\<lambda>row. liftM (read_row sk_key_data (deserializeSignedPreKey P) row))"

definition sql_saveOneTimePreKey :: "prims \<Rightarrow> int \<Rightarrow> one_time_prekey \<Rightarrow> (sql_store, unit) M" where
  "sql_saveOneTimePreKey P i k =
     on_db (execute (modifyM (\<lambda>d. d\<lparr>one_time_prekeys := upsert ok_key_id merge_one_time_prekey
       \<lparr>ok_key_id = i, ok_key_data = JSON_stringify (serializeOneTimePreKey P k)\<rparr> (one_time_prekeys d)\<rparr>)))"

definition sql_getOneTimePreKey :: "prims \<Rightarrow> int \<Rightarrow> (sql_store, one_time_prekey option) M" where
  "sql_getOneTimePreKey P i =
     bindM (on_db (queryOne (\<lambda>d. select_key ok_key_id i (one_time_prekeys d))))
       (\<lambda>row. liftM (read_row ok_key_data (deserializeOneTimePreKey P) row))"

definition sql_removeOneTimePreKey :: "int \<Rightarrow> (sql_store, unit) M" where
  "sql_removeOneTimePreKey i =
     on_db (execute (modifyM (\<lambda>d. d\<lparr>one_time_prekeys := delete_key ok_key_id i (one_time_prekeys d)\<rparr>)))"

definition sql_countOneTimePreKeys :: "(sql_store, nat) M" where
  "sql_countOneTimePreKeys =
     bindM (on_db (queryOne (\<lambda>d. Some (length (one_time_prekeys d)))))
       (\<lambda>row. ret (case row of None \<Rightarrow> 0 | Some n \<Rightarrow> n))"

definition sql_saveSession :: "prims \<Rightarrow> hex \<Rightarrow> session \<Rightarrow> (sql_store, unit) M" where
  "sql_saveSession P k w =
     (let normalizedKey = toLowerCase k in
      on_db (execute (modifyM (\<lambda>d. d\<lparr>sessions := upsert s_recipient_identity_pubkey_hex merge_session
        \<lparr>s_recipient_identity_pubkey_hex = normalizedKey,
         s_session_data = JSON_stringify (serializeSession P w), s_updated_at = updatedAt w\<rparr> (sessions d)\<rparr>))))"

definition sql_getSession :: "prims \<Rightarrow> hex \<Rightarrow> (sql_store, session option) M" where
  "sql_getSession P k =
     (let normalizedKey = toLowerCase k in
      bindM (on_db (queryOne (\<lambda>d. select_key s_recipient_identity_pubkey_hex normalizedKey (sessions d))))
        (\<lambda>row. liftM (read_row s_session_data (deserializeSession P) row)))"

definition sql_hasSession :: "hex \<Rightarrow> (sql_store, bool) M" where
  "sql_hasSession k =
     (let normalizedKey = toLowerCase k in
      bindM (on_db (queryOne (\<lambda>d. Some (length (filter
          (\<lambda>r. s_recipient_identity_pubkey_hex r = normalizedKey) (sessions d))))))
        (\<lambda>row. ret (0 < (case row of None \<Rightarrow> 0 | Some n \<Rightarrow> n))))"

definition sql_removeSession :: "hex \<Rightarrow> (sql_store, unit) M" where
  "sql_removeSession k =
     (let normalizedKey = toLowerCase k in
      on_db (execute (modifyM (\<lambda>d. d\<lparr>sessions := delete_key s_recipient_identity_pubkey_hex normalizedKey (sessions d)\<rparr>))))"

definition sql_ops :: "prims \<Rightarrow> sql_store store_ops" where
  "sql_ops P =
     \<lparr>getIdentity = getM ss_identity,
      saveSignedPreKey = sql_saveSignedPreKey P, getSignedPreKey = sql_getSignedPreKey P,
      getLatestSignedPreKey = sql_getLatestSignedPreKey P,
      saveOneTimePreKey = sql_saveOneTimePreKey P, getOneTimePreKey = sql_getOneTimePreKey P,
      removeOneTimePreKey = sql_removeOneTimePreKey, countOneTimePreKeys = sql_countOneTimePreKeys,
      saveSession = sql_saveSession P, getSession = sql_getSession P, hasSession = sql_hasSession,
      removeSession = sql_removeSession, mutateSession = (\<lambda>_ _ s. s)\<rparr>"

subsection \<open>The contract\<close>

text \<open>The tables a row table stands for: the rows of key \<open>k\<close>, read.\<close>

definition read_table :: "('r \<Rightarrow> 'k) \<Rightarrow> ('r \<Rightarrow> string) \<Rightarrow> (json \<Rightarrow> 'a res) \<Rightarrow> 'r list \<Rightarrow> 'k \<Rightarrow> 'a option" where
  "read_table key data f rows k =
     (case read_row data f (select_key key k rows) of Inr o1 \<Rightarrow> o1 | Inl _ \<Rightarrow> None)"

definition readable :: "('r \<Rightarrow> string) \<Rightarrow> (json \<Rightarrow> 'a res) \<Rightarrow> ('r \<Rightarrow> 'a \<Rightarrow> bool) \<Rightarrow> 'r list \<Rightarrow> bool" where
  "readable data f ok rows \<longleftrightarrow> (\<forall>r \<in> set rows. \<exists>a. bindR (JSON_parse (data r)) f = Inr a \<and> ok r a)"

definition sql_invar :: "prims \<Rightarrow> sql_store \<Rightarrow> bool" where
  "sql_invar P s \<longleftrightarrow> dm_ready (ss_db s) \<and>
     readable sk_key_data (deserializeSignedPreKey P) (\<lambda>r k. spk_createdAt k = sk_created_at r) (signed_prekeys (db_of (ss_db s))) \<and>
     readable ok_key_data (deserializeOneTimePreKey P) (\<lambda>_ _. True) (one_time_prekeys (db_of (ss_db s))) \<and>
     readable s_session_data (deserializeSession P) (\<lambda>_ _. True) (sessions (db_of (ss_db s)))"

definition sql_spks :: "prims \<Rightarrow> sql_store \<Rightarrow> int \<Rightarrow> signed_prekey option" where
  "sql_spks P s = read_table sk_key_id sk_key_data (deserializeSignedPreKey P) (signed_prekeys (db_of (ss_db s)))"

definition sql_otks :: "prims \<Rightarrow> sql_store \<Rightarrow> int \<Rightarrow> one_time_prekey option" where
  "sql_otks P s = read_table ok_key_id ok_key_data (deserializeOneTimePreKey P) (one_time_prekeys (db_of (ss_db s)))"

definition sql_sess :: "prims \<Rightarrow> sql_store \<Rightarrow> hex \<Rightarrow> session option" where
  "sql_sess P s = read_table s_recipient_identity_pubkey_hex s_session_data (deserializeSession P) (sessions (db_of (ss_db s)))"

lemma bindR_Some: "bindR m (\<lambda>v. bindR (f v) (\<lambda>a. Inr (Some a))) = (case bindR m f of Inl e \<Rightarrow> Inl e | Inr a \<Rightarrow> Inr (Some a))"
  by (cases m) (auto simp: bindR_def split: sum.splits)

lemma read_row_readable:
  assumes "readable data f ok rows"
  shows "read_row data f (select_key key k rows) = Inr (read_table key data f rows k)"
    "read_table key data f rows k = None \<longleftrightarrow> select_key key k rows = None"
proof -
  have "read_row data f (select_key key k rows) = Inr (read_table key data f rows k)
      \<and> (read_table key data f rows k = None \<longleftrightarrow> select_key key k rows = None)"
  proof (cases "select_key key k rows")
    case (Some r)
    then have "r \<in> set rows" using select_key_Some by metis
    then obtain a where "bindR (JSON_parse (data r)) f = Inr a" using assms by (auto simp: readable_def)
    then show ?thesis using Some by (simp add: read_row_def read_table_def bindR_Some)
  qed (simp add: read_row_def read_table_def)
  then show "read_row data f (select_key key k rows) = Inr (read_table key data f rows k)"
    "read_table key data f rows k = None \<longleftrightarrow> select_key key k rows = None" by blast+
qed

lemma read_table_Some:
  "read_table key data f rows k = Some a \<longleftrightarrow>
     (\<exists>r. select_key key k rows = Some r \<and> bindR (JSON_parse (data r)) f = Inr a)"
  by (auto simp: read_table_def read_row_def bindR_Some split: option.splits sum.splits)

context keyed_table
begin

text \<open>Upserting a row whose merged form reads as \<open>a\<close> updates the table read at its key.\<close>

lemma read_table_upsert:
  assumes "\<And>r. bindR (JSON_parse (data (merge r n))) f = Inr a" "bindR (JSON_parse (data n)) f = Inr a"
  shows "read_table key data f (upsert key merge n rows) = (read_table key data f rows)(key n \<mapsto> a)"
proof
  fix k
  show "read_table key data f (upsert key merge n rows) k = ((read_table key data f rows)(key n \<mapsto> a)) k"
    using assms by (auto simp: read_table_def read_row_def select_upsert bindR_Some split: option.splits)
qed

lemma read_table_delete:
  "read_table key data f (delete_key key k rows) = (read_table key data f rows)(k := None)"
  by (rule ext) (simp add: read_table_def read_row_def select_delete)

lemma readable_upsert:
  assumes "readable data f ok rows" "bindR (JSON_parse (data n)) f = Inr a" "ok n a"
    and "\<And>r. bindR (JSON_parse (data (merge r n))) f = Inr a" "\<And>r. ok (merge r n) a"
  shows "readable data f ok (upsert key merge n rows)"
  unfolding readable_def
proof
  fix r assume "r \<in> set (upsert key merge n rows)"
  from upsert_members [OF this] show "\<exists>a. bindR (JSON_parse (data r)) f = Inr a \<and> ok r a"
    using assms unfolding readable_def by blast
qed

lemma readable_delete: "readable data f ok rows \<Longrightarrow> readable data f ok (delete_key key k rows)"
  by (auto simp: readable_def delete_key_def)

end

subsection \<open>The contract is kept\<close>

lemma on_db_query: "dm_ready (ss_db s) \<Longrightarrow> bindM (on_db (queryOne g)) h s = h (g (db_of (ss_db s))) s"
  by (simp add: on_db_def bindM_def queryOne_ready)

lemma on_db_execute:
  "dm_ready (ss_db s) \<Longrightarrow> on_db (execute (modifyM g)) s
     = (Inr (), s\<lparr>ss_db := (ss_db s)\<lparr>dm_driver := Some (g (db_of (ss_db s)))\<rparr>\<rparr>)"
  by (simp add: on_db_def execute_modify)

lemma sql_invar_ready: "sql_invar P s \<Longrightarrow> dm_ready (ss_db s) \<and> db_ok (db_of (ss_db s))"
  using dm_ready_db_ok by (simp add: sql_invar_def)

text \<open>A statement that keeps the constraints and the readability of the rows keeps the invariant.\<close>

lemma sql_invar_update:
  assumes "sql_invar P s" "db_ok d"
    and "readable sk_key_data (deserializeSignedPreKey P) (\<lambda>r k. spk_createdAt k = sk_created_at r) (signed_prekeys d)"
    and "readable ok_key_data (deserializeOneTimePreKey P) (\<lambda>_ _. True) (one_time_prekeys d)"
    and "readable s_session_data (deserializeSession P) (\<lambda>_ _. True) (sessions d)"
  shows "sql_invar P (s\<lparr>ss_db := (ss_db s)\<lparr>dm_driver := Some d\<rparr>\<rparr>)"
  using assms dm_ready_update by (simp add: sql_invar_def)

lemma sql_save_spk:
  assumes "sql_invar P s" "storable_keypair P (spk_keyPair k)"
  shows "\<exists>s'. sql_saveSignedPreKey P i k s = (Inr (), s') \<and> sql_invar P s' \<and>
     sql_spks P s' = (sql_spks P s)(i \<mapsto> k) \<and> sql_otks P s' = sql_otks P s \<and> sql_sess P s' = sql_sess P s \<and>
     ss_identity s' = ss_identity s"
proof -
  let ?n = "\<lparr>sk_key_id = i, sk_key_data = JSON_stringify (serializeSignedPreKey P k), sk_created_at = spk_createdAt k\<rparr>"
  let ?d = "db_of (ss_db s)"
  let ?d' = "?d\<lparr>signed_prekeys := upsert sk_key_id merge_signed_prekey ?n (signed_prekeys ?d)\<rparr>"
  note rd = read_spk [OF assms(2)]
  have inv: "sql_invar P (s\<lparr>ss_db := (ss_db s)\<lparr>dm_driver := Some ?d'\<rparr>\<rparr>)"
  proof (rule sql_invar_update [OF assms(1)])
    have "readable sk_key_data (deserializeSignedPreKey P) (\<lambda>r k. spk_createdAt k = sk_created_at r) (signed_prekeys ?d)" using assms(1) by (simp add: sql_invar_def)
    then show "readable sk_key_data (deserializeSignedPreKey P) (\<lambda>r k. spk_createdAt k = sk_created_at r) (signed_prekeys ?d')"
      using spk_tab.readable_upsert [where n = ?n and a = k] rd by (simp add: merge_signed_prekey_def)
  qed (use assms(1) sql_invar_ready [OF assms(1)] in \<open>simp_all add: sql_invar_def db_ok_def spk_tab.distinct_upsert\<close>)
  have "read_table sk_key_id sk_key_data (deserializeSignedPreKey P) (signed_prekeys ?d') = (sql_spks P s)(i \<mapsto> k)"
    using spk_tab.read_table_upsert [where n = ?n and a = k] rd by (simp add: sql_spks_def merge_signed_prekey_def)
  then show ?thesis
    using inv sql_invar_ready [OF assms(1)] unfolding sql_saveSignedPreKey_def
    by (simp add: on_db_execute sql_spks_def sql_otks_def sql_sess_def)
qed

lemma sql_save_otk:
  assumes "sql_invar P s" "storable_keypair P (otk_keyPair k)"
  shows "\<exists>s'. sql_saveOneTimePreKey P i k s = (Inr (), s') \<and> sql_invar P s' \<and>
     sql_otks P s' = (sql_otks P s)(i \<mapsto> k) \<and> sql_spks P s' = sql_spks P s \<and> sql_sess P s' = sql_sess P s \<and>
     ss_identity s' = ss_identity s"
proof -
  let ?n = "\<lparr>ok_key_id = i, ok_key_data = JSON_stringify (serializeOneTimePreKey P k)\<rparr>"
  let ?d = "db_of (ss_db s)"
  let ?d' = "?d\<lparr>one_time_prekeys := upsert ok_key_id merge_one_time_prekey ?n (one_time_prekeys ?d)\<rparr>"
  note rd = read_otk [OF assms(2)]
  have inv: "sql_invar P (s\<lparr>ss_db := (ss_db s)\<lparr>dm_driver := Some ?d'\<rparr>\<rparr>)"
  proof (rule sql_invar_update [OF assms(1)])
    have "readable ok_key_data (deserializeOneTimePreKey P) (\<lambda>_ _. True) (one_time_prekeys ?d)" using assms(1) by (simp add: sql_invar_def)
    then show "readable ok_key_data (deserializeOneTimePreKey P) (\<lambda>_ _. True) (one_time_prekeys ?d')"
      using otk_tab.readable_upsert [where n = ?n and a = k] rd by (simp add: merge_one_time_prekey_def)
  qed (use assms(1) sql_invar_ready [OF assms(1)] in \<open>simp_all add: sql_invar_def db_ok_def otk_tab.distinct_upsert\<close>)
  have "read_table ok_key_id ok_key_data (deserializeOneTimePreKey P) (one_time_prekeys ?d') = (sql_otks P s)(i \<mapsto> k)"
    using otk_tab.read_table_upsert [where n = ?n and a = k] rd by (simp add: sql_otks_def merge_one_time_prekey_def)
  then show ?thesis
    using inv sql_invar_ready [OF assms(1)] unfolding sql_saveOneTimePreKey_def
    by (simp add: on_db_execute sql_spks_def sql_otks_def sql_sess_def)
qed

lemma sql_save_session:
  assumes "sql_invar P s" "storable_session P w"
  shows "\<exists>s'. sql_saveSession P k w s = (Inr (), s') \<and> sql_invar P s' \<and>
     sql_sess P s' = (sql_sess P s)(toLowerCase k \<mapsto> w) \<and> sql_spks P s' = sql_spks P s \<and> sql_otks P s' = sql_otks P s \<and>
     ss_identity s' = ss_identity s"
proof -
  let ?n = "\<lparr>s_recipient_identity_pubkey_hex = toLowerCase k,
     s_session_data = JSON_stringify (serializeSession P w), s_updated_at = updatedAt w\<rparr>"
  let ?d = "db_of (ss_db s)"
  let ?d' = "?d\<lparr>sessions := upsert s_recipient_identity_pubkey_hex merge_session ?n (sessions ?d)\<rparr>"
  note rd = read_session [OF assms(2)]
  have inv: "sql_invar P (s\<lparr>ss_db := (ss_db s)\<lparr>dm_driver := Some ?d'\<rparr>\<rparr>)"
  proof (rule sql_invar_update [OF assms(1)])
    have "readable s_session_data (deserializeSession P) (\<lambda>_ _. True) (sessions ?d)" using assms(1) by (simp add: sql_invar_def)
    then show "readable s_session_data (deserializeSession P) (\<lambda>_ _. True) (sessions ?d')"
      using sessions_tab.readable_upsert [where n = ?n and a = w] rd by (simp add: merge_session_def)
  qed (use assms(1) sql_invar_ready [OF assms(1)] in \<open>simp_all add: sql_invar_def db_ok_def sessions_tab.distinct_upsert\<close>)
  have "read_table s_recipient_identity_pubkey_hex s_session_data (deserializeSession P) (sessions ?d')
      = (sql_sess P s)(toLowerCase k \<mapsto> w)"
    using sessions_tab.read_table_upsert [where n = ?n and a = w] rd by (simp add: sql_sess_def merge_session_def)
  then show ?thesis
    using inv sql_invar_ready [OF assms(1)] unfolding sql_saveSession_def
    by (simp add: on_db_execute sql_spks_def sql_otks_def sql_sess_def Let_def)
qed

lemma sql_remove_otk:
  assumes "sql_invar P s"
  shows "\<exists>s'. sql_removeOneTimePreKey i s = (Inr (), s') \<and> sql_invar P s' \<and>
     sql_otks P s' = (sql_otks P s)(i := None) \<and> sql_spks P s' = sql_spks P s \<and> sql_sess P s' = sql_sess P s \<and>
     ss_identity s' = ss_identity s"
proof -
  let ?d = "db_of (ss_db s)"
  let ?d' = "?d\<lparr>one_time_prekeys := delete_key ok_key_id i (one_time_prekeys ?d)\<rparr>"
  have inv: "sql_invar P (s\<lparr>ss_db := (ss_db s)\<lparr>dm_driver := Some ?d'\<rparr>\<rparr>)"
    using assms(1) sql_invar_ready [OF assms(1)]
    by (intro sql_invar_update)
      (auto simp: sql_invar_def db_ok_def otk_tab.distinct_delete otk_tab.readable_delete)
  then show ?thesis
    using sql_invar_ready [OF assms(1)] unfolding sql_removeOneTimePreKey_def
    by (simp add: on_db_execute sql_spks_def sql_otks_def sql_sess_def otk_tab.read_table_delete)
qed

lemma sql_remove_session:
  assumes "sql_invar P s"
  shows "\<exists>s'. sql_removeSession k s = (Inr (), s') \<and> sql_invar P s' \<and>
     sql_sess P s' = (sql_sess P s)(toLowerCase k := None) \<and> sql_spks P s' = sql_spks P s \<and> sql_otks P s' = sql_otks P s \<and>
     ss_identity s' = ss_identity s"
proof -
  let ?d = "db_of (ss_db s)"
  let ?d' = "?d\<lparr>sessions := delete_key s_recipient_identity_pubkey_hex (toLowerCase k) (sessions ?d)\<rparr>"
  have inv: "sql_invar P (s\<lparr>ss_db := (ss_db s)\<lparr>dm_driver := Some ?d'\<rparr>\<rparr>)"
    using assms(1) sql_invar_ready [OF assms(1)]
    by (intro sql_invar_update)
      (auto simp: sql_invar_def db_ok_def sessions_tab.distinct_delete sessions_tab.readable_delete)
  then show ?thesis
    using sql_invar_ready [OF assms(1)] unfolding sql_removeSession_def
    by (simp add: on_db_execute sql_spks_def sql_otks_def sql_sess_def sessions_tab.read_table_delete Let_def)
qed

lemma sql_latest:
  assumes "sql_invar P s"
  shows "\<exists>r. sql_getLatestSignedPreKey P s = (Inr r, s) \<and> (r = None \<longleftrightarrow> sql_spks P s = Map.empty) \<and>
     (\<forall>k. r = Some k \<longrightarrow> k \<in> ran (sql_spks P s) \<and> (\<forall>k' \<in> ran (sql_spks P s). spk_createdAt k' \<le> spk_createdAt k))"
proof -
  let ?rows = "signed_prekeys (db_of (ss_db s))"
  have ready: "dm_ready (ss_db s)" and db: "distinct (map sk_key_id ?rows)"
    and rd: "readable sk_key_data (deserializeSignedPreKey P) (\<lambda>r k. spk_createdAt k = sk_created_at r) ?rows"
    using assms sql_invar_ready [OF assms] by (auto simp: sql_invar_def db_ok_def)
  have run: "sql_getLatestSignedPreKey P s = (read_row sk_key_data (deserializeSignedPreKey P)
      (case order_by_desc sk_created_at ?rows of [] \<Rightarrow> None | r # _ \<Rightarrow> Some r), s)"
    by (simp add: sql_getLatestSignedPreKey_def on_db_query [OF ready])
  have ran: "k \<in> ran (sql_spks P s) \<longleftrightarrow>
      (\<exists>r \<in> set ?rows. bindR (JSON_parse (sk_key_data r)) (deserializeSignedPreKey P) = Inr k)" for k
  proof
    assume "k \<in> ran (sql_spks P s)"
    then show "\<exists>r \<in> set ?rows. bindR (JSON_parse (sk_key_data r)) (deserializeSignedPreKey P) = Inr k"
      using select_key_Some by (fastforce simp: ran_def sql_spks_def read_table_Some)
  next
    assume "\<exists>r \<in> set ?rows. bindR (JSON_parse (sk_key_data r)) (deserializeSignedPreKey P) = Inr k"
    then show "k \<in> ran (sql_spks P s)"
      using select_key_unique [OF db] by (force simp: ran_def sql_spks_def read_table_Some)
  qed
  show ?thesis
  proof (cases "order_by_desc sk_created_at ?rows")
    case Nil
    then have "?rows = []" by (metis order_by_desc_def set_empty2 set_sort)
    then have "sql_spks P s = Map.empty"
      by (simp add: sql_spks_def read_table_def read_row_def select_key_def fun_eq_iff)
    then show ?thesis using run Nil by (simp add: read_row_def)
  next
    case (Cons r rs)
    have r: "r \<in> set ?rows" by (metis Cons list.set_intros(1) order_by_desc_def set_sort)
    have max: "sk_created_at r' \<le> sk_created_at r" if "r' \<in> set ?rows" for r'
    proof -
      have "sorted (map (\<lambda>r. - sk_created_at r) (r # rs))"
        using Cons by (metis order_by_desc_def sorted_sort_key)
      moreover have "r' \<in> set (r # rs)" using that Cons by (metis order_by_desc_def set_sort)
      ultimately show ?thesis by auto
    qed
    obtain k where k: "bindR (JSON_parse (sk_key_data r)) (deserializeSignedPreKey P) = Inr k"
      "spk_createdAt k = sk_created_at r" using rd r by (auto simp: readable_def)
    have "\<forall>k' \<in> ran (sql_spks P s). spk_createdAt k' \<le> spk_createdAt k"
    proof
      fix k' assume "k' \<in> ran (sql_spks P s)"
      then obtain r' where r': "r' \<in> set ?rows" "bindR (JSON_parse (sk_key_data r')) (deserializeSignedPreKey P) = Inr k'"
        using ran by blast
      then have "spk_createdAt k' = sk_created_at r'" using rd by (auto simp: readable_def)
      then show "spk_createdAt k' \<le> spk_createdAt k" using max r'(1) k(2) by simp
    qed
    moreover have "k \<in> ran (sql_spks P s)" using ran r k(1) by blast
    ultimately show ?thesis using run Cons k(1) by (auto simp: read_row_def bindR_Some ran_def)
  qed
qed

lemma select_filter: "(0 < length (filter (\<lambda>r. key r = k) rows)) = (select_key key k rows \<noteq> None)"
  by (auto simp: select_key_None filter_empty_conv)

lemma sql_count:
  assumes "sql_invar P s"
  shows "sql_countOneTimePreKeys s = (Inr (card (dom (sql_otks P s))), s)"
proof -
  let ?rows = "one_time_prekeys (db_of (ss_db s))"
  have "readable ok_key_data (deserializeOneTimePreKey P) (\<lambda>_ _. True) ?rows"
    using assms by (simp add: sql_invar_def)
  from read_row_readable(2) [OF this, of ok_key_id]
  have "dom (sql_otks P s) = ok_key_id ` set ?rows"
    by (simp add: set_eq_iff domIff sql_otks_def select_key_None)
  moreover have "distinct (map ok_key_id ?rows)" using sql_invar_ready [OF assms] by (simp add: db_ok_def)
  then have "card (ok_key_id ` set ?rows) = length ?rows" by (metis distinct_card length_map set_map)
  ultimately show ?thesis
    using sql_invar_ready [OF assms] by (simp add: sql_countOneTimePreKeys_def on_db_query)
qed

lemma sql_gets:
  assumes "sql_invar P s"
  shows "sql_getSignedPreKey P i s = (Inr (sql_spks P s i), s)"
    "sql_getOneTimePreKey P i s = (Inr (sql_otks P s i), s)"
    "sql_getSession P k s = (Inr (sql_sess P s (toLowerCase k)), s)"
    "sql_hasSession k s = (Inr (sql_sess P s (toLowerCase k) \<noteq> None), s)"
proof -
  have ready: "dm_ready (ss_db s)" using assms by (simp add: sql_invar_def)
  have rd: "readable sk_key_data (deserializeSignedPreKey P) (\<lambda>r k. spk_createdAt k = sk_created_at r) (signed_prekeys (db_of (ss_db s)))"
    "readable ok_key_data (deserializeOneTimePreKey P) (\<lambda>_ _. True) (one_time_prekeys (db_of (ss_db s)))"
    "readable s_session_data (deserializeSession P) (\<lambda>_ _. True) (sessions (db_of (ss_db s)))"
    using assms by (simp_all add: sql_invar_def)
  show "sql_getSignedPreKey P i s = (Inr (sql_spks P s i), s)"
    "sql_getOneTimePreKey P i s = (Inr (sql_otks P s i), s)"
    "sql_getSession P k s = (Inr (sql_sess P s (toLowerCase k)), s)"
    by (simp_all add: sql_getSignedPreKey_def sql_getOneTimePreKey_def sql_getSession_def Let_def
        on_db_query [OF ready] sql_spks_def sql_otks_def sql_sess_def
        read_row_readable(1) [OF rd(1)] read_row_readable(1) [OF rd(2)] read_row_readable(1) [OF rd(3)])
  have "(sql_sess P s (toLowerCase k) \<noteq> None)
      = (select_key s_recipient_identity_pubkey_hex (toLowerCase k) (sessions (db_of (ss_db s))) \<noteq> None)"
    using read_row_readable(2) [OF rd(3), of s_recipient_identity_pubkey_hex "toLowerCase k"] by (simp add: sql_sess_def)
  then show "sql_hasSession k s = (Inr (sql_sess P s (toLowerCase k) \<noteq> None), s)"
    using select_filter [of s_recipient_identity_pubkey_hex]
    by (simp add: sql_hasSession_def on_db_query [OF ready] Let_def)
qed

interpretation sql: signal_store "sql_ops P" P "sql_invar P" ss_identity "sql_spks P" "sql_otks P" "sql_sess P"
  using sql_save_spk sql_save_otk sql_save_session sql_remove_otk sql_remove_session sql_latest
  by unfold_locales (simp_all add: sql_ops_def sql_gets sql_count)

text \<open>A store over a database without rows, and one over a fresh in-memory database.\<close>

definition new_SqliteSignalStore :: "identity \<Rightarrow> db_manager \<Rightarrow> sql_store" where
  "new_SqliteSignalStore u db = \<lparr>ss_identity = u, ss_db = db\<rparr>"

lemma new_sql_store:
  assumes "dm_ready m" "same_rows (empty_database\<lparr>foreign_keys := True\<rparr>) (db_of m)"
  shows "sql_invar P (new_SqliteSignalStore u m)" "sql_spks P (new_SqliteSignalStore u m) = Map.empty"
    "sql_sess P (new_SqliteSignalStore u m) = Map.empty" "ss_identity (new_SqliteSignalStore u m) = u"
  using assms by (simp_all add: new_SqliteSignalStore_def sql_invar_def same_rows_def empty_database_def readable_def
      sql_spks_def sql_sess_def read_table_def read_row_def select_key_def fun_eq_iff)

text \<open>A fresh in-memory database, as \<open>initialize\<close> leaves it.\<close>

definition memory_manager :: db_manager where
  "memory_manager = fst (snd (initialize model_prims (\<lambda>_ _. Inl LibError) None [] [] 0
     (new_DatabaseManager None (Some True), ())))"

lemma memory_manager_ready:
  "dm_ready memory_manager" "same_rows (empty_database\<lparr>foreign_keys := True\<rparr>) (db_of memory_manager)"
proof -
  have "\<exists>m'. initialize model_prims (\<lambda>_ _. Inl LibError) None [] [] 0 (new_DatabaseManager None (Some True), ())
      = (Inr (), (m', ())) \<and> dm_ready m' \<and> schema_version (db_of m') 2
      \<and> same_rows (empty_database\<lparr>foreign_keys := True\<rparr>) (db_of m')"
    by (rule initialize_memory) (simp_all add: new_DatabaseManager_def)
  then show "dm_ready memory_manager" "same_rows (empty_database\<lparr>foreign_keys := True\<rparr>) (db_of memory_manager)"
    by (auto simp: memory_manager_def)
qed

text \<open>A session whose key pair and dictionary are well formed is read back from the database, through
  its JSON text, as it was saved, whatever the case of the key it is asked for.\<close>

theorem sqlite_session_roundtrip:
  assumes "sql_invar P s" "storable_session P w" "toLowerCase k' = toLowerCase k"
  shows "\<exists>s'. sql_saveSession P k w s = (Inr (), s') \<and> sql_getSession P k' s' = (Inr (Some w), s')"
proof -
  obtain s' where "sql_saveSession P k w s = (Inr (), s')" "sql_invar P s'"
    "sql_sess P s' = (sql_sess P s)(toLowerCase k \<mapsto> w)" using sql_save_session [OF assms(1,2)] by blast
  then show ?thesis using sql_gets(3) [of P s' k'] assms(3) by simp
qed

definition sample_session :: session where
  "sample_session = \<lparr>recipientIdentityKeyHex = ''b0'', rootKeyHex = ''00ff'', sendChainKeyHex = None,
     receiveChainKeyHex = Some ''a1'', localDhKeyPair = \<lparr>publicKey = [1], secretKey = [2], publicKeyHex = ''01''\<rparr>,
     remoteDhPublicKeyHex = Some ''c2'', sendSequenceNumber = 3, receiveSequenceNumber = 4, previousChainLength = 5,
     skippedMessageKeys = [(''c2:1'', ''aa''), (''c2:3'', ''bb'')], createdAt = 6, updatedAt = 7,
     oneTimePreKeyId = Some 8\<rparr>"

definition sample_identity :: identity where
  "sample_identity = \<lparr>mnemonic = [], signingKey = localDhKeyPair sample_session,
     encryptionKey = localDhKeyPair sample_session, recipientPubkeyHash = []\<rparr>"

theorem sqlite_session_roundtrip_witness:
  "\<exists>s'. sql_saveSession model_prims ''B0'' sample_session (new_SqliteSignalStore sample_identity memory_manager) = (Inr (), s') \<and>
     sql_getSession model_prims ''b0'' s' = (Inr (Some sample_session), s')"
proof (rule sqlite_session_roundtrip)
  show "sql_invar model_prims (new_SqliteSignalStore sample_identity memory_manager)"
    using new_sql_store(1) memory_manager_ready by blast
  have "hexToBytes model_prims ''01'' = Inr [1]" by code_simp
  then show "storable_session model_prims sample_session"
    by (simp add: storable_session_def storable_keypair_def sample_session_def hexToBytes_bytesToHex [OF model_hex_codec])
  show "toLowerCase ''b0'' = toLowerCase ''B0''" by code_simp
qed

end
