(* ===== verification/Engine_Properties.thy ===== *)
theory Engine_Properties
  imports Sqlite_Store
begin

section \<open>Properties of the crypto engine\<close>

text \<open>
  What the development shows of \<open>CryptoEngine.ts\<close> on the two stores: the channel of two parties
  delivers what was sent in every interleaving, sending never gets stuck, and the
  behaviour of the error branches. The concrete parameters of the witnesses are \<open>model_prims\<close>
  and the two identities below.
\<close>

definition demo_keypair :: "bytes \<Rightarrow> bytes \<Rightarrow> keypair" where
  "demo_keypair pk sk = \<lparr>publicKey = pk, secretKey = sk, publicKeyHex = bytesToHex model_prims pk\<rparr>"

definition demo_identity :: "side \<Rightarrow> identity" where
  "demo_identity d =
     (let b = (case d of Alice \<Rightarrow> 1 | Bob \<Rightarrow> 2) in
      \<lparr>mnemonic = [], signingKey = demo_keypair (replicate 32 b) (replicate 64 b),
       encryptionKey = demo_keypair (replicate 32 b) (replicate 32 b),
       recipientPubkeyHash = bytesToHex model_prims (sha256 model_prims (replicate 32 b))\<rparr>)"

definition demo_key :: "side \<Rightarrow> hex" where
  "demo_key d = publicKeyHex (encryptionKey (demo_identity d))"

lemma demo_identity_wf: "wf_identity model_prims (demo_identity d)"
  by (simp add: wf_identity_def demo_identity_def Let_def sign_keypair_def box_keypair_def demo_keypair_def
      model_prims_def)

lemma model_ratchet_laws: "ratchet_laws model_prims"
  by (simp add: ratchet_laws_def model_prims_laws)

lemma new_mem_store_sel [simp]:
  "ms_identity (new_mem_store u) = u" "ms_signedPreKeys (new_mem_store u) = []"
  "ms_oneTimePreKeys (new_mem_store u) = []" "ms_sessions (new_mem_store u) = []"
  by (simp_all add: new_mem_store_def)

lemma mem_channel_invariant:
  assumes "ratchet_laws P" "sign_correct P" "\<forall>d. wf_identity P (u d)"
    and "channel P mem_ops key (\<lambda>d. new_mem_store (u d)) w"
  shows "(\<forall>d. mem_invar (store_of w d)) \<and>
     (greeted P mem_ops ms_identity (\<lambda>s. map_of (ms_oneTimePreKeys s)) (\<lambda>s. map_of (ms_sessions s)) key w
      \<or> talking P (\<lambda>s. map_of (ms_sessions s)) key w) \<and> logs_ok w"
  using mem.channel_invariant [OF assms(1,2) _ _ _ _ assms(4)] assms(3) new_mem_store_invar by simp

lemma sendable_ascii: "list_all (\<lambda>c. code c < 128) pt \<Longrightarrow> sendable pt"
proof -
  assume a: "list_all (\<lambda>c. code c < 128) pt"
  have "code (hd bom) \<ge> 128" "bom \<noteq> []" by (simp_all add: bom_def code_def)
  then have "take 3 pt \<noteq> bom"
    using a by (cases pt) (auto simp: bom_def code_def)
  then show ?thesis using text_decode_encode wf_text_ascii a by (simp add: sendable_def)
qed

lemma demo_channel:
  "\<exists>w. channel model_prims mem_ops demo_key (\<lambda>d. new_mem_store (demo_identity d)) w \<and>
     (\<exists>r. (''hi'', r) \<in> set (log_of w Bob))"
proof (rule mem.channel_example [OF model_ratchet_laws model_sign_correct, where nonce = "replicate 24 0"
    and spkSecret = "replicate 32 3" and ekSecret = "replicate 32 4" and bk = "replicate 32 5" and rk = "replicate 32 6"])
  show "sendable ''hi''" by (rule sendable_ascii) (simp add: code_def)
  show "distinct (map (boxPublic model_prims) [replicate 32 3, replicate 32 4, replicate 32 5, replicate 32 6])"
    by (simp add: model_prims_def)
qed (simp_all add: new_mem_store_invar demo_identity_wf)

subsection \<open>Delivery in every interleaving\<close>

text \<open>In every state two devices on in-memory stores can reach by publishing a bundle, opening
  a session and then sending, delivering and dropping messages in any order, each delivery
  whose gap is within the limit returned the plaintext that was sent.\<close>

theorem channel_delivers:
  assumes "ratchet_laws P" "sign_correct P" "\<forall>d. wf_identity P (u d)"
    and "channel P mem_ops key (\<lambda>d. new_mem_store (u d)) w" "(pt, r) \<in> set (log_of w d)"
  shows "r = Inr pt"
proof -
  have "logs_ok w" using mem_channel_invariant [OF assms(1-4)] by blast
  then show ?thesis using assms(5) unfolding logs_ok_def by fast
qed

theorem channel_delivers_witness:
  "\<exists>w. channel model_prims mem_ops demo_key (\<lambda>d. new_mem_store (demo_identity d)) w \<and>
     (''hi'', Inr ''hi'') \<in> set (log_of w Bob)"
proof -
  obtain w r where w: "channel model_prims mem_ops demo_key (\<lambda>d. new_mem_store (demo_identity d)) w"
    "(''hi'', r) \<in> set (log_of w Bob)" using demo_channel by blast
  have "r = Inr ''hi''"
    using channel_delivers [OF model_ratchet_laws model_sign_correct _ w] demo_identity_wf by blast
  then show ?thesis using w by blast
qed

text \<open>C6. Sending never fails in such a state: Alice can encrypt from the start, Bob as soon as he
  has a session, whatever was lost or reordered before.\<close>

theorem channel_sends:
  assumes "ratchet_laws P" "sign_correct P" "\<forall>d. wf_identity P (u d)"
    and "channel P mem_ops key (\<lambda>d. new_mem_store (u d)) w" "length nonce = 24"
    and "d = Alice \<or> session_of mem_ops (key (other d)) (store_of w d) \<noteq> None"
  shows "\<exists>msg s'. encrypt P mem_ops nonce now (key (other d)) pt None (store_of w d) = (Inr msg, s')"
proof -
  note inv = mem_channel_invariant [OF assms(1-4)]
  show ?thesis
    using mem.send_enabled [where w = w and d = d and key = key, OF assms(1) conjunct1 [OF inv] assms(5) _ assms(6)]
      inv by blast
qed

theorem channel_sends_witness:
  "\<exists>w. channel model_prims mem_ops demo_key (\<lambda>d. new_mem_store (demo_identity d)) w \<and>
     (\<exists>msg s'. encrypt model_prims mem_ops (replicate 24 0) 0 (demo_key Bob) ''yes'' None (store_of w Alice) = (Inr msg, s'))"
proof -
  obtain w where w: "channel model_prims mem_ops demo_key (\<lambda>d. new_mem_store (demo_identity d)) w"
    using demo_channel by blast
  have "length (replicate 24 (0 :: byte)) = 24" by simp
  from channel_sends [OF model_ratchet_laws model_sign_correct _ w this, of Alice 0 "''yes''"] demo_identity_wf
  show ?thesis using w by auto
qed

subsection \<open>The same channel on the database\<close>

text \<open>C3. On the store the client runs with, where every session, pre-key and one-time key goes through JSON text and a
  row of the database, a message in flight is decrypted to the plaintext it was made from, in every state that two devices
  can reach by publishing a bundle, opening a session and then sending, losing and delivering in any order, as long as each
  delivery is one the protocol covers: when the receiver has a session, the message is within the skip limit of its chains;
  when he has none, the message names the one-time pre-key of the bundle that was offered (none, if there was none), and its
  number is at most \<open>MAX_SKIP_MESSAGES\<close>. When a one-time pre-key was offered, only the first message of the session meets the
  second condition. The new key pairs the receiver draws have to differ from those of the messages so far.\<close>

theorem channel_delivers_sqlite:
  assumes "ratchet_laws P" "sign_correct P" "\<forall>d. wf_identity P (u d)"
    and "\<forall>d. dm_ready (db d) \<and> same_rows (empty_database\<lparr>foreign_keys := True\<rparr>) (db_of (db d))"
    and "channel P (sql_ops P) key (\<lambda>d. new_SqliteSignalStore (u d) (db d)) w" "(msg, pt) \<in> set (wire w d)"
    and "case sql_sess P (store_of w d) (toLowerCase (key (other d))) of
        Some ses \<Rightarrow> within_gap ses msg
      | None \<Rightarrow> em_oneTimePreKeyId msg = offered w \<and> em_sequenceNumber msg \<le> MAX_SKIP_MESSAGES"
    and "fresh_secret P (used_keys w) bk" "fresh_secret P (insert (bytesToHex P (boxPublic P bk)) (used_keys w)) rk"
  shows "\<exists>s'. decrypt P (sql_ops P) bk rk now (key (other d)) msg (store_of w d) = (Inr pt, s')"
proof -
  note fresh = new_sql_store [OF conjunct1 [OF spec [OF assms(4)]] conjunct2 [OF spec [OF assms(4)]]]
  have inv: "(\<forall>d. sql_invar P (store_of w d)) \<and> logs_ok w"
    if "channel P (sql_ops P) key (\<lambda>d. new_SqliteSignalStore (u d) (db d)) w" for w
    using sql.channel_invariant [where P = P and key = key and w = w, OF assms(1,2) _ _ _ _ that] assms(3)
    by (simp add: fresh)
  have "deliverable (sql_ops P) (key (other d)) (offered w) msg (store_of w d)"
    using assms(7) sql.session_of_sess inv [OF assms(5)] by (simp add: deliverable_def)
  moreover obtain F1 F2 where "wire w d = F1 @ (msg, pt) # F2" using split_list [OF assms(6)] by blast
  moreover obtain r s' where run: "decrypt P (sql_ops P) bk rk now (key (other d)) msg (store_of w d) = (r, s')" by fastforce
  ultimately have "channel P (sql_ops P) key (\<lambda>d. new_SqliteSignalStore (u d) (db d))
     (w\<lparr>store_of := (store_of w)(d := s'), wire := (wire w)(d := F1 @ F2),
        used_keys := insert (bytesToHex P (boxPublic P bk)) (insert (bytesToHex P (boxPublic P rk)) (used_keys w)),
        log_of := (log_of w)(d := log_of w d @ [(pt, r)])\<rparr>)"
    using channel.deliver [OF assms(5) _ _ _ assms(8,9)] by blast
  from inv [OF this] have "r = Inr pt" by (auto simp: logs_ok_def dest!: spec [of _ d])
  then show ?thesis using run by blast
qed

theorem channel_delivers_sqlite_witness:
  "\<exists>w msg s'. channel model_prims (sql_ops model_prims) demo_key (\<lambda>d. new_SqliteSignalStore (demo_identity d) memory_manager) w \<and>
     wire w Bob = [(msg, ''hi'')] \<and>
     decrypt model_prims (sql_ops model_prims) (replicate 32 5) (replicate 32 6) 0 (demo_key Alice) msg (store_of w Bob) = (Inr ''hi'', s')"
proof -
  let ?st = "\<lambda>d. new_SqliteSignalStore (demo_identity d) memory_manager"
  note fresh = new_sql_store [OF memory_manager_ready]
  have "\<exists>w msg. channel model_prims (sql_ops model_prims) demo_key ?st w \<and> wire w Bob = [(msg, ''hi'')] \<and>
     deliverable (sql_ops model_prims) (demo_key (other Bob)) (offered w) msg (store_of w Bob) \<and>
     fresh_secret model_prims (used_keys w) (replicate 32 5) \<and>
     fresh_secret model_prims (insert (bytesToHex model_prims (boxPublic model_prims (replicate 32 5))) (used_keys w)) (replicate 32 6)"
  proof (rule sql.channel_flight [OF model_ratchet_laws model_sign_correct, where nonce = "replicate 24 0"
      and spkSecret = "replicate 32 3" and ekSecret = "replicate 32 4"])
    show "sendable ''hi''" by (rule sendable_ascii) (simp add: code_def)
    show "distinct (map (boxPublic model_prims) [replicate 32 3, replicate 32 4, replicate 32 5, replicate 32 6])"
      by (simp add: model_prims_def)
  qed (simp_all add: fresh demo_identity_wf)
  then obtain w msg where w: "channel model_prims (sql_ops model_prims) demo_key ?st w" "wire w Bob = [(msg, ''hi'')]"
    "deliverable (sql_ops model_prims) (demo_key (other Bob)) (offered w) msg (store_of w Bob)"
    "fresh_secret model_prims (used_keys w) (replicate 32 5)"
    "fresh_secret model_prims (insert (bytesToHex model_prims (boxPublic model_prims (replicate 32 5))) (used_keys w)) (replicate 32 6)"
    by blast
  have "sql_invar model_prims (store_of w Bob)"
    using sql.channel_invariant [OF model_ratchet_laws model_sign_correct _ _ _ _ w(1)] by (simp add: fresh demo_identity_wf)
  then have "case sql_sess model_prims (store_of w Bob) (toLowerCase (demo_key (other Bob))) of Some ses \<Rightarrow> within_gap ses msg
      | None \<Rightarrow> em_oneTimePreKeyId msg = offered w \<and> em_sequenceNumber msg \<le> MAX_SKIP_MESSAGES"
    using w(3) sql.session_of_sess by (simp add: deliverable_def)
  from channel_delivers_sqlite [OF model_ratchet_laws model_sign_correct _ _ w(1) _ this w(4,5), of "''hi''" 0]
  show ?thesis using w(1,2) demo_identity_wf memory_manager_ready by auto
qed

subsection \<open>Errors\<close>

text \<open>A bundle whose signed pre-key does not verify is refused, and nothing is stored.\<close>

theorem initiateSession_rejects:
  assumes "\<not> verifySignature P (sp_publicKeyHex (pb_signedPreKey bdl))
     (sp_signatureHex (pb_signedPreKey bdl)) (pb_signingKeyHex bdl)"
  shows "initiateSession P mem_ops ek now k bdl s
     = (Inl (Error ''Recipient's Signed PreKey signature verification failed''), s)"
  using assms by (simp add: initiateSession_def mem_ops_def)

definition bad_bundle :: prekey_bundle where
  "bad_bundle = \<lparr>pb_identityKeyHex = [], pb_signingKeyHex = [], pb_signedPreKey =
     \<lparr>sp_keyId = 0, sp_publicKeyHex = ''zz'', sp_signatureHex = []\<rparr>, pb_oneTimePreKey = None\<rparr>"

theorem initiateSession_rejects_witness:
  "initiateSession model_prims mem_ops (replicate 32 4) 0 ''b0'' bad_bundle (new_mem_store (demo_identity Alice))
     = (Inl (Error ''Recipient's Signed PreKey signature verification failed''), new_mem_store (demo_identity Alice))"
proof (rule initiateSession_rejects)
  have "hexToBytes model_prims ''zz'' = Inl LibError" by code_simp
  then show "\<not> verifySignature model_prims (sp_publicKeyHex (pb_signedPreKey bad_bundle))
     (sp_signatureHex (pb_signedPreKey bad_bundle)) (pb_signingKeyHex bad_bundle)"
    by (simp add: verifySignature_def bad_bundle_def)
qed

text \<open>A gap that is too long is found before anything is skipped.\<close>

lemma skipMessageKeys_refused:
  assumes "hex_codec P" "kdf_length P" "recv_at P ses c n" "remoteDhPublicKeyHex ses = Some h" "h \<noteq> []"
    and "int n + MAX_SKIP_MESSAGES < u"
  shows "skipMessageKeys P u ses = (Inl (Error ''Too many skipped messages''), ses)"
proof -
  have "bytesToHex P (chain_key P c n) \<noteq> []" using assms(1-3) by (simp add: recv_at_def hex_key_nonempty)
  then show ?thesis using assms(3-6) by (simp add: skipMessageKeys_def recv_at_def)
qed

text \<open>A ratchet step to a key of the right length succeeds, and a new chain begins.\<close>

lemma dhRatchetStep_starts:
  assumes L: "ratchet_laws P" and "rootKeyHex ses = bytesToHex P root" "length root = 32" "box_keypair P (localDhKeyPair ses)"
    and "length pub = 32" "length sk = 32"
  shows "\<exists>ses' c. dhRatchetStep P sk (bytesToHex P pub) ses = (Inr (), ses') \<and> recv_at P ses' c 0 \<and>
     remoteDhPublicKeyHex ses' = Some (bytesToHex P pub)"
proof -
  note laws = ratchet_lawsD [OF L]
  have "length (secretKey (localDhKeyPair ses)) = 32" using assms(4) by (simp add: box_keypair_def)
  then obtain z1 z2 where z: "scalarMult P (secretKey (localDhKeyPair ses)) pub = Inr z1" "scalarMult P sk pub = Inr z2"
    using scalarMult_defined [OF laws(2)] assms(5,6) by meson
  obtain r1 c1 where k1: "kdfRoot P root z1 = (r1, c1)" by fastforce
  obtain r2 c2 where k2: "kdfRoot P r1 z2 = (r2, c2)" by fastforce
  have "length c1 = 32" using length_kdf(2) [OF laws(3)] k1 by (metis snd_conv)
  then have "recv_at P (ratcheted P sk (bytesToHex P pub) c1 r2 c2 ses) c1 0" by (simp add: recv_at_def)
  moreover have "root_step P ses pub r1 c1" using assms(2,3) z(1) k1 by (auto simp: root_step_def)
  moreover have "hexToBytes P (bytesToHex P pub) = Inr pub" "toLowerCase (bytesToHex P pub) = bytesToHex P pub"
    using laws(1) by (simp_all add: prim_laws)
  ultimately show ?thesis using dhRatchetStep_eq [OF laws(1) _ _ z(2) k2] by (fastforce simp: ratcheted_def)
qed

lemma deriveMessageKey_refused:
  assumes L: "ratchet_laws P" and R: "recv_at P ses c n" "remoteDhPublicKeyHex ses = Some h" "wf_header h"
    and root: "rootKeyHex ses = bytesToHex P root" "length root = 32" "box_keypair P (localDhKeyPair ses)"
    and m: "em_ephemeralPublicKeyHex msg = bytesToHex P pub" "length pub = 32" "0 \<le> em_previousChainLength msg" and rk: "length rk = 32"
    and gap: "\<not> within_gap ses msg"
  shows "fst (deriveMessageKey P rk now msg ses) = Inl (Error ''Too many skipped messages'')"
proof -
  note laws = ratchet_lawsD [OF L]
  have h: "h \<noteq> []" using R(3) by (simp add: wf_header_def)
  note refused = skipMessageKeys_refused [OF laws(1,3)]
  have n: "receiveSequenceNumber ses = int n" using R(1) by (simp add: recv_at_def)
  show ?thesis
  proof (cases "needsRatchet ses msg")
    case False
    then have "int n + MAX_SKIP_MESSAGES < em_sequenceNumber msg" using gap n by (simp add: within_gap_def)
    then show ?thesis using False refused [OF R(1,2) h] by (simp add: deriveMessageKey_def bindM_def)
  next
    case ratchet: True
    show ?thesis
    proof (cases "int n + MAX_SKIP_MESSAGES < em_previousChainLength msg")
      case True
      then show ?thesis using ratchet refused [OF R(1,2) h] by (simp add: deriveMessageKey_def bindM_def)
    next
      case False
      then have far: "MAX_SKIP_MESSAGES < em_sequenceNumber msg" using gap n ratchet by (simp add: within_gap_def)
      let ?u = "nat (em_previousChainLength msg)" let ?s1 = "skip_to P c h n ?u ses"
      have skip: "skipMessageKeys P (em_previousChainLength msg) ses = (Inr (), ?s1)"
        using skipMessageKeys_at [OF laws(1,3) R(1,2) h, of ?u] False m(3) by simp
      obtain s2 c2 where s2: "dhRatchetStep P rk (bytesToHex P pub) ?s1 = (Inr (), s2)" "recv_at P s2 c2 0"
        "remoteDhPublicKeyHex s2 = Some (bytesToHex P pub)"
        using dhRatchetStep_starts [OF L, of ?s1 root pub rk] root m(2) rk by auto
      have "bytesToHex P pub \<noteq> []" using m(2) laws(1) by (auto simp: bytesToHex_Nil_iff)
      from refused [OF s2(2,3) this] far
      have "skipMessageKeys P (em_sequenceNumber msg) s2 = (Inl (Error ''Too many skipped messages''), s2)" by simp
      then show ?thesis using ratchet skip s2(1) m(1) by (simp add: deriveMessageKey_def bindM_def)
    qed
  qed
qed

text \<open>C32. With an existing session on the SQLite store, a message outside the skip limit is refused and the database is left
  as it was, in each of the three cases: the message is more than \<open>MAX_SKIP_MESSAGES\<close> ahead of the chain the session is receiving
  on; it belongs to a new chain and announces such a gap at the end of the old one; or its number on the new chain is above
  \<open>MAX_SKIP_MESSAGES\<close>, which is found only after the old chain was wound up and the ratchet step taken, on the copy of the
  session that is thrown away. The hypotheses say that the session has received before and holds keys of the right lengths,
  as does the header of the message. (Without a session, \<open>decrypt\<close> has saved the new one before it counts.)\<close>

theorem decrypt_gap_refused:
  assumes "ratchet_laws P" "sql_invar P s" "sql_sess P s (toLowerCase k) = Some ses"
    and "recv_at P ses c n" "remoteDhPublicKeyHex ses = Some h" "wf_header h"
    and "rootKeyHex ses = bytesToHex P root" "length root = 32" "box_keypair P (localDhKeyPair ses)"
    and "em_ephemeralPublicKeyHex msg = bytesToHex P pub" "length pub = 32" "0 \<le> em_previousChainLength msg" "length rk = 32"
    and "\<not> hasSkippedKey ses msg"
    and "if needsRatchet ses msg
         then int n + MAX_SKIP_MESSAGES < em_previousChainLength msg \<or> MAX_SKIP_MESSAGES < em_sequenceNumber msg
         else int n + MAX_SKIP_MESSAGES < em_sequenceNumber msg"
  shows "decrypt P (sql_ops P) bk rk now k msg s = (Inl (Error ''Too many skipped messages''), s)"
proof -
  have "\<not> within_gap ses msg" using assms(4,14,15) by (auto simp: within_gap_def recv_at_def split: if_splits)
  from deriveMessageKey_refused [OF assms(1,4-13) this, of now]
  have "on_session (sql_ops P) k (deriveMessageKey P rk now msg) ses s = (Inl (Error ''Too many skipped messages''), s)"
    by (auto simp: on_session_def sql_ops_def split: prod.split)
  moreover have "getSession (sql_ops P) k s = (Inr (Some ses), s)" using sql.getSession [OF assms(2)] assms(3) by simp
  ultimately show ?thesis using assms(14) by (simp add: decrypt_def bindM_def)
qed

text \<open>A session that receives on the header key \<open>demo_hex\<close>, and messages for it.\<close>

definition demo_hex :: hex where
  "demo_hex = bytesToHex model_prims (replicate 32 9)"

definition demo_session :: session where
  "demo_session = \<lparr>recipientIdentityKeyHex = ''b0'', rootKeyHex = bytesToHex model_prims (replicate 32 1),
     sendChainKeyHex = None, receiveChainKeyHex = Some (bytesToHex model_prims (replicate 32 0)),
     localDhKeyPair = generateCurve25519KeyPair model_prims (replicate 32 7),
     remoteDhPublicKeyHex = Some demo_hex, sendSequenceNumber = 0, receiveSequenceNumber = 0,
     previousChainLength = 0, skippedMessageKeys = [], createdAt = 0, updatedAt = 0, oneTimePreKeyId = None\<rparr>"

definition demo_store :: mem_store where
  "demo_store = (new_mem_store (demo_identity Alice))\<lparr>ms_sessions := [(''b0'', demo_session)]\<rparr>"

definition demo_message :: "int \<Rightarrow> bytes \<Rightarrow> encrypted_message" where
  "demo_message n ct = \<lparr>em_ephemeralPublicKeyHex = demo_hex, em_sequenceNumber = n, em_previousChainLength = 0,
     em_ciphertext = b64_encode ct, em_nonce = bytesToHex model_prims (replicate 24 0),
     em_oneTimePreKeyId = None, em_initialIdentityKeyHex = None, em_initialEphemeralKeyHex = None\<rparr>"

lemma demo_hex_ok: "wf_header demo_hex"
proof -
  have "box_keypair model_prims (generateCurve25519KeyPair model_prims (replicate 32 9))"
    by (rule generated_keypair) simp
  from wf_header_keypair [OF model_hex_codec model_dh_agreement this]
  show ?thesis by (simp add: demo_hex_def model_prims_def)
qed

lemma demo_lower [simp]: "toLowerCase ''b0'' = ''b0''"
  by code_simp

lemma demo_store_session: "map_of (ms_sessions demo_store) (toLowerCase ''b0'') = Some demo_session"
  by (simp add: demo_store_def)

lemma demo_session_recv: "recv_at model_prims demo_session (replicate 32 0) 0"
  by (simp add: recv_at_def demo_session_def)

lemma demo_session_storable: "storable_session model_prims demo_session"
  using box_keypair_storable [OF model_hex_codec generated_keypair [of "replicate 32 7"]]
  by (simp add: storable_session_def demo_session_def)

lemma demo_hexes [simp]: "bytesToHex model_prims (replicate 32 0) \<noteq> []" "demo_hex \<noteq> []"
  using hex_key_nonempty [OF model_hex_codec, of "replicate 32 0"] demo_hex_ok by (simp_all add: wf_header_def)

text \<open>On the concrete parameters: number 2001 on the chain of the session, and number 2001 on a new one.\<close>

theorem decrypt_gap_refused_witness:
  "\<exists>s. sql_sess model_prims s ''b0'' = Some demo_session \<and>
     decrypt model_prims (sql_ops model_prims) [] (replicate 32 6) 0 ''b0'' (demo_message 2001 []) s
       = (Inl (Error ''Too many skipped messages''), s) \<and>
     decrypt model_prims (sql_ops model_prims) [] (replicate 32 6) 0 ''b0''
         ((demo_message 2001 [])\<lparr>em_ephemeralPublicKeyHex := bytesToHex model_prims (replicate 32 8)\<rparr>) s
       = (Inl (Error ''Too many skipped messages''), s)"
proof -
  have "sql_invar model_prims (new_SqliteSignalStore (demo_identity Alice) memory_manager)"
    by (rule new_sql_store(1) [OF memory_manager_ready])
  from sql.saveSession [OF this demo_session_storable, of "''b0''"] obtain s where s: "sql_invar model_prims s"
    "sql_sess model_prims s (toLowerCase ''b0'') = Some demo_session" by auto
  have r: "remoteDhPublicKeyHex demo_session = Some demo_hex" "rootKeyHex demo_session = bytesToHex model_prims (replicate 32 1)"
    "skippedMessageKeys demo_session = []" by (simp_all add: demo_session_def)
  have kp: "box_keypair model_prims (localDhKeyPair demo_session)" unfolding demo_session_def by (simp add: generated_keypair)
  have "bytesToHex model_prims (replicate 32 8) \<noteq> demo_hex"
    by (simp add: demo_hex_def bytesToHex_inject [OF model_hex_codec] replicate_eq_replicate)
  moreover have "toLowerCase (bytesToHex model_prims b) = bytesToHex model_prims b" for b using model_hex_codec by (simp add: prim_laws)
  moreover have "toLowerCase demo_hex = demo_hex" using demo_hex_ok by (simp add: wf_header_def)
  ultimately have new: "needsRatchet demo_session ((demo_message 2001 [])\<lparr>em_ephemeralPublicKeyHex := bytesToHex model_prims (replicate 32 8)\<rparr>)"
    by (simp add: needsRatchet_def r)
  note refused = decrypt_gap_refused [OF model_ratchet_laws s demo_session_recv r(1) demo_hex_ok r(2) _ kp, where rk = "replicate 32 6" and bk = "[]" and now = 0]
  show ?thesis
    by (rule exI [of _ s], intro conjI refused [of "demo_message 2001 []" "replicate 32 9"] refused [of _ "replicate 32 8"])
      (use s(2) new in \<open>simp_all add: hasSkippedKey_def r needsRatchet_def demo_message_def demo_hex_def MAX_SKIP_MESSAGES_def obj_get_def\<close>)
qed

subsection \<open>A message is opened after the session was advanced\<close>

text \<open>A message whose number is below the expected one and whose key is not stored is tried with
  the next key of the chain, which it uses up.\<close>

lemma deriveMessageKey_any:
  assumes "hex_codec P" "kdf_length P" "recv_at P ses c n"
    and "remoteDhPublicKeyHex ses = Some h" "wf_header h" "em_ephemeralPublicKeyHex msg = h"
    and "em_sequenceNumber msg = int m" "int m \<le> int n + MAX_SKIP_MESSAGES"
  shows "deriveMessageKey P sk now msg ses
     = (Inr (message_key P c (max n m)), advanced P c (max n m) now (skip_to P c h n m ses))"
proof -
  have h: "h \<noteq> []" using assms(5) by (simp add: wf_header_def)
  have "\<not> needsRatchet ses msg" using assms(4,6) h by (simp add: needsRatchet_def)
  then show ?thesis
    using skipMessageKeys_at [OF assms(1-4) h assms(8)]
      advanceChain_at [OF assms(1,2) skip_to_recv [OF assms(3), of h m]] assms(7)
    by (simp add: deriveMessageKey_def bindM_def)
qed

lemma storable_advanced:
  "storable_session P ses \<Longrightarrow> storable_session P (advanced P c i now (skip_to P c h n m ses))"
  by (simp add: storable_session_def distinct_store_keys)

text \<open>C13. \<open>decrypt\<close> saves the advanced session before it checks the authenticator: a forged message
  with the next number of the chain is rejected, and the genuine message with that number is
  rejected after it, although its own key would have opened it.\<close>

theorem forged_message_uses_up_key:
  assumes "ratchet_laws P" "mem_invar s" "map_of (ms_sessions s) (toLowerCase k) = Some ses"
    and "storable_session P ses" "recv_at P ses c n" "remoteDhPublicKeyHex ses = Some h" "wf_header h"
    and "obj_get (skippedMessageKeys ses) (skippedKeyId h (int n)) = None"
    and "em_ephemeralPublicKeyHex forged = h" "em_sequenceNumber forged = int n"
    and "em_ephemeralPublicKeyHex genuine = h" "em_sequenceNumber genuine = int n"
    and "decryptWithKey P forged (message_key P c n) = Inl e"
    and "decryptWithKey P genuine (message_key P c (Suc n)) = Inl e'"
  shows "\<exists>s1 s2. decrypt P mem_ops bk rk now k forged s = (Inl e, s1) \<and>
     decrypt P mem_ops bk rk now k genuine s1 = (Inl e', s2)"
proof -
  note laws = ratchet_lawsD [OF assms(1)]
  let ?ses1 = "advanced P c n now (skip_to P c h n n ses)"
  have hs: "hasSkippedKey ses forged = False" "hasSkippedKey ?ses1 genuine = False"
    using assms(8-12) by (simp_all add: hasSkippedKey_def)
  have r1: "recv_at P ?ses1 c (Suc n)"
    using advanced_recv skip_to_recv [OF assms(5), of h n] by (metis max.idem)
  have g: "int n \<le> int n + MAX_SKIP_MESSAGES" "int n \<le> int (Suc n) + MAX_SKIP_MESSAGES"
    by (simp_all add: MAX_SKIP_MESSAGES_def)
  have o1: "openSession P rk now forged ses = (Inr (message_key P c n), ?ses1)"
    using deriveMessageKey_any [OF laws(1,3) assms(5-7,9,10) g(1)] hs(1) by (simp add: openSession_def)
  have rem1: "remoteDhPublicKeyHex ?ses1 = Some h" using assms(6) by simp
  have o2: "openSession P rk now genuine ?ses1 = (Inr (message_key P c (Suc n)),
      advanced P c (Suc n) now (skip_to P c h (Suc n) n ?ses1))"
    using deriveMessageKey_any [OF laws(1,3) r1 rem1 assms(7,11,12) g(2)] hs(2) by (simp add: openSession_def)
  have st: "storable_session P ?ses1" "storable_session P (advanced P c (Suc n) now (skip_to P c h (Suc n) n ?ses1))"
    using storable_advanced assms(4) by blast+
  obtain s1 where s1: "decrypt P mem_ops bk rk now k forged s = (decryptWithKey P forged (message_key P c n), s1)"
    "mem_invar s1" "map_of (ms_sessions s1) = (map_of (ms_sessions s))(toLowerCase k \<mapsto> ?ses1)"
    using mem.decrypt_run [OF assms(2,3) o1 st(1)] by blast
  have "map_of (ms_sessions s1) (toLowerCase k) = Some ?ses1" using s1(3) by simp
  from mem.decrypt_run [OF s1(2) this o2 st(2)] s1(1) assms(13,14)
  show ?thesis by auto
qed

definition demo_genuine :: encrypted_message where
  "demo_genuine = demo_message 0 (replicate 32 1 @ replicate 24 0 @ text_encode ''hi'')"

lemma demo_message_keys:
  "message_key model_prims (replicate 32 0) 0 = replicate 32 1"
  "message_key model_prims (replicate 32 0) (Suc 0) = 5 # replicate 31 2"
  by code_simp+

lemma demo_decryptWithKey:
  "length k = 32 \<Longrightarrow> decryptWithKey model_prims (demo_message n ct) k =
     (if take 56 ct = k @ replicate 24 0 then Inr (text_decode (drop 56 ct))
      else Inl (Error ''Decryption failed or message corrupted / tampered with''))"
proof -
  assume k: "length k = 32"
  have "secretbox_open model_prims ct (replicate 24 0) k = Inr (if take 56 ct = k @ replicate 24 0 then Some (drop 56 ct) else None)"
    using k by (simp add: model_prims_def)
  then show ?thesis
    by (simp add: decryptWithKey_def demo_message_def hexToBytes_bytesToHex [OF model_hex_codec])
qed

theorem forged_message_uses_up_key_witness:
  "decryptWithKey model_prims demo_genuine (message_key model_prims (replicate 32 0) 0) = Inr ''hi'' \<and>
   (\<exists>e e' s1 s2. decrypt model_prims mem_ops [] [] 0 ''b0'' (demo_message 0 []) demo_store = (Inl e, s1) \<and>
     decrypt model_prims mem_ops [] [] 0 ''b0'' demo_genuine s1 = (Inl e', s2))"
proof
  let ?e = "Error ''Decryption failed or message corrupted / tampered with''"
  have hi: "text_decode (text_encode ''hi'') = ''hi''" by code_simp
  show "decryptWithKey model_prims demo_genuine (message_key model_prims (replicate 32 0) 0) = Inr ''hi''"
    using hi by (simp add: demo_genuine_def demo_decryptWithKey demo_message_keys)
  have f: "decryptWithKey model_prims (demo_message 0 []) (message_key model_prims (replicate 32 0) 0) = Inl ?e"
    by (simp add: demo_decryptWithKey demo_message_keys)
  have ne: "replicate 32 (1 :: byte) \<noteq> 5 # replicate 31 2" by code_simp
  then have g: "decryptWithKey model_prims demo_genuine (message_key model_prims (replicate 32 0) (Suc 0)) = Inl ?e"
    by (simp add: demo_genuine_def demo_decryptWithKey demo_message_keys)
  have inv: "mem_invar demo_store" by (simp add: mem_invar_def demo_store_def)
  have rem: "remoteDhPublicKeyHex demo_session = Some demo_hex"
    and sk: "obj_get (skippedMessageKeys demo_session) (skippedKeyId demo_hex (int 0)) = None"
    by (simp_all add: demo_session_def)
  have m: "em_ephemeralPublicKeyHex (demo_message 0 []) = demo_hex" "em_sequenceNumber (demo_message 0 []) = int 0"
    "em_ephemeralPublicKeyHex demo_genuine = demo_hex" "em_sequenceNumber demo_genuine = int 0"
    by (simp_all add: demo_message_def demo_genuine_def)
  show "\<exists>e e' s1 s2. decrypt model_prims mem_ops [] [] 0 ''b0'' (demo_message 0 []) demo_store = (Inl e, s1) \<and>
     decrypt model_prims mem_ops [] [] 0 ''b0'' demo_genuine s1 = (Inl e', s2)"
    using forged_message_uses_up_key [OF model_ratchet_laws inv demo_store_session demo_session_storable
      demo_session_recv rem demo_hex_ok sk m f g] by blast
qed

end
