(* ===== verification/Ws_Properties.thy ===== *)
theory Ws_Properties
  imports Ws_Client Engine_Properties
begin

section \<open>Properties of the WebSocket client\<close>

text \<open>
  The reconnection timer as an invariant of every run, the answer to the challenge, the delivery
  of messages over any cut of the stream, and two runs in which the client loses track of
  its connection.
\<close>

subsection \<open>Reconnection\<close>

definition reconnects :: "ws_client \<Rightarrow> bool" where
  "reconnects w \<longleftrightarrow>
     (\<forall>t \<in> set (ws_armed w). 2000 \<le> snd t \<and> snd t < 31000) \<and>
     (ws_state w = RECONNECTING \<longrightarrow> (\<exists>i \<in> fst ` set (ws_armed w). ws_reconnectTimer w = Some i))"

definition jitter_ok :: "ws_env \<Rightarrow> bool" where
  "jitter_ok E \<longleftrightarrow> (\<forall>i. 0 \<le> jitter_at E i \<and> jitter_at E i < 1000)"

lemma reconnect_delay_bounds:
  assumes "0 < n" "0 \<le> j" "j < 1000"
  shows "2000 \<le> reconnect_delay n j" "reconnect_delay n j < 31000"
proof -
  have "(2 :: int) ^ 1 \<le> 2 ^ min n 5" using assms(1) by (intro power_increasing) auto
  then show "2000 \<le> reconnect_delay n j" using assms by (simp add: reconnect_delay_def maxReconnectDelayMs_def)
  show "reconnect_delay n j < 31000" using assms by (simp add: reconnect_delay_def maxReconnectDelayMs_def)
qed

named_theorems reconnects_keep \<open>the methods keep the invariant\<close>

lemma reconnects_call_back [simp]: "reconnects (call_back c w) \<longleftrightarrow> reconnects w"
  by (simp add: reconnects_def call_back_def)

lemma reconnects_fields [simp]:
  "reconnects (w\<lparr>ws_buffer := b\<rparr>) = reconnects w" "reconnects (w\<lparr>ws_socks := f\<rparr>) = reconnects w"
  "reconnects (w\<lparr>ws_sent := s\<rparr>) = reconnects w" "reconnects (w\<lparr>ws_next := n\<rparr>) = reconnects w"
  "reconnects (w\<lparr>ws_dialling := d\<rparr>) = reconnects w" "reconnects (w\<lparr>ws_reconnectAttempts := a\<rparr>) = reconnects w"
  "reconnects (w\<lparr>ws_autoReconnect := r\<rparr>) = reconnects w" "reconnects (w\<lparr>ws_pingTimer := p\<rparr>) = reconnects w"
  "reconnects (w\<lparr>ws_socket := s'\<rparr>) = reconnects w"
  by (simp_all add: reconnects_def)

lemma reconnects_setState: "reconnects w \<Longrightarrow> st \<noteq> RECONNECTING \<Longrightarrow> reconnects (setState st w)"
  by (simp add: reconnects_def setState_def call_back_def)

lemma reconnects_cleanupSocket [simp]: "reconnects (cleanupSocket w) = reconnects w"
  by (simp add: reconnects_def)

lemma reconnects_cleanupTimers: "reconnects w \<Longrightarrow> ws_state w \<noteq> RECONNECTING \<Longrightarrow> reconnects (cleanupTimers w)"
  by (simp add: reconnects_def cleanupTimers_def split: option.splits)

text \<open>Before a state change it is enough that the delays are in range.\<close>

lemma cleanupTimers_delays:
  "reconnects w \<Longrightarrow> (\<forall>t \<in> set (ws_armed (cleanupTimers w)). 2000 \<le> snd t \<and> snd t < 31000)"
  by (simp add: reconnects_def cleanupTimers_def split: option.splits)

lemma delays_reconnects:
  "(\<forall>t \<in> set (ws_armed w). 2000 \<le> snd t \<and> snd t < 31000) \<Longrightarrow> ws_state w \<noteq> RECONNECTING \<Longrightarrow> reconnects w"
  by (simp add: reconnects_def)

lemma scheduleReconnect_reconnects:
  assumes "jitter_ok E" "\<forall>t \<in> set (ws_armed w). 2000 \<le> snd t \<and> snd t < 31000"
  shows "reconnects (scheduleReconnect E w)"
  using assms reconnect_delay_bounds [of "Suc (ws_reconnectAttempts w)"]
  by (auto simp: reconnects_def scheduleReconnect_def Let_def setState_def call_back_def jitter_ok_def)

lemma handleConnectionFailure_reconnects [reconnects_keep]:
  "jitter_ok E \<Longrightarrow> reconnects w \<Longrightarrow> reconnects (handleConnectionFailure E e w)"
proof -
  assume a: "jitter_ok E" "reconnects w"
  let ?w = "call_back (OnWsError e) w"
  have "\<forall>t \<in> set (ws_armed ?w). 2000 \<le> snd t \<and> snd t < 31000"
    using a(2) by (simp add: reconnects_def call_back_def)
  then have "reconnects (scheduleReconnect E ?w)" using scheduleReconnect_reconnects a(1) by blast
  moreover have "reconnects (setState DISCONNECTED ?w)" using a(2) by (intro reconnects_setState) simp_all
  ultimately show ?thesis by (simp add: handleConnectionFailure_def Let_def)
qed

lemma setState_delays:
  "(\<forall>t \<in> set (ws_armed w). 2000 \<le> snd t \<and> snd t < 31000) \<Longrightarrow> st \<noteq> RECONNECTING \<Longrightarrow> reconnects (setState st w)"
  by (simp add: reconnects_def setState_def call_back_def)

lemma disconnect_reconnects [reconnects_keep]:
  assumes "reconnects w"
  shows "reconnects (disconnect w)"
  unfolding disconnect_def
proof (rule setState_delays)
  have "reconnects (w\<lparr>ws_autoReconnect := False\<rparr>)" using assms by simp
  from cleanupTimers_delays [OF this]
  show "\<forall>t \<in> set (ws_armed (cleanupSocket (cleanupTimers (w\<lparr>ws_autoReconnect := False\<rparr>)))). 2000 \<le> snd t \<and> snd t < 31000"
    by simp
qed simp

lemma sendRawFrame_reconnects [reconnects_keep]: "reconnects w \<Longrightarrow> reconnects (sendRawFrame E opcode payload w)"
  by (simp add: sendRawFrame_def split: option.splits)

lemma sendJson_reconnects [reconnects_keep]: "reconnects w \<Longrightarrow> reconnects (sendJson E v w)"
  by (simp add: sendJson_def sendRawFrame_reconnects)

lemma handleTextMessage_reconnects [reconnects_keep]:
  "jitter_ok E \<Longrightarrow> reconnects w \<Longrightarrow> reconnects (handleTextMessage P E text w)"
proof -
  assume a: "jitter_ok E" "reconnects w"
  have "reconnects (setState st w)" if "st \<noteq> RECONNECTING" for st using reconnects_setState a that by blast
  moreover have "reconnects (startPingKeepAlive (setState CONNECTED_AUTHENTICATED w))"
    using reconnects_cleanupTimers [of "setState CONNECTED_AUTHENTICATED w"] reconnects_setState [OF a(2)]
    by (simp add: startPingKeepAlive_def setState_def call_back_def)
  ultimately show ?thesis using a
    by (auto simp: handleTextMessage_def handleServerChallenge_def Let_def
        intro!: reconnects_keep split: sum.splits)
qed

lemma processFrame_reconnects [reconnects_keep]:
  "jitter_ok E \<Longrightarrow> reconnects w \<Longrightarrow> reconnects (processFrame P E opcode payload w)"
  by (simp add: processFrame_def reconnects_keep)

lemma raw_loop_reconnects:
  "jitter_ok E \<Longrightarrow> reconnects w \<Longrightarrow> reconnects (raw_loop P E w)"
proof (induction P E w rule: raw_loop.induct)
  case (1 P E w)
  then show ?case
    by (subst raw_loop.simps) (auto split: option.splits prod.splits intro!: "1.IH" processFrame_reconnects)
qed

lemma handleRawData_reconnects [reconnects_keep]:
  "jitter_ok E \<Longrightarrow> reconnects w \<Longrightarrow> reconnects (handleRawData P E chunk w)"
  by (simp add: handleRawData_def raw_loop_reconnects)

lemma funpow_keeps: "(\<And>w. I w \<Longrightarrow> I (f w)) \<Longrightarrow> I w \<Longrightarrow> I ((f ^^ n) w)"
  by (induction n) auto

lemma onHandshakeData_reconnects: "reconnects (fst (onHandshakeData n chunk w)) = reconnects w"
  by (simp add: onHandshakeData_def Let_def split: option.splits)

lemma setupSocketHandlers_reconnects: "reconnects (setupSocketHandlers w) = reconnects w"
  by (simp add: setupSocketHandlers_def split: option.splits)

lemma on_data_reconnects:
  assumes "jitter_ok E" "reconnects w"
  shows "reconnects (on_data P E n chunk w)"
proof -
  have "reconnects ((handleRawData P E chunk ^^ k) (fst (onHandshakeData n chunk w)))" for k
    by (rule funpow_keeps [where I = reconnects]) (simp_all add: assms onHandshakeData_reconnects reconnects_keep)
  then show ?thesis
    using assms(1)
    by (auto simp: on_data_def Let_def connect_upgraded_def setupSocketHandlers_reconnects assms(2)
        intro!: reconnects_keep reconnects_setState split: prod.splits upgrade_result.splits)
qed

lemma close_handler_reconnects:
  assumes "jitter_ok E" "reconnects w"
  shows "reconnects (close_handler E w)"
proof -
  let ?w = "cleanupTimers w"
  have st: "ws_state ?w = ws_state w" by (simp add: cleanupTimers_def)
  have d: "\<forall>t \<in> set (ws_armed ?w). 2000 \<le> snd t \<and> snd t < 31000" using cleanupTimers_delays assms(2) .
  show ?thesis
    using scheduleReconnect_reconnects [OF assms(1), of "call_back (OnDisconnect ''Socket connection closed'') ?w"] d
      delays_reconnects [of ?w]
    by (auto simp: close_handler_def Let_def call_back_def setState_def reconnects_def)
qed

lemma connect_reconnects: "reconnects w \<Longrightarrow> reconnects (connect w)"
  by (simp add: connect_def Let_def reconnects_setState)

lemma ws_step_reconnects:
  assumes "jitter_ok E" "reconnects w"
  shows "reconnects (ws_step P E ev w)"
proof (cases ev)
  case (ReconnectFires i)
  let ?w = "w\<lparr>ws_armed := filter (\<lambda>t. fst t \<noteq> i) (ws_armed w)\<rparr>"
  show ?thesis
  proof (cases "ws_state w = RECONNECTING")
    case True
    then show ?thesis using ReconnectFires assms(2)
      by (auto simp: connect_def Let_def setState_def call_back_def reconnects_def)
  next
    case False
    then have "reconnects ?w" using assms(2) by (auto simp: reconnects_def)
    then show ?thesis using ReconnectFires connect_reconnects assms(2) by simp
  qed
next
  case (SocketClosed n)
  then show ?thesis using assms
    by (simp add: on_close_def Let_def funpow_keeps [where I = reconnects] close_handler_reconnects)
next
  case (SocketFailed n msg)
  then show ?thesis using assms by (simp add: on_error_def funpow_keeps [where I = reconnects])
qed (use assms in \<open>simp_all add: connect_reconnects reconnects_keep on_data_reconnects performWebSocketUpgrade_def\<close>)

lemma ws_run_reconnects: "jitter_ok E \<Longrightarrow> reconnects w \<Longrightarrow> reconnects (ws_run P E events w)"
  by (induction events arbitrary: w) (simp_all add: ws_run_def ws_step_reconnects)

lemma new_client_reconnects: "reconnects (new_TorWebSocketClient cfg u)"
  by (simp add: reconnects_def new_TorWebSocketClient_def)

text \<open>C35. In every run, a client that waits to reconnect has a timer armed, every armed delay is at least
  two and less than 31 seconds, and when the timer fires a new connection attempt is made.\<close>

theorem reconnecting_client_retries:
  assumes "jitter_ok E"
  shows "(\<forall>t \<in> set (ws_armed (ws_run P E events (new_TorWebSocketClient cfg u))). 2000 \<le> snd t \<and> snd t < 31000) \<and>
     (ws_state (ws_run P E events (new_TorWebSocketClient cfg u)) = RECONNECTING \<longrightarrow>
        (\<exists>i. i \<in> fst ` set (ws_armed (ws_run P E events (new_TorWebSocketClient cfg u))) \<and>
           ws_state (ws_run P E (events @ [ReconnectFires i]) (new_TorWebSocketClient cfg u)) = CONNECTING \<and>
           ws_dialling (ws_run P E (events @ [ReconnectFires i]) (new_TorWebSocketClient cfg u)) \<noteq> []))"
proof -
  let ?w = "ws_run P E events (new_TorWebSocketClient cfg u)"
  have r: "reconnects ?w" using ws_run_reconnects [OF assms new_client_reconnects] .
  have fire: "ws_state (ws_step P E (ReconnectFires i) ?w) = CONNECTING \<and> ws_dialling (ws_step P E (ReconnectFires i) ?w) \<noteq> []"
    if "ws_state ?w = RECONNECTING" "i \<in> fst ` set (ws_armed ?w)" for i
    using that by (simp add: connect_def Let_def setState_def call_back_def)
  have "ws_run P E (events @ [e]) w = ws_step P E e (ws_run P E events w)" for e w by (simp add: ws_run_def)
  then show ?thesis using r fire by (auto simp: reconnects_def)
qed

definition demo_env :: ws_env where
  "demo_env = \<lparr>mask_at = (\<lambda>_. [1, 2, 3, 4]), key_at = (\<lambda>_. replicate 16 0), jitter_at = (\<lambda>_. 500)\<rparr>"

definition demo_config :: tor_config where
  "demo_config = \<lparr>socksProxyHost = ''127.0.0.1'', socksProxyPort = 9050, targetHost = ''abc.onion'', targetPort = 80,
     devMode = False\<rparr>"

theorem reconnecting_client_retries_witness:
  "ws_state (ws_run model_prims demo_env [Connect, DialFailed 0 LibError] (new_TorWebSocketClient demo_config (demo_identity Alice))) = RECONNECTING \<and>
   (\<exists>i. ws_state (ws_run model_prims demo_env ([Connect, DialFailed 0 LibError] @ [ReconnectFires i]) (new_TorWebSocketClient demo_config (demo_identity Alice))) = CONNECTING)"
proof
  show r: "ws_state (ws_run model_prims demo_env [Connect, DialFailed 0 LibError] (new_TorWebSocketClient demo_config (demo_identity Alice))) = RECONNECTING"
    by (simp add: ws_run_def new_TorWebSocketClient_def connect_def setState_def call_back_def Let_def
        handleConnectionFailure_def scheduleReconnect_def)
  have "jitter_ok demo_env" by (simp add: jitter_ok_def demo_env_def)
  from reconnecting_client_retries [OF this, of model_prims "[Connect, DialFailed 0 LibError]" demo_config "demo_identity Alice"] r
  show "\<exists>i. ws_state (ws_run model_prims demo_env ([Connect, DialFailed 0 LibError] @ [ReconnectFires i]) (new_TorWebSocketClient demo_config (demo_identity Alice))) = CONNECTING"
    by blast
qed

text \<open>A client that has just finished its handshake.\<close>

definition switching_protocols :: bytes where
  "switching_protocols = text_encode (''HTTP/1.1 101 Switching Protocols'' @ crlf @ crlf)"

lemma handshake_answer:
  "split_at (text_encode (crlf @ crlf)) switching_protocols = Some (text_encode ''HTTP/1.1 101 Switching Protocols'', [])"
  by code_simp

lemma handshake_text: "utf8_toString (text_encode ''HTTP/1.1 101 Switching Protocols'') = ''HTTP/1.1 101 Switching Protocols''"
  by code_simp

definition demo_client :: ws_client where
  "demo_client = ws_run model_prims demo_env [Connect, Dialled 0, Data 0 switching_protocols]
     (new_TorWebSocketClient demo_config (demo_identity Alice))"

lemma demo_client_streams:
  "ws_socket demo_client = Some 0" "ws_buffer demo_client = []" "ws_identity demo_client = demo_identity Alice"
  "ws_socks demo_client 0 = \<lparr>so_destroyed = False, so_upgrade = None, so_settled = True, so_handlers = 1\<rparr>"
  by (simp_all add: demo_client_def ws_run_def new_TorWebSocketClient_def connect_def setState_def call_back_def Let_def
        performWebSocketUpgrade_def on_data_def onHandshakeData_def handshake_answer connect_upgraded_def
        setupSocketHandlers_def startsWith_def handshake_text)

subsection \<open>The answer to the challenge\<close>

text \<open>C36. A 32-byte challenge is answered with one text frame to the current socket, whose JSON names the
  client's signing key and carries a signature of the challenge that verifies under it.\<close>

theorem challenge_answered:
  assumes "hex_codec P" "sign_correct P" "wf_identity P (ws_identity w)"
    and "hexToBytes P ch = Inr c" "length c = 32"
    and "ws_socket w = Some n" "\<not> so_destroyed (ws_socks w n)"
  shows "\<exists>sg. verifySignature P ch sg (publicKeyHex (signingKey (ws_identity w))) \<and>
     ws_sent (handleServerChallenge P E (Some (JStr ch)) w) = ws_sent w @
       [(n, build_frame 0x01 (mask_at E (ws_next w))
              (text_encode (JSON_stringify (auth_reply (publicKeyHex (signingKey (ws_identity w))) sg))))] \<and>
     ws_state (handleServerChallenge P E (Some (JStr ch)) w) = AUTHENTICATING"
proof -
  have "sign_keypair P (signingKey (ws_identity w))" using assms(3) by (simp add: wf_identity_def)
  from signChallenge_verifies [OF assms(1,2) this assms(4,5)]
  obtain sg where sg: "signChallenge P ch (secretKey (signingKey (ws_identity w))) = Inr sg"
    "verifySignature P ch sg (publicKeyHex (signingKey (ws_identity w)))" by blast
  then show ?thesis using assms(6,7)
    by (intro exI [of _ sg]) (simp add: handleServerChallenge_def sign_field_def setState_def call_back_def Let_def
        sendJson_def sendRawFrame_def)
qed

theorem challenge_answered_witness:
  "\<exists>sg. verifySignature model_prims (bytesToHex model_prims (replicate 32 7)) sg (publicKeyHex (signingKey (demo_identity Alice))) \<and>
     ws_sent (handleServerChallenge model_prims demo_env (Some (JStr (bytesToHex model_prims (replicate 32 7)))) demo_client)
       = ws_sent demo_client @ [(0, build_frame 0x01 [1, 2, 3, 4]
          (text_encode (JSON_stringify (auth_reply (publicKeyHex (signingKey (demo_identity Alice))) sg))))]"
proof -
  have "hexToBytes model_prims (bytesToHex model_prims (replicate 32 7)) = Inr (replicate 32 7)"
    by (rule hexToBytes_bytesToHex [OF model_hex_codec])
  moreover have "wf_identity model_prims (ws_identity demo_client)" by (simp add: demo_client_streams demo_identity_wf)
  ultimately show ?thesis
    using challenge_answered [where w = demo_client and n = 0 and E = demo_env, OF model_hex_codec model_sign_correct]
    by (fastforce simp: demo_client_streams demo_env_def)
qed

subsection \<open>Messages arrive whole and in order\<close>

definition server_message :: "string \<times> string \<times> int \<Rightarrow> json" where
  "server_message m = (case m of (pl, nonce, t) \<Rightarrow>
     JObj [(''type'', JStr ''message''), (''encrypted_payload'', JStr pl), (''nonce'', JStr nonce), (''created_at'', JNum t)])"

definition message_callback :: "string \<times> string \<times> int \<Rightarrow> ws_callback" where
  "message_callback m = (case m of (pl, nonce, t) \<Rightarrow> OnMessage (Some (JStr pl)) (Some (JStr nonce)) (Some (JNum t)))"

definition message_frame :: "string \<times> string \<times> int \<Rightarrow> byte \<times> bytes" where
  "message_frame m = (0x01, text_encode (JSON_stringify (server_message m)))"

lemma processFrame_message:
  assumes "wf_text (JSON_stringify (server_message m))"
  shows "processFrame P E 0x01 (snd (message_frame m)) w = call_back (message_callback m) w"
proof -
  have "JSON_parse (JSON_stringify (server_message m)) = Inr (server_message m)"
    by (rule JSON_parse_stringify) (simp add: server_message_def split: prod.splits)
  moreover obtain pl nonce t where m: "m = (pl, nonce, t)" by (cases m)
  have "jfield (server_message m) ''type'' = Some (JStr ''message'')"
    "jfield (server_message m) ''encrypted_payload'' = Some (JStr pl)"
    "jfield (server_message m) ''nonce'' = Some (JStr nonce)"
    "jfield (server_message m) ''created_at'' = Some (JNum t)"
    by (simp_all add: m jfield_def jprop_def server_message_def obj_get_def)
  ultimately show ?thesis using assms
    by (simp add: processFrame_def message_frame_def handleTextMessage_def message_callback_def m)
qed

lemma raw_loop_messages:
  assumes "ws.frames buf fs left" "fs = map message_frame ms" "ws_buffer w = buf"
    and "\<forall>m \<in> set ms. wf_text (JSON_stringify (server_message m))"
  shows "raw_loop P E w = w\<lparr>ws_buffer := left, ws_log := ws_log w @ map message_callback ms\<rparr>"
  using assms
proof (induction arbitrary: w ms rule: ws.frames.induct)
  case (stop buf)
  then show ?case by (subst raw_loop.simps) simp
next
  case (more buf f rest fs left)
  then obtain m ms' where ms: "ms = m # ms'" "f = message_frame m" "fs = map message_frame ms'" by (cases ms) auto
  have f: "f = (0x01, snd (message_frame m))" using ms(2) by (simp add: message_frame_def)
  have "raw_loop P E w = raw_loop P E (call_back (message_callback m) (w\<lparr>ws_buffer := rest\<rparr>))"
    using processFrame_message [of m P E] more.prems(2,3) ms(1)
    by (subst raw_loop.simps) (simp add: more.hyps(1) [unfolded f])
  also have "... = w\<lparr>ws_buffer := left, ws_log := ws_log w @ map message_callback ms\<rparr>"
    using more.IH [OF ms(3), of "call_back (message_callback m) (w\<lparr>ws_buffer := rest\<rparr>)"] more.prems(3) ms(1)
    by (simp add: call_back_def)
  finally show ?case .
qed

text \<open>A socket that streams: the handshake is over and the handlers are attached once.\<close>

definition streaming :: "nat \<Rightarrow> ws_client \<Rightarrow> bool" where
  "streaming n w \<longleftrightarrow> ws_socks w n = \<lparr>so_destroyed = False, so_upgrade = None, so_settled = True, so_handlers = 1\<rparr>"

lemma on_data_streaming: "streaming n w \<Longrightarrow> on_data P E n chunk w = handleRawData P E chunk w"
  by (simp add: on_data_def streaming_def onHandshakeData_def Let_def)

lemma message_chunks:
  assumes "ws.reads buf chunks (map message_frame ms) left" "streaming n w" "ws_buffer w = buf"
    and "\<forall>m \<in> set ms. wf_text (JSON_stringify (server_message m))"
  shows "ws_run P E (map (Data n) chunks) w = w\<lparr>ws_buffer := left, ws_log := ws_log w @ map message_callback ms\<rparr>"
  using assms
proof (induction chunks arbitrary: buf ms w)
  case (Cons c cs)
  then obtain gs mid hs where r: "ws.frames (buf @ c) gs mid" "ws.reads mid cs hs left" "map message_frame ms = gs @ hs"
    by auto
  then obtain ms1 ms2 where ms: "ms = ms1 @ ms2" "gs = map message_frame ms1" "hs = map message_frame ms2"
    by (auto simp: map_eq_append_conv)
  let ?w = "w\<lparr>ws_buffer := mid, ws_log := ws_log w @ map message_callback ms1\<rparr>"
  have "on_data P E n c w = ?w"
    using raw_loop_messages [OF r(1) ms(2), of "w\<lparr>ws_buffer := buf @ c\<rparr>" P E] Cons.prems ms(1)
    by (simp add: on_data_streaming handleRawData_def)
  moreover have "ws_run P E (map (Data n) cs) ?w = ?w\<lparr>ws_buffer := left, ws_log := ws_log ?w @ map message_callback ms2\<rparr>"
    using Cons.IH [of mid ms2 ?w] r(2) ms Cons.prems by (simp add: streaming_def)
  ultimately show ?case by (simp add: ws_run_def ms(1))
qed (simp add: ws_run_def)

text \<open>C12. Messages the relay sends as frames reach the callback whole, once each and in order, however
  TCP cuts the stream, and leave the state of the client as it was.\<close>

theorem messages_delivered:
  assumes "streaming n w" "ws_buffer w = []"
    and "ws.frames (concat chunks) (map message_frame ms) []"
    and "\<forall>m \<in> set ms. wf_text (JSON_stringify (server_message m))"
  shows "ws_run P E (map (Data n) chunks) w = w\<lparr>ws_log := ws_log w @ map message_callback ms\<rparr>"
proof -
  have "w\<lparr>ws_buffer := [], ws_log := l\<rparr> = w\<lparr>ws_log := l\<rparr>" for l using assms(2) by (cases w) simp
  then show ?thesis
    using message_chunks [OF ws.reads_of_frames [OF next_frame_empty assms(3)] assms(1,2,4)] by simp
qed

definition demo_messages :: "(string \<times> string \<times> int) list" where
  "demo_messages = [(''YWJj'', ''00ff'', 17), (''YQ'', ''0a'', 18)]"

theorem messages_delivered_witness:
  "\<exists>bs. ws_run model_prims demo_env [Data 0 (take 5 bs), Data 0 (drop 5 bs)] demo_client
     = demo_client\<lparr>ws_log := ws_log demo_client @ map message_callback demo_messages\<rparr>"
proof -
  let ?fs = "map (\<lambda>m. (0x01, [0, 0, 0, 0], snd (message_frame m))) demo_messages"
  let ?bs = "frames_bytes ?fs"
  have "list_all (\<lambda>m. length (snd (message_frame m)) < 200) demo_messages"
    unfolding demo_messages_def by code_simp
  then have "list_all frame_ok ?fs" by (auto simp: frame_ok_def list_all_iff dest!: bspec)
  from frames_of_built [OF this]
  have f: "ws.frames (concat [take 5 ?bs, drop 5 ?bs]) (map message_frame demo_messages) []"
    by (simp add: o_def message_frame_def [abs_def])
  have wf: "\<forall>m \<in> set demo_messages. wf_text (JSON_stringify (server_message m))"
  proof -
    have "list_all (\<lambda>m. list_all (\<lambda>c. code c < 128) (JSON_stringify (server_message m))) demo_messages"
      unfolding demo_messages_def by code_simp
    then show ?thesis using wf_text_ascii by (auto simp: list_all_iff)
  qed
  have "streaming 0 demo_client" by (simp add: streaming_def demo_client_streams)
  from messages_delivered [OF this demo_client_streams(2) f wf, of model_prims demo_env]
  show ?thesis by auto
qed

subsection \<open>Where the client loses its connection\<close>

text \<open>The state of a client whose relay closed the connection during the handshake: nothing is left
  that could wake it.\<close>

definition stranded :: "ws_client \<Rightarrow> bool" where
  "stranded w \<longleftrightarrow> ws_state w = CONNECTING \<and> ws_dialling w = [] \<and> ws_armed w = [] \<and> \<not> ws_pingTimer w \<and>
     (\<forall>n. so_destroyed (ws_socks w n) \<and> so_handlers (ws_socks w n) = 0)"

lemma stranded_step: "stranded w \<Longrightarrow> ev \<noteq> Disconnect \<Longrightarrow> stranded (ws_step P E ev w)"
  by (cases ev) (auto simp: stranded_def connect_def sendJson_def sendRawFrame_def on_data_def on_close_def on_error_def
      Let_def split: option.splits)

lemma stranded_run: "stranded w \<Longrightarrow> Disconnect \<notin> set events \<Longrightarrow> stranded (ws_run P E events w)"
  by (induction events arbitrary: w) (auto simp: ws_run_def stranded_step simp del: ws_step.simps)

text \<open>If the relay closes the connection before it answered the handshake, the client stays in the
  state \<open>CONNECTING\<close> for ever: no timer is armed, no handler is attached, and \<open>connect\<close> returns at
  once in that state. Only \<open>disconnect\<close> gets it out.\<close>

theorem closed_handshake_strands:
  assumes "Disconnect \<notin> set events"
  shows "ws_state (ws_run P E ([Connect, Dialled 0, SocketClosed 0] @ events) (new_TorWebSocketClient cfg u)) = CONNECTING"
proof -
  have "stranded (ws_run P E [Connect, Dialled 0, SocketClosed 0] (new_TorWebSocketClient cfg u))"
    by (simp add: ws_run_def stranded_def new_TorWebSocketClient_def connect_def setState_def call_back_def Let_def
        performWebSocketUpgrade_def on_close_def dead_sock_def)
  from stranded_run [OF this assms] show ?thesis by (simp add: ws_run_def stranded_def)
qed

theorem closed_handshake_strands_witness:
  "ws_state (ws_run model_prims demo_env ([Connect, Dialled 0, SocketClosed 0] @ [Connect, ReconnectFires 0, Connect])
     (new_TorWebSocketClient demo_config (demo_identity Alice))) = CONNECTING"
  by (rule closed_handshake_strands) simp

text \<open>A \<open>disconnect\<close> while the socket is being dialled does not stop the attempt: when the socket is
  there the handshake goes on and the client is connected again.\<close>

theorem disconnect_while_dialling_undone:
  "ws_state (ws_run P E [Connect, Disconnect] (new_TorWebSocketClient cfg u)) = CLOSED \<and>
   ws_state (ws_run P E [Connect, Disconnect, Dialled 0, Data 0 switching_protocols] (new_TorWebSocketClient cfg u))
     = AWAITING_CHALLENGE"
proof -
  show ?thesis
    by (simp add: handshake_text ws_run_def new_TorWebSocketClient_def connect_def disconnect_def setState_def call_back_def Let_def
        performWebSocketUpgrade_def on_data_def onHandshakeData_def handshake_answer connect_upgraded_def
        setupSocketHandlers_def cleanupTimers_def cleanupSocket_def startsWith_def dead_sock_def)
qed

end
