(* ===== verification/Socks5.thy ===== *)
theory Socks5
  imports Sockets
begin

section \<open>The SOCKS5 handshake\<close>

text \<open>
  \<open>client/src/network/Socks5Tunnel.ts\<close>: the requests as byte lists, the checks of the replies,
  and \<open>connectViaSocks5\<close> as a state machine driven by the events of the socket and the timer.
  A reader of the request format of RFC 1928 says what the requests mean.
\<close>

definition SOCKS_VERSION :: byte where "SOCKS_VERSION = 0x05"
definition AUTH_NONE :: byte where "AUTH_NONE = 0x00"
definition CMD_CONNECT :: byte where "CMD_CONNECT = 0x01"
definition RSV :: byte where "RSV = 0x00"
definition ATYP_IPV4 :: byte where "ATYP_IPV4 = 0x01"
definition ATYP_DOMAINNAME :: byte where "ATYP_DOMAINNAME = 0x03"

named_theorems socks_consts
lemmas socks_const_defs [socks_consts] =
  SOCKS_VERSION_def AUTH_NONE_def CMD_CONNECT_def RSV_def ATYP_IPV4_def ATYP_DOMAINNAME_def

definition SOCKS5_REPLY_MESSAGES :: "(nat \<times> string) list" where
  "SOCKS5_REPLY_MESSAGES =
     [(0, ''Success''), (1, ''General SOCKS server failure''), (2, ''Connection not allowed by ruleset''),
      (3, ''Network unreachable''), (4, ''Host unreachable''), (5, ''Connection refused''), (6, ''TTL expired''),
      (7, ''Command not supported''), (8, ''Address type not supported'')]"

subsection \<open>Requests and replies\<close>

definition buildAuthRequest :: bytes where
  "buildAuthRequest = [SOCKS_VERSION, 0x01, AUTH_NONE]"

definition verifyAuthResponse :: "bytes \<Rightarrow> unit res" where
  "verifyAuthResponse data =
     (if length data < 2 then Inl (Socks5Error ''Invalid SOCKS5 auth response length'' (-1))
      else if data ! 0 \<noteq> SOCKS_VERSION
      then Inl (Socks5Error (''Unsupported SOCKS version: '' @ show_nat (unat (data ! 0))) (-1))
      else if data ! 1 \<noteq> AUTH_NONE
      then Inl (Socks5Error (''SOCKS5 authentication failed or required: '' @ show_nat (unat (data ! 1))) (-1))
      else Inr ())"

text \<open>The regular expression \<open>/^(\d{1,3}\.){3}\d{1,3}$/\<close>.\<close>

definition is_ipv4 :: "string \<Rightarrow> bool" where
  "is_ipv4 host \<longleftrightarrow>
     (let parts = split_on CHR ''.'' host in
      length parts = 4 \<and> list_all (\<lambda>p. 1 \<le> length p \<and> length p \<le> 3 \<and> list_all is_digit p) parts)"

definition port_bytes :: "int \<Rightarrow> bytes" where
  "port_bytes port = [word_of_int (port div 256), word_of_int port]"

definition buildConnectRequest :: "string \<Rightarrow> int \<Rightarrow> bytes" where
  "buildConnectRequest host port =
     (if is_ipv4 host then
        [SOCKS_VERSION, CMD_CONNECT, RSV, ATYP_IPV4]
          @ map (\<lambda>p. of_nat (read_nat p)) (split_on CHR ''.'' host) @ port_bytes port
      else
        let domainBytes = text_encode host in
        [SOCKS_VERSION, CMD_CONNECT, RSV, ATYP_DOMAINNAME, of_nat (length domainBytes)]
          @ domainBytes @ port_bytes port)"

definition verifyConnectResponse :: "bytes \<Rightarrow> unit res" where
  "verifyConnectResponse data =
     (if length data < 4 then Inl (Socks5Error ''Invalid SOCKS5 connect response length'' (-1))
      else if data ! 0 \<noteq> SOCKS_VERSION
      then Inl (Socks5Error (''Unsupported SOCKS version in reply: '' @ show_nat (unat (data ! 0))) (-1))
      else
        let replyCode = unat (data ! 1) in
        if replyCode \<noteq> 0 then
          let desc = (case map_of SOCKS5_REPLY_MESSAGES replyCode of Some d \<Rightarrow> d
                      | None \<Rightarrow> ''Unknown error ('' @ show_nat replyCode @ '')'') in
          Inl (Socks5Error (''SOCKS5 connection error: '' @ desc) (int replyCode))
        else Inr ())"

subsection \<open>What a request means to the proxy\<close>

datatype socks_address = IPv4 bytes | Domain bytes

definition parse_request :: "bytes \<Rightarrow> ((socks_address \<times> nat) \<times> bytes) option" where
  "parse_request buf =
     (case buf of
        v # c # r # atyp # rest \<Rightarrow>
          if [v, c, r] \<noteq> [SOCKS_VERSION, CMD_CONNECT, RSV] then None
          else if atyp = ATYP_IPV4 then
            (if length rest < 6 then None
             else Some ((IPv4 (take 4 rest), read_be (take 2 (drop 4 rest))), drop 6 rest))
          else if atyp = ATYP_DOMAINNAME then
            (case rest of [] \<Rightarrow> None
             | n # rest' \<Rightarrow>
                 if length rest' < unat n + 2 then None
                 else Some ((Domain (take (unat n) rest'), read_be (take 2 (drop (unat n) rest'))),
                            drop (unat n + 2) rest'))
          else None
      | _ \<Rightarrow> None)"

lemma read_port: "0 \<le> port \<Longrightarrow> port < 65536 \<Longrightarrow> read_be (port_bytes port) = nat port"
proof -
  assume p: "0 \<le> port" "port < 65536"
  have a: "unat (word_of_int (port div 256) :: byte) = nat (port div 256)"
    using p by (simp add: unsigned_of_int take_bit_int_eq_self_iff nat_mod_distrib take_bit_eq_mod)
  have b: "unat (word_of_int port :: byte) = nat (port mod 256)"
    using p by (simp add: unsigned_of_int take_bit_eq_mod)
  have "read_be (port_bytes port) = 256 * nat (port div 256) + nat (port mod 256)"
    using read_be_snoc [of "[word_of_int (port div 256)]" "word_of_int port"]
      read_be_snoc [of "[]" "word_of_int (port div 256)"]
    by (simp add: port_bytes_def a b)
  then show ?thesis using p by (simp add: nat_div_distrib nat_mod_distrib)
qed

lemma length_port_bytes [simp]: "length (port_bytes p) = 2"
  by (simp add: port_bytes_def)

text \<open>A name longer than 255 bytes has a length byte that wraps.\<close>

lemma parse_domain_request:
  assumes "\<not> is_ipv4 host"
  defines "d \<equiv> text_encode host" and "n \<equiv> length (text_encode host) mod 256"
  shows "parse_request (buildConnectRequest host port)
     = Some ((Domain (take n d), read_be (take 2 (drop n (d @ port_bytes port)))), drop (n + 2) (d @ port_bytes port))"
proof -
  have "unat (of_nat (length d) :: byte) = n" by (simp add: n_def d_def unat_of_nat)
  moreover have "n \<le> length d" by (simp add: n_def d_def)
  ultimately show ?thesis
    using assms(1) by (simp add: parse_request_def buildConnectRequest_def Let_def socks_consts d_def [symmetric])
qed

lemma parse_ipv4_request:
  assumes "is_ipv4 host"
  shows "parse_request (buildConnectRequest host port)
     = Some ((IPv4 (map (\<lambda>p. of_nat (read_nat p)) (split_on CHR ''.'' host)), read_be (port_bytes port)), [])"
  using assms by (simp add: parse_request_def buildConnectRequest_def is_ipv4_def Let_def socks_consts)

lemma domain_request_read:
  assumes "\<not> is_ipv4 host" "length (text_encode host) < 256" "0 \<le> port" "port < 65536"
  shows "parse_request (buildConnectRequest host port) = Some ((Domain (text_encode host), nat port), [])"
  using parse_domain_request [OF assms(1), of port] read_port [OF assms(3,4)] assms(2) by simp

text \<open>C37. The CONNECT request means the host and the port it was built for, to a proxy that reads it by
  RFC 1928, exactly when the name fits the one length byte: a longer one is cut at its length
  modulo 256 and the rest of the name is left in the stream.\<close>

theorem connect_request_read:
  assumes "\<not> is_ipv4 host" "0 \<le> port" "port < 65536"
  shows "parse_request (buildConnectRequest host port) = Some ((Domain (text_encode host), nat port), [])
     \<longleftrightarrow> length (text_encode host) < 256"
proof
  let ?d = "text_encode host"
  assume "length ?d < 256"
  then show "parse_request (buildConnectRequest host port) = Some ((Domain ?d, nat port), [])"
    using domain_request_read assms by blast
next
  let ?d = "text_encode host"
  assume "parse_request (buildConnectRequest host port) = Some ((Domain ?d, nat port), [])"
  then have "take (length ?d mod 256) ?d = ?d"
    using parse_domain_request [OF assms(1), of port] by simp
  then have "length ?d \<le> length ?d mod 256" by (metis length_take min.cobounded2)
  then show "length ?d < 256" by (metis le_less_trans mod_less_divisor zero_less_numeral)
qed

theorem connect_request_read_witness:
  "parse_request (buildConnectRequest ''abc.onion'' 80) = Some ((Domain (text_encode ''abc.onion''), 80), []) \<and>
   parse_request (buildConnectRequest (replicate 256 CHR ''a'') 80) \<noteq> Some ((Domain (text_encode (replicate 256 CHR ''a'')), 80), [])"
proof -
  have "split_on CHR ''.'' ''abc.onion'' = [''abc'', ''onion'']" by simp
  then have 1: "\<not> is_ipv4 ''abc.onion''" by (simp add: is_ipv4_def)
  have "split_on CHR ''.'' (replicate 256 CHR ''a'') = [replicate 256 CHR ''a'']" by (rule split_on_single) simp
  then have 2: "\<not> is_ipv4 (replicate 256 CHR ''a'')" by (simp add: is_ipv4_def)
  show ?thesis
    using connect_request_read [OF 1, of 80] connect_request_read [OF 2, of 80] by (simp add: text_encode_def)
qed

subsection \<open>The handshake\<close>

text \<open>
  One connection attempt: the stage, whether the timer runs, whether the socket was destroyed,
  whether the \<open>data\<close> handler is still attached, the bytes written, and the promise. The events
  are those of the socket and the timer; events of a destroyed socket, a removed handler or a
  cleared timer do not come.
\<close>

datatype stage = AUTH | CONNECT | CONNECTED

record socks_conn =
  sc_stage :: stage
  sc_timer :: bool
  sc_destroyed :: bool
  sc_listening :: bool
  sc_written :: "bytes list"
  sc_result :: "unit promise"

definition new_socks :: socks_conn where
  "new_socks = \<lparr>sc_stage = AUTH, sc_timer = True, sc_destroyed = False, sc_listening = True,
     sc_written = [], sc_result = Pending\<rparr>"

datatype socks_event = OnConnect | OnData bytes | OnError string | OnTimeout

definition socks_fail :: "exn \<Rightarrow> socks_conn \<Rightarrow> socks_conn" where
  "socks_fail e s = s\<lparr>sc_timer := False, sc_destroyed := True, sc_result := settle (sc_result s) (Rejected e)\<rparr>"

fun socks_step :: "string \<Rightarrow> int \<Rightarrow> int \<Rightarrow> socks_event \<Rightarrow> socks_conn \<Rightarrow> socks_conn" where
  "socks_step host port timeoutMs OnConnect s =
     (if sc_destroyed s then s else s\<lparr>sc_written := sc_written s @ [buildAuthRequest]\<rparr>)"
| "socks_step host port timeoutMs (OnData data) s =
     (if sc_destroyed s \<or> \<not> sc_listening s then s
      else case sc_stage s of
        AUTH \<Rightarrow>
          (case verifyAuthResponse data of Inl e \<Rightarrow> socks_fail e s
           | Inr _ \<Rightarrow> s\<lparr>sc_stage := CONNECT, sc_written := sc_written s @ [buildConnectRequest host port]\<rparr>)
      | CONNECT \<Rightarrow>
          (case verifyConnectResponse data of Inl e \<Rightarrow> socks_fail e s
           | Inr _ \<Rightarrow> s\<lparr>sc_stage := CONNECTED, sc_timer := False, sc_listening := False,
                       sc_result := settle (sc_result s) (Resolved ())\<rparr>)
      | CONNECTED \<Rightarrow> s)"
| "socks_step host port timeoutMs (OnError msg) s =
     s\<lparr>sc_timer := False,
       sc_result := settle (sc_result s) (Rejected (Socks5Error (''Socket connection error: '' @ msg) (-1)))\<rparr>"
| "socks_step host port timeoutMs OnTimeout s =
     (if sc_timer s then
        s\<lparr>sc_timer := False, sc_destroyed := True, sc_result := settle (sc_result s)
           (Rejected (Socks5Error (''SOCKS5 connection timed out after '' @ show_int timeoutMs @ ''ms'') (-1)))\<rparr>
      else s)"

definition connectViaSocks5 :: "string \<Rightarrow> int \<Rightarrow> int \<Rightarrow> socks_event list \<Rightarrow> socks_conn" where
  "connectViaSocks5 host port timeoutMs events = foldl (\<lambda>s e. socks_step host port timeoutMs e s) new_socks events"

definition chunks_of :: "socks_event list \<Rightarrow> bytes list" where
  "chunks_of events = concat (map (\<lambda>e. case e of OnData d \<Rightarrow> [d] | _ \<Rightarrow> []) events)"

lemma chunks_of_snoc [simp]: "chunks_of (es @ [e]) = chunks_of es @ (case e of OnData d \<Rightarrow> [d] | _ \<Rightarrow> [])"
  by (simp add: chunks_of_def)

lemma chunks_of_Nil [simp]: "chunks_of [] = []"
  by (simp add: chunks_of_def)

lemma connect_snoc: "connectViaSocks5 h p t (es @ [e]) = socks_step h p t e (connectViaSocks5 h p t es)"
  by (simp add: connectViaSocks5_def)

text \<open>The proxy accepted the two requests with its first two chunks.\<close>

definition accepted :: "bytes list \<Rightarrow> bool" where
  "accepted cs \<longleftrightarrow> (\<exists>d1 d2 more. cs = d1 # d2 # more \<and> verifyAuthResponse d1 = Inr () \<and> verifyConnectResponse d2 = Inr ())"

lemma accepted_append: "accepted cs \<Longrightarrow> accepted (cs @ ds)"
  by (auto simp: accepted_def)

definition socks_inv :: "string \<Rightarrow> int \<Rightarrow> bytes list \<Rightarrow> socks_conn \<Rightarrow> bool" where
  "socks_inv host port cs s \<longleftrightarrow>
     (sc_timer s \<longleftrightarrow> sc_result s = Pending) \<and>
     (sc_result s = Resolved () \<longrightarrow> sc_stage s = CONNECTED) \<and>
     (case sc_stage s of
        AUTH \<Rightarrow> (sc_destroyed s \<or> cs = []) \<and> set (sc_written s) \<subseteq> {buildAuthRequest}
      | CONNECT \<Rightarrow> (sc_destroyed s \<or> (\<exists>d1. cs = [d1] \<and> verifyAuthResponse d1 = Inr ()))
      | CONNECTED \<Rightarrow> accepted cs \<and> \<not> sc_listening s)"

lemma socks_inv_step:
  assumes "socks_inv host port cs s" "sc_listening s \<or> sc_stage s = CONNECTED"
  shows "socks_inv host port (cs @ (case e of OnData d \<Rightarrow> [d] | _ \<Rightarrow> [])) (socks_step host port t e s)"
proof (cases e)
  case (OnData d)
  then show ?thesis using assms
    by (auto simp: socks_inv_def socks_fail_def accepted_append accepted_def settle_def
        split: stage.splits sum.splits promise.splits)
qed (use assms in \<open>auto simp: socks_inv_def settle_def split: stage.splits promise.splits\<close>)

lemma listening_step:
  "sc_listening s \<or> sc_stage s = CONNECTED \<Longrightarrow>
     sc_listening (socks_step h p t e s) \<or> sc_stage (socks_step h p t e s) = CONNECTED"
  by (cases e) (auto simp: socks_fail_def split: stage.splits sum.splits)

lemma socks_run:
  "socks_inv h p (chunks_of es) (connectViaSocks5 h p t es) \<and>
   (sc_listening (connectViaSocks5 h p t es) \<or> sc_stage (connectViaSocks5 h p t es) = CONNECTED)"
proof (induction es rule: rev_induct)
  case Nil
  show ?case by (simp add: connectViaSocks5_def socks_inv_def new_socks_def)
next
  case (snoc e es)
  then show ?case using socks_inv_step listening_step by (simp add: connect_snoc)
qed

lemma settled_stays:
  "sc_result s \<noteq> Pending \<Longrightarrow> sc_result (socks_step h p t e s) = sc_result s"
  by (cases e) (auto simp: socks_fail_def settle_def split: stage.splits sum.splits promise.splits)

lemma settled_stays_run:
  "sc_result (connectViaSocks5 h p t es) \<noteq> Pending \<Longrightarrow>
     sc_result (connectViaSocks5 h p t (es @ fs)) = sc_result (connectViaSocks5 h p t es)"
proof (induction fs rule: rev_induct)
  case (snoc f fs)
  then show ?case using settled_stays connect_snoc [of h p t "es @ fs" f] by simp
qed simp

text \<open>C38. Whatever the events of the socket, the attempt succeeds only if the first two chunks from the
  proxy accept the method and the connection in this order; it settles at most once, keeps
  its timer exactly as long as it is pending, and has settled once the time is up.\<close>

theorem socks_handshake:
  "(sc_result (connectViaSocks5 h p t es) = Resolved () \<longrightarrow> accepted (chunks_of es))
   \<and> (sc_timer (connectViaSocks5 h p t es) \<longleftrightarrow> sc_result (connectViaSocks5 h p t es) = Pending)
   \<and> sc_result (connectViaSocks5 h p t (es @ [OnTimeout])) \<noteq> Pending
   \<and> (sc_result (connectViaSocks5 h p t es) \<noteq> Pending \<longrightarrow>
        sc_result (connectViaSocks5 h p t (es @ fs)) = sc_result (connectViaSocks5 h p t es))"
proof -
  let ?s = "connectViaSocks5 h p t es"
  have inv: "socks_inv h p (chunks_of es) ?s" using socks_run by blast
  have "sc_result (socks_step h p t OnTimeout ?s) \<noteq> Pending"
    using inv by (auto simp: socks_inv_def)
  then show ?thesis
    using inv settled_stays_run [of h p t es fs] by (auto simp: socks_inv_def connect_snoc)
qed

text \<open>A run that succeeds.\<close>

theorem socks_handshake_witness:
  "accepted [[5, 0], [5, 0, 0, 1, 0, 0, 0, 0, 0, 0]] \<and>
   sc_result (connectViaSocks5 ''abc.onion'' 80 30000 [OnConnect, OnData [5, 0], OnData [5, 0, 0, 1, 0, 0, 0, 0, 0, 0]]) = Resolved ()"
proof
  let ?es = "[OnConnect, OnData [5, 0], OnData [5, 0, 0, 1, 0, 0, 0, 0, 0, 0]]"
  show r: "sc_result (connectViaSocks5 ''abc.onion'' 80 30000 ?es) = Resolved ()"
    by (simp add: connectViaSocks5_def new_socks_def verifyAuthResponse_def verifyConnectResponse_def socks_consts Let_def)
  show "accepted [[5, 0], [5, 0, 0, 1, 0, 0, 0, 0, 0, 0]]"
    using socks_handshake [of "''abc.onion''" 80 30000 ?es "[]"] r by (simp add: chunks_of_def)
qed

end
