(* ===== verification/Http_Client.thy ===== *)
theory Http_Client
  imports Ws_Client
begin

section \<open>The HTTP client\<close>

text \<open>
  \<open>client/src/network/TorHttpClient.ts\<close>: the request text, the reader of the response as it
  arrives in chunks, and the two operations built on it. One exchange is a state machine over the events of
  the socket; \<open>Http_Tunnel\<close> dials it.
\<close>

record http_response =
  hr_status :: nat
  hr_statusText :: string
  hr_headers :: "string jsobj"
  hr_body :: string

record outgoing_envelope =
  oe_recipient_pubkey_hash :: hex
  oe_encrypted_payload :: string
  oe_nonce :: string

definition json_of_envelope :: "outgoing_envelope \<Rightarrow> json" where
  "json_of_envelope e = JObj [(''recipient_pubkey_hash'', JStr (oe_recipient_pubkey_hash e)),
     (''encrypted_payload'', JStr (oe_encrypted_payload e)), (''nonce'', JStr (oe_nonce e))]"

subsection \<open>The request\<close>

definition request_headers :: "tor_config \<Rightarrow> string option \<Rightarrow> string jsobj \<Rightarrow> string jsobj" where
  "request_headers cfg body headers =
     (let base = [(''Host'', targetHost cfg @ '':'' @ show_int (targetPort cfg)), (''User-Agent'', ''TorE2EE-Client/0.1''),
                  (''Connection'', ''close'')];
          hs = fold (\<lambda>(k, v). obj_set k v) headers base in
      if truthy body then obj_set ''Content-Length'' (show_nat (length (text_encode (the body)))) hs else hs)"

definition header_line :: "string \<times> string \<Rightarrow> string" where
  "header_line kv = fst kv @ '': '' @ snd kv @ crlf"

definition request_text :: "tor_config \<Rightarrow> string \<Rightarrow> string \<Rightarrow> string option \<Rightarrow> string jsobj \<Rightarrow> string" where
  "request_text cfg method path body headers =
     method @ '' '' @ path @ '' HTTP/1.1'' @ crlf @ concat (map header_line (request_headers cfg body headers)) @ crlf"

definition request_writes :: "tor_config \<Rightarrow> string \<Rightarrow> string \<Rightarrow> string option \<Rightarrow> string jsobj \<Rightarrow> bytes list" where
  "request_writes cfg method path body headers =
     text_encode (request_text cfg method path body headers)
       # (if truthy body then [text_encode (the body)] else [])"

subsection \<open>Reading a response\<close>

function split_str :: "string \<Rightarrow> string \<Rightarrow> string list" where
  "split_str p s =
     (if p = [] then [s]
      else case split_at p s of None \<Rightarrow> [s] | Some (a, b) \<Rightarrow> a # split_str p b)"
  by pat_completeness auto
termination
  by (relation "measure (\<lambda>(p, s). length s)") (auto dest: split_at_Some)

declare split_str.simps [simp del]

text \<open>\<open>/content-length:\s*(\d+)/i\<close>: the number after the first place where the expression matches.\<close>

fun find_content_length :: "string \<Rightarrow> nat option" where
  "find_content_length s =
     (let digits = takeWhile is_digit (dropWhile is_space (drop 15 s)) in
      if toLowerCase (take 15 s) = ''content-length:'' \<and> digits \<noteq> [] then Some (read_nat digits)
      else case s of [] \<Rightarrow> None | c # r \<Rightarrow> find_content_length r)"

declare find_content_length.simps [simp del]

text \<open>\<open>/HTTP\/\d\.\d\s+(\d+)\s*(.*)/\<close>; a dot does not match a line end.\<close>

definition line_end :: "char \<Rightarrow> bool" where
  "line_end c \<longleftrightarrow> c = CHR 0x0A \<or> c = CHR 0x0D"

definition match_status_here :: "string \<Rightarrow> (nat \<times> string) option" where
  "match_status_here s =
     (case s of
        h # t1 # t2 # p # sl # d1 # dot # d2 # r \<Rightarrow>
          if [h, t1, t2, p, sl] = ''HTTP/'' \<and> is_digit d1 \<and> dot = CHR ''.'' \<and> is_digit d2
             \<and> takeWhile is_space r \<noteq> [] \<and> takeWhile is_digit (dropWhile is_space r) \<noteq> []
          then Some (read_nat (takeWhile is_digit (dropWhile is_space r)),
                     takeWhile (\<lambda>c. \<not> line_end c) (dropWhile is_space (dropWhile is_digit (dropWhile is_space r))))
          else None
      | _ \<Rightarrow> None)"

fun match_status :: "string \<Rightarrow> (nat \<times> string) option" where
  "match_status [] = None"
| "match_status (c # r) = (case match_status_here (c # r) of Some m \<Rightarrow> Some m | None \<Rightarrow> match_status r)"

definition add_header :: "string jsobj \<Rightarrow> string \<Rightarrow> string jsobj" where
  "add_header hs line =
     (case split_at '':'' line of None \<Rightarrow> hs
      | Some (k, v) \<Rightarrow> obj_set (toLowerCase (trim k)) (trim v) hs)"

definition parseHttpResponse :: "string \<Rightarrow> nat option \<Rightarrow> http_response res" where
  "parseHttpResponse raw exactContentLength =
     (case split_at (crlf @ crlf) raw of
        None \<Rightarrow> Inl (Error ''Malformed HTTP response'')
      | Some (headerText, body0) \<Rightarrow>
          let body = (case exactContentLength of None \<Rightarrow> body0
                      | Some n \<Rightarrow> utf8_toString (take n (text_encode body0)));
              lines = split_str crlf headerText; statusLine = hd lines in
          case match_status statusLine of
            None \<Rightarrow> Inl (Error (''Invalid HTTP status line: '' @ statusLine))
          | Some (status, statusText) \<Rightarrow>
              Inr \<lparr>hr_status = status, hr_statusText = statusText,
                   hr_headers = foldl add_header [] (tl lines), hr_body = body\<rparr>)"

subsection \<open>The exchange\<close>

text \<open>
  \<open>he_uncaught\<close> holds an exception thrown inside the \<open>data\<close> listener: nothing catches it, and
  the promise is not settled by it.
\<close>

record http_exchange =
  he_raw :: string
  he_timer :: bool
  he_destroyed :: bool
  he_uncaught :: "exn option"
  he_result :: "http_response promise"

definition new_exchange :: http_exchange where
  "new_exchange = \<lparr>he_raw = [], he_timer = True, he_destroyed = False, he_uncaught = None, he_result = Pending\<rparr>"

datatype http_event = HData bytes | HEnd | HError exn | HTimeout

definition on_http_data :: "bytes \<Rightarrow> http_exchange \<Rightarrow> http_exchange" where
  "on_http_data chunk h0 =
     (let h = h0\<lparr>he_raw := he_raw h0 @ utf8_toString chunk\<rparr> in
      case split_at (crlf @ crlf) (he_raw h) of None \<Rightarrow> h
      | Some (headerPart, bodyPart) \<Rightarrow>
          (case find_content_length headerPart of None \<Rightarrow> h
           | Some expectedLen \<Rightarrow>
               if expectedLen \<le> length (text_encode bodyPart) then
                 let h' = h\<lparr>he_timer := False, he_destroyed := True\<rparr> in
                 case parseHttpResponse (he_raw h) (Some expectedLen) of
                   Inr resp \<Rightarrow> h'\<lparr>he_result := settle (he_result h') (Resolved resp)\<rparr>
                 | Inl e \<Rightarrow> h'\<lparr>he_uncaught := Some e\<rparr>
               else h))"

fun http_step :: "int \<Rightarrow> http_event \<Rightarrow> http_exchange \<Rightarrow> http_exchange" where
  "http_step timeoutMs (HData chunk) h = (if he_destroyed h then h else on_http_data chunk h)"
| "http_step timeoutMs HEnd h =
     (if he_destroyed h then h
      else if he_raw h \<noteq> [] then
        h\<lparr>he_timer := False,
          he_result := settle (he_result h) (case parseHttpResponse (he_raw h) None of Inr r \<Rightarrow> Resolved r | Inl e \<Rightarrow> Rejected e)\<rparr>
      else h\<lparr>he_timer := False\<rparr>)"
| "http_step timeoutMs (HError e) h = h\<lparr>he_timer := False, he_result := settle (he_result h) (Rejected e)\<rparr>"
| "http_step timeoutMs HTimeout h =
     (if he_timer h then
        h\<lparr>he_timer := False, he_destroyed := True,
          he_result := settle (he_result h) (Rejected (Error (''HTTP request timed out after '' @ show_int timeoutMs @ ''ms'')))\<rparr>
      else h)"

definition rawRequest :: "int \<Rightarrow> http_event list \<Rightarrow> http_exchange" where
  "rawRequest timeoutMs events = fold (http_step timeoutMs) events new_exchange"

text \<open>\<open>sendMessage\<close> and \<open>checkHealth\<close> once the request has settled.\<close>

definition sendMessage_result :: "http_response res \<Rightarrow> json res" where
  "sendMessage_result r =
     bindR r (\<lambda>response.
       if hr_status response \<noteq> 200
       then Inl (Error (''Relay server rejected message (status '' @ show_nat (hr_status response) @ ''): '' @ hr_body response))
       else JSON_parse (trim (hr_body response)))"

definition checkHealth_result :: "http_response res \<Rightarrow> bool" where
  "checkHealth_result r = (case r of Inl _ \<Rightarrow> False | Inr response \<Rightarrow> hr_status response = 200)"

definition sendMessage_writes :: "tor_config \<Rightarrow> outgoing_envelope \<Rightarrow> bytes list" where
  "sendMessage_writes cfg envelope =
     request_writes cfg ''POST'' ''/api/v1/message'' (Some (JSON_stringify (json_of_envelope envelope)))
       [(''Content-Type'', ''application/json'')]"

subsection \<open>A response does not depend on its chunks\<close>

lemma utf8_toString_ascii: "list_all (\<lambda>b. unat b < 128) bs \<Longrightarrow> utf8_toString bs = string_of_bytes bs"
proof -
  assume "list_all (\<lambda>b. unat b < 128) bs"
  then have "list_all (\<lambda>c. code c < 128) (string_of_bytes bs)"
    by (auto simp: list_all_iff string_of_bytes_def code_def char_of_byte_def)
  from utf8_toString_encode [OF wf_text_ascii [OF this]] show ?thesis by (simp add: text_encode_def)
qed

text \<open>What the reader holds while the response \<open>t\<close> is incomplete.\<close>

lemma on_http_data_partial:
  assumes "split_at (crlf @ crlf) t = Some (hdr, body)" "find_content_length hdr = Some (length body)"
    and "he_raw h @ string_of_bytes chunk @ rest = t" "rest \<noteq> []" "list_all (\<lambda>b. unat b < 128) chunk"
  shows "on_http_data chunk h = h\<lparr>he_raw := he_raw h @ string_of_bytes chunk\<rparr>"
proof (cases "split_at (crlf @ crlf) (he_raw h @ string_of_bytes chunk)")
  case (Some p)
  then obtain a b where ab: "split_at (crlf @ crlf) (he_raw h @ string_of_bytes chunk) = Some (a, b)" by (cases p) simp
  from split_at_append [OF this, of rest] assms(1,3) have "a = hdr" "body = b @ rest" by auto
  then show ?thesis using ab assms(2,4,5)
    by (simp add: on_http_data_def utf8_toString_ascii text_encode_def bytes_of_string_def)
qed (simp add: on_http_data_def utf8_toString_ascii assms(5))

lemma on_http_data_last:
  assumes "split_at (crlf @ crlf) t = Some (hdr, body)" "find_content_length hdr = Some (length body)"
    and "he_raw h @ string_of_bytes chunk = t" "list_all (\<lambda>b. unat b < 128) chunk"
    and "parseHttpResponse t (Some (length body)) = Inr resp" "he_result h = Pending"
  shows "he_result (on_http_data chunk h) = Resolved resp" "he_destroyed (on_http_data chunk h)"
  using assms by (simp_all add: on_http_data_def utf8_toString_ascii text_encode_def bytes_of_string_def Let_def)

lemma destroyed_stays: "he_destroyed h \<Longrightarrow> fold (http_step tm) (map HData cs) h = h"
  by (induction cs) simp_all

lemma response_chunks:
  assumes "split_at (crlf @ crlf) t = Some (hdr, body)" "find_content_length hdr = Some (length body)"
    and "parseHttpResponse t (Some (length body)) = Inr resp"
    and "he_raw h @ string_of_bytes (concat cs) = t" "list_all (\<lambda>b. unat b < 128) (concat cs)"
    and "he_result h = Pending" "\<not> he_destroyed h" "concat cs \<noteq> []"
  shows "he_result (fold (http_step tm) (map HData cs) h) = Resolved resp"
  using assms(4-)
proof (induction cs arbitrary: h)
  case (Cons c cs)
  show ?case
  proof (cases "concat cs = []")
    case True
    then have c: "concat (c # cs) = c" by simp
    have "he_raw h @ string_of_bytes c = t" "list_all (\<lambda>b. unat b < 128) c" using Cons.prems(1,2) unfolding c by simp_all
    from on_http_data_last [OF assms(1,2) this assms(3) Cons.prems(3)]
    show ?thesis using Cons.prems(4) destroyed_stays by simp
  next
    case False
    have "on_http_data c h = h\<lparr>he_raw := he_raw h @ string_of_bytes c\<rparr>"
      using Cons.prems(1,2) False
      by (intro on_http_data_partial [OF assms(1,2), where rest = "string_of_bytes (concat cs)"]) (auto simp: string_of_bytes_def)
    then show ?thesis using Cons.prems False
      by (simp add: Cons.IH string_of_bytes_def)
  qed
qed simp

text \<open>A response with ASCII text and a correct \<open>Content-Length\<close> is resolved to its status, headers and body
  as soon as it is complete, however it is cut into chunks, and once only.\<close>

lemma response_resolved:
  assumes "split_at (crlf @ crlf) t = Some (hdr, body)" "find_content_length hdr = Some (length body)"
    and "parseHttpResponse t (Some (length body)) = Inr resp"
    and "string_of_bytes (concat cs) = t" "list_all (\<lambda>c. code c < 128) t"
  shows "he_result (rawRequest tm (map HData cs)) = Resolved resp"
proof -
  have "t \<noteq> []" using split_at_Some [OF assms(1)] by (simp add: crlf_def)
  moreover have "list_all (\<lambda>b. unat b < 128) (concat cs)"
  proof -
    have "code (char_of_byte b) = unat b" for b by (simp add: code_def char_of_byte_def unsigned_less [of b, simplified])
    then show ?thesis using assms(4,5) by (auto simp: string_of_bytes_def list_all_iff)
  qed
  moreover have "concat cs \<noteq> []" using assms(4) \<open>t \<noteq> []\<close> by (auto simp: string_of_bytes_def)
  ultimately show ?thesis
    using response_chunks [OF assms(1-3), of new_exchange cs tm] assms(4)
    by (simp add: rawRequest_def new_exchange_def)
qed

lemma find_content_length_skip:
  assumes "list_all (\<lambda>c. lower_char c \<noteq> CHR ''c'') a"
  shows "find_content_length (a @ s) = find_content_length s"
  using assms
proof (induction a)
  case (Cons x a)
  have "toLowerCase (take 15 (x # a @ s)) \<noteq> ''content-length:''" using Cons.prems by (simp add: toLowerCase_def)
  then show ?case using Cons by (subst find_content_length.simps) simp
qed simp

definition demo_response :: string where
  "demo_response = ''HTTP/1.1 200 OK'' @ crlf @ ''content-length:  4'' @ crlf @ crlf @ ''true''"

lemma demo_response:
  "split_at (crlf @ crlf) demo_response = Some (''HTTP/1.1 200 OK'' @ crlf @ ''content-length:  4'', ''true'')"
  "find_content_length (''HTTP/1.1 200 OK'' @ crlf @ ''content-length:  4'') = Some (length ''true'')"
  "parseHttpResponse demo_response (Some (length ''true'')) = Inr \<lparr>hr_status = 200, hr_statusText = ''OK'',
     hr_headers = [(''content-length'', ''4'')], hr_body = ''true''\<rparr>"
  "list_all (\<lambda>c. code c < 128) demo_response"
proof -
  have "list_all (\<lambda>c. lower_char c \<noteq> CHR ''c'') (''HTTP/1.1 200 OK'' @ crlf)" by code_simp
  from find_content_length_skip [OF this, of "''content-length:  4''"]
  show "find_content_length (''HTTP/1.1 200 OK'' @ crlf @ ''content-length:  4'') = Some (length ''true'')"
    by (subst (asm) (2) find_content_length.simps)
      (simp add: toLowerCase_def lower_char_def is_space_def is_digit_def code_def read_nat_def digit_val_def)
qed code_simp+

text \<open>The response in three chunks, one of them empty.\<close>

definition demo_chunks :: "bytes list" where
  "demo_chunks = [take 7 (text_encode demo_response), [], drop 7 (text_encode demo_response)]"

lemma demo_chunks: "string_of_bytes (concat demo_chunks) = demo_response"
  by (simp add: demo_chunks_def text_encode_def)

subsection \<open>Exchanges that never settle\<close>

lemma ended_stays: "he_result h = Pending \<Longrightarrow> \<not> he_timer h \<Longrightarrow> fold (http_step tm) (replicate k HTimeout) h = h"
  by (induction k) simp_all

text \<open>When the relay closes the connection without an answer the request never settles: the \<open>end\<close>
  handler clears the timeout and, having no data, neither resolves nor rejects.\<close>

theorem empty_response_never_settles:
  "he_result (rawRequest tm (HEnd # replicate k HTimeout)) = Pending"
  using ended_stays [of "new_exchange\<lparr>he_timer := False\<rparr>" tm k] by (simp add: rawRequest_def new_exchange_def)

subsection \<open>The request as its reader sees it\<close>

text \<open>A reader of requests: the request line, the headers in lower case and the body.\<close>

definition read_request :: "string \<Rightarrow> (string \<times> string jsobj \<times> string) option" where
  "read_request t =
     (case split_at (crlf @ crlf) t of None \<Rightarrow> None
      | Some (hdr, body) \<Rightarrow> Some (hd (split_str crlf hdr), foldl add_header [] (tl (split_str crlf hdr)), body))"

lemma split_at_none: "hd p \<notin> set s \<Longrightarrow> p \<noteq> [] \<Longrightarrow> split_at p s = None"
proof (induction s)
  case Nil
  then show ?case by (simp add: split_at.simps)
next
  case (Cons x s)
  have "take (length p) (x # s) \<noteq> p" using Cons.prems by (cases p) auto
  then show ?case using Cons by (subst split_at.simps) simp
qed

lemma split_at_first:
  assumes "hd p \<notin> set a" "p \<noteq> []"
  shows "split_at p (a @ p @ b) = Some (a, b)"
  using assms(1)
proof (induction a)
  case Nil
  then show ?case by (simp add: split_at.simps)
next
  case (Cons x a)
  have "take (length p) (x # a @ p @ b) \<noteq> p" using Cons.prems assms(2) by (cases p) auto
  then show ?case using Cons by (subst split_at.simps) simp
qed

lemma split_str_first: "hd p \<notin> set a \<Longrightarrow> p \<noteq> [] \<Longrightarrow> split_str p (a @ p @ b) = a # split_str p b"
  by (subst split_str.simps) (simp add: split_at_first)

lemma split_str_last: "hd p \<notin> set a \<Longrightarrow> p \<noteq> [] \<Longrightarrow> split_str p a = [a]"
  by (subst split_str.simps) (simp add: split_at_none)

lemma split_at_skip:
  assumes "hd p \<notin> set a" "p \<noteq> []"
  shows "split_at p (a @ s) = map_option (\<lambda>(x, y). (a @ x, y)) (split_at p s)"
  using assms(1)
proof (induction a)
  case Nil
  then show ?case by (cases "split_at p s") auto
next
  case (Cons x a)
  have "take (length p) (x # a @ s) \<noteq> p" using Cons.prems assms(2) by (cases p) auto
  then show ?case using Cons by (subst split_at.simps) (auto split: option.splits)
qed

fun join_lines :: "string list \<Rightarrow> string" where
  "join_lines [] = []"
| "join_lines [l] = l"
| "join_lines (l # ls) = l @ crlf @ join_lines ls"

definition plain_line :: "string \<Rightarrow> bool" where
  "plain_line l \<longleftrightarrow> l \<noteq> [] \<and> CHR 0x0D \<notin> set l"

lemma concat_lines: "ls \<noteq> [] \<Longrightarrow> concat (map (\<lambda>l. l @ crlf) ls) = join_lines ls @ crlf"
  by (induction ls rule: join_lines.induct) auto

lemma split_join_lines: "list_all plain_line ls \<Longrightarrow> ls \<noteq> [] \<Longrightarrow> split_str crlf (join_lines ls) = ls"
  by (induction ls rule: join_lines.induct) (auto simp: plain_line_def crlf_def split_str_last split_str_first [where p = "[CHR 0x0D, CHR 0x0A]", simplified])

lemma blank_line_found:
  "list_all plain_line ls \<Longrightarrow> ls \<noteq> [] \<Longrightarrow>
     split_at (crlf @ crlf) (join_lines ls @ crlf @ crlf @ body) = Some (join_lines ls, body)"
proof (induction ls rule: join_lines.induct)
  case (2 l)
  then show ?case using split_at_first [of "crlf @ crlf" l body] by (simp add: plain_line_def crlf_def)
next
  case (3 l l' ls)
  let ?s = "join_lines (l' # ls) @ crlf @ crlf @ body"
  obtain c r where l': "l' = c # r" "c \<noteq> CHR 0x0D" using 3(2) by (cases l') (auto simp: plain_line_def)
  obtain z where s: "?s = c # z" using l' by (cases ls) auto
  have "split_at (crlf @ crlf) (crlf @ ?s) = map_option (\<lambda>(x, y). (crlf @ x, y)) (split_at (crlf @ crlf) ?s)"
    unfolding s using l'(2) by (auto simp: crlf_def split_at.simps [of _ "CHR 0x0D # _"] split_at.simps [of _ "CHR 0x0A # _"] split: option.splits)
  then show ?case
    using 3 split_at_skip [of "crlf @ crlf" l "crlf @ ?s"] by (simp add: plain_line_def crlf_def)
qed simp

lemma trim_blank:
  assumes "v \<noteq> []" "\<not> is_space (hd v)" "\<not> is_space (last v)"
  shows "trim (CHR '' '' # v) = v"
proof -
  have "dropWhile is_space v = v" using assms(1,2) by (cases v) auto
  moreover have "dropWhile is_space (rev v) = rev v" using assms(1,3) by (cases v rule: rev_cases) auto
  ultimately show ?thesis by (simp add: trim_def)
qed

lemma add_header_line:
  assumes "CHR '':'' \<notin> set k" "toLowerCase (trim k) = k'" "v \<noteq> []" "\<not> is_space (hd v)" "\<not> is_space (last v)"
  shows "add_header hs (k @ '': '' @ v) = obj_set k' v hs"
  using split_at_first [of "'':''" k "CHR '' '' # v"] assms trim_blank by (simp add: add_header_def)

lemma digit_no_space: "is_digit c \<Longrightarrow> \<not> is_space c"
  by (auto simp: is_digit_def is_space_def code_def)

lemma show_nat_ends: "\<not> is_space (hd (show_nat n))" "\<not> is_space (last (show_nat n))" "set (show_nat n) \<inter> {c. is_space c} = {}"
  using show_nat_digits [of n] digit_no_space by (auto simp: list_all_iff)

definition clean_host :: "string \<Rightarrow> bool" where
  "clean_host h \<longleftrightarrow> h \<noteq> [] \<and> list_all (\<lambda>c. \<not> is_space c) h"

lemma no_return: "list_all (\<lambda>c. \<not> is_space c) s \<Longrightarrow> CHR 0x0D \<notin> set s"
  by (auto simp: list_all_iff is_space_def code_def)

lemma show_int_no_space: "list_all (\<lambda>c. \<not> is_space c) (show_int i)"
proof -
  have "list_all (\<lambda>c. \<not> is_space c) (show_nat n)" for n using show_nat_ends(3) by (auto simp: list_all_iff)
  then show ?thesis by (simp add: show_int_def is_space_def code_def)
qed

text \<open>The headers of the client, read one by one.\<close>

lemma sent_headers_read:
  assumes "host \<noteq> []" "\<not> is_space (hd host)" "\<not> is_space (last host)"
  shows "add_header hs (''Host: '' @ host) = obj_set ''host'' host hs"
    and "add_header hs (''Content-Length: '' @ show_nat n) = obj_set ''content-length'' (show_nat n) hs"
    and "add_header hs ''User-Agent: TorE2EE-Client/0.1'' = obj_set ''user-agent'' ''TorE2EE-Client/0.1'' hs"
    and "add_header hs ''Connection: close'' = obj_set ''connection'' ''close'' hs"
    and "add_header hs ''Content-Type: application/json'' = obj_set ''content-type'' ''application/json'' hs"
proof -
  have names: "toLowerCase (trim ''Host'') = ''host''" "toLowerCase (trim ''Content-Length'') = ''content-length''"
    "toLowerCase (trim ''User-Agent'') = ''user-agent''" "toLowerCase (trim ''Connection'') = ''connection''"
    "toLowerCase (trim ''Content-Type'') = ''content-type''" by code_simp+
  show "add_header hs (''Host: '' @ host) = obj_set ''host'' host hs"
    using add_header_line [of "''Host''" "''host''" host hs] assms by (simp add: names)
  show "add_header hs (''Content-Length: '' @ show_nat n) = obj_set ''content-length'' (show_nat n) hs"
    using add_header_line [of "''Content-Length''" "''content-length''" "show_nat n" hs] show_nat_ends
    by (simp add: names)
  show "add_header hs ''User-Agent: TorE2EE-Client/0.1'' = obj_set ''user-agent'' ''TorE2EE-Client/0.1'' hs"
    "add_header hs ''Connection: close'' = obj_set ''connection'' ''close'' hs"
    "add_header hs ''Content-Type: application/json'' = obj_set ''content-type'' ''application/json'' hs"
    using add_header_line [of "''User-Agent''" "''user-agent''" "''TorE2EE-Client/0.1''" hs]
      add_header_line [of "''Connection''" "''connection''" "''close''" hs]
      add_header_line [of "''Content-Type''" "''content-type''" "''application/json''" hs]
    by (simp_all add: names is_space_def code_def)
qed

definition demo_http :: tor_config where
  "demo_http = \<lparr>socksProxyHost = ''127.0.0.1'', socksProxyPort = 9050, targetHost = ''abc.onion'', targetPort = 80,
     devMode = False\<rparr>"

text \<open>What \<open>sendMessage\<close> writes is read by a relay as one POST request whose headers give the host and
  the exact byte length of the body, and whose body is the JSON text of the envelope.\<close>

lemma post_read:
  assumes "clean_host (targetHost cfg)"
  shows "\<exists>body. read_request (string_of_bytes (concat (sendMessage_writes cfg envelope))) =
       Some (''POST /api/v1/message HTTP/1.1'',
         [(''host'', targetHost cfg @ '':'' @ show_int (targetPort cfg)), (''user-agent'', ''TorE2EE-Client/0.1''),
          (''connection'', ''close''), (''content-type'', ''application/json''), (''content-length'', show_nat (length body))],
         body) \<and>
     JSON_parse body = Inr (json_of_envelope envelope)"
proof (intro exI conjI)
  let ?body = "JSON_stringify (json_of_envelope envelope)"
  let ?host = "targetHost cfg @ '':'' @ show_int (targetPort cfg)"
  let ?ls = "[''POST /api/v1/message HTTP/1.1'', ''Host: '' @ ?host, ''User-Agent: TorE2EE-Client/0.1'',
     ''Connection: close'', ''Content-Type: application/json'', ''Content-Length: '' @ show_nat (length ?body)]"
  show "JSON_parse ?body = Inr (json_of_envelope envelope)"
    by (rule JSON_parse_stringify) (simp add: json_of_envelope_def)
  have body: "truthy (Some ?body)" by (simp add: json_of_envelope_def JSON_stringify_def)
  have "request_headers cfg (Some ?body) [(''Content-Type'', ''application/json'')] =
    [(''Host'', ?host), (''User-Agent'', ''TorE2EE-Client/0.1''), (''Connection'', ''close''),
     (''Content-Type'', ''application/json''), (''Content-Length'', show_nat (length ?body))]"
    using body by (simp add: request_headers_def obj_set_def text_encode_def)
  then have wire: "string_of_bytes (concat (sendMessage_writes cfg envelope)) = join_lines ?ls @ crlf @ crlf @ ?body"
    using body by (simp add: sendMessage_writes_def request_writes_def request_text_def header_line_def text_encode_def
        flip: bytes_of_string_append)
  have host: "list_all (\<lambda>c. \<not> is_space c) ?host" "?host \<noteq> []"
    using assms show_int_no_space by (auto simp: clean_host_def is_space_def code_def)
  have num: "list_all (\<lambda>c. \<not> is_space c) (show_nat n)" for n using show_nat_ends(3) by (auto simp: list_all_iff)
  have plain: "list_all plain_line ?ls"
    using no_return [OF host(1)] no_return [OF num] by (simp add: plain_line_def)
  have ends: "\<not> is_space (hd ?host)" "\<not> is_space (last ?host)"
    using host list.set_sel(1) [OF host(2)] last_in_set [OF host(2)] by (auto simp: list_all_iff)
  then show "read_request (string_of_bytes (concat (sendMessage_writes cfg envelope))) =
       Some (''POST /api/v1/message HTTP/1.1'',
         [(''host'', ?host), (''user-agent'', ''TorE2EE-Client/0.1''),
          (''connection'', ''close''), (''content-type'', ''application/json''), (''content-length'', show_nat (length ?body))],
         ?body)"
    using blank_line_found [OF plain, of ?body] split_join_lines [OF plain] sent_headers_read [OF host(2) ends]
    by (simp add: read_request_def wire obj_set_def)
qed

lemma demo_post_read:
  "\<exists>body. read_request (string_of_bytes (concat (sendMessage_writes demo_http
        \<lparr>oe_recipient_pubkey_hash = ''aa'', oe_encrypted_payload = ''{}'', oe_nonce = ''00''\<rparr>))) =
       Some (''POST /api/v1/message HTTP/1.1'',
         [(''host'', ''abc.onion:80''), (''user-agent'', ''TorE2EE-Client/0.1''),
          (''connection'', ''close''), (''content-type'', ''application/json''), (''content-length'', show_nat (length body))], body)"
proof -
  have "clean_host (targetHost demo_http)" by (simp add: clean_host_def demo_http_def is_space_def code_def)
  moreover have "targetHost demo_http @ '':'' @ show_int (targetPort demo_http) = ''abc.onion:80''"
    by code_simp
  ultimately show ?thesis using post_read [of demo_http] by (simp, metis)
qed

end
