(* ===== verification/Http_Tunnel.thy ===== *)
theory Http_Tunnel
  imports Socks5 Http_Client
begin

section \<open>A request through the tunnel\<close>

text \<open>
  \<open>TorHttpClient.rawRequest\<close> as a whole: the socket is dialled, directly in \<open>devMode\<close> and by
  \<open>Socks5Tunnel.connectViaSocks5\<close> otherwise, and the exchange runs on the socket it gives. The events are those of
  the one socket and of the timer that is running; what the dialling listens to and what the exchange listens to follows
  from the phase. A direct connection has no timer while it is dialled.
\<close>

datatype socket_event = Connected | Received bytes | Ended | Failed string | TimeIsUp

datatype phase =
  Dialling
| Tunnelling socks_conn
| Exchanging http_exchange
| NotConnected exn

record raw_request =
  rr_phase :: phase
  rr_written :: "bytes list"

definition start_request :: "tor_config \<Rightarrow> raw_request" where
  "start_request cfg = \<lparr>rr_phase = (if devMode cfg then Dialling else Tunnelling new_socks), rr_written = []\<rparr>"

fun socks_listens :: "socket_event \<Rightarrow> socks_event option" where
  "socks_listens Connected = Some OnConnect"
| "socks_listens (Received data) = Some (OnData data)"
| "socks_listens Ended = None"
| "socks_listens (Failed msg) = Some (OnError msg)"
| "socks_listens TimeIsUp = Some OnTimeout"

fun exchange_listens :: "socket_event \<Rightarrow> http_event option" where
  "exchange_listens Connected = None"
| "exchange_listens (Received data) = Some (HData data)"
| "exchange_listens Ended = Some HEnd"
| "exchange_listens (Failed msg) = Some (HError (Error msg))"
| "exchange_listens TimeIsUp = Some HTimeout"

text \<open>The request is written as soon as there is a socket.\<close>

definition begin_exchange :: "bytes list \<Rightarrow> raw_request \<Rightarrow> raw_request" where
  "begin_exchange writes r = \<lparr>rr_phase = Exchanging new_exchange, rr_written = rr_written r @ writes\<rparr>"

definition dial_step :: "bytes list \<Rightarrow> socket_event \<Rightarrow> raw_request \<Rightarrow> raw_request" where
  "dial_step writes ev r =
     (case ev of Connected \<Rightarrow> begin_exchange writes r
      | Failed msg \<Rightarrow> r\<lparr>rr_phase := NotConnected (Error msg)\<rparr>
      | _ \<Rightarrow> r)"

definition tunnel_step :: "tor_config \<Rightarrow> int \<Rightarrow> bytes list \<Rightarrow> socks_event \<Rightarrow> socks_conn \<Rightarrow> raw_request" where
  "tunnel_step cfg timeoutMs writes ev s =
     (let s' = socks_step (targetHost cfg) (targetPort cfg) timeoutMs ev s; r = \<lparr>rr_phase = Tunnelling s', rr_written = sc_written s'\<rparr> in
      case sc_result s' of Pending \<Rightarrow> r
      | Resolved _ \<Rightarrow> begin_exchange writes r
      | Rejected e \<Rightarrow> r\<lparr>rr_phase := NotConnected e\<rparr>)"

definition request_step :: "tor_config \<Rightarrow> int \<Rightarrow> bytes list \<Rightarrow> socket_event \<Rightarrow> raw_request \<Rightarrow> raw_request" where
  "request_step cfg timeoutMs writes ev r =
     (case rr_phase r of
        Dialling \<Rightarrow> dial_step writes ev r
      | Tunnelling s \<Rightarrow> (case socks_listens ev of None \<Rightarrow> r | Some e \<Rightarrow> tunnel_step cfg timeoutMs writes e s)
      | Exchanging h \<Rightarrow> (case exchange_listens ev of None \<Rightarrow> r | Some e \<Rightarrow> r\<lparr>rr_phase := Exchanging (http_step timeoutMs e h)\<rparr>)
      | NotConnected e \<Rightarrow> r)"

definition request_run :: "tor_config \<Rightarrow> int \<Rightarrow> bytes list \<Rightarrow> socket_event list \<Rightarrow> raw_request" where
  "request_run cfg timeoutMs writes events = fold (request_step cfg timeoutMs writes) events (start_request cfg)"

definition request_result :: "raw_request \<Rightarrow> http_response promise" where
  "request_result r =
     (case rr_phase r of Exchanging h \<Rightarrow> he_result h | NotConnected e \<Rightarrow> Rejected e | _ \<Rightarrow> Pending)"

text \<open>\<open>sendMessage\<close>: the promise of its caller and what was written. It leaves the time to the default.\<close>

definition sendMessage_run :: "tor_config \<Rightarrow> outgoing_envelope \<Rightarrow> socket_event list \<Rightarrow> json promise \<times> bytes list" where
  "sendMessage_run cfg envelope events =
     (let r = request_run cfg 20000 (sendMessage_writes cfg envelope) events
      in (case request_result r of Pending \<Rightarrow> Pending
          | Rejected e \<Rightarrow> Rejected e
          | Resolved resp \<Rightarrow> (case sendMessage_result (Inr resp) of Inr j \<Rightarrow> Resolved j | Inl e \<Rightarrow> Rejected e),
          rr_written r))"

subsection \<open>The phases\<close>

lemma exchange_run:
  assumes "rr_phase r = Exchanging h"
  shows "rr_phase (fold (request_step cfg tm w) (map Received cs) r) = Exchanging (fold (http_step tm) (map HData cs) h) \<and>
     rr_written (fold (request_step cfg tm w) (map Received cs) r) = rr_written r"
  using assms
proof (induction cs arbitrary: r h)
  case (Cons c cs)
  then have "request_step cfg tm w (Received c) r = r\<lparr>rr_phase := Exchanging (http_step tm (HData c) h)\<rparr>"
    by (simp add: request_step_def)
  then show ?case using Cons.IH [of "r\<lparr>rr_phase := Exchanging (http_step tm (HData c) h)\<rparr>" "http_step tm (HData c) h"] by simp
qed simp

text \<open>The proxy accepts the method and the connection; then the response comes in any chunks.\<close>

lemma tunnel_accepted:
  assumes "\<not> devMode cfg" "verifyAuthResponse d1 = Inr ()" "verifyConnectResponse d2 = Inr ()"
  shows "request_run cfg tm w [Connected, Received d1, Received d2] =
     \<lparr>rr_phase = Exchanging new_exchange, rr_written = [buildAuthRequest, buildConnectRequest (targetHost cfg) (targetPort cfg)] @ w\<rparr>"
  using assms by (simp add: request_run_def start_request_def request_step_def tunnel_step_def new_socks_def begin_exchange_def Let_def)

lemma tunnelled_answer:
  assumes "\<not> devMode cfg" "verifyAuthResponse d1 = Inr ()" "verifyConnectResponse d2 = Inr ()"
  shows "request_result (request_run cfg tm w ([Connected, Received d1, Received d2] @ map Received cs)) = he_result (rawRequest tm (map HData cs))"
    "rr_written (request_run cfg tm w ([Connected, Received d1, Received d2] @ map Received cs)) =
       [buildAuthRequest, buildConnectRequest (targetHost cfg) (targetPort cfg)] @ w"
proof -
  let ?r = "request_run cfg tm w [Connected, Received d1, Received d2]"
  have "request_run cfg tm w ([Connected, Received d1, Received d2] @ map Received cs) = fold (request_step cfg tm w) (map Received cs) ?r"
    by (simp add: request_run_def)
  then show "request_result (request_run cfg tm w ([Connected, Received d1, Received d2] @ map Received cs)) = he_result (rawRequest tm (map HData cs))"
    "rr_written (request_run cfg tm w ([Connected, Received d1, Received d2] @ map Received cs)) =
       [buildAuthRequest, buildConnectRequest (targetHost cfg) (targetPort cfg)] @ w"
    using exchange_run [of ?r new_exchange cfg tm w cs] tunnel_accepted [OF assms, of tm w]
    by (simp_all add: request_result_def rawRequest_def)
qed

text \<open>C17. Posting a message through Tor, from the first byte to the answer: the proxy is asked for the host and port of the relay, the
  relay reads one POST request whose body is the envelope, and when its answer with status 200 has arrived, cut into
  chunks in any way, the caller gets the JSON value of the answer.\<close>

theorem message_posted_through_tor:
  assumes "\<not> devMode cfg" "clean_host (targetHost cfg)" "\<not> is_ipv4 (targetHost cfg)" "length (text_encode (targetHost cfg)) < 256"
    and "0 \<le> targetPort cfg" "targetPort cfg < 65536"
    and "verifyAuthResponse d1 = Inr ()" "verifyConnectResponse d2 = Inr ()"
    and "split_at (crlf @ crlf) t = Some (hdr, body)" "find_content_length hdr = Some (length body)"
    and "parseHttpResponse t (Some (length body)) = Inr resp" "hr_status resp = 200" "JSON_parse (trim (hr_body resp)) = Inr answer"
    and "string_of_bytes (concat cs) = t" "list_all (\<lambda>c. code c < 128) t"
  shows "\<exists>c writes sent. sendMessage_run cfg envelope ([Connected, Received d1, Received d2] @ map Received cs) =
       (Resolved answer, [buildAuthRequest, c] @ writes) \<and>
     parse_request c = Some ((Domain (text_encode (targetHost cfg)), nat (targetPort cfg)), []) \<and>
     read_request (string_of_bytes (concat writes)) = Some (''POST /api/v1/message HTTP/1.1'',
         [(''host'', targetHost cfg @ '':'' @ show_int (targetPort cfg)), (''user-agent'', ''TorE2EE-Client/0.1''),
          (''connection'', ''close''), (''content-type'', ''application/json''), (''content-length'', show_nat (length sent))], sent) \<and>
     JSON_parse sent = Inr (json_of_envelope envelope)"
proof -
  let ?w = "sendMessage_writes cfg envelope" and ?es = "[Connected, Received d1, Received d2] @ map Received cs"
  note run = tunnelled_answer [OF assms(1,7,8), of 20000 ?w cs]
  have "request_result (request_run cfg 20000 ?w ?es) = Resolved resp"
    using response_resolved [OF assms(9-11,14,15)] run(1) by simp
  then have "sendMessage_run cfg envelope ?es =
      (Resolved answer, [buildAuthRequest, buildConnectRequest (targetHost cfg) (targetPort cfg)] @ ?w)"
    using run(2) assms(12,13) by (simp add: sendMessage_run_def sendMessage_result_def Let_def)
  moreover have "parse_request (buildConnectRequest (targetHost cfg) (targetPort cfg)) =
      Some ((Domain (text_encode (targetHost cfg)), nat (targetPort cfg)), [])"
    using domain_request_read [OF assms(3-6)] .
  ultimately show ?thesis using post_read [OF assms(2), of envelope] by blast
qed

text \<open>A proxy that accepts, and a relay that answers \<open>true\<close>.\<close>

theorem message_posted_through_tor_witness:
  "\<exists>c writes. sendMessage_run demo_http \<lparr>oe_recipient_pubkey_hash = ''aa'', oe_encrypted_payload = ''{}'', oe_nonce = ''00''\<rparr>
       ([Connected, Received [5, 0], Received [5, 0, 0, 1, 0, 0, 0, 0, 0, 0]] @ map Received demo_chunks) =
       (Resolved (JBool True), [buildAuthRequest, c] @ writes) \<and>
     parse_request c = Some ((Domain (text_encode ''abc.onion''), 80), [])"
proof -
  let ?d1 = "[5, 0] :: bytes" and ?d2 = "[5, 0, 0, 1, 0, 0, 0, 0, 0, 0] :: bytes"
  have cfg: "\<not> devMode demo_http" "targetHost demo_http = ''abc.onion''" "targetPort demo_http = 80" by (simp_all add: demo_http_def)
  have "split_on CHR ''.'' ''abc.onion'' = [''abc'', ''onion'']" by simp
  then have host: "clean_host ''abc.onion''" "\<not> is_ipv4 ''abc.onion''" "length (text_encode ''abc.onion'') < 256"
    by (simp_all add: clean_host_def is_space_def code_def is_ipv4_def text_encode_def)
  have d: "verifyAuthResponse ?d1 = Inr ()" "verifyConnectResponse ?d2 = Inr ()"
    by (simp_all add: verifyAuthResponse_def verifyConnectResponse_def socks_consts Let_def)
  have a: "JSON_parse (trim (hr_body \<lparr>hr_status = 200, hr_statusText = ''OK'', hr_headers = [(''content-length'', ''4'')], hr_body = ''true''\<rparr>)) =
      Inr (JBool True)" by code_simp
  from message_posted_through_tor [OF cfg(1), unfolded cfg(2,3), OF host _ _ d demo_response(1-3) _ a demo_chunks demo_response(4)]
  show ?thesis by (simp, metis)
qed

subsection \<open>A request settles\<close>

text \<open>The relay closed the connection before it had sent anything.\<close>

definition ended_early :: "tor_config \<Rightarrow> int \<Rightarrow> bytes list \<Rightarrow> socket_event list \<Rightarrow> bool" where
  "ended_early cfg tm w es \<longleftrightarrow>
     (\<exists>before after h. es = before @ Ended # after \<and> rr_phase (request_run cfg tm w before) = Exchanging h \<and> he_raw h = [])"

definition waits_for_timer :: "tor_config \<Rightarrow> int \<Rightarrow> bytes list \<Rightarrow> socket_event list \<Rightarrow> bool" where
  "waits_for_timer cfg tm w es \<longleftrightarrow>
     (case rr_phase (request_run cfg tm w es) of Dialling \<Rightarrow> False
      | Tunnelling s \<Rightarrow> sc_result s = Pending \<and> sc_timer s
      | Exchanging h \<Rightarrow> he_timer h \<or> he_result h \<noteq> Pending \<or> he_uncaught h \<noteq> None \<or> ended_early cfg tm w es
      | NotConnected e \<Rightarrow> True)"

lemma request_run_snoc: "request_run cfg tm w (es @ [e]) = request_step cfg tm w e (request_run cfg tm w es)"
  by (simp add: request_run_def)

lemma ended_early_snoc: "ended_early cfg tm w es \<Longrightarrow> ended_early cfg tm w (es @ [e])"
  unfolding ended_early_def by fastforce

lemma socks_waits: "sc_result s = Pending \<Longrightarrow> sc_timer s \<Longrightarrow> sc_result (socks_step h p tm e s) = Pending \<Longrightarrow> sc_timer (socks_step h p tm e s)"
  by (cases e) (auto simp: socks_fail_def split: stage.splits sum.splits if_splits)

lemma exchange_waits:
  assumes "he_timer h \<or> he_result h \<noteq> Pending \<or> he_uncaught h \<noteq> None" "e = HEnd \<longrightarrow> he_raw h \<noteq> []"
  shows "he_timer (http_step tm e h) \<or> he_result (http_step tm e h) \<noteq> Pending \<or> he_uncaught (http_step tm e h) \<noteq> None"
  using assms by (cases e) (auto simp: on_http_data_def Let_def settle_def split: option.splits sum.splits promise.splits)

lemma request_waits: "\<not> devMode cfg \<Longrightarrow> waits_for_timer cfg tm w es"
proof (induction es rule: rev_induct)
  case Nil
  then show ?case by (simp add: waits_for_timer_def request_run_def start_request_def new_socks_def)
next
  case (snoc e es)
  let ?r = "request_run cfg tm w es"
  have i: "waits_for_timer cfg tm w es" using snoc by blast
  show ?case
  proof (cases "rr_phase ?r")
    case (Tunnelling s)
    then have "sc_result s = Pending" "sc_timer s" using i by (simp_all add: waits_for_timer_def)
    then show ?thesis using Tunnelling socks_waits [of s]
      by (auto simp: waits_for_timer_def request_run_snoc request_step_def tunnel_step_def begin_exchange_def new_exchange_def Let_def
          split: option.splits promise.splits)
  next
    case (Exchanging h)
    show ?thesis
    proof (cases "e = Ended \<and> he_raw h = []")
      case True
      then have "ended_early cfg tm w (es @ [e])" unfolding ended_early_def using Exchanging by blast
      then show ?thesis using Exchanging by (simp add: waits_for_timer_def request_run_snoc request_step_def split: option.split)
    next
      case False
      show ?thesis
      proof (cases "exchange_listens e")
        case None
        then show ?thesis using Exchanging i ended_early_snoc [of cfg tm w es e]
          by (auto simp: waits_for_timer_def request_run_snoc request_step_def)
      next
        case (Some x)
        have p: "rr_phase (request_run cfg tm w (es @ [e])) = Exchanging (http_step tm x h)"
          using Exchanging Some by (simp add: request_run_snoc request_step_def)
        have "x = HEnd \<longrightarrow> he_raw h \<noteq> []" using False Some by (cases e) auto
        then have "he_timer (http_step tm x h) \<or> he_result (http_step tm x h) \<noteq> Pending \<or> he_uncaught (http_step tm x h) \<noteq> None
            \<or> ended_early cfg tm w (es @ [e])"
          using i Exchanging exchange_waits [of h x tm] ended_early_snoc [of cfg tm w es e]
          unfolding waits_for_timer_def by (simp only: phase.case) blast
        then show ?thesis unfolding waits_for_timer_def p by (simp only: phase.case)
      qed
    qed
  qed (use i in \<open>simp_all add: waits_for_timer_def request_run_snoc request_step_def\<close>)
qed

lemma time_up_after_end:
  "rr_phase r = Exchanging h \<Longrightarrow> \<not> he_timer h \<Longrightarrow> fold (request_step cfg tm w) (replicate k TimeIsUp) r = r"
proof (induction k)
  case (Suc k)
  have "request_step cfg tm w TimeIsUp r = r" using Suc.prems by (cases r) (simp add: request_step_def)
  then show ?case using Suc by simp
qed simp

text \<open>C39. A request through Tor settles: whatever the socket does, once the time of its phase is up the promise is resolved or
  rejected, but for two cases. The relay closed the connection before it had sent anything, or the listener threw on
  a response it cannot parse. The first case does leave the caller waiting for ever: the end of the stream clears the timer.\<close>

theorem request_settles:
  assumes "\<not> devMode cfg"
  shows "(request_result (request_run cfg tm w (es @ [TimeIsUp])) \<noteq> Pending \<or> ended_early cfg tm w es \<or>
       (\<exists>h. rr_phase (request_run cfg tm w es) = Exchanging h \<and> he_uncaught h \<noteq> None)) \<and>
     (verifyAuthResponse d1 = Inr () \<and> verifyConnectResponse d2 = Inr () \<longrightarrow>
       request_result (request_run cfg tm w ([Connected, Received d1, Received d2, Ended] @ replicate k TimeIsUp)) = Pending)"
proof (intro conjI impI)
  have "waits_for_timer cfg tm w es" using request_waits [OF assms] .
  then show "request_result (request_run cfg tm w (es @ [TimeIsUp])) \<noteq> Pending \<or> ended_early cfg tm w es \<or>
       (\<exists>h. rr_phase (request_run cfg tm w es) = Exchanging h \<and> he_uncaught h \<noteq> None)"
    by (auto simp: waits_for_timer_def request_run_snoc request_step_def tunnel_step_def request_result_def settle_def Let_def
        split: phase.splits promise.splits)
next
  assume "verifyAuthResponse d1 = Inr () \<and> verifyConnectResponse d2 = Inr ()"
  then have "rr_phase (request_run cfg tm w ([Connected, Received d1, Received d2] @ [Ended])) = Exchanging (new_exchange\<lparr>he_timer := False\<rparr>)"
    using tunnel_accepted [OF assms] by (simp only: request_run_snoc) (simp add: request_step_def new_exchange_def)
  then show "request_result (request_run cfg tm w ([Connected, Received d1, Received d2, Ended] @ replicate k TimeIsUp)) = Pending"
    using time_up_after_end [of "request_run cfg tm w [Connected, Received d1, Received d2, Ended]" _ cfg tm w k]
    by (simp add: request_run_def request_result_def new_exchange_def)
qed

theorem request_settles_witness:
  "request_result (request_run demo_http 20000 [] ([Connected, Received [5, 0], Received [5, 0, 0, 1, 0, 0, 0, 0, 0, 0], Ended] @ replicate 3 TimeIsUp)) = Pending"
proof -
  have "verifyAuthResponse [5, 0] = Inr () \<and> verifyConnectResponse [5, 0, 0, 1, 0, 0, 0, 0, 0, 0] = Inr ()"
    by (simp add: verifyAuthResponse_def verifyConnectResponse_def socks_consts Let_def)
  moreover have "\<not> devMode demo_http" by (simp add: demo_http_def)
  ultimately show ?thesis using request_settles by blast
qed

end
