(* ===== verification/Tor_Manager.thy ===== *)
theory Tor_Manager
  imports Ws_Client
begin

section \<open>The Tor daemon\<close>

text \<open>
  \<open>client/src/network/TorManager.ts\<close>: the singleton that starts and stops the daemon. The native
  module is a parameter: absent, or present with the outcome of \<open>startIfNotStarted\<close>. What the
  progress callback is told is a list.
\<close>

datatype tor_status = NOT_INITIALIZED | BOOTSTRAPPING | READY | ERROR | STOPPED

record bootstrap_progress =
  bp_percentage :: int
  bp_summary :: string
  bp_isReady :: bool
  bp_error :: "string option"

text \<open>A \<open>Partial<TorConfig>\<close>: the members that are present.\<close>

record partial_config =
  pc_socksProxyHost :: "string option"
  pc_socksProxyPort :: "int option"
  pc_targetHost :: "string option"
  pc_targetPort :: "int option"
  pc_devMode :: "bool option"

record tor_manager =
  tm_status :: tor_status
  tm_config :: tor_config
  tm_percentage :: int
  tm_native :: bool

definition or_text :: "string option \<Rightarrow> string \<Rightarrow> string" where
  "or_text o1 d = (if truthy o1 then the o1 else d)"

definition or_int :: "int option \<Rightarrow> int \<Rightarrow> int" where
  "or_int o1 d = (case o1 of Some i \<Rightarrow> if i \<noteq> 0 then i else d | None \<Rightarrow> d)"

definition default_config :: "partial_config \<Rightarrow> tor_config" where
  "default_config c =
     \<lparr>socksProxyHost = or_text (pc_socksProxyHost c) ''127.0.0.1'', socksProxyPort = or_int (pc_socksProxyPort c) 9050,
      targetHost = or_text (pc_targetHost c) ''127.0.0.1'', targetPort = or_int (pc_targetPort c) 8080,
      devMode = (case pc_devMode c of Some b \<Rightarrow> b | None \<Rightarrow> False)\<rparr>"

definition no_config :: partial_config where
  "no_config = \<lparr>pc_socksProxyHost = None, pc_socksProxyPort = None, pc_targetHost = None, pc_targetPort = None, pc_devMode = None\<rparr>"

definition new_TorManager :: "partial_config option \<Rightarrow> tor_manager" where
  "new_TorManager co =
     \<lparr>tm_status = NOT_INITIALIZED, tm_config = default_config (case co of Some c \<Rightarrow> c | None \<Rightarrow> no_config),
      tm_percentage = 0, tm_native = False\<rparr>"

definition given :: "'a option \<Rightarrow> 'a \<Rightarrow> 'a" where
  "given o1 a = (case o1 of Some b \<Rightarrow> b | None \<Rightarrow> a)"

definition updateConfig :: "partial_config \<Rightarrow> tor_manager \<Rightarrow> tor_manager" where
  "updateConfig c m =
     m\<lparr>tm_config := \<lparr>socksProxyHost = given (pc_socksProxyHost c) (socksProxyHost (tm_config m)),
        socksProxyPort = given (pc_socksProxyPort c) (socksProxyPort (tm_config m)),
        targetHost = given (pc_targetHost c) (targetHost (tm_config m)),
        targetPort = given (pc_targetPort c) (targetPort (tm_config m)),
        devMode = given (pc_devMode c) (devMode (tm_config m))\<rparr>\<rparr>"

text \<open>The static field \<open>instance\<close> is the argument; the manager returned is its new value.\<close>

definition getInstance :: "partial_config option \<Rightarrow> tor_manager option \<Rightarrow> tor_manager" where
  "getInstance co inst =
     (case inst of None \<Rightarrow> new_TorManager co
      | Some m \<Rightarrow> (case co of Some c \<Rightarrow> updateConfig c m | None \<Rightarrow> m))"

definition isReady :: "tor_manager \<Rightarrow> bool" where
  "isReady m \<longleftrightarrow> tm_status m = READY"

definition ready_progress :: "string \<Rightarrow> bootstrap_progress" where
  "ready_progress s = \<lparr>bp_percentage = 100, bp_summary = s, bp_isReady = True, bp_error = None\<rparr>"

definition startTor ::
  "unit res option \<Rightarrow> tor_manager \<Rightarrow> (bool res \<times> bootstrap_progress list) \<times> tor_manager" where
  "startTor native m =
     (if tm_status m = READY then ((Inr True, [ready_progress ''Tor is already running and ready.'']), m)
      else if devMode (tm_config m) then
        ((Inr True, [ready_progress ''Dev Mode: Tor simulated ready.'']), m\<lparr>tm_percentage := 100, tm_status := READY\<rparr>)
      else
        let m1 = m\<lparr>tm_status := BOOTSTRAPPING\<rparr> in
        case native of
          None \<Rightarrow>
            ((Inr True, [ready_progress (''Connected to Tor SOCKS5 daemon at '' @ socksProxyHost (tm_config m) @ '':''
                @ show_int (socksProxyPort (tm_config m)))]), m1\<lparr>tm_percentage := 100, tm_status := READY\<rparr>)
        | Some r \<Rightarrow>
            let m2 = m1\<lparr>tm_native := True\<rparr>;
                p1 = \<lparr>bp_percentage = 10, bp_summary = ''Starting Tor daemon binary...'', bp_isReady = False, bp_error = None\<rparr> in
            (case r of
               Inr _ \<Rightarrow> ((Inr True, [p1, ready_progress ''Tor bootstrap complete. Circuit established.'']),
                          m2\<lparr>tm_percentage := 100, tm_status := READY\<rparr>)
             | Inl e \<Rightarrow>
                 ((Inl (Error (''Tor startup failed: '' @ exn_message e)),
                   [p1, \<lparr>bp_percentage = tm_percentage m2, bp_summary = ''Tor bootstrap failed: '' @ exn_message e,
                         bp_isReady = False, bp_error = Some (exn_message e)\<rparr>]),
                  m2\<lparr>tm_status := ERROR\<rparr>)))"

text \<open>An exception of the native \<open>stop\<close> is swallowed.\<close>

definition stopTor :: "tor_manager \<Rightarrow> tor_manager" where
  "stopTor m = m\<lparr>tm_status := STOPPED, tm_percentage := 0\<rparr>"

text \<open>\<open>startTor\<close> returns true exactly when the manager is ready afterwards and the last progress report
  says so; otherwise it throws and the manager is in the state \<open>ERROR\<close>. A stopped manager is not ready
  and a later start runs the daemon again.\<close>

theorem startTor_outcome:
  "\<exists>r ps m'. startTor native m = ((r, ps), m') \<and> ps \<noteq> [] \<and>
     (r = Inr True \<longleftrightarrow> isReady m') \<and> (r = Inr True \<longleftrightarrow> bp_isReady (last ps)) \<and>
     ((\<exists>e. r = Inl e) \<longleftrightarrow> tm_status m' = ERROR) \<and>
     \<not> isReady (stopTor m') \<and>
     fst (fst (startTor (Some (Inl e0)) (stopTor m'))) =
       (if devMode (tm_config m) then Inr True else Inl (Error (''Tor startup failed: '' @ exn_message e0)))"
proof -
  obtain r ps m' where s: "startTor native m = ((r, ps), m')" by (metis surj_pair)
  have cfg: "tm_config m' = tm_config m" "tm_status m' = READY \<or> tm_status m' = ERROR"
    using s by (auto simp: startTor_def Let_def split: if_splits option.splits sum.splits)
  have "ps \<noteq> [] \<and> (r = Inr True \<longleftrightarrow> isReady m') \<and> (r = Inr True \<longleftrightarrow> bp_isReady (last ps)) \<and>
     ((\<exists>e. r = Inl e) \<longleftrightarrow> tm_status m' = ERROR)"
    using s by (auto simp: startTor_def isReady_def ready_progress_def Let_def split: if_splits option.splits sum.splits)
  moreover have "fst (fst (startTor (Some (Inl e0)) (stopTor m'))) =
       (if devMode (tm_config m) then Inr True else Inl (Error (''Tor startup failed: '' @ exn_message e0)))"
    using cfg by (simp add: startTor_def stopTor_def Let_def)
  moreover have "\<not> isReady (stopTor m')" by (simp add: stopTor_def isReady_def)
  ultimately show ?thesis using s by blast
qed

end
