(* ===== verification/Repositories.thy ===== *)
theory Repositories
  imports Sqlite_Store
begin

section \<open>Contacts and messages\<close>

text \<open>
  \<open>client/src/storage/ContactRepository.ts\<close> and \<open>MessageRepository.ts\<close> as statements on the tables
  of \<open>Database\<close>. The repositories are given the manager; every method runs on \<open>db_manager\<close>. A
  list of linked devices is stored as JSON text. The foreign key makes \<open>saveMessage\<close> throw for an
  unknown contact and \<open>deleteContact\<close> throw while the contact has messages.
\<close>

subsection \<open>Records\<close>

record device_record =
  dr_deviceId :: int
  dr_recipientPubkeyHash :: hex
  dr_identityPubkeyHex :: hex
  dr_deviceName :: "string option"
  dr_createdAt :: int

record own_device_record =
  or_deviceId :: int
  or_deviceName :: string
  or_recipientPubkeyHash :: hex
  or_identityPubkeyHex :: hex
  or_createdAt :: int

record contact_record =
  cr_recipientPubkeyHash :: hex
  cr_identityPubkeyHex :: hex
  cr_signingPubkeyHex :: hex
  cr_alias :: "string option"
  cr_createdAt :: int
  cr_linkedDevices :: "device_record list option"

datatype delivery_status = pending | sent_st | delivered | failed

record stored_message =
  sm_id :: string
  sm_contactPubkeyHash :: hex
  sm_senderIdentityHex :: hex
  sm_recipientIdentityHex :: hex
  sm_body :: string
  sm_timestamp :: int
  sm_isOutgoing :: bool
  sm_isRead :: bool
  sm_deliveryStatus :: delivery_status

subsection \<open>Linked devices as JSON\<close>

definition json_of_device :: "device_record \<Rightarrow> json" where
  "json_of_device d =
     JObj ([(''deviceId'', JNum (dr_deviceId d)), (''recipientPubkeyHash'', JStr (dr_recipientPubkeyHash d)),
            (''identityPubkeyHex'', JStr (dr_identityPubkeyHex d))]
           @ opt_member ''deviceName'' JStr (dr_deviceName d)
           @ [(''createdAt'', JNum (dr_createdAt d))])"

definition device_of_json :: "json \<Rightarrow> device_record res" where
  "device_of_json v =
     bindR (jget as_int v ''deviceId'') (\<lambda>i.
     bindR (jget as_str v ''recipientPubkeyHash'') (\<lambda>r.
     bindR (jget as_str v ''identityPubkeyHex'') (\<lambda>k.
     bindR (jget_opt as_str v ''deviceName'') (\<lambda>n.
     bindR (jget as_int v ''createdAt'') (\<lambda>t.
     Inr \<lparr>dr_deviceId = i, dr_recipientPubkeyHash = r, dr_identityPubkeyHex = k, dr_deviceName = n, dr_createdAt = t\<rparr>)))))"

fun devices_of_json :: "json list \<Rightarrow> device_record list res" where
  "devices_of_json [] = Inr []"
| "devices_of_json (v # vs) = bindR (device_of_json v) (\<lambda>d. bindR (devices_of_json vs) (\<lambda>ds. Inr (d # ds)))"

definition parse_devices :: "string \<Rightarrow> device_record list res" where
  "parse_devices s = bindR (JSON_parse s) (\<lambda>v. case v of JArr vs \<Rightarrow> devices_of_json vs | _ \<Rightarrow> Inl LibError)"

definition stringify_devices :: "device_record list \<Rightarrow> string" where
  "stringify_devices ds = JSON_stringify (JArr (map json_of_device ds))"

lemma device_json [simp]: "device_of_json (json_of_device d) = Inr d"
  by (simp add: device_of_json_def json_of_device_def opt_member_def split: option.splits)

lemma devices_json [simp]: "devices_of_json (map json_of_device ds) = Inr ds"
  by (induction ds) simp_all

lemma wf_device [simp]: "wf_json (json_of_device d)"
  by (simp add: json_of_device_def opt_member_def split: option.splits)

lemma wf_devices: "wf_elems (map json_of_device ds)"
  by (induction ds) simp_all

lemma parse_stringify_devices [simp]: "parse_devices (stringify_devices ds) = Inr ds"
  by (simp add: parse_devices_def stringify_devices_def JSON_parse_stringify wf_devices)

subsection \<open>ContactRepository\<close>

definition saveContact :: "contact_record \<Rightarrow> (db_manager, unit) M" where
  "saveContact c =
     (let linkedDevicesJson = stringify_devices (case cr_linkedDevices c of None \<Rightarrow> [] | Some ds \<Rightarrow> ds) in
      execute (modifyM (\<lambda>d. d\<lparr>contacts := upsert c_recipient_pubkey_hash merge_contact
        \<lparr>c_recipient_pubkey_hash = toLowerCase (cr_recipientPubkeyHash c),
         c_identity_pubkey_hex = toLowerCase (cr_identityPubkeyHex c),
         c_signing_pubkey_hex = toLowerCase (cr_signingPubkeyHex c),
         c_alias = cr_alias c, c_created_at = cr_createdAt c,
         c_linked_devices = Some linkedDevicesJson\<rparr> (contacts d)\<rparr>)))"

text \<open>
  \<open>mapRowToContact\<close>: text \<open>JSON.parse\<close> refuses counts as an empty list, and an empty list as the
  primary device. (The column holds what \<open>saveContact\<close> wrote; any other JSON value is treated like
  an empty list here.)
\<close>

definition primary_device :: "contact_row \<Rightarrow> device_record" where
  "primary_device row =
     \<lparr>dr_deviceId = 1, dr_recipientPubkeyHash = c_recipient_pubkey_hash row,
      dr_identityPubkeyHex = c_identity_pubkey_hex row, dr_deviceName = Some ''Primary Device'',
      dr_createdAt = c_created_at row\<rparr>"

definition mapRowToContact :: "contact_row \<Rightarrow> contact_record" where
  "mapRowToContact row =
     (let devices = (if truthy (c_linked_devices row)
                     then (case parse_devices (the (c_linked_devices row)) of Inr ds \<Rightarrow> ds | Inl _ \<Rightarrow> [])
                     else []);
          devices' = (if length devices = 0 then [primary_device row] else devices)
      in \<lparr>cr_recipientPubkeyHash = c_recipient_pubkey_hash row, cr_identityPubkeyHex = c_identity_pubkey_hex row,
          cr_signingPubkeyHex = c_signing_pubkey_hex row, cr_alias = c_alias row,
          cr_createdAt = c_created_at row, cr_linkedDevices = Some devices'\<rparr>)"

definition getContactByHash :: "hex \<Rightarrow> (db_manager, contact_record option) M" where
  "getContactByHash h =
     bindM (queryOne (\<lambda>d. select_key c_recipient_pubkey_hash (toLowerCase h) (contacts d)))
       (\<lambda>row. ret (map_option mapRowToContact row))"

definition getContactByIdentityKey :: "hex \<Rightarrow> (db_manager, contact_record option) M" where
  "getContactByIdentityKey k =
     bindM (queryOne (\<lambda>d. select_key c_identity_pubkey_hex (toLowerCase k) (contacts d)))
       (\<lambda>row. ret (map_option mapRowToContact row))"

definition listContacts :: "(db_manager, contact_record list) M" where
  "listContacts =
     bindM (query (\<lambda>d. order_by_desc c_created_at (contacts d))) (\<lambda>rows. ret (map mapRowToContact rows))"

definition addLinkedDevice :: "hex \<Rightarrow> device_record \<Rightarrow> (db_manager, unit) M" where
  "addLinkedDevice h device =
     bindM (getContactByHash h) (\<lambda>co.
     case co of None \<Rightarrow> throwM (Error (''Contact not found for hash: '' @ h))
     | Some c \<Rightarrow>
         let currentDevices = (case cr_linkedDevices c of None \<Rightarrow> [] | Some ds \<Rightarrow> ds);
             filtered = filter (\<lambda>d. dr_deviceId d \<noteq> dr_deviceId device) currentDevices @ [device]
         in saveContact (c\<lparr>cr_linkedDevices := Some filtered\<rparr>))"

definition getLinkedDevices :: "hex \<Rightarrow> (db_manager, device_record list) M" where
  "getLinkedDevices h =
     bindM (getContactByHash h) (\<lambda>co.
     ret (case co of None \<Rightarrow> [] | Some c \<Rightarrow> (case cr_linkedDevices c of None \<Rightarrow> [] | Some ds \<Rightarrow> ds)))"

definition updateAlias :: "hex \<Rightarrow> string option \<Rightarrow> (db_manager, unit) M" where
  "updateAlias h alias =
     execute (modifyM (\<lambda>d. d\<lparr>contacts := update_where (\<lambda>r. c_recipient_pubkey_hash r = toLowerCase h)
       (\<lambda>r. r\<lparr>c_alias := alias\<rparr>) (contacts d)\<rparr>))"

text \<open>The foreign key of \<open>messages\<close> refuses to delete a row it refers to.\<close>

definition deleteContact :: "hex \<Rightarrow> (db_manager, unit) M" where
  "deleteContact h =
     execute (\<lambda>d.
       if foreign_keys d \<and> toLowerCase h \<in> c_recipient_pubkey_hash ` set (contacts d) \<and>
          list_ex (\<lambda>r. m_contact_pubkey_hash r = toLowerCase h) (messages d)
       then (Inl LibError, d)
       else (Inr (), d\<lparr>contacts := delete_key c_recipient_pubkey_hash (toLowerCase h) (contacts d)\<rparr>))"

definition saveOwnLinkedDevice :: "own_device_record \<Rightarrow> (db_manager, unit) M" where
  "saveOwnLinkedDevice device =
     execute (modifyM (\<lambda>d. d\<lparr>own_linked_devices := upsert d_device_id merge_own_device
       \<lparr>d_device_id = or_deviceId device, d_device_name = or_deviceName device,
        d_recipient_pubkey_hash = toLowerCase (or_recipientPubkeyHash device),
        d_identity_pubkey_hex = toLowerCase (or_identityPubkeyHex device),
        d_created_at = or_createdAt device\<rparr> (own_linked_devices d)\<rparr>))"

definition own_device_of_row :: "own_device_row \<Rightarrow> own_device_record" where
  "own_device_of_row r =
     \<lparr>or_deviceId = d_device_id r, or_deviceName = d_device_name r,
      or_recipientPubkeyHash = d_recipient_pubkey_hash r, or_identityPubkeyHex = d_identity_pubkey_hex r,
      or_createdAt = d_created_at r\<rparr>"

definition listOwnLinkedDevices :: "(db_manager, own_device_record list) M" where
  "listOwnLinkedDevices =
     bindM (query (\<lambda>d. order_by_asc d_device_id (own_linked_devices d))) (\<lambda>rows. ret (map own_device_of_row rows))"

definition deleteOwnLinkedDevice :: "int \<Rightarrow> (db_manager, unit) M" where
  "deleteOwnLinkedDevice i =
     execute (modifyM (\<lambda>d. d\<lparr>own_linked_devices := delete_key d_device_id i (own_linked_devices d)\<rparr>))"

subsection \<open>MessageRepository\<close>

definition show_status :: "delivery_status \<Rightarrow> string" where
  "show_status s = (case s of pending \<Rightarrow> ''pending'' | sent_st \<Rightarrow> ''sent'' | delivered \<Rightarrow> ''delivered'' | failed \<Rightarrow> ''failed'')"

definition read_status :: "string \<Rightarrow> delivery_status" where
  "read_status s = (if s = ''pending'' then pending else if s = ''sent'' then sent_st
     else if s = ''delivered'' then delivered else failed)"

lemma read_show_status [simp]: "read_status (show_status s) = s"
  by (cases s) (simp_all add: read_status_def show_status_def)

definition row_of_message :: "stored_message \<Rightarrow> message_row" where
  "row_of_message m =
     \<lparr>m_id = sm_id m, m_contact_pubkey_hash = toLowerCase (sm_contactPubkeyHash m),
      m_sender_identity_hex = toLowerCase (sm_senderIdentityHex m),
      m_recipient_identity_hex = toLowerCase (sm_recipientIdentityHex m),
      m_body = sm_body m, m_timestamp = sm_timestamp m,
      m_is_outgoing = (if sm_isOutgoing m then 1 else 0), m_is_read = (if sm_isRead m then 1 else 0),
      m_delivery_status = show_status (sm_deliveryStatus m)\<rparr>"

text \<open>A new row must refer to a contact; an upsert of an existing identifier leaves its contact.\<close>

definition saveMessage :: "stored_message \<Rightarrow> (db_manager, unit) M" where
  "saveMessage m =
     execute (\<lambda>d.
       let row = row_of_message m in
       if foreign_keys d \<and> sm_id m \<notin> m_id ` set (messages d) \<and>
          m_contact_pubkey_hash row \<notin> c_recipient_pubkey_hash ` set (contacts d)
       then (Inl LibError, d)
       else (Inr (), d\<lparr>messages := upsert m_id merge_message row (messages d)\<rparr>))"

definition mapRowToMessage :: "message_row \<Rightarrow> stored_message" where
  "mapRowToMessage row =
     \<lparr>sm_id = m_id row, sm_contactPubkeyHash = m_contact_pubkey_hash row,
      sm_senderIdentityHex = m_sender_identity_hex row, sm_recipientIdentityHex = m_recipient_identity_hex row,
      sm_body = m_body row, sm_timestamp = m_timestamp row, sm_isOutgoing = (m_is_outgoing row = 1),
      sm_isRead = (m_is_read row = 1), sm_deliveryStatus = read_status (m_delivery_status row)\<rparr>"

definition getMessageById :: "string \<Rightarrow> (db_manager, stored_message option) M" where
  "getMessageById i =
     bindM (queryOne (\<lambda>d. select_key m_id i (messages d))) (\<lambda>row. ret (map_option mapRowToMessage row))"

definition conversation :: "hex \<Rightarrow> nat \<Rightarrow> nat \<Rightarrow> message_row list \<Rightarrow> message_row list" where
  "conversation h limit off rows =
     limit_offset limit off (order_by_asc m_timestamp (filter (\<lambda>r. m_contact_pubkey_hash r = h) rows))"

definition getMessagesForContact :: "hex \<Rightarrow> nat \<Rightarrow> nat \<Rightarrow> (db_manager, stored_message list) M" where
  "getMessagesForContact h limit off =
     bindM (query (\<lambda>d. conversation (toLowerCase h) limit off (messages d))) (\<lambda>rows. ret (map mapRowToMessage rows))"

definition markMessagesAsRead :: "hex \<Rightarrow> (db_manager, unit) M" where
  "markMessagesAsRead h =
     execute (modifyM (\<lambda>d. d\<lparr>messages := update_where
       (\<lambda>r. m_contact_pubkey_hash r = toLowerCase h \<and> m_is_outgoing r = 0) (\<lambda>r. r\<lparr>m_is_read := 1\<rparr>) (messages d)\<rparr>))"

definition unread_row :: "message_row \<Rightarrow> bool" where
  "unread_row r \<longleftrightarrow> m_is_read r = 0 \<and> m_is_outgoing r = 0"

definition getUnreadCount :: "hex option \<Rightarrow> (db_manager, nat) M" where
  "getUnreadCount ho =
     bindM (queryOne (\<lambda>d. Some (length (filter
         (\<lambda>r. (truthy ho \<longrightarrow> m_contact_pubkey_hash r = toLowerCase (the ho)) \<and> unread_row r) (messages d)))))
       (\<lambda>row. ret (case row of None \<Rightarrow> 0 | Some n \<Rightarrow> n))"

definition updateDeliveryStatus :: "string \<Rightarrow> delivery_status \<Rightarrow> (db_manager, unit) M" where
  "updateDeliveryStatus i st =
     execute (modifyM (\<lambda>d. d\<lparr>messages := update_where (\<lambda>r. m_id r = i)
       (\<lambda>r. r\<lparr>m_delivery_status := show_status st\<rparr>) (messages d)\<rparr>))"

definition deleteMessage :: "string \<Rightarrow> (db_manager, unit) M" where
  "deleteMessage i = execute (modifyM (\<lambda>d. d\<lparr>messages := delete_key m_id i (messages d)\<rparr>))"

definition clearConversation :: "hex \<Rightarrow> (db_manager, unit) M" where
  "clearConversation h =
     execute (modifyM (\<lambda>d. d\<lparr>messages := filter (\<lambda>r. m_contact_pubkey_hash r \<noteq> toLowerCase h) (messages d)\<rparr>))"

subsection \<open>What the methods do\<close>

named_theorems repo_defs \<open>the methods of the repositories\<close>

lemmas repo_simps [repo_defs] = saveContact_def getContactByHash_def getContactByIdentityKey_def listContacts_def
  getLinkedDevices_def updateAlias_def deleteContact_def saveOwnLinkedDevice_def listOwnLinkedDevices_def
  deleteOwnLinkedDevice_def saveMessage_def getMessageById_def getMessagesForContact_def markMessagesAsRead_def
  getUnreadCount_def updateDeliveryStatus_def deleteMessage_def clearConversation_def

lemma execute_stmt:
  "dm_ready m \<Longrightarrow> execute stmt m = (fst (stmt (db_of m)), m\<lparr>dm_driver := Some (snd (stmt (db_of m)))\<rparr>)"
  by (simp add: execute_def on_driver_ready Let_def split: prod.splits)

lemma keep_execute:
  "dm_ready m \<Longrightarrow> db_ok (snd (stmt (db_of m))) \<Longrightarrow> dm_ready (snd (execute stmt m))"
  by (simp add: execute_stmt dm_ready_update)

lemma map_key_update: "(\<And>r. key (f r) = key r) \<Longrightarrow> map key (update_where p f rows) = map key rows"
  by (simp add: update_where_def)

lemma db_ok_messages:
  assumes "db_ok d" "distinct (map m_id ms)"
    and "\<And>r. r \<in> set ms \<Longrightarrow> m_contact_pubkey_hash r \<in> c_recipient_pubkey_hash ` set (contacts d)"
  shows "db_ok (d\<lparr>messages := ms\<rparr>)"
  using assms by (simp add: db_ok_def)

lemma db_ok_contacts:
  assumes "db_ok d" "distinct (map c_recipient_pubkey_hash cs)"
    and "\<And>r. r \<in> set (messages d) \<Longrightarrow> m_contact_pubkey_hash r \<in> c_recipient_pubkey_hash ` set cs"
  shows "db_ok (d\<lparr>contacts := cs\<rparr>)"
  using assms by (simp add: db_ok_def)

lemma db_ok_fk: "db_ok d \<Longrightarrow> foreign_keys d"
  by (simp add: db_ok_def)

lemma db_ok_own: "db_ok d \<Longrightarrow> distinct (map d_device_id ds) \<Longrightarrow> db_ok (d\<lparr>own_linked_devices := ds\<rparr>)"
  by (simp add: db_ok_def)

lemma saveContact_keeps:
  assumes "dm_ready m"
  shows "dm_ready (snd (saveContact c m))"
proof -
  have ok: "db_ok (db_of m)" using dm_ready_db_ok [OF assms] .
  let ?cs = "\<lambda>n. upsert c_recipient_pubkey_hash merge_contact n (contacts (db_of m))"
  have "db_ok ((db_of m)\<lparr>contacts := ?cs n\<rparr>)" for n
  proof (rule db_ok_contacts [OF ok])
    show "distinct (map c_recipient_pubkey_hash (?cs n))"
      using ok by (simp add: db_ok_def contacts_tab.distinct_upsert)
    show "m_contact_pubkey_hash r \<in> c_recipient_pubkey_hash ` set (?cs n)" if "r \<in> set (messages (db_of m))" for r
      using ok that unfolding contacts_tab.keys_upsert by (simp add: db_ok_def)
  qed
  then show ?thesis using assms by (simp add: saveContact_def execute_modify dm_ready_update Let_def)
qed

lemma addLinkedDevice_keeps: "dm_ready m \<Longrightarrow> dm_ready (snd (addLinkedDevice h dv m))"
  by (simp add: addLinkedDevice_def getContactByHash_def bindM_def queryOne_ready Let_def saveContact_keeps
      split: option.splits)

lemma updateAlias_keeps:
  assumes "dm_ready m"
  shows "dm_ready (snd (updateAlias h al m))"
proof -
  let ?cs = "update_where (\<lambda>r. c_recipient_pubkey_hash r = toLowerCase h) (\<lambda>r. r\<lparr>c_alias := al\<rparr>) (contacts (db_of m))"
  have ok: "db_ok (db_of m)" using dm_ready_db_ok [OF assms] .
  have keys: "map c_recipient_pubkey_hash ?cs = map c_recipient_pubkey_hash (contacts (db_of m))"
    by (rule map_key_update) simp
  then have set: "c_recipient_pubkey_hash ` set ?cs = c_recipient_pubkey_hash ` set (contacts (db_of m))"
    by (metis set_map)
  have "db_ok ((db_of m)\<lparr>contacts := ?cs\<rparr>)"
    using ok by (intro db_ok_contacts) (simp_all add: keys set db_ok_def)
  then show ?thesis using assms by (simp add: updateAlias_def execute_modify dm_ready_update)
qed

lemma deleteContact_keeps:
  assumes "dm_ready m"
  shows "dm_ready (snd (deleteContact h m))"
proof -
  have ok: "db_ok (db_of m)" using dm_ready_db_ok [OF assms] .
  let ?cs = "delete_key c_recipient_pubkey_hash (toLowerCase h) (contacts (db_of m))"
  have "db_ok ((db_of m)\<lparr>contacts := ?cs\<rparr>)"
    if free: "\<not> (toLowerCase h \<in> c_recipient_pubkey_hash ` set (contacts (db_of m)) \<and>
       list_ex (\<lambda>r. m_contact_pubkey_hash r = toLowerCase h) (messages (db_of m)))"
  proof (rule db_ok_contacts [OF ok])
    show "distinct (map c_recipient_pubkey_hash ?cs)" using ok by (simp add: db_ok_def contacts_tab.distinct_delete)
    fix r assume r: "r \<in> set (messages (db_of m))"
    then have mem: "m_contact_pubkey_hash r \<in> c_recipient_pubkey_hash ` set (contacts (db_of m))"
      using ok by (simp add: db_ok_def)
    moreover have "m_contact_pubkey_hash r \<noteq> toLowerCase h" using free r mem by (auto simp: list_ex_iff)
    ultimately show "m_contact_pubkey_hash r \<in> c_recipient_pubkey_hash ` set ?cs"
      by (auto simp: delete_key_def)
  qed
  then show ?thesis
    using assms ok by (auto simp: deleteContact_def execute_stmt dm_ready_update db_ok_def)
qed

lemma own_devices_keep:
  assumes "dm_ready m"
  shows "dm_ready (snd (saveOwnLinkedDevice dv m))" "dm_ready (snd (deleteOwnLinkedDevice i m))"
  using assms dm_ready_db_ok [OF assms]
  by (simp_all add: saveOwnLinkedDevice_def deleteOwnLinkedDevice_def execute_modify dm_ready_update db_ok_own
      db_ok_def own_devices_tab.distinct_upsert own_devices_tab.distinct_delete)

lemma saveMessage_keeps:
  assumes "dm_ready m"
  shows "dm_ready (snd (saveMessage msg m))"
proof -
  have ok: "db_ok (db_of m)" using dm_ready_db_ok [OF assms] .
  let ?row = "row_of_message msg" and ?ms = "messages (db_of m)"
  have "db_ok ((db_of m)\<lparr>messages := upsert m_id merge_message ?row ?ms\<rparr>)"
    if c: "sm_id msg \<in> m_id ` set ?ms \<or> m_contact_pubkey_hash ?row \<in> c_recipient_pubkey_hash ` set (contacts (db_of m))"
  proof (rule db_ok_messages [OF ok])
    show "distinct (map m_id (upsert m_id merge_message ?row ?ms))"
      using ok by (simp add: db_ok_def messages_tab.distinct_upsert)
    fix r assume r: "r \<in> set (upsert m_id merge_message ?row ?ms)"
    show "m_contact_pubkey_hash r \<in> c_recipient_pubkey_hash ` set (contacts (db_of m))"
    proof (cases "sm_id msg \<in> m_id ` set ?ms")
      case True
      then have "list_ex (\<lambda>r. m_id r = m_id ?row) ?ms" by (auto simp: list_ex_iff row_of_message_def)
      then have "\<exists>r0 \<in> set ?ms. r = r0 \<or> r = merge_message r0 ?row" using r by (auto simp: upsert_def split: if_splits)
      then show ?thesis using ok by (auto simp: db_ok_def merge_message_def)
    next
      case False
      then have "\<not> list_ex (\<lambda>r. m_id r = m_id ?row) ?ms" by (simp add: list_ex_key row_of_message_def)
      then have "r \<in> set ?ms \<or> r = ?row" using r by (auto simp: upsert_def)
      then show ?thesis using ok c False by (auto simp: db_ok_def)
    qed
  qed
  then show ?thesis
    using assms ok db_ok_fk [OF ok] by (auto simp: saveMessage_def execute_stmt dm_ready_update Let_def)
qed

lemma message_updates_keep:
  assumes "dm_ready m" and f: "\<And>r. m_id (f r) = m_id r" "\<And>r. m_contact_pubkey_hash (f r) = m_contact_pubkey_hash r"
  shows "dm_ready (snd (execute (modifyM (\<lambda>d. d\<lparr>messages := update_where p f (messages d)\<rparr>)) m))"
proof -
  have ok: "db_ok (db_of m)" using dm_ready_db_ok [OF assms(1)] .
  have "db_ok ((db_of m)\<lparr>messages := update_where p f (messages (db_of m))\<rparr>)"
  proof (rule db_ok_messages [OF ok])
    show "distinct (map m_id (update_where p f (messages (db_of m))))"
      using ok map_key_update [of m_id, OF f(1)] by (simp add: db_ok_def)
  qed (use ok f(2) in \<open>auto simp: update_where_def db_ok_def split: if_splits\<close>)
  then show ?thesis using assms(1) by (simp add: execute_modify dm_ready_update)
qed

lemma message_filters_keep:
  assumes "dm_ready m"
  shows "dm_ready (snd (execute (modifyM (\<lambda>d. d\<lparr>messages := filter p (messages d)\<rparr>)) m))"
proof -
  have "db_ok ((db_of m)\<lparr>messages := filter p (messages (db_of m))\<rparr>)"
    using dm_ready_db_ok [OF assms]
    by (intro db_ok_messages) (auto simp: db_ok_def distinct_map_filter)
  then show ?thesis using assms by (simp add: execute_modify dm_ready_update)
qed

text \<open>No method of the two repositories breaks the constraints of the database, whether it returns
  or throws: primary keys stay unique and every message belongs to a stored contact.\<close>

theorem repositories_keep_constraints:
  assumes "dm_ready m"
  shows "dm_ready (snd (saveContact c m)) \<and> dm_ready (snd (addLinkedDevice h dv m)) \<and>
     dm_ready (snd (updateAlias h al m)) \<and> dm_ready (snd (deleteContact h m)) \<and>
     dm_ready (snd (saveOwnLinkedDevice own m)) \<and> dm_ready (snd (deleteOwnLinkedDevice i m)) \<and>
     dm_ready (snd (saveMessage msg m)) \<and> dm_ready (snd (markMessagesAsRead h m)) \<and>
     dm_ready (snd (updateDeliveryStatus t st m)) \<and> dm_ready (snd (deleteMessage t m)) \<and>
     dm_ready (snd (clearConversation h m))"
  using assms saveContact_keeps addLinkedDevice_keeps updateAlias_keeps deleteContact_keeps own_devices_keep
    saveMessage_keeps message_updates_keep message_filters_keep
  by (simp add: markMessagesAsRead_def updateDeliveryStatus_def deleteMessage_def clearConversation_def delete_key_def)

theorem repositories_keep_constraints_witness:
  "dm_ready (snd (deleteContact ''aa'' memory_manager)) \<and> dm_ready (snd (clearConversation ''aa'' memory_manager))"
  using repositories_keep_constraints [OF memory_manager_ready(1)] by blast

subsection \<open>Contacts\<close>

lemma getContactByHash_run:
  "dm_ready m \<Longrightarrow> getContactByHash h m =
     (Inr (map_option mapRowToContact (select_key c_recipient_pubkey_hash (toLowerCase h) (contacts (db_of m)))), m)"
  by (simp add: getContactByHash_def bindM_def queryOne_ready)

lemma saveContact_run:
  "dm_ready m \<Longrightarrow> \<exists>m'. saveContact c m = (Inr (), m') \<and> dm_ready m' \<and> messages (db_of m') = messages (db_of m) \<and>
     contacts (db_of m') = upsert c_recipient_pubkey_hash merge_contact
        \<lparr>c_recipient_pubkey_hash = toLowerCase (cr_recipientPubkeyHash c),
         c_identity_pubkey_hex = toLowerCase (cr_identityPubkeyHex c),
         c_signing_pubkey_hex = toLowerCase (cr_signingPubkeyHex c),
         c_alias = cr_alias c, c_created_at = cr_createdAt c,
         c_linked_devices = Some (stringify_devices (case cr_linkedDevices c of None \<Rightarrow> [] | Some ds \<Rightarrow> ds))\<rparr>
        (contacts (db_of m))"
  using saveContact_keeps [of m c] by (simp add: saveContact_def execute_modify Let_def)

lemma stringify_devices_nonempty [simp]: "stringify_devices ds \<noteq> []"
  by (simp add: stringify_devices_def JSON_stringify_def)

text \<open>C34. A contact that was saved is found under its hash in any case, with its keys in lower case,
  the devices it was saved with, and the creation time of its first save; a contact saved without
  devices has its own keys as the primary device.\<close>

theorem contact_saved:
  assumes "dm_ready m" "toLowerCase h = toLowerCase (cr_recipientPubkeyHash c)"
  shows "\<exists>m' r. saveContact c m = (Inr (), m') \<and> getContactByHash h m' = (Inr (Some r), m') \<and>
     cr_recipientPubkeyHash r = toLowerCase (cr_recipientPubkeyHash c) \<and>
     cr_identityPubkeyHex r = toLowerCase (cr_identityPubkeyHex c) \<and>
     cr_signingPubkeyHex r = toLowerCase (cr_signingPubkeyHex c) \<and> cr_alias r = cr_alias c \<and>
     cr_createdAt r = (case fst (getContactByHash h m) of Inr (Some old) \<Rightarrow> cr_createdAt old | _ \<Rightarrow> cr_createdAt c) \<and>
     cr_linkedDevices r = (case cr_linkedDevices c of Some (d # ds) \<Rightarrow> Some (d # ds)
       | _ \<Rightarrow> Some [\<lparr>dr_deviceId = 1, dr_recipientPubkeyHash = cr_recipientPubkeyHash r,
            dr_identityPubkeyHex = cr_identityPubkeyHex r, dr_deviceName = Some ''Primary Device'',
            dr_createdAt = cr_createdAt r\<rparr>])"
proof -
  obtain m' where m': "saveContact c m = (Inr (), m')" "dm_ready m'"
    "contacts (db_of m') = upsert c_recipient_pubkey_hash merge_contact
        \<lparr>c_recipient_pubkey_hash = toLowerCase (cr_recipientPubkeyHash c),
         c_identity_pubkey_hex = toLowerCase (cr_identityPubkeyHex c),
         c_signing_pubkey_hex = toLowerCase (cr_signingPubkeyHex c),
         c_alias = cr_alias c, c_created_at = cr_createdAt c,
         c_linked_devices = Some (stringify_devices (case cr_linkedDevices c of None \<Rightarrow> [] | Some ds \<Rightarrow> ds))\<rparr>
        (contacts (db_of m))"
    using saveContact_run [OF assms(1)] by blast
  show ?thesis
  proof (cases "select_key c_recipient_pubkey_hash (toLowerCase h) (contacts (db_of m))")
    case None
    then show ?thesis
      using m' assms by (auto simp: getContactByHash_run contacts_tab.select_upsert mapRowToContact_def Let_def
          primary_device_def split: option.splits list.splits)
  next
    case (Some r0)
    then have "c_recipient_pubkey_hash r0 = toLowerCase h" using select_key_Some by metis
    then show ?thesis
      using Some m' assms by (auto simp: getContactByHash_run contacts_tab.select_upsert mapRowToContact_def Let_def
          primary_device_def merge_contact_def split: option.splits list.splits)
  qed
qed

definition sample_contact :: contact_record where
  "sample_contact = \<lparr>cr_recipientPubkeyHash = ''AA'', cr_identityPubkeyHex = ''BB'', cr_signingPubkeyHex = ''CC'',
     cr_alias = Some ''Eve'', cr_createdAt = 9, cr_linkedDevices = None\<rparr>"

lemma lower_AA: "toLowerCase ''AA'' = ''aa''" "toLowerCase ''aa'' = ''aa''"
  by code_simp+

theorem contact_saved_witness:
  "\<exists>m' r. saveContact sample_contact memory_manager = (Inr (), m') \<and>
     getContactByHash ''aa'' m' = (Inr (Some r), m') \<and> cr_recipientPubkeyHash r = ''aa'' \<and> cr_alias r = Some ''Eve''"
proof -
  have "toLowerCase ''aa'' = toLowerCase (cr_recipientPubkeyHash sample_contact)"
    by (simp add: sample_contact_def lower_AA)
  from contact_saved [OF memory_manager_ready(1) this]
  show ?thesis by (auto simp: sample_contact_def lower_AA)
qed

lemma getLinkedDevices_run:
  "dm_ready m \<Longrightarrow> getLinkedDevices h m = (Inr (case select_key c_recipient_pubkey_hash (toLowerCase h) (contacts (db_of m)) of
     None \<Rightarrow> [] | Some row \<Rightarrow> the (cr_linkedDevices (mapRowToContact row))), m)"
  by (simp add: getLinkedDevices_def bindM_def getContactByHash_run mapRowToContact_def Let_def split: option.splits)

lemma mapped_devices:
  "c_linked_devices row = Some (stringify_devices ds) \<Longrightarrow> ds \<noteq> [] \<Longrightarrow> cr_linkedDevices (mapRowToContact row) = Some ds"
  by (simp add: mapRowToContact_def Let_def)

text \<open>Linking a device to a stored contact appends it to the devices of the contact, in place of an
  earlier one with the same identifier; for an unknown contact it throws and changes nothing.\<close>

theorem device_linked:
  assumes "dm_ready m"
  shows "case fst (getContactByHash h m) of
      Inr (Some c) \<Rightarrow> \<exists>m'. addLinkedDevice h dv m = (Inr (), m') \<and>
        getLinkedDevices h m' = (Inr (filter (\<lambda>d. dr_deviceId d \<noteq> dr_deviceId dv) (the (cr_linkedDevices c)) @ [dv]), m')
    | _ \<Rightarrow> addLinkedDevice h dv m = (Inl (Error (''Contact not found for hash: '' @ h)), m)"
proof (cases "select_key c_recipient_pubkey_hash (toLowerCase h) (contacts (db_of m))")
  case None
  then show ?thesis by (simp add: getContactByHash_run [OF assms] addLinkedDevice_def bindM_def)
next
  case (Some row)
  let ?c = "mapRowToContact row"
  let ?ds = "filter (\<lambda>d. dr_deviceId d \<noteq> dr_deviceId dv) (the (cr_linkedDevices ?c)) @ [dv]"
  have get: "getContactByHash h m = (Inr (Some ?c), m)" using Some by (simp add: getContactByHash_run [OF assms])
  have ds: "cr_linkedDevices ?c = Some (the (cr_linkedDevices ?c))" by (simp add: mapRowToContact_def Let_def)
  have cd: "(case cr_linkedDevices ?c of None \<Rightarrow> [] | Some ds \<Rightarrow> ds) = the (cr_linkedDevices ?c)"
    by (subst ds) simp
  have key: "cr_recipientPubkeyHash ?c = toLowerCase h"
    using select_key_Some [OF Some] by (simp add: mapRowToContact_def Let_def)
  obtain m' where m': "saveContact (?c\<lparr>cr_linkedDevices := Some ?ds\<rparr>) m = (Inr (), m')" "dm_ready m'"
    "contacts (db_of m') = upsert c_recipient_pubkey_hash merge_contact
        \<lparr>c_recipient_pubkey_hash = toLowerCase h,
         c_identity_pubkey_hex = toLowerCase (cr_identityPubkeyHex ?c),
         c_signing_pubkey_hex = toLowerCase (cr_signingPubkeyHex ?c),
         c_alias = cr_alias ?c, c_created_at = cr_createdAt ?c, c_linked_devices = Some (stringify_devices ?ds)\<rparr>
        (contacts (db_of m))"
    using saveContact_run [OF assms, of "?c\<lparr>cr_linkedDevices := Some ?ds\<rparr>"] key by auto
  have run: "addLinkedDevice h dv m = (Inr (), m')"
    unfolding addLinkedDevice_def bindM_Inr [where m = "getContactByHash h", OF get]
    using m'(1) cd by (simp add: Let_def)
  have linked: "the (cr_linkedDevices (mapRowToContact (merge_contact row n))) = ?ds"
    if "c_linked_devices n = Some (stringify_devices ?ds)" for n
    using that mapped_devices [of "merge_contact row n" ?ds] by (simp add: merge_contact_def)
  have "getLinkedDevices h m' = (Inr ?ds, m')"
    using m'(3) Some select_key_Some [OF Some]
      linked by (simp add: getLinkedDevices_run [OF m'(2)] contacts_tab.select_upsert)
  then show ?thesis using get run by simp
qed

theorem device_linked_witness:
  "addLinkedDevice ''zz'' \<lparr>dr_deviceId = 2, dr_recipientPubkeyHash = [], dr_identityPubkeyHex = [],
     dr_deviceName = None, dr_createdAt = 0\<rparr> memory_manager
   = (Inl (Error ''Contact not found for hash: zz''), memory_manager)"
proof -
  have "fst (getContactByHash ''zz'' memory_manager) = Inr None"
    using memory_manager_ready by (simp add: getContactByHash_run same_rows_def empty_database_def select_key_def)
  then show ?thesis using device_linked [OF memory_manager_ready(1), of "''zz''"] by simp
qed

text \<open>A contact that has messages cannot be deleted: the statement fails on the foreign key and the
  contact and its conversation stay. Once the conversation is cleared the deletion goes through.\<close>

theorem delete_contact_with_messages:
  assumes "dm_ready m" "toLowerCase h \<in> c_recipient_pubkey_hash ` set (contacts (db_of m))"
    and "list_ex (\<lambda>r. m_contact_pubkey_hash r = toLowerCase h) (messages (db_of m))"
  shows "deleteContact h m = (Inl LibError, m) \<and>
     (\<exists>m1 m2. clearConversation h m = (Inr (), m1) \<and> deleteContact h m1 = (Inr (), m2) \<and>
        getContactByHash h m2 = (Inr None, m2))"
proof
  show "deleteContact h m = (Inl LibError, m)"
    using assms db_ok_fk [OF dm_ready_db_ok [OF assms(1)]]
    by (simp add: deleteContact_def execute_stmt dm_same)
  obtain m1 where m1: "clearConversation h m = (Inr (), m1)" "dm_ready m1"
    "db_of m1 = (db_of m)\<lparr>messages := filter (\<lambda>r. m_contact_pubkey_hash r \<noteq> toLowerCase h) (messages (db_of m))\<rparr>"
    using message_filters_keep [OF assms(1)] assms(1) by (simp add: clearConversation_def execute_modify)
  then have none: "\<not> list_ex (\<lambda>r. m_contact_pubkey_hash r = toLowerCase h) (messages (db_of m1))"
    by (auto simp: list_ex_iff)
  then have del: "deleteContact h m1 = (Inr (), m1\<lparr>dm_driver := Some ((db_of m1)
      \<lparr>contacts := delete_key c_recipient_pubkey_hash (toLowerCase h) (contacts (db_of m1))\<rparr>)\<rparr>)"
    using m1(2) by (simp add: deleteContact_def execute_stmt)
  have "dm_ready (snd (deleteContact h m1))" using deleteContact_keeps [OF m1(2)] .
  then have "getContactByHash h (snd (deleteContact h m1)) = (Inr None, snd (deleteContact h m1))"
    using del by (simp add: getContactByHash_run contacts_tab.select_delete)
  then show "\<exists>m1 m2. clearConversation h m = (Inr (), m1) \<and> deleteContact h m1 = (Inr (), m2) \<and>
        getContactByHash h m2 = (Inr None, m2)" using m1(1) del by (metis snd_conv)
qed

definition sample_message :: stored_message where
  "sample_message = \<lparr>sm_id = ''m1'', sm_contactPubkeyHash = ''AA'', sm_senderIdentityHex = ''BB'',
     sm_recipientIdentityHex = ''DD'', sm_body = ''hi'', sm_timestamp = 3, sm_isOutgoing = False, sm_isRead = False,
     sm_deliveryStatus = delivered\<rparr>"

text \<open>A database with one contact and one unread message of it.\<close>

lemma sample_db:
  "\<exists>m1 m2. saveContact sample_contact memory_manager = (Inr (), m1) \<and> saveMessage sample_message m1 = (Inr (), m2) \<and>
     dm_ready m2 \<and> messages (db_of m2) = [row_of_message sample_message] \<and>
     c_recipient_pubkey_hash ` set (contacts (db_of m2)) = {''aa''}"
proof -
  obtain m1 where m1: "saveContact sample_contact memory_manager = (Inr (), m1)" "dm_ready m1"
    "messages (db_of m1) = []" "c_recipient_pubkey_hash ` set (contacts (db_of m1)) = {''aa''}"
    using saveContact_run [OF memory_manager_ready(1), of sample_contact] memory_manager_ready(2)
    by (auto simp: same_rows_def empty_database_def upsert_def sample_contact_def lower_AA)
  let ?m2 = "m1\<lparr>dm_driver := Some ((db_of m1)\<lparr>messages := [row_of_message sample_message]\<rparr>)\<rparr>"
  have m2: "saveMessage sample_message m1 = (Inr (), ?m2)"
    using m1(2-4) by (simp add: saveMessage_def execute_stmt Let_def upsert_def sample_message_def row_of_message_def lower_AA)
  have "dm_ready (snd (saveMessage sample_message m1))" using saveMessage_keeps [OF m1(2)] .
  then have "dm_ready ?m2" unfolding m2 by simp
  then show ?thesis using m1(1,4) m2 by (intro exI [of _ m1] exI [of _ ?m2]) simp
qed

theorem delete_contact_with_messages_witness:
  "\<exists>m1 m2 m3 m4. saveContact sample_contact memory_manager = (Inr (), m1) \<and> saveMessage sample_message m1 = (Inr (), m2) \<and>
     deleteContact ''aa'' m2 = (Inl LibError, m2) \<and> clearConversation ''aa'' m2 = (Inr (), m3) \<and>
     deleteContact ''aa'' m3 = (Inr (), m4)"
proof -
  obtain m1 m2 where m: "saveContact sample_contact memory_manager = (Inr (), m1)" "saveMessage sample_message m1 = (Inr (), m2)"
    "dm_ready m2" "messages (db_of m2) = [row_of_message sample_message]"
    "c_recipient_pubkey_hash ` set (contacts (db_of m2)) = {''aa''}" using sample_db by (elim exE conjE) (rule that)
  have "toLowerCase ''aa'' \<in> c_recipient_pubkey_hash ` set (contacts (db_of m2))"
    "list_ex (\<lambda>r. m_contact_pubkey_hash r = toLowerCase ''aa'') (messages (db_of m2))"
    using m(4,5) by (simp_all add: row_of_message_def sample_message_def lower_AA)
  from delete_contact_with_messages [OF m(3) this] m(1,2) show ?thesis by blast
qed

subsection \<open>Messages\<close>

text \<open>A message to a stored contact is read back as it was saved, keys in lower case; one to an
  unknown contact is refused and nothing is stored.\<close>

theorem message_saved:
  assumes "dm_ready m" "sm_id msg \<notin> m_id ` set (messages (db_of m))"
  shows "if toLowerCase (sm_contactPubkeyHash msg) \<in> c_recipient_pubkey_hash ` set (contacts (db_of m))
     then \<exists>m'. saveMessage msg m = (Inr (), m') \<and> getMessageById (sm_id msg) m' = (Inr (Some (msg
        \<lparr>sm_contactPubkeyHash := toLowerCase (sm_contactPubkeyHash msg),
         sm_senderIdentityHex := toLowerCase (sm_senderIdentityHex msg),
         sm_recipientIdentityHex := toLowerCase (sm_recipientIdentityHex msg)\<rparr>)), m')
     else saveMessage msg m = (Inl LibError, m)"
proof (cases "toLowerCase (sm_contactPubkeyHash msg) \<in> c_recipient_pubkey_hash ` set (contacts (db_of m))")
  case True
  let ?m' = "m\<lparr>dm_driver := Some ((db_of m)\<lparr>messages := upsert m_id merge_message (row_of_message msg) (messages (db_of m))\<rparr>)\<rparr>"
  have save: "saveMessage msg m = (Inr (), ?m')"
    using True assms by (simp add: saveMessage_def execute_stmt Let_def row_of_message_def)
  then have ready: "dm_ready ?m'" using saveMessage_keeps [OF assms(1), of msg] by simp
  have "select_key m_id (sm_id msg) (messages (db_of m)) = None" using assms(2) by (simp add: select_key_None)
  then have "select_key m_id (sm_id msg) (messages (db_of ?m')) = Some (row_of_message msg)"
    by (simp add: messages_tab.select_upsert) (simp add: row_of_message_def)
  then have "getMessageById (sm_id msg) ?m' = (Inr (Some (mapRowToMessage (row_of_message msg))), ?m')"
    by (simp add: getMessageById_def bindM_def queryOne_ready [OF ready])
  then show ?thesis using True save by (auto simp: mapRowToMessage_def row_of_message_def)
next
  case False
  then show ?thesis
    using assms db_ok_fk [OF dm_ready_db_ok [OF assms(1)]]
    by (simp add: saveMessage_def execute_stmt Let_def row_of_message_def dm_same)
qed

theorem message_saved_witness:
  "saveMessage sample_message memory_manager = (Inl LibError, memory_manager)"
proof -
  have "messages (db_of memory_manager) = []" "contacts (db_of memory_manager) = []"
    using memory_manager_ready(2) by (auto simp: same_rows_def empty_database_def)
  then show ?thesis using message_saved [OF memory_manager_ready(1), of sample_message] by simp
qed

lemma getMessagesForContact_run:
  "dm_ready m \<Longrightarrow> getMessagesForContact h l n m =
     (Inr (map mapRowToMessage (conversation (toLowerCase h) l n (messages (db_of m)))), m)"
  by (simp add: getMessagesForContact_def bindM_def query_ready)

lemma sorted_conversation: "sorted (map m_timestamp (conversation h l n rows))"
  by (simp add: conversation_def limit_offset_def order_by_asc_def sorted_wrt_take sorted_wrt_drop flip: take_map drop_map)

lemma mapRow_timestamp: "map sm_timestamp (map mapRowToMessage rows) = map m_timestamp rows"
  by (simp add: mapRowToMessage_def)

text \<open>The messages of a contact come in ascending order of their timestamps and pages tile the
  conversation: a page of \<open>l\<close> followed by the page of \<open>l'\<close> at offset \<open>l\<close> is the page of \<open>l + l'\<close>.
  The page of length 1 is therefore an oldest message of the conversation.\<close>

theorem conversation_pages:
  assumes "dm_ready m"
  shows "\<exists>p q r o1. getMessagesForContact h l 0 m = (Inr p, m) \<and> getMessagesForContact h l' l m = (Inr q, m) \<and>
     getMessagesForContact h (l + l') 0 m = (Inr r, m) \<and> r = p @ q \<and> sorted (map sm_timestamp r) \<and>
     getMessagesForContact h 1 0 m = (Inr o1, m) \<and>
     (\<forall>x \<in> set o1. \<forall>row \<in> set (messages (db_of m)). m_contact_pubkey_hash row = toLowerCase h \<longrightarrow>
        sm_timestamp x \<le> m_timestamp row)"
proof -
  let ?rows = "messages (db_of m)" and ?h = "toLowerCase h"
  let ?all = "order_by_asc m_timestamp (filter (\<lambda>r. m_contact_pubkey_hash r = ?h) ?rows)"
  have tile: "conversation ?h (l + l') 0 ?rows = conversation ?h l 0 ?rows @ conversation ?h l' l ?rows"
    by (simp add: conversation_def limit_offset_def take_add)
  have sorted: "sorted (map m_timestamp ?all)" by (simp add: order_by_asc_def)
  have oldest: "m_timestamp x \<le> m_timestamp row"
    if x: "x \<in> set (conversation ?h 1 0 ?rows)" and row: "row \<in> set ?rows" "m_contact_pubkey_hash row = ?h" for x row
  proof -
    have "row \<in> set ?all" using row by (simp add: order_by_asc_def)
    moreover obtain ys where "?all = x # ys"
      using x by (cases ?all) (auto simp: conversation_def limit_offset_def)
    ultimately show ?thesis using sorted by auto
  qed
  show ?thesis
    using tile sorted_conversation [of ?h "l + l'" 0 ?rows] oldest
    by (simp add: getMessagesForContact_run [OF assms] mapRowToMessage_def o_def)
qed

theorem conversation_pages_witness:
  "\<exists>m1 m2. saveContact sample_contact memory_manager = (Inr (), m1) \<and> saveMessage sample_message m1 = (Inr (), m2) \<and>
     (\<exists>p q r. getMessagesForContact ''aa'' 1 0 m2 = (Inr p, m2) \<and> getMessagesForContact ''aa'' 1 1 m2 = (Inr q, m2) \<and>
        getMessagesForContact ''aa'' 2 0 m2 = (Inr r, m2) \<and> r = p @ q)"
proof -
  obtain m1 m2 where m: "saveContact sample_contact memory_manager = (Inr (), m1)" "saveMessage sample_message m1 = (Inr (), m2)"
    "dm_ready m2" "messages (db_of m2) = [row_of_message sample_message]"
    "c_recipient_pubkey_hash ` set (contacts (db_of m2)) = {''aa''}" using sample_db by (elim exE conjE) (rule that)
  have "1 + 1 = (2 :: nat)" by simp
  from conversation_pages [OF m(3), of "''aa''" 1 1, unfolded this] m(1,2) show ?thesis by blast
qed

lemma getUnreadCount_run:
  "dm_ready m \<Longrightarrow> getUnreadCount ho m = (Inr (length (filter
     (\<lambda>r. (truthy ho \<longrightarrow> m_contact_pubkey_hash r = toLowerCase (the ho)) \<and> unread_row r) (messages (db_of m)))), m)"
  by (simp add: getUnreadCount_def bindM_def queryOne_ready)

text \<open>Marking a conversation as read leaves no unread message of that contact and none of the others
  is touched: the total drops by exactly the count of the contact.\<close>

theorem mark_read_counts:
  assumes "dm_ready m" "h \<noteq> []"
  shows "\<exists>m' a b. markMessagesAsRead h m = (Inr (), m') \<and> getUnreadCount (Some h) m' = (Inr 0, m') \<and>
     getUnreadCount (Some h) m = (Inr a, m) \<and> getUnreadCount None m = (Inr (a + b), m) \<and>
     getUnreadCount None m' = (Inr b, m')"
proof -
  let ?rows = "messages (db_of m)" and ?h = "toLowerCase h"
  let ?f = "\<lambda>r :: message_row. r\<lparr>m_is_read := 1\<rparr>"
  let ?p = "\<lambda>r. m_contact_pubkey_hash r = ?h \<and> m_is_outgoing r = 0"
  obtain m' where m': "markMessagesAsRead h m = (Inr (), m')" "dm_ready m'" "messages (db_of m') = update_where ?p ?f ?rows"
    using message_updates_keep [OF assms(1), of ?f ?p] assms(1)
    by (simp add: markMessagesAsRead_def execute_modify)
  have zero: "length (filter (\<lambda>r. m_contact_pubkey_hash r = ?h \<and> unread_row r) (update_where ?p ?f rows)) = 0" for rows
    by (auto simp: update_where_def unread_row_def filter_empty_conv)
  have split: "length (filter unread_row rows) = length (filter (\<lambda>r. m_contact_pubkey_hash r = ?h \<and> unread_row r) rows)
      + length (filter unread_row (update_where ?p ?f rows))" for rows
    by (induction rows) (auto simp: update_where_def unread_row_def)
  show ?thesis
    using m' zero [of ?rows] split [of ?rows] assms(2)
    by (simp add: getUnreadCount_run [OF assms(1)] getUnreadCount_run [OF m'(2)])
qed

theorem mark_read_counts_witness:
  "\<exists>m' a b. markMessagesAsRead ''aa'' memory_manager = (Inr (), m') \<and> getUnreadCount (Some ''aa'') m' = (Inr 0, m') \<and>
     getUnreadCount (Some ''aa'') memory_manager = (Inr a, memory_manager) \<and>
     getUnreadCount None memory_manager = (Inr (a + b), memory_manager)"
  using mark_read_counts [OF memory_manager_ready(1), of "''aa''"] by blast

end
