(* ===== verification/Contact_Exchange.thy ===== *)
theory Contact_Exchange
  imports Repositories Engine_Properties Http_Client
begin

section \<open>Contact exchange\<close>

text \<open>
  \<open>client/src/orchestration/ContactExchange.ts\<close>: the contact URI of the QR code, its reader, and
  the import of a contact into the database and the crypto engine, which share one database.
  A payload whose members have other types than the client writes is an error of the reader.
\<close>

definition CONTACT_URI_SCHEME :: string where
  "CONTACT_URI_SCHEME = ''tore2ee://contact''"

record contact_payload =
  cp_signingKeyHex :: hex
  cp_identityKeyHex :: hex
  cp_signedPreKey :: signed_prekey_pub
  cp_oneTimePreKey :: "one_time_prekey_pub option"
  cp_alias :: "string option"

definition json_of_spk :: "signed_prekey_pub \<Rightarrow> json" where
  "json_of_spk k = JObj [(''keyId'', JNum (sp_keyId k)), (''publicKeyHex'', JStr (sp_publicKeyHex k)),
     (''signatureHex'', JStr (sp_signatureHex k))]"

definition json_of_otk :: "one_time_prekey_pub \<Rightarrow> json" where
  "json_of_otk k = JObj [(''keyId'', JNum (op_keyId k)), (''publicKeyHex'', JStr (op_publicKeyHex k))]"

definition json_of_payload :: "contact_payload \<Rightarrow> json" where
  "json_of_payload p = JObj ([(''signingKeyHex'', JStr (cp_signingKeyHex p)), (''identityKeyHex'', JStr (cp_identityKeyHex p)),
     (''signedPreKey'', json_of_spk (cp_signedPreKey p))]
     @ opt_member ''oneTimePreKey'' json_of_otk (cp_oneTimePreKey p) @ opt_member ''alias'' JStr (cp_alias p))"

definition link_uri :: "string \<Rightarrow> json \<Rightarrow> string" where
  "link_uri scheme v = scheme @ ''?v=1&d='' @ to_url_safe (b64_encode (text_encode (JSON_stringify v)))"

definition exportContactUri :: "prekey_bundle \<Rightarrow> string option \<Rightarrow> string" where
  "exportContactUri bundle alias =
     link_uri CONTACT_URI_SCHEME (json_of_payload
       \<lparr>cp_signingKeyHex = pb_signingKeyHex bundle, cp_identityKeyHex = pb_identityKeyHex bundle,
        cp_signedPreKey = pb_signedPreKey bundle, cp_oneTimePreKey = pb_oneTimePreKey bundle, cp_alias = alias\<rparr>)"

subsection \<open>The query of a URI\<close>

text \<open>\<open>URLSearchParams\<close>: a leading question mark is dropped, pairs are split at \<open>&\<close> and at the first
  \<open>=\<close>, a plus is a blank, percent escapes are bytes of UTF-8.\<close>

fun percent_decode :: "string \<Rightarrow> bytes" where
  "percent_decode [] = []"
| "percent_decode (c # r) =
     (if c = CHR ''%'' then
        (case r of
           a # b # r' \<Rightarrow>
             (case (hex_val a, hex_val b) of
                (Some x, Some y) \<Rightarrow> of_nat (16 * x + y) # percent_decode r'
              | _ \<Rightarrow> byte_of_char c # percent_decode r)
         | _ \<Rightarrow> byte_of_char c # percent_decode r)
      else byte_of_char (if c = CHR ''+'' then CHR '' '' else c) # percent_decode r)"

definition query_pair :: "string \<Rightarrow> string \<times> string" where
  "query_pair s =
     (case split_at ''='' s of None \<Rightarrow> (utf8_toString (percent_decode s), [])
      | Some (k, v) \<Rightarrow> (utf8_toString (percent_decode k), utf8_toString (percent_decode v)))"

definition query_get :: "string \<Rightarrow> string \<Rightarrow> string option" where
  "query_get qs k =
     (let q = (if take 1 qs = ''?'' then drop 1 qs else qs) in
      map_of (map query_pair (filter (\<lambda>s. s \<noteq> []) (split_on CHR ''&'' q))) k)"

text \<open>The part of a URI or bare text that holds the payload; the two readers differ in the scheme and
  the message.\<close>

definition link_data :: "string \<Rightarrow> string \<Rightarrow> string \<Rightarrow> string res" where
  "link_data scheme missing uri =
     (let t = trim uri in
      if startsWith t scheme then
        (case split_at ''?'' t of None \<Rightarrow> Inr t
         | Some (_, qs) \<Rightarrow> if truthy (query_get qs ''d'') then Inr (the (query_get qs ''d'')) else Inl (Error missing))
      else Inr t)"

definition link_json :: "string \<Rightarrow> json res" where
  "link_json d = JSON_parse (utf8_toString (b64_decode (from_url_safe d)))"

subsection \<open>Reading a contact\<close>

definition spk_of_json :: "json \<Rightarrow> signed_prekey_pub res" where
  "spk_of_json v =
     bindR (jget as_int v ''keyId'') (\<lambda>i. bindR (jget as_str v ''publicKeyHex'') (\<lambda>pk.
     bindR (jget as_str v ''signatureHex'') (\<lambda>sg.
     Inr \<lparr>sp_keyId = i, sp_publicKeyHex = pk, sp_signatureHex = sg\<rparr>)))"

definition otk_of_json :: "json \<Rightarrow> one_time_prekey_pub res" where
  "otk_of_json v =
     bindR (jget as_int v ''keyId'') (\<lambda>i. bindR (jget as_str v ''publicKeyHex'') (\<lambda>pk.
     Inr \<lparr>op_keyId = i, op_publicKeyHex = pk\<rparr>))"

definition payload_of_json :: "json \<Rightarrow> contact_payload res" where
  "payload_of_json v =
     bindR (jget as_str v ''signingKeyHex'') (\<lambda>sk. bindR (jget as_str v ''identityKeyHex'') (\<lambda>ik.
     bindR (jget spk_of_json v ''signedPreKey'') (\<lambda>spk. bindR (jget_opt otk_of_json v ''oneTimePreKey'') (\<lambda>otk.
     bindR (jget_opt as_str v ''alias'') (\<lambda>al.
     Inr \<lparr>cp_signingKeyHex = sk, cp_identityKeyHex = ik, cp_signedPreKey = spk, cp_oneTimePreKey = otk, cp_alias = al\<rparr>)))))"

definition has_member :: "json \<Rightarrow> string \<Rightarrow> bool" where
  "has_member v k \<longleftrightarrow> jtruthy (jfield v k)"

definition required_members :: "json \<Rightarrow> bool" where
  "required_members v \<longleftrightarrow>
     has_member v ''signingKeyHex'' \<and> has_member v ''identityKeyHex'' \<and> has_member v ''signedPreKey'' \<and>
     has_member (the (jfield v ''signedPreKey'')) ''publicKeyHex'' \<and>
     has_member (the (jfield v ''signedPreKey'')) ''signatureHex''"

definition bundle_of_payload :: "contact_payload \<Rightarrow> prekey_bundle" where
  "bundle_of_payload p =
     \<lparr>pb_identityKeyHex = cp_identityKeyHex p, pb_signingKeyHex = cp_signingKeyHex p,
      pb_signedPreKey = cp_signedPreKey p, pb_oneTimePreKey = cp_oneTimePreKey p\<rparr>"

definition parseContactUri :: "prims \<Rightarrow> string \<Rightarrow> (contact_payload \<times> hex \<times> prekey_bundle) res" where
  "parseContactUri P uri =
     bindR (link_data CONTACT_URI_SCHEME ''Invalid contact URI: missing payload parameter \"d\"'' uri) (\<lambda>d.
     bindR (case link_json d of Inl _ \<Rightarrow> Inl (Error ''Failed to parse contact payload: invalid base64 or JSON structure'')
            | Inr v \<Rightarrow> Inr v) (\<lambda>v.
     if v = JNull then Inl LibError
     else if \<not> required_members v then Inl (Error ''Contact payload is missing required cryptographic keys'')
     else
       bindR (payload_of_json v) (\<lambda>p.
       if \<not> verifySignature P (sp_publicKeyHex (cp_signedPreKey p)) (sp_signatureHex (cp_signedPreKey p)) (cp_signingKeyHex p)
       then Inl (Error ''Cryptographic verification failed: Signed PreKey signature does not match Signing Key'')
       else
         bindR (hexToBytes P (cp_signingKeyHex p)) (\<lambda>signingKeyBytes.
         bindR (computePubkeyHash P signingKeyBytes) (\<lambda>h. Inr (p, h, bundle_of_payload p))))))"

subsection \<open>Import\<close>

definition importContact ::
  "prims \<Rightarrow> bytes \<Rightarrow> int \<Rightarrow> string \<Rightarrow> string option \<Rightarrow> (sql_store, contact_record) M" where
  "importContact P ekSecret now uri customAlias =
     bindM (liftM (parseContactUri P uri)) (\<lambda>(p, h, bundle).
     let contact = \<lparr>cr_recipientPubkeyHash = h, cr_identityPubkeyHex = cp_identityKeyHex p,
           cr_signingPubkeyHex = cp_signingKeyHex p,
           cr_alias = (if truthy customAlias then customAlias else if truthy (cp_alias p) then cp_alias p else None),
           cr_createdAt = now, cr_linkedDevices = None\<rparr> in
     bindM (on_db (saveContact contact)) (\<lambda>_.
     bindM (initiateSession P (sql_ops P) ekSecret now (cp_identityKeyHex p) bundle) (\<lambda>_. ret contact)))"

subsection \<open>The data of a URI survives\<close>

lemma url_safe_code:
  assumes "url_safe_char c"
  shows "45 \<le> code c" "code c < 128" "code c \<noteq> 61"
proof -
  from assms have v: "b64_val c \<noteq> None" and p: "c \<noteq> CHR ''+''" by (simp_all add: url_safe_char_def)
  have "code c \<noteq> code (CHR ''+'')" unfolding code_def using p by (metis of_char_eq_iff)
  moreover have "code (CHR ''+'') = 43" by (simp add: code_def)
  ultimately have "code c \<noteq> 43" by simp
  with v show "45 \<le> code c" "code c < 128" "code c \<noteq> 61"
    by (auto simp: b64_val_def Let_def split: if_splits)
qed

lemma url_safe_plain:
  assumes "url_safe_char c"
  shows "c \<noteq> CHR ''%''" "c \<noteq> CHR ''+''" "c \<noteq> CHR ''&''" "c \<noteq> CHR ''=''" "code c < 128" "\<not> is_space c"
proof -
  have "code (CHR ''%'') = 37" "code (CHR ''+'') = 43" "code (CHR ''&'') = 38" "code (CHR ''='') = 61"
    by (simp_all add: code_def)
  then show "c \<noteq> CHR ''%''" "c \<noteq> CHR ''+''" "c \<noteq> CHR ''&''" "c \<noteq> CHR ''=''"
    using url_safe_code [OF assms] by auto
  show "\<not> is_space c" using url_safe_code [OF assms] by (auto simp: is_space_def)
qed (rule url_safe_code(2) [OF assms])

lemma percent_decode_plain: "list_all url_safe_char s \<Longrightarrow> percent_decode s = text_encode s"
proof (induction s)
  case (Cons c s)
  then have "c \<noteq> CHR ''%''" "c \<noteq> CHR ''+''" using url_safe_plain by simp_all
  with Cons show ?case by (simp add: text_encode_def bytes_of_string_def)
qed (simp add: text_encode_def bytes_of_string_def)

lemma query_data:
  assumes "list_all url_safe_char d" "d \<noteq> []"
  shows "query_get (''v=1&d='' @ d) ''d'' = Some d"
proof -
  have "CHR ''&'' \<notin> set d" using assms(1) url_safe_plain(3) unfolding list_all_iff by blast
  then have "split_on CHR ''&'' (''v=1'' @ CHR ''&'' # (''d='' @ d)) = [''v=1'', ''d='' @ d]"
    by (subst split_on_append) (simp_all add: split_on_single)
  moreover have "query_pair (''d='' @ d) = (''d'', d)"
  proof -
    have "wf_text d"
      using assms(1) url_safe_plain(5) unfolding list_all_iff by (intro wf_text_ascii) (simp add: list_all_iff)
    moreover have "utf8_toString (percent_decode ''d'') = ''d''" by code_simp
    ultimately show ?thesis
      using split_at_first [of "''=''" "''d''" d] percent_decode_plain [OF assms(1)] by (simp add: query_pair_def)
  qed
  moreover have "query_pair ''v=1'' = (''v'', ''1'')" by code_simp
  ultimately show ?thesis by (simp add: query_get_def Let_def)
qed

text \<open>A scheme without blanks and question marks.\<close>

lemma link_uri_read:
  assumes "scheme \<noteq> []" "CHR ''?'' \<notin> set scheme" "\<not> is_space (hd scheme)"
    and "wf_json v" "wf_text (JSON_stringify v)" "v = JObj ms"
  shows "\<exists>d. link_data scheme missing (link_uri scheme v) = Inr d \<and> link_json d = Inr v"
proof (intro exI conjI)
  let ?d = "to_url_safe (b64_encode (text_encode (JSON_stringify v)))"
  have safe: "list_all url_safe_char ?d" by (rule to_url_safe_chars)
  have "b64_decode (from_url_safe ?d) = text_encode (JSON_stringify v)" by simp
  then show "link_json ?d = Inr v" using assms(4,5) JSON_parse_stringify by (simp add: link_json_def)
  have ne: "?d \<noteq> []"
  proof
    assume "?d = []"
    have "b64_decode (from_url_safe ?d) = text_encode (JSON_stringify v)" by simp
    moreover have "b64_decode (from_url_safe []) = []" by (simp add: from_url_safe_def pad4.simps b64_decode_def List.map_filter_simps)
    ultimately have "text_encode (JSON_stringify v) = []" using \<open>?d = []\<close> by simp
    then show False using assms(6) by (simp add: text_encode_def bytes_of_string_def JSON_stringify_def)
  qed
  then have "\<not> is_space (last ?d)" using safe url_safe_plain(6) last_in_set [OF ne] unfolding list_all_iff by blast
  then have "trim (link_uri scheme v) = link_uri scheme v"
    using assms(1,3) ne by (intro trim_id) (simp_all add: link_uri_def)
  moreover have "split_at ''?'' (link_uri scheme v) = Some (scheme, ''v=1&d='' @ ?d)"
    using split_at_first [of "''?''" scheme "''v=1&d='' @ ?d"] assms(2) by (simp add: link_uri_def)
  moreover have "startsWith (link_uri scheme v) scheme" by (simp add: link_uri_def)
  ultimately show "link_data scheme missing (link_uri scheme v) = Inr ?d"
    using query_data [OF safe ne] ne by (simp add: link_data_def)
qed


lemma jfield_obj [simp]: "jfield (JObj ms) k = map_of ms k"
  by (simp add: jfield_def jprop_def obj_get_def)

lemma jtruthy_simps [simp]: "\<not> jtruthy None" "jtruthy (Some (JStr s)) \<longleftrightarrow> s \<noteq> []" "jtruthy (Some (JObj ms))"
    "jtruthy (Some (JBool c)) \<longleftrightarrow> c"
  by (simp_all add: jtruthy_def)

lemma payload_reads_back:
  assumes "v = json_of_payload p"
  shows "payload_of_json v = Inr p" and "wf_json v"
    and "required_members v \<longleftrightarrow> cp_signingKeyHex p \<noteq> [] \<and> cp_identityKeyHex p \<noteq> [] \<and>
       sp_publicKeyHex (cp_signedPreKey p) \<noteq> [] \<and> sp_signatureHex (cp_signedPreKey p) \<noteq> []"
  unfolding assms
  by (simp_all add: payload_of_json_def json_of_payload_def spk_of_json_def json_of_spk_def otk_of_json_def json_of_otk_def
      opt_member_def required_members_def has_member_def split: option.split)

definition plain_bundle :: "prekey_bundle \<Rightarrow> bool" where
  "plain_bundle b \<longleftrightarrow>
     list_all (\<lambda>h. h \<noteq> [] \<and> wf_text h) [pb_signingKeyHex b, pb_identityKeyHex b,
        sp_publicKeyHex (pb_signedPreKey b), sp_signatureHex (pb_signedPreKey b)] \<and>
     (\<forall>k. pb_oneTimePreKey b = Some k \<longrightarrow> wf_text (op_publicKeyHex k))"

lemma contact_uri_read:
  assumes "plain_bundle b" "\<forall>a. alias = Some a \<longrightarrow> wf_text a"
    and "verifySignature P (sp_publicKeyHex (pb_signedPreKey b)) (sp_signatureHex (pb_signedPreKey b)) (pb_signingKeyHex b)"
    and "hexToBytes P (pb_signingKeyHex b) = Inr kb" "length kb = 32"
  shows "\<exists>p. parseContactUri P (exportContactUri b alias) = Inr (p, bytesToHex P (sha256 P kb), b) \<and> cp_alias p = alias"
proof -
  define p where "p = \<lparr>cp_signingKeyHex = pb_signingKeyHex b, cp_identityKeyHex = pb_identityKeyHex b,
        cp_signedPreKey = pb_signedPreKey b, cp_oneTimePreKey = pb_oneTimePreKey b, cp_alias = alias\<rparr>"
  let ?v = "json_of_payload p"
  have enc: "wf_text (JSON_stringify ?v)"
    using assms(1,2) by (intro wf_text_stringify)
      (auto simp: p_def json_of_payload_def json_of_spk_def json_of_otk_def opt_member_def plain_bundle_def wf_text_punct
         code_def simp del: wf_text.simps(2) split: option.split)
  have scheme: "CONTACT_URI_SCHEME \<noteq> []" "CHR ''?'' \<notin> set CONTACT_URI_SCHEME" "\<not> is_space (hd CONTACT_URI_SCHEME)"
    by (simp_all add: CONTACT_URI_SCHEME_def is_space_def code_def)
  obtain ms where obj: "?v = JObj ms" by (simp add: json_of_payload_def)
  obtain d where d: "link_data CONTACT_URI_SCHEME ''Invalid contact URI: missing payload parameter \"d\"''
      (link_uri CONTACT_URI_SCHEME ?v) = Inr d" "link_json d = Inr ?v"
    using link_uri_read [OF scheme payload_reads_back(2) [OF refl] enc obj] by blast
  have uri: "exportContactUri b alias = link_uri CONTACT_URI_SCHEME ?v" by (simp add: exportContactUri_def p_def)
  have req: "required_members ?v"
    unfolding payload_reads_back(3) [OF refl] using assms(1) by (simp add: plain_bundle_def p_def)
  have sel: "cp_signedPreKey p = pb_signedPreKey b" "cp_signingKeyHex p = pb_signingKeyHex b" by (simp_all add: p_def)
  have "parseContactUri P (exportContactUri b alias) = Inr (p, bytesToHex P (sha256 P kb), bundle_of_payload p)"
    using d obj req payload_reads_back(1) [of ?v p] sel assms(3-5)
    by (simp add: parseContactUri_def uri computePubkeyHash_def)
  moreover have "bundle_of_payload p = b" by (simp add: bundle_of_payload_def p_def)
  ultimately show ?thesis by (auto simp: p_def)
qed

text \<open>A bundle of the concrete parameters.\<close>

lemma wf_text_hex: "hex_codec P \<Longrightarrow> wf_text (bytesToHex P b)"
proof -
  assume "hex_codec P"
  then have "set (bytesToHex P b) \<subseteq> hexchars" by (simp add: hex_codec_def)
  moreover have "\<forall>c \<in> hexchars. code c < 128" unfolding hexchars_def by (simp add: code_def)
  ultimately show ?thesis by (intro wf_text_ascii) (auto simp: list_all_iff)
qed

definition demo_bundle :: prekey_bundle where
  "demo_bundle =
     \<lparr>pb_identityKeyHex = demo_key Bob, pb_signingKeyHex = bytesToHex model_prims (replicate 32 2),
      pb_signedPreKey = \<lparr>sp_keyId = 1, sp_publicKeyHex = bytesToHex model_prims (replicate 32 3),
        sp_signatureHex = bytesToHex model_prims (xor_bytes (fit 64 (replicate 32 3)) (fit 64 (replicate 32 2)))\<rparr>,
      pb_oneTimePreKey = None\<rparr>"

lemma demo_bundle_verifies:
  "verifySignature model_prims (sp_publicKeyHex (pb_signedPreKey demo_bundle))
     (sp_signatureHex (pb_signedPreKey demo_bundle)) (pb_signingKeyHex demo_bundle)"
proof -
  have "verify_detached model_prims c sg pk =
      (if length sg = 64 \<and> length pk = 32 then Inr (sg = xor_bytes (fit 64 c) (fit 64 pk)) else Inl LibError)" for c sg pk
    by (simp add: model_prims_def)
  then show ?thesis
    by (simp add: verifySignature_def demo_bundle_def hexToBytes_bytesToHex [OF model_hex_codec])
qed

lemma demo_bundle_plain: "plain_bundle demo_bundle"
proof -
  have "demo_key Bob = bytesToHex model_prims (replicate 32 2)"
    by (simp add: demo_key_def demo_identity_def demo_keypair_def Let_def)
  moreover have "xor_bytes (fit 64 a) (fit 64 b) \<noteq> []" for a b
    using length_xor_bytes [of "fit 64 a" "fit 64 b"] by (metis length_fit list.size(3) min.idem zero_neq_numeral)
  ultimately show ?thesis
    by (simp add: plain_bundle_def demo_bundle_def wf_text_hex model_hex_codec bytesToHex_Nil_iff [OF model_hex_codec])
qed

lemma demo_bundle_key: "hexToBytes model_prims (pb_signingKeyHex demo_bundle) = Inr (replicate 32 2)"
  by (simp add: demo_bundle_def hexToBytes_bytesToHex [OF model_hex_codec])

text \<open>C16. The URI of a bundle whose signature verifies is read back as the same bundle and alias, and the
  mailbox of the contact is the hash of its signing key.\<close>

theorem contact_uri_roundtrip:
  assumes "plain_bundle b" "\<forall>a. alias = Some a \<longrightarrow> wf_text a"
    and "verifySignature P (sp_publicKeyHex (pb_signedPreKey b)) (sp_signatureHex (pb_signedPreKey b)) (pb_signingKeyHex b)"
    and "hexToBytes P (pb_signingKeyHex b) = Inr kb" "length kb = 32"
  shows "\<exists>p. parseContactUri P (exportContactUri b alias) = Inr (p, bytesToHex P (sha256 P kb), b) \<and> cp_alias p = alias"
  using contact_uri_read [OF assms] .

theorem contact_uri_roundtrip_witness:
  "\<exists>p. parseContactUri model_prims (exportContactUri demo_bundle (Some ''Bob'')) =
     Inr (p, bytesToHex model_prims (sha256 model_prims (replicate 32 2)), demo_bundle) \<and> cp_alias p = Some ''Bob''"
  by (rule contact_uri_roundtrip [OF demo_bundle_plain _ demo_bundle_verifies demo_bundle_key, of "Some _"])
    (simp_all add: wf_text_punct code_def del: wf_text.simps(2))

text \<open>C15. Whatever text is scanned, a contact is only read from it if the signature of its signed pre-key
  verifies under the signing key it names; the mailbox is the hash of that key, and the bundle that
  opens the session carries the same keys. Nothing else of the payload is signed: another identity
  key in its place is accepted as well.\<close>

theorem parsed_contact_verified:
  assumes "parseContactUri P uri = Inr (p, h, b)"
  shows "verifySignature P (sp_publicKeyHex (pb_signedPreKey b)) (sp_signatureHex (pb_signedPreKey b)) (pb_signingKeyHex b)
     \<and> (\<exists>kb. hexToBytes P (cp_signingKeyHex p) = Inr kb \<and> length kb = 32 \<and> h = bytesToHex P (sha256 P kb))
     \<and> b = bundle_of_payload p
     \<and> (\<forall>ik. ik \<noteq> [] \<longrightarrow> wf_text ik \<longrightarrow> plain_bundle b \<longrightarrow> (\<forall>a. cp_alias p = Some a \<longrightarrow> wf_text a) \<longrightarrow>
          (\<exists>p'. parseContactUri P (exportContactUri (b\<lparr>pb_identityKeyHex := ik\<rparr>) (cp_alias p)) =
             Inr (p', h, b\<lparr>pb_identityKeyHex := ik\<rparr>)))"
proof -
  have v: "verifySignature P (sp_publicKeyHex (cp_signedPreKey p)) (sp_signatureHex (cp_signedPreKey p)) (cp_signingKeyHex p)"
    and b: "b = bundle_of_payload p"
    and h: "\<exists>kb. hexToBytes P (cp_signingKeyHex p) = Inr kb \<and> computePubkeyHash P kb = Inr h"
    using assms by (auto simp: parseContactUri_def bindR_Inr_iff split: if_splits)
  from h obtain kb where kb: "hexToBytes P (cp_signingKeyHex p) = Inr kb" "length kb = 32" "h = bytesToHex P (sha256 P kb)"
    by (auto simp: computePubkeyHash_def split: if_splits)
  have other: "\<exists>p'. parseContactUri P (exportContactUri (b\<lparr>pb_identityKeyHex := ik\<rparr>) (cp_alias p)) =
       Inr (p', h, b\<lparr>pb_identityKeyHex := ik\<rparr>)"
    if "ik \<noteq> []" "wf_text ik" "plain_bundle b" "\<forall>a. cp_alias p = Some a \<longrightarrow> wf_text a" for ik
    using contact_uri_read [of "b\<lparr>pb_identityKeyHex := ik\<rparr>" "cp_alias p" P kb] that kb v
    by (auto simp: plain_bundle_def b bundle_of_payload_def)
  show ?thesis using v kb b other by (auto simp: bundle_of_payload_def)
qed

theorem parsed_contact_verified_witness:
  "\<exists>p h. parseContactUri model_prims (exportContactUri demo_bundle None) = Inr (p, h, demo_bundle) \<and>
     verifySignature model_prims (sp_publicKeyHex (pb_signedPreKey demo_bundle))
       (sp_signatureHex (pb_signedPreKey demo_bundle)) (pb_signingKeyHex demo_bundle)"
proof -
  obtain p h where "parseContactUri model_prims (exportContactUri demo_bundle None) = Inr (p, h, demo_bundle)"
    using contact_uri_read [OF demo_bundle_plain _ demo_bundle_verifies demo_bundle_key, of None] by auto
  then show ?thesis using parsed_contact_verified by blast
qed

end
