(* ===== verification/App_Store.thy ===== *)
theory App_Store
  imports Repositories Engine_Properties
begin

section \<open>One database for the engine and the repositories\<close>

text \<open>
  The orchestrator hands one \<open>DatabaseManager\<close> to the signal store and to the two repositories. A
  statement on the tables of contacts, messages or own devices leaves what the engine keeps there
  as it is; this theory says so once for all methods of the repositories.
\<close>

definition same_engine :: "database \<Rightarrow> database \<Rightarrow> bool" where
  "same_engine d d' \<longleftrightarrow>
     sessions d' = sessions d \<and> signed_prekeys d' = signed_prekeys d \<and> one_time_prekeys d' = one_time_prekeys d"

definition same_keys :: "prims \<Rightarrow> sql_store \<Rightarrow> sql_store \<Rightarrow> bool" where
  "same_keys P s s' \<longleftrightarrow>
     sql_invar P s' \<and> sql_spks P s' = sql_spks P s \<and> sql_otks P s' = sql_otks P s \<and> sql_sess P s' = sql_sess P s \<and>
     ss_identity s' = ss_identity s \<and>
     sql_getLatestSignedPreKey P s' = (fst (sql_getLatestSignedPreKey P s), s')"

lemma latest_read:
  "dm_ready (ss_db s) \<Longrightarrow> sql_getLatestSignedPreKey P s = (read_row sk_key_data (deserializeSignedPreKey P)
      (case order_by_desc sk_created_at (signed_prekeys (db_of (ss_db s))) of [] \<Rightarrow> None | r # _ \<Rightarrow> Some r), s)"
  by (simp add: sql_getLatestSignedPreKey_def on_db_query)

lemma same_keys_refl: "sql_invar P s \<Longrightarrow> same_keys P s s"
  using sql_invar_ready [of P s] by (simp add: same_keys_def latest_read)

lemma same_keys_trans: "same_keys P s s' \<Longrightarrow> same_keys P s' s'' \<Longrightarrow> same_keys P s s''"
  by (simp add: same_keys_def)

lemma same_keys_db:
  assumes "sql_invar P s" "dm_ready m'" "same_engine (db_of (ss_db s)) (db_of m')"
  shows "same_keys P s (s\<lparr>ss_db := m'\<rparr>)"
  using assms sql_invar_ready [OF assms(1)]
  by (simp add: same_keys_def same_engine_def sql_invar_def sql_spks_def sql_otks_def sql_sess_def latest_read)

lemma on_db_run: "m (ss_db s) = (r, m') \<Longrightarrow> on_db m s = (r, s\<lparr>ss_db := m'\<rparr>)"
  by (simp add: on_db_def)

text \<open>Reading changes nothing; the two inserts change their table only.\<close>

lemma on_db_read:
  assumes "sql_invar P s"
  shows "on_db (getContactByHash h) s =
       (Inr (map_option mapRowToContact (select_key c_recipient_pubkey_hash (toLowerCase h) (contacts (db_of (ss_db s))))), s)"
    and "on_db (getContactByIdentityKey h) s =
       (Inr (map_option mapRowToContact (select_key c_identity_pubkey_hex (toLowerCase h) (contacts (db_of (ss_db s))))), s)"
    and "on_db listContacts s = (Inr (map mapRowToContact (order_by_desc c_created_at (contacts (db_of (ss_db s))))), s)"
    and "on_db listOwnLinkedDevices s =
       (Inr (map own_device_of_row (order_by_asc d_device_id (own_linked_devices (db_of (ss_db s))))), s)"
  using sql_invar_ready [OF assms]
  by (simp_all add: on_db_def getContactByHash_def getContactByIdentityKey_def listContacts_def listOwnLinkedDevices_def
      bindM_def queryOne_ready query_ready)

definition contact_row_of :: "contact_record \<Rightarrow> contact_row" where
  "contact_row_of c =
     \<lparr>c_recipient_pubkey_hash = toLowerCase (cr_recipientPubkeyHash c),
      c_identity_pubkey_hex = toLowerCase (cr_identityPubkeyHex c),
      c_signing_pubkey_hex = toLowerCase (cr_signingPubkeyHex c),
      c_alias = cr_alias c, c_created_at = cr_createdAt c,
      c_linked_devices = Some (stringify_devices (case cr_linkedDevices c of None \<Rightarrow> [] | Some ds \<Rightarrow> ds))\<rparr>"

lemma on_db_saveContact:
  assumes "sql_invar P s"
  shows "\<exists>s'. on_db (saveContact c) s = (Inr (), s') \<and> same_keys P s s' \<and>
     contacts (db_of (ss_db s')) = upsert c_recipient_pubkey_hash merge_contact (contact_row_of c) (contacts (db_of (ss_db s))) \<and>
     messages (db_of (ss_db s')) = messages (db_of (ss_db s)) \<and>
     own_linked_devices (db_of (ss_db s')) = own_linked_devices (db_of (ss_db s))"
proof -
  let ?m = "ss_db s"
  let ?d' = "(db_of ?m)\<lparr>contacts := upsert c_recipient_pubkey_hash merge_contact (contact_row_of c) (contacts (db_of ?m))\<rparr>"
  have ready: "dm_ready ?m" using sql_invar_ready [OF assms] by blast
  then have run: "saveContact c ?m = (Inr (), ?m\<lparr>dm_driver := Some ?d'\<rparr>)"
    by (simp add: saveContact_def execute_modify contact_row_of_def Let_def)
  have "same_keys P s (s\<lparr>ss_db := ?m\<lparr>dm_driver := Some ?d'\<rparr>\<rparr>)"
    using saveContact_keeps [OF ready, of c] run by (intro same_keys_db [OF assms]) (simp_all add: same_engine_def)
  then show ?thesis using on_db_run [of "saveContact c" s, OF run] by auto
qed

lemma on_db_saveMessage:
  assumes "sql_invar P s"
  shows "\<exists>s'. on_db (saveMessage m) s =
       (if sm_id m \<in> m_id ` set (messages (db_of (ss_db s))) \<or>
           toLowerCase (sm_contactPubkeyHash m) \<in> c_recipient_pubkey_hash ` set (contacts (db_of (ss_db s)))
        then (Inr (), s') else (Inl LibError, s)) \<and> same_keys P s s' \<and>
     contacts (db_of (ss_db s')) = contacts (db_of (ss_db s)) \<and>
     own_linked_devices (db_of (ss_db s')) = own_linked_devices (db_of (ss_db s)) \<and>
     (sm_id m \<in> m_id ` set (messages (db_of (ss_db s))) \<or>
        toLowerCase (sm_contactPubkeyHash m) \<in> c_recipient_pubkey_hash ` set (contacts (db_of (ss_db s))) \<longrightarrow>
      messages (db_of (ss_db s')) = upsert m_id merge_message (row_of_message m) (messages (db_of (ss_db s))))"
proof -
  let ?db = "ss_db s"
  let ?d' = "(db_of ?db)\<lparr>messages := upsert m_id merge_message (row_of_message m) (messages (db_of ?db))\<rparr>"
  let ?ok = "sm_id m \<in> m_id ` set (messages (db_of ?db)) \<or>
           toLowerCase (sm_contactPubkeyHash m) \<in> c_recipient_pubkey_hash ` set (contacts (db_of ?db))"
  have ready: "dm_ready ?db" "foreign_keys (db_of ?db)"
    using sql_invar_ready [OF assms] db_ok_fk by blast+
  have run: "saveMessage m ?db = (if ?ok then (Inr (), ?db\<lparr>dm_driver := Some ?d'\<rparr>) else (Inl LibError, ?db))"
    using ready by (auto simp: saveMessage_def execute_stmt Let_def row_of_message_def dm_same)
  show ?thesis
  proof (cases ?ok)
    case True
    have "same_keys P s (s\<lparr>ss_db := ?db\<lparr>dm_driver := Some ?d'\<rparr>\<rparr>)"
      using saveMessage_keeps [OF ready(1), of m] run True
      by (intro same_keys_db [OF assms]) (simp_all add: same_engine_def)
    then show ?thesis
      using True run on_db_run [of "saveMessage m" s "Inr ()" "?db\<lparr>dm_driver := Some ?d'\<rparr>"] by auto
  next
    case False
    then show ?thesis using run on_db_run [of "saveMessage m" s "Inl LibError" ?db] same_keys_refl [OF assms] by auto
  qed
qed

lemma contact_row_key [simp]: "c_recipient_pubkey_hash (contact_row_of c) = toLowerCase (cr_recipientPubkeyHash c)"
  by (simp add: contact_row_of_def)

lemma saved_contact_found:
  "select_key c_recipient_pubkey_hash (toLowerCase (cr_recipientPubkeyHash c))
     (upsert c_recipient_pubkey_hash merge_contact (contact_row_of c) rows) =
   Some (case select_key c_recipient_pubkey_hash (toLowerCase (cr_recipientPubkeyHash c)) rows of
      None \<Rightarrow> contact_row_of c | Some r \<Rightarrow> merge_contact r (contact_row_of c))"
  by (simp add: contacts_tab.select_upsert)

subsection \<open>The engine leaves the tables of the application alone\<close>

text \<open>What a method leaves of a state, whether it returns or throws: a reflexive and transitive relation
  is kept by a sequence of calls as soon as every call keeps it.\<close>

definition keeps :: "('s \<Rightarrow> 's \<Rightarrow> bool) \<Rightarrow> ('s, 'a) M \<Rightarrow> bool" where
  "keeps R m \<longleftrightarrow> (\<forall>s. R s (snd (m s)))"

locale frame =
  fixes R :: "'s \<Rightarrow> 's \<Rightarrow> bool"
  assumes refl: "R s s" and trans: "R a b \<Longrightarrow> R b c \<Longrightarrow> R a c"
begin

lemma pure: "keeps R (ret x)" "keeps R (throwM e)" "keeps R (liftM r)" "keeps R (getM g)"
  by (simp_all add: keeps_def refl)

lemma bind: "keeps R m \<Longrightarrow> (\<And>a. keeps R (f a)) \<Longrightarrow> keeps R (bindM m f)"
  unfolding keeps_def bindM_def by (auto split: prod.split sum.split) (metis snd_conv trans)+

lemma attempt: "keeps R m \<Longrightarrow> (\<And>e. keeps R (h e)) \<Longrightarrow> keeps R (tryM m h)"
  unfolding keeps_def tryM_def by (auto split: prod.split sum.split) (metis snd_conv trans)+

lemma choice: "(b \<Longrightarrow> keeps R m) \<Longrightarrow> (\<not> b \<Longrightarrow> keeps R n) \<Longrightarrow> keeps R (if b then m else n)"
  by simp

lemma cases_option: "keeps R m \<Longrightarrow> (\<And>x. keeps R (f x)) \<Longrightarrow> keeps R (case xo of None \<Rightarrow> m | Some x \<Rightarrow> f x)"
  by (cases xo) simp_all

lemma check: "keeps R m \<Longrightarrow> keeps R (\<lambda>s. if c s then (r, s) else m s)"
  by (simp add: keeps_def refl)

lemma after: "keeps R m \<Longrightarrow> m s = (r, s') \<Longrightarrow> R s s'"
  by (metis keeps_def snd_conv)

end

definition app_tables :: "sql_store \<Rightarrow> sql_store \<Rightarrow> bool" where
  "app_tables s s' \<longleftrightarrow> ss_identity s' = ss_identity s \<and>
     (dm_ready (ss_db s) \<longrightarrow> dm_ready (ss_db s') \<and> contacts (db_of (ss_db s')) = contacts (db_of (ss_db s)) \<and>
        messages (db_of (ss_db s')) = messages (db_of (ss_db s)) \<and>
        own_linked_devices (db_of (ss_db s')) = own_linked_devices (db_of (ss_db s)))"

interpretation app: frame app_tables
  by unfold_locales (auto simp: app_tables_def)

lemma app_statement:
  assumes "\<And>d. db_ok d \<Longrightarrow> db_ok (g d)"
    and "\<And>d. contacts (g d) = contacts d \<and> messages (g d) = messages d \<and> own_linked_devices (g d) = own_linked_devices d"
  shows "keeps app_tables (on_db (execute (modifyM g)))"
  using assms dm_ready_update dm_ready_db_ok
  by (auto simp: keeps_def app_tables_def on_db_def execute_modify split: prod.split)

lemma app_query: "keeps app_tables (on_db (queryOne g))"
  by (auto simp: keeps_def app_tables_def on_db_def queryOne_ready split: prod.split)

lemma engine_statements:
  "keeps app_tables (on_db (execute (modifyM (\<lambda>d. d\<lparr>signed_prekeys := upsert sk_key_id merge_signed_prekey r1 (signed_prekeys d)\<rparr>))))"
  "keeps app_tables (on_db (execute (modifyM (\<lambda>d. d\<lparr>one_time_prekeys := upsert ok_key_id merge_one_time_prekey r2 (one_time_prekeys d)\<rparr>))))"
  "keeps app_tables (on_db (execute (modifyM (\<lambda>d. d\<lparr>one_time_prekeys := delete_key ok_key_id i (one_time_prekeys d)\<rparr>))))"
  "keeps app_tables (on_db (execute (modifyM (\<lambda>d. d\<lparr>sessions := upsert s_recipient_identity_pubkey_hex merge_session r3 (sessions d)\<rparr>))))"
  by (rule app_statement; simp add: db_ok_def spk_tab.distinct_upsert otk_tab.distinct_upsert otk_tab.distinct_delete
      sessions_tab.distinct_upsert)+

lemma sql_ops_keep:
  "keeps app_tables (getIdentity (sql_ops P))"
  "keeps app_tables (saveSignedPreKey (sql_ops P) i k)"
  "keeps app_tables (getLatestSignedPreKey (sql_ops P))"
  "keeps app_tables (saveOneTimePreKey (sql_ops P) i o1)"
  "keeps app_tables (getOneTimePreKey (sql_ops P) i)"
  "keeps app_tables (removeOneTimePreKey (sql_ops P) i)"
  "keeps app_tables (saveSession (sql_ops P) h w)"
  "keeps app_tables (getSession (sql_ops P) h)"
  "keeps app_tables (sql_hasSession h)"
  by (simp_all add: sql_ops_def sql_saveSignedPreKey_def sql_getLatestSignedPreKey_def sql_saveOneTimePreKey_def
      sql_getOneTimePreKey_def sql_removeOneTimePreKey_def sql_saveSession_def sql_getSession_def sql_hasSession_def Let_def
      app.pure app.bind app_query engine_statements)

lemma on_session_keeps: "keeps app_tables (on_session (sql_ops P) h m w)"
  by (auto simp: keeps_def on_session_def sql_ops_def app.refl split: prod.split sum.split)

lemmas engine_keeps = app.pure sql_ops_keep on_session_keeps

lemma initiateBobSession_keeps: "keeps app_tables (initiateBobSession P (sql_ops P) sk now h msg)"
  unfolding initiateBobSession_def take_oneTimePreKey_def Let_def
  by (intro app.choice app.bind app.cases_option engine_keeps; (simp only: split_beta)?; intro app.bind engine_keeps)

lemma encrypt_keeps: "keeps app_tables (encrypt P (sql_ops P) nonce now h pt ctx)"
  unfolding encrypt_def Let_def
  by (intro app.choice app.bind app.cases_option engine_keeps; (simp only: split_beta)?; intro app.bind engine_keeps)

lemma decrypt_keeps: "keeps app_tables (decrypt P (sql_ops P) bk rk now h msg)"
  unfolding decrypt_def
  by (intro app.choice app.bind app.cases_option initiateBobSession_keeps engine_keeps; (simp only: split_beta)?; intro app.bind engine_keeps)

lemma initiateSession_keeps: "keeps app_tables (initiateSession P (sql_ops P) ek now h bdl)"
  unfolding initiateSession_def Let_def
  by (intro app.choice app.bind app.cases_option engine_keeps; (simp only: split_beta)?; intro app.bind engine_keeps)

lemma store_oneTimePreKeys_keeps: "keeps app_tables (store_oneTimePreKeys P (sql_ops P) draw i n)"
  by (induction n arbitrary: i) (auto simp: Let_def intro: app.bind engine_keeps)

lemma generatePreKeyBundle_keeps: "keeps app_tables (generatePreKeyBundle P (sql_ops P) sk i draw now n)"
  unfolding generatePreKeyBundle_def Let_def by (intro app.bind store_oneTimePreKeys_keeps engine_keeps)

end
