(* ===== verification/Orchestrator.thy ===== *)
theory Orchestrator
  imports App_Store Contact_Exchange Tor_Manager Http_Client
begin

section \<open>The orchestrator\<close>

text \<open>
  \<open>client/src/orchestration/AppOrchestrator.ts\<close>: the object that owns the store, the engine and the
  network clients, sends a message to every device of a contact and to the user's own devices, and
  takes the messages of the relay apart.

  The HTTP client is used through what its promise settles to: \<open>http E i e\<close> is the outcome of the
  \<open>i\<close>-th request, whose envelope is \<open>e\<close>; every envelope handed to the client is appended to
  \<open>ao_posted\<close>. Random bytes are drawn by a counter, \<open>now\<close> is the time of the call, the callbacks of
  the application are recorded in \<open>ao_events\<close> when they are registered. An envelope or a sync payload
  whose members have other types than their interfaces declare is an error here.
\<close>

subsection \<open>Messages as JSON\<close>

definition json_of_encrypted :: "encrypted_message \<Rightarrow> json" where
  "json_of_encrypted m = JObj ([(''ephemeralPublicKeyHex'', JStr (em_ephemeralPublicKeyHex m)),
     (''sequenceNumber'', JNum (em_sequenceNumber m)), (''previousChainLength'', JNum (em_previousChainLength m)),
     (''ciphertext'', JStr (em_ciphertext m)), (''nonce'', JStr (em_nonce m))]
     @ opt_member ''oneTimePreKeyId'' JNum (em_oneTimePreKeyId m)
     @ opt_member ''initialIdentityKeyHex'' JStr (em_initialIdentityKeyHex m)
     @ opt_member ''initialEphemeralKeyHex'' JStr (em_initialEphemeralKeyHex m))"

definition encrypted_of_json :: "json \<Rightarrow> encrypted_message res" where
  "encrypted_of_json v =
     bindR (jget as_str v ''ephemeralPublicKeyHex'') (\<lambda>eph. bindR (jget as_int v ''sequenceNumber'') (\<lambda>n.
     bindR (jget as_int v ''previousChainLength'') (\<lambda>pn. bindR (jget as_str v ''ciphertext'') (\<lambda>ct.
     bindR (jget as_str v ''nonce'') (\<lambda>nc. bindR (jget_opt as_int v ''oneTimePreKeyId'') (\<lambda>otk.
     bindR (jget_opt as_str v ''initialIdentityKeyHex'') (\<lambda>ik.
     bindR (jget_opt as_str v ''initialEphemeralKeyHex'') (\<lambda>ek.
     Inr \<lparr>em_ephemeralPublicKeyHex = eph, em_sequenceNumber = n, em_previousChainLength = pn, em_ciphertext = ct,
          em_nonce = nc, em_oneTimePreKeyId = otk, em_initialIdentityKeyHex = ik,
          em_initialEphemeralKeyHex = ek\<rparr>))))))))"

lemma encrypted_json [simp]:
  "encrypted_of_json (json_of_encrypted m) = Inr m" "wf_json (json_of_encrypted m)"
  by (simp_all add: encrypted_of_json_def json_of_encrypted_def opt_member_def split: option.split)

record sync_payload =
  sy_originalRecipientHash :: hex
  sy_body :: string
  sy_timestamp :: int
  sy_messageId :: string

definition json_of_sync :: "sync_payload \<Rightarrow> json" where
  "json_of_sync y = JObj [(''isSyncMessage'', JBool True), (''originalRecipientHash'', JStr (sy_originalRecipientHash y)),
     (''body'', JStr (sy_body y)), (''timestamp'', JNum (sy_timestamp y)), (''messageId'', JStr (sy_messageId y))]"

text \<open>\<open>IncomingMessagePayload\<close>; \<open>created_at\<close> is in seconds.\<close>

record incoming_payload =
  ip_encrypted_payload :: string
  ip_nonce :: string
  ip_created_at :: "int option"

subsection \<open>The state\<close>

datatype event_kind = KMessageReceived | KMessageSent | KTorStatus | KWsState | KError

datatype orch_event =
  MessageReceived stored_message
| MessageSent stored_message
| TorStatusChanged tor_status
| WsStateChanged ws_state
| ErrorReported exn

fun kind_of :: "orch_event \<Rightarrow> event_kind" where
  "kind_of (MessageReceived m) = KMessageReceived"
| "kind_of (MessageSent m) = KMessageSent"
| "kind_of (TorStatusChanged s) = KTorStatus"
| "kind_of (WsStateChanged s) = KWsState"
| "kind_of (ErrorReported e) = KError"

record orchestrator =
  ao_store :: sql_store
  ao_tor :: tor_manager
  ao_ws :: ws_client
  ao_registered :: "event_kind set"
  ao_events :: "orch_event list"
  ao_posted :: "outgoing_envelope list"
  ao_drawn :: nat

record orch_env =
  nonce_at :: "nat \<Rightarrow> bytes"
  id_at :: "nat \<Rightarrow> bytes"
  secret_at :: "nat \<Rightarrow> bytes"
  http :: "nat \<Rightarrow> outgoing_envelope \<Rightarrow> http_response res"
  ws_draws :: ws_env

definition new_AppOrchestrator ::
  "identity \<Rightarrow> tor_config \<Rightarrow> string option \<Rightarrow> bool option \<Rightarrow> tor_manager option \<Rightarrow> event_kind set \<Rightarrow> orchestrator" where
  "new_AppOrchestrator u cfg dbName dbMemory inst events =
     \<lparr>ao_store = new_SqliteSignalStore u (new_DatabaseManager dbName dbMemory),
      ao_tor = getInstance (Some \<lparr>pc_socksProxyHost = Some (socksProxyHost cfg), pc_socksProxyPort = Some (socksProxyPort cfg),
        pc_targetHost = Some (targetHost cfg), pc_targetPort = Some (targetPort cfg), pc_devMode = Some (devMode cfg)\<rparr>) inst,
      ao_ws = new_TorWebSocketClient cfg u, ao_registered = events, ao_events = [], ao_posted = [], ao_drawn = 0\<rparr>"

text \<open>\<open>initialize\<close> and \<open>create\<close>, with the state of the keychain the database key is read from.\<close>

definition initialize_app ::
  "prims \<Rightarrow> (string \<Rightarrow> hex option \<Rightarrow> database res) \<Rightarrow> 'k keychain_ops option \<Rightarrow> bytes \<Rightarrow> bytes \<Rightarrow> int
     \<Rightarrow> (orchestrator \<times> 'k, unit) M" where
  "initialize_app P open_file kc drawn fallback now obk =
     (case initialize P open_file kc drawn fallback now (ss_db (ao_store (fst obk)), snd obk) of
        (r, (m, kst)) \<Rightarrow> (r, ((fst obk)\<lparr>ao_store := (ao_store (fst obk))\<lparr>ss_db := m\<rparr>\<rparr>, kst)))"

definition create_app ::
  "prims \<Rightarrow> (string \<Rightarrow> hex option \<Rightarrow> database res) \<Rightarrow> 'k keychain_ops option \<Rightarrow> bytes \<Rightarrow> bytes \<Rightarrow> int \<Rightarrow>
     identity \<Rightarrow> tor_config \<Rightarrow> string option \<Rightarrow> bool option \<Rightarrow> tor_manager option \<Rightarrow> event_kind set \<Rightarrow> 'k \<Rightarrow>
     orchestrator res \<times> 'k" where
  "create_app P open_file kc drawn fallback now u cfg dbName dbMemory inst events kst =
     (case initialize_app P open_file kc drawn fallback now (new_AppOrchestrator u cfg dbName dbMemory inst events, kst) of
        (Inl e, (ob, kst')) \<Rightarrow> (Inl e, kst')
      | (Inr _, (ob, kst')) \<Rightarrow> (Inr ob, kst'))"

definition on_store :: "(sql_store, 'a) M \<Rightarrow> (orchestrator, 'a) M" where
  "on_store m ob = (let (r, s') = m (ao_store ob) in (r, ob\<lparr>ao_store := s'\<rparr>))"

definition on_repo :: "(db_manager, 'a) M \<Rightarrow> (orchestrator, 'a) M" where
  "on_repo m = on_store (on_db m)"

definition emit :: "orch_event \<Rightarrow> (orchestrator, unit) M" where
  "emit e = modifyM (\<lambda>ob. if kind_of e \<in> ao_registered ob then ob\<lparr>ao_events := ao_events ob @ [e]\<rparr> else ob)"

definition draw_from :: "(nat \<Rightarrow> bytes) \<Rightarrow> (orchestrator, bytes) M" where
  "draw_from f ob = (Inr (f (ao_drawn ob)), ob\<lparr>ao_drawn := ao_drawn ob + 1\<rparr>)"

definition post :: "orch_env \<Rightarrow> outgoing_envelope \<Rightarrow> (orchestrator, json) M" where
  "post E e ob = (sendMessage_result (http E (length (ao_posted ob)) e), ob\<lparr>ao_posted := ao_posted ob @ [e]\<rparr>)"

definition setEvents :: "event_kind set \<Rightarrow> (orchestrator, unit) M" where
  "setEvents ks = modifyM (\<lambda>ob. ob\<lparr>ao_registered := ao_registered ob \<union> ks\<rparr>)"

subsection \<open>Sending\<close>

definition send_to ::
  "prims \<Rightarrow> orch_env \<Rightarrow> int \<Rightarrow> hex \<Rightarrow> hex \<Rightarrow> string \<Rightarrow> (orchestrator, json) M" where
  "send_to P E now identityPubkeyHex mailbox plaintext =
     bindM (draw_from (nonce_at E)) (\<lambda>nonce.
     bindM (on_store (encrypt P (sql_ops P) nonce now identityPubkeyHex plaintext None)) (\<lambda>msg.
     post E \<lparr>oe_recipient_pubkey_hash = mailbox, oe_encrypted_payload = JSON_stringify (json_of_encrypted msg),
             oe_nonce = em_nonce msg\<rparr>))"

text \<open>One iteration of the loop over the devices of the contact: whether it was delivered live.\<close>

definition deliver_device :: "prims \<Rightarrow> orch_env \<Rightarrow> int \<Rightarrow> string \<Rightarrow> device_record \<Rightarrow> (orchestrator, bool) M" where
  "deliver_device P E now plaintext device =
     tryM (bindM (send_to P E now (dr_identityPubkeyHex device) (dr_recipientPubkeyHash device) plaintext) (\<lambda>resp.
           bindM (liftM (jprop resp ''delivered_live'')) (\<lambda>live. ret (jtruthy live))))
       (\<lambda>_. ret False)"

primrec deliver_devices ::
  "prims \<Rightarrow> orch_env \<Rightarrow> int \<Rightarrow> string \<Rightarrow> device_record list \<Rightarrow> (orchestrator, bool) M" where
  "deliver_devices P E now plaintext [] = ret False"
| "deliver_devices P E now plaintext (d # ds) =
     bindM (deliver_device P E now plaintext d) (\<lambda>live.
     bindM (deliver_devices P E now plaintext ds) (\<lambda>later. ret (live \<or> later)))"

definition sync_device :: "prims \<Rightarrow> orch_env \<Rightarrow> int \<Rightarrow> sync_payload \<Rightarrow> own_device_record \<Rightarrow> (orchestrator, unit) M" where
  "sync_device P E now payload own =
     tryM (bindM (send_to P E now (or_identityPubkeyHex own) (or_recipientPubkeyHash own)
             (JSON_stringify (json_of_sync payload))) (\<lambda>_. ret ()))
       (\<lambda>_. ret ())"

primrec sync_devices ::
  "prims \<Rightarrow> orch_env \<Rightarrow> int \<Rightarrow> sync_payload \<Rightarrow> own_device_record list \<Rightarrow> (orchestrator, unit) M" where
  "sync_devices P E now payload [] = ret ()"
| "sync_devices P E now payload (d # ds) =
     bindM (sync_device P E now payload d) (\<lambda>_. sync_devices P E now payload ds)"

definition target_devices :: "contact_record \<Rightarrow> device_record list" where
  "target_devices c =
     (case cr_linkedDevices c of
        Some (d # ds) \<Rightarrow> d # ds
      | _ \<Rightarrow> [\<lparr>dr_deviceId = 1, dr_recipientPubkeyHash = cr_recipientPubkeyHash c,
               dr_identityPubkeyHex = cr_identityPubkeyHex c, dr_deviceName = None, dr_createdAt = cr_createdAt c\<rparr>])"

definition outgoing_message :: "hex \<Rightarrow> int \<Rightarrow> contact_record \<Rightarrow> string \<Rightarrow> string \<Rightarrow> bool \<Rightarrow> stored_message" where
  "outgoing_message own now c messageId plaintext live =
     \<lparr>sm_id = messageId, sm_contactPubkeyHash = cr_recipientPubkeyHash c, sm_senderIdentityHex = own,
      sm_recipientIdentityHex = cr_identityPubkeyHex c, sm_body = plaintext, sm_timestamp = now,
      sm_isOutgoing = True, sm_isRead = True, sm_deliveryStatus = (if live then delivered else sent_st)\<rparr>"

definition own_key :: "orchestrator \<Rightarrow> hex" where
  "own_key ob = publicKeyHex (encryptionKey (ss_identity (ao_store ob)))"

definition sendOutboundMessage ::
  "prims \<Rightarrow> orch_env \<Rightarrow> int \<Rightarrow> hex \<Rightarrow> string \<Rightarrow> (orchestrator, stored_message) M" where
  "sendOutboundMessage P E now contactPubkeyHash plaintext =
     bindM (on_repo (getContactByHash contactPubkeyHash)) (\<lambda>co.
     case co of None \<Rightarrow> throwM (Error (''Contact not found for hash: '' @ contactPubkeyHash))
     | Some contact \<Rightarrow>
       bindM (draw_from (id_at E)) (\<lambda>rid.
       let messageId = bytesToHex P rid in
       bindM (deliver_devices P E now plaintext (target_devices contact)) (\<lambda>live.
       bindM (on_repo listOwnLinkedDevices) (\<lambda>ownDevices.
       bindM (sync_devices P E now
           \<lparr>sy_originalRecipientHash = cr_recipientPubkeyHash contact, sy_body = plaintext, sy_timestamp = now,
            sy_messageId = messageId\<rparr> ownDevices) (\<lambda>_.
       bindM (getM own_key) (\<lambda>own.
       let storedMsg = outgoing_message own now contact messageId plaintext live in
       bindM (on_repo (saveMessage storedMsg)) (\<lambda>_.
       bindM (emit (MessageSent storedMsg)) (\<lambda>_. ret storedMsg))))))))"

subsection \<open>Receiving\<close>

definition unknown_contact :: "string \<Rightarrow> hex \<Rightarrow> int \<Rightarrow> contact_record" where
  "unknown_contact alias k now =
     \<lparr>cr_recipientPubkeyHash = k, cr_identityPubkeyHex = k, cr_signingPubkeyHex = [], cr_alias = Some alias,
      cr_createdAt = now, cr_linkedDevices = None\<rparr>"

primrec first_with_session :: "contact_record list \<Rightarrow> (sql_store, (hex \<times> contact_record) option) M" where
  "first_with_session [] = ret None"
| "first_with_session (c # cs) =
     bindM (sql_hasSession (cr_identityPubkeyHex c)) (\<lambda>has.
     if has then ret (Some (toLowerCase (cr_identityPubkeyHex c), c)) else first_with_session cs)"

text \<open>The sender named by the message, saved as a new contact if there is none; without a name the
  first contact with a session.\<close>

definition resolve_sender :: "string \<Rightarrow> int \<Rightarrow> json \<Rightarrow> (sql_store, (hex \<times> contact_record) option) M" where
  "resolve_sender alias now v =
     bindM (liftM (jprop v ''initialIdentityKeyHex'')) (\<lambda>named.
     if jtruthy named then
       bindM (liftM (as_str (the named))) (\<lambda>k.
       let senderIdentityHex = toLowerCase k in
       bindM (on_db (getContactByIdentityKey senderIdentityHex)) (\<lambda>co.
       case co of Some c \<Rightarrow> ret (Some (senderIdentityHex, c))
       | None \<Rightarrow>
           let c = unknown_contact alias senderIdentityHex now in
           bindM (on_db (saveContact c)) (\<lambda>_. ret (Some (senderIdentityHex, c)))))
     else bindM (on_db listContacts) first_with_session)"

text \<open>The members of a sync payload that are read; no value stands for \<open>undefined\<close>.\<close>

definition text_field :: "json \<Rightarrow> string \<Rightarrow> string option" where
  "text_field v k = (case jfield v k of Some (JStr s) \<Rightarrow> Some s | _ \<Rightarrow> None)"

definition ensure_synced_contact :: "int \<Rightarrow> hex option \<Rightarrow> (sql_store, unit) M" where
  "ensure_synced_contact now ho =
     (case ho of None \<Rightarrow> throwM LibError
      | Some h \<Rightarrow>
          bindM (on_db (getContactByHash h)) (\<lambda>co.
          case co of Some _ \<Rightarrow> ret ()
          | None \<Rightarrow> on_db (saveContact (unknown_contact ''Synced Conversation'' h now))))"

record read_message =
  rm_isSync :: bool
  rm_body :: "string option"
  rm_target :: "hex option"
  rm_id :: "string option"

definition plain_message :: "string \<Rightarrow> hex \<Rightarrow> string \<Rightarrow> read_message" where
  "plain_message raw target messageId =
     \<lparr>rm_isSync = False, rm_body = Some raw, rm_target = Some target, rm_id = Some messageId\<rparr>"

text \<open>Step 3 of the handler. Whatever its block throws is caught; what was assigned before stays.\<close>

definition read_sync :: "int \<Rightarrow> hex \<Rightarrow> string \<Rightarrow> string \<Rightarrow> (sql_store, read_message) M" where
  "read_sync now target messageId raw =
     (case JSON_parse raw of Inl _ \<Rightarrow> ret (plain_message raw target messageId)
      | Inr v \<Rightarrow>
          if \<not> jtruthy (jfield v ''isSyncMessage'') then ret (plain_message raw target messageId)
          else
            let target' = text_field v ''originalRecipientHash'';
                messageId' = (if jtruthy (jfield v ''messageId'') then text_field v ''messageId'' else Some messageId) in
            bindM (tryM (ensure_synced_contact now target') (\<lambda>_. ret ())) (\<lambda>_.
            ret \<lparr>rm_isSync = True, rm_body = text_field v ''body'', rm_target = target', rm_id = messageId'\<rparr>))"

definition incoming_message :: "hex \<Rightarrow> hex \<Rightarrow> int \<Rightarrow> read_message \<Rightarrow> stored_message res" where
  "incoming_message sender own timestamp rm =
     (case (rm_id rm, rm_target rm, rm_body rm) of
        (Some i, Some h, Some b) \<Rightarrow>
          Inr \<lparr>sm_id = i, sm_contactPubkeyHash = h, sm_senderIdentityHex = sender, sm_recipientIdentityHex = own,
               sm_body = b, sm_timestamp = timestamp, sm_isOutgoing = rm_isSync rm, sm_isRead = rm_isSync rm,
               sm_deliveryStatus = delivered\<rparr>
      | _ \<Rightarrow> Inl LibError)"

definition timestamp_of :: "int \<Rightarrow> incoming_payload \<Rightarrow> int" where
  "timestamp_of now payload = (case ip_created_at payload of Some t \<Rightarrow> if t \<noteq> 0 then t * 1000 else now | None \<Rightarrow> now)"

text \<open>Steps 2 to 5 of the handler, once the sender is known, and the whole of its \<open>try\<close> block.\<close>

definition accept_message ::
  "prims \<Rightarrow> orch_env \<Rightarrow> int \<Rightarrow> incoming_payload \<Rightarrow> json \<Rightarrow> hex \<Rightarrow> contact_record \<Rightarrow> (orchestrator, stored_message) M" where
  "accept_message P E now payload v senderIdentityHex contact =
     bindM (draw_from (secret_at E)) (\<lambda>bobSecret. bindM (draw_from (secret_at E)) (\<lambda>ratchetSecret.
     bindM (liftM (encrypted_of_json v)) (\<lambda>encryptedMsg.
     bindM (on_store (decrypt P (sql_ops P) bobSecret ratchetSecret now senderIdentityHex encryptedMsg)) (\<lambda>rawDecrypted.
     bindM (draw_from (id_at E)) (\<lambda>rid.
     bindM (on_store (read_sync now (cr_recipientPubkeyHash contact) (bytesToHex P rid) rawDecrypted)) (\<lambda>rm.
     bindM (getM own_key) (\<lambda>own.
     bindM (liftM (incoming_message senderIdentityHex own (timestamp_of now payload) rm)) (\<lambda>storedMsg.
     bindM (on_repo (saveMessage storedMsg)) (\<lambda>_.
     bindM (emit (if rm_isSync rm then MessageSent storedMsg else MessageReceived storedMsg)) (\<lambda>_.
     ret storedMsg))))))))))"

definition process_incoming :: "prims \<Rightarrow> orch_env \<Rightarrow> int \<Rightarrow> incoming_payload \<Rightarrow> (orchestrator, stored_message) M" where
  "process_incoming P E now payload =
     bindM (liftM (JSON_parse (ip_encrypted_payload payload))) (\<lambda>v.
     bindM (on_store (resolve_sender ''Unknown Contact'' now v)) (\<lambda>so.
     case so of None \<Rightarrow> throwM (Error ''Could not resolve sender identity for incoming message'')
     | Some (senderIdentityHex, contact) \<Rightarrow>
       if senderIdentityHex = [] then throwM (Error ''Could not resolve sender identity for incoming message'')
       else accept_message P E now payload v senderIdentityHex contact))"

definition handleIncomingMessage ::
  "prims \<Rightarrow> orch_env \<Rightarrow> int \<Rightarrow> incoming_payload \<Rightarrow> (orchestrator, stored_message option) M" where
  "handleIncomingMessage P E now payload =
     tryM (bindM (process_incoming P E now payload) (\<lambda>m. ret (Some m)))
       (\<lambda>e. bindM (emit (ErrorReported e)) (\<lambda>_. ret None))"

subsection \<open>Lifecycle\<close>

text \<open>The callbacks the constructor gives to the WebSocket client.\<close>

definition payload_of_callback :: "json option \<Rightarrow> json option \<Rightarrow> json option \<Rightarrow> incoming_payload option" where
  "payload_of_callback p n t =
     (case (p, n) of
        (Some (JStr ps), Some (JStr ns)) \<Rightarrow>
          Some \<lparr>ip_encrypted_payload = ps, ip_nonce = ns, ip_created_at = (case t of Some (JNum i) \<Rightarrow> Some i | _ \<Rightarrow> None)\<rparr>
      | _ \<Rightarrow> None)"

fun on_ws_callback :: "prims \<Rightarrow> orch_env \<Rightarrow> int \<Rightarrow> ws_callback \<Rightarrow> (orchestrator, unit) M" where
  "on_ws_callback P E now (OnMessage p n t) =
     (case payload_of_callback p n t of
        Some payload \<Rightarrow> bindM (handleIncomingMessage P E now payload) (\<lambda>_. ret ())
      | None \<Rightarrow> emit (ErrorReported LibError))"
| "on_ws_callback P E now (OnStateChange st) = emit (WsStateChanged st)"
| "on_ws_callback P E now (OnWsError e) = emit (ErrorReported e)"
| "on_ws_callback P E now (OnAuthenticated h) = ret ()"
| "on_ws_callback P E now (OnDisconnect reason) = ret ()"

primrec run_callbacks :: "prims \<Rightarrow> orch_env \<Rightarrow> int \<Rightarrow> ws_callback list \<Rightarrow> (orchestrator, unit) M" where
  "run_callbacks P E now [] = ret ()"
| "run_callbacks P E now (c # cs) = bindM (on_ws_callback P E now c) (\<lambda>_. run_callbacks P E now cs)"

text \<open>One event of the stream: the callbacks it causes are run in their order, one after the other.\<close>

definition stream_event :: "prims \<Rightarrow> orch_env \<Rightarrow> int \<Rightarrow> ws_event \<Rightarrow> (orchestrator, unit) M" where
  "stream_event P E now ev ob =
     (let w = ws_step P (ws_draws E) ev (ao_ws ob) in
      run_callbacks P E now (drop (length (ws_log (ao_ws ob))) (ws_log w)) (ob\<lparr>ao_ws := w\<rparr>))"

primrec report_progress :: "bootstrap_progress list \<Rightarrow> (orchestrator, unit) M" where
  "report_progress [] = ret ()"
| "report_progress (p # ps) =
     bindM (emit (TorStatusChanged (if bp_isReady p then READY else BOOTSTRAPPING))) (\<lambda>_. report_progress ps)"

definition start_app :: "prims \<Rightarrow> orch_env \<Rightarrow> int \<Rightarrow> unit res option \<Rightarrow> (orchestrator, unit) M" where
  "start_app P E now native ob =
     (case startTor native (ao_tor ob) of ((r, ps), tor) \<Rightarrow>
        bindM (report_progress ps) (\<lambda>_. bindM (liftM r) (\<lambda>_. stream_event P E now Connect)) (ob\<lparr>ao_tor := tor\<rparr>))"

definition stop_app :: "prims \<Rightarrow> orch_env \<Rightarrow> int \<Rightarrow> (orchestrator, unit) M" where
  "stop_app P E now = bindM (stream_event P E now Disconnect) (\<lambda>_. on_repo close_manager)"

end
