(* ===== verification/Orch_Runs.thy ===== *)
theory Orch_Runs
  imports Orchestrator
begin

section \<open>Runs of the orchestrator's two handlers\<close>

text \<open>
  What \<open>sendOutboundMessage\<close> and \<open>handleIncomingMessage\<close> do when the engine's part succeeds: the
  engine's run is the same as on the bare signal store, because whatever the handlers do with
  contacts and messages leaves the keys alone.
\<close>

lemma on_store_run: "m (ao_store ob) = (r, s') \<Longrightarrow> on_store m ob = (r, ob\<lparr>ao_store := s'\<rparr>)"
  by (simp add: on_store_def)

lemma on_repo_run: "on_db m (ao_store ob) = (r, s') \<Longrightarrow> on_repo m ob = (r, ob\<lparr>ao_store := s'\<rparr>)"
  by (simp add: on_repo_def on_store_run)

text \<open>Every row of \<open>contacts\<close> is written with a lower-case key.\<close>

definition lower_contacts :: "sql_store \<Rightarrow> bool" where
  "lower_contacts s \<longleftrightarrow>
     (\<forall>r \<in> set (contacts (db_of (ss_db s))). toLowerCase (c_recipient_pubkey_hash r) = c_recipient_pubkey_hash r)"

definition stored_hashes :: "sql_store \<Rightarrow> hex set" where
  "stored_hashes s = c_recipient_pubkey_hash ` set (contacts (db_of (ss_db s)))"

lemma upserted_hashes:
  "c_recipient_pubkey_hash ` set (upsert c_recipient_pubkey_hash merge_contact (contact_row_of c) rows)
     = insert (toLowerCase (cr_recipientPubkeyHash c)) (c_recipient_pubkey_hash ` set rows)"
  using contacts_tab.keys_upsert [of "contact_row_of c" rows] by auto

lemma lower_contacts_hashes: "lower_contacts s \<longleftrightarrow> (\<forall>h \<in> stored_hashes s. toLowerCase h = h)"
  by (simp add: lower_contacts_def stored_hashes_def)

lemma saved_hashes:
  assumes "contacts (db_of (ss_db s')) = upsert c_recipient_pubkey_hash merge_contact (contact_row_of c) (contacts (db_of (ss_db s)))"
  shows "stored_hashes s' = insert (toLowerCase (cr_recipientPubkeyHash c)) (stored_hashes s)"
    and "lower_contacts s \<Longrightarrow> lower_contacts s'"
  using assms by (simp_all add: lower_contacts_hashes stored_hashes_def upserted_hashes)

lemma contact_hash_stored:
  assumes "lower_contacts s" "r \<in> set (contacts (db_of (ss_db s)))"
  shows "toLowerCase (cr_recipientPubkeyHash (mapRowToContact r)) \<in> stored_hashes s"
  using assms by (auto simp: lower_contacts_def stored_hashes_def mapRowToContact_def Let_def)

text \<open>The sender of a message that names one.\<close>

lemma resolve_named:
  assumes inv: "sql_invar P s" and low: "lower_contacts s"
    and named: "jprop v ''initialIdentityKeyHex'' = Inr (Some (JStr k))" "k \<noteq> []"
  shows "\<exists>c s1. resolve_sender alias now v s = (Inr (Some (toLowerCase k, c)), s1) \<and> same_keys P s s1 \<and> lower_contacts s1 \<and>
     toLowerCase (cr_recipientPubkeyHash c) \<in> stored_hashes s1 \<and> stored_hashes s \<subseteq> stored_hashes s1 \<and>
     messages (db_of (ss_db s1)) = messages (db_of (ss_db s)) \<and>
     own_linked_devices (db_of (ss_db s1)) = own_linked_devices (db_of (ss_db s)) \<and>
     (case select_key c_identity_pubkey_hex (toLowerCase k) (contacts (db_of (ss_db s))) of
        Some r \<Rightarrow> c = mapRowToContact r \<and> s1 = s
      | None \<Rightarrow> c = unknown_contact alias (toLowerCase k) now)"
proof (cases "select_key c_identity_pubkey_hex (toLowerCase k) (contacts (db_of (ss_db s)))")
  case (Some r)
  then have r: "r \<in> set (contacts (db_of (ss_db s)))" by (auto dest: select_key_Some)
  have "resolve_sender alias now v s = (Inr (Some (toLowerCase k, mapRowToContact r)), s)"
    using named Some on_db_read(2) [OF inv, of "toLowerCase k"] by (simp add: resolve_sender_def bindM_def Let_def)
  then show ?thesis using Some same_keys_refl [OF inv] low contact_hash_stored [OF low r] by auto
next
  case None
  let ?c = "unknown_contact alias (toLowerCase k) now"
  obtain s1 where s1: "on_db (saveContact ?c) s = (Inr (), s1)" "same_keys P s s1"
    "contacts (db_of (ss_db s1)) = upsert c_recipient_pubkey_hash merge_contact (contact_row_of ?c) (contacts (db_of (ss_db s)))"
    "messages (db_of (ss_db s1)) = messages (db_of (ss_db s))"
    "own_linked_devices (db_of (ss_db s1)) = own_linked_devices (db_of (ss_db s))"
    using on_db_saveContact [OF inv, of ?c] by blast
  have "resolve_sender alias now v s = (Inr (Some (toLowerCase k, ?c)), s1)"
    using named None on_db_read(2) [OF inv, of "toLowerCase k"] s1(1)
    by (simp add: resolve_sender_def bindM_def Let_def)
  then show ?thesis using None s1 saved_hashes [OF s1(3)] low by auto
qed

text \<open>What the handler takes a decrypted text for: a message of the sender, or what a device of the user
  itself reports, decided by the text alone.\<close>

definition reading :: "hex \<Rightarrow> string \<Rightarrow> string \<Rightarrow> read_message" where
  "reading target i raw =
     (case JSON_parse raw of Inl _ \<Rightarrow> plain_message raw target i
      | Inr v \<Rightarrow>
          if \<not> jtruthy (jfield v ''isSyncMessage'') then plain_message raw target i
          else \<lparr>rm_isSync = True, rm_body = text_field v ''body'', rm_target = text_field v ''originalRecipientHash'',
                rm_id = (if jtruthy (jfield v ''messageId'') then text_field v ''messageId'' else Some i)\<rparr>)"

definition ordinary_text :: "string \<Rightarrow> bool" where
  "ordinary_text pt \<longleftrightarrow> (case JSON_parse pt of Inl _ \<Rightarrow> True | Inr v \<Rightarrow> \<not> jtruthy (jfield v ''isSyncMessage''))"

lemma reading_ordinary: "ordinary_text pt \<Longrightarrow> reading h i pt = plain_message pt h i"
  by (auto simp: reading_def ordinary_text_def split: sum.splits)

lemma reading_sync:
  "reading h i (JSON_stringify (json_of_sync y)) =
     \<lparr>rm_isSync = True, rm_body = Some (sy_body y), rm_target = Some (sy_originalRecipientHash y),
      rm_id = Some (if sy_messageId y = [] then i else sy_messageId y)\<rparr>"
proof -
  have "JSON_parse (JSON_stringify (json_of_sync y)) = Inr (json_of_sync y)"
    by (rule JSON_parse_stringify) (simp add: json_of_sync_def)
  then show ?thesis by (simp add: reading_def json_of_sync_def text_field_def jfield_obj)
qed

lemma ensure_synced_run:
  assumes inv: "sql_invar P s" and low: "lower_contacts s"
  shows "\<exists>r s1. ensure_synced_contact now ho s = (r, s1) \<and> same_keys P s s1 \<and> lower_contacts s1 \<and>
     stored_hashes s \<subseteq> stored_hashes s1 \<and> (\<forall>h. ho = Some h \<longrightarrow> toLowerCase h \<in> stored_hashes s1) \<and>
     messages (db_of (ss_db s1)) = messages (db_of (ss_db s)) \<and>
     own_linked_devices (db_of (ss_db s1)) = own_linked_devices (db_of (ss_db s))"
proof (cases ho)
  case None
  then show ?thesis using same_keys_refl [OF inv] low by (simp add: ensure_synced_contact_def)
next
  case (Some h)
  show ?thesis
  proof (cases "select_key c_recipient_pubkey_hash (toLowerCase h) (contacts (db_of (ss_db s)))")
    case None
    let ?c = "unknown_contact ''Synced Conversation'' h now"
    obtain s1 where s1: "on_db (saveContact ?c) s = (Inr (), s1)" "same_keys P s s1"
      "contacts (db_of (ss_db s1)) = upsert c_recipient_pubkey_hash merge_contact (contact_row_of ?c) (contacts (db_of (ss_db s)))"
      "messages (db_of (ss_db s1)) = messages (db_of (ss_db s))"
      "own_linked_devices (db_of (ss_db s1)) = own_linked_devices (db_of (ss_db s))"
      using on_db_saveContact [OF inv, of ?c] by blast
    have "ensure_synced_contact now ho s = (Inr (), s1)"
      using Some None s1(1) on_db_read(1) [OF inv, of h] by (simp add: ensure_synced_contact_def bindM_def)
    then show ?thesis using s1 saved_hashes [OF s1(3)] low Some by (auto simp: unknown_contact_def)
  next
    case (Some r)
    then have "toLowerCase h \<in> stored_hashes s" using select_key_Some [OF Some] by (auto simp: stored_hashes_def image_iff intro: sym)
    moreover have "ensure_synced_contact now ho s = (Inr (), s)"
      using \<open>ho = Some h\<close> Some on_db_read(1) [OF inv, of h] by (simp add: ensure_synced_contact_def bindM_def)
    ultimately show ?thesis using same_keys_refl [OF inv] low \<open>ho = Some h\<close> by simp
  qed
qed

lemma read_sync_run:
  assumes inv: "sql_invar P s" and low: "lower_contacts s" and target: "toLowerCase h \<in> stored_hashes s"
  shows "\<exists>s1. read_sync now h i pt s = (Inr (reading h i pt), s1) \<and> same_keys P s s1 \<and> lower_contacts s1 \<and>
     (\<forall>k. rm_target (reading h i pt) = Some k \<longrightarrow> toLowerCase k \<in> stored_hashes s1) \<and>
     messages (db_of (ss_db s1)) = messages (db_of (ss_db s)) \<and>
     own_linked_devices (db_of (ss_db s1)) = own_linked_devices (db_of (ss_db s))"
proof (cases "ordinary_text pt")
  case True
  then have "read_sync now h i pt s = (Inr (plain_message pt h i), s)"
    by (auto simp: read_sync_def ordinary_text_def split: sum.splits)
  then show ?thesis
    using same_keys_refl [OF inv] low target reading_ordinary [OF True] by (simp add: plain_message_def)
next
  case False
  then obtain v where v: "JSON_parse pt = Inr v" "jtruthy (jfield v ''isSyncMessage'')"
    by (auto simp: ordinary_text_def split: sum.splits)
  obtain r s1 where s1: "ensure_synced_contact now (text_field v ''originalRecipientHash'') s = (r, s1)"
    "same_keys P s s1" "lower_contacts s1" "\<forall>k. text_field v ''originalRecipientHash'' = Some k \<longrightarrow> toLowerCase k \<in> stored_hashes s1"
    "messages (db_of (ss_db s1)) = messages (db_of (ss_db s))"
    "own_linked_devices (db_of (ss_db s1)) = own_linked_devices (db_of (ss_db s))"
    using ensure_synced_run [OF inv low] by blast
  have "read_sync now h i pt s = (Inr (reading h i pt), s1)"
    using v s1(1) by (cases r) (simp_all add: read_sync_def reading_def bindM_def tryM_def Let_def)
  then show ?thesis using s1 v by (simp add: reading_def)
qed

text \<open>The outcome of the handler: the message it stores, none where a sync payload lacks a member.\<close>

definition received :: "hex \<Rightarrow> hex \<Rightarrow> int \<Rightarrow> hex \<Rightarrow> string \<Rightarrow> string \<Rightarrow> stored_message option" where
  "received sender own ts target i pt =
     (case incoming_message sender own ts (reading target i pt) of Inl _ \<Rightarrow> None | Inr m \<Rightarrow> Some m)"

lemma received_ordinary:
  "ordinary_text pt \<Longrightarrow> received sender own ts target i pt = Some
     \<lparr>sm_id = i, sm_contactPubkeyHash = target, sm_senderIdentityHex = sender, sm_recipientIdentityHex = own, sm_body = pt,
      sm_timestamp = ts, sm_isOutgoing = False, sm_isRead = False, sm_deliveryStatus = delivered\<rparr>"
  by (simp add: received_def reading_ordinary plain_message_def incoming_message_def)

lemma received_sync:
  "received sender own ts target i (JSON_stringify (json_of_sync y)) = Some
     \<lparr>sm_id = (if sy_messageId y = [] then i else sy_messageId y), sm_contactPubkeyHash = sy_originalRecipientHash y,
      sm_senderIdentityHex = sender, sm_recipientIdentityHex = own, sm_body = sy_body y, sm_timestamp = ts,
      sm_isOutgoing = True, sm_isRead = True, sm_deliveryStatus = delivered\<rparr>"
  by (simp add: received_def reading_sync incoming_message_def)

lemma received_target:
  "received sender own ts target i pt = Some m \<Longrightarrow> rm_target (reading target i pt) = Some (sm_contactPubkeyHash m)"
  by (auto simp: received_def incoming_message_def split: sum.splits option.splits)

lemma named_json: "em_initialIdentityKeyHex msg = Some k \<Longrightarrow> jprop (json_of_encrypted msg) ''initialIdentityKeyHex'' = Inr (Some (JStr k))"
  by (simp add: json_of_encrypted_def jprop_def obj_get_def opt_member_def split: option.split)

lemma envelope_parses: "JSON_parse (JSON_stringify (json_of_encrypted msg)) = Inr (json_of_encrypted msg)"
  by (rule JSON_parse_stringify) simp

lemma incoming_run:
  assumes inv: "sql_invar P (ao_store ob)" and low: "lower_contacts (ao_store ob)"
    and payload: "ip_encrypted_payload payload = JSON_stringify (json_of_encrypted msg)"
    and named: "em_initialIdentityKeyHex msg = Some k" "k \<noteq> []"
    and dec: "\<And>s1. same_keys P (ao_store ob) s1 \<Longrightarrow> \<exists>s2. decrypt P (sql_ops P) (secret_at E (ao_drawn ob))
        (secret_at E (ao_drawn ob + 1)) now (toLowerCase k) msg s1 = (Inr pt, s2) \<and> sql_invar P s2"
  shows "\<exists>s1 s2 ob' target. same_keys P (ao_store ob) s1 \<and>
     decrypt P (sql_ops P) (secret_at E (ao_drawn ob)) (secret_at E (ao_drawn ob + 1)) now (toLowerCase k) msg s1 = (Inr pt, s2) \<and>
     handleIncomingMessage P E now payload ob =
        (Inr (received (toLowerCase k) (own_key ob) (timestamp_of now payload) target (bytesToHex P (id_at E (ao_drawn ob + 2))) pt), ob') \<and>
     same_keys P s2 (ao_store ob') \<and> lower_contacts (ao_store ob')"
proof -
  obtain c s1 where s1: "resolve_sender ''Unknown Contact'' now (json_of_encrypted msg) (ao_store ob) = (Inr (Some (toLowerCase k, c)), s1)"
    "same_keys P (ao_store ob) s1" "lower_contacts s1" "toLowerCase (cr_recipientPubkeyHash c) \<in> stored_hashes s1"
    using resolve_named [OF inv low named_json [OF named(1)] named(2)] by blast
  obtain s2 where s2: "decrypt P (sql_ops P) (secret_at E (ao_drawn ob)) (secret_at E (ao_drawn ob + 1)) now (toLowerCase k) msg s1
      = (Inr pt, s2)" "sql_invar P s2" using dec [OF s1(2)] by blast
  have tabs: "app_tables s1 s2" using app.after [OF decrypt_keeps s2(1)] .
  have inv1: "sql_invar P s1" using s1(2) by (simp add: same_keys_def)
  have same: "contacts (db_of (ss_db s2)) = contacts (db_of (ss_db s1))" "ss_identity s2 = ss_identity (ao_store ob)"
    using tabs sql_invar_ready [OF inv1] s1(2) by (auto simp: app_tables_def same_keys_def)
  let ?h = "cr_recipientPubkeyHash c" and ?i = "bytesToHex P (id_at E (ao_drawn ob + 2))"
  let ?m = "received (toLowerCase k) (own_key ob) (timestamp_of now payload) ?h ?i pt"
  have "lower_contacts s2" "toLowerCase ?h \<in> stored_hashes s2"
    using s1(3,4) same(1) by (simp_all add: lower_contacts_def stored_hashes_def)
  then obtain s3 where s3: "read_sync now ?h ?i pt s2 = (Inr (reading ?h ?i pt), s3)" "same_keys P s2 s3" "lower_contacts s3"
    "\<forall>k. rm_target (reading ?h ?i pt) = Some k \<longrightarrow> toLowerCase k \<in> stored_hashes s3"
    using read_sync_run [OF s2(2), of ?h] by blast
  let ?ob = "ob\<lparr>ao_drawn := Suc (Suc (Suc (ao_drawn ob))), ao_store := s3\<rparr>"
  have key: "own_key ?ob = own_key ob" using s3(2) same(2) by (simp add: own_key_def same_keys_def)
  have upto: "process_incoming P E now payload ob =
      bindM (liftM (incoming_message (toLowerCase k) (own_key ob) (timestamp_of now payload) (reading ?h ?i pt))) (\<lambda>m.
      bindM (on_repo (saveMessage m)) (\<lambda>_. bindM (emit (if rm_isSync (reading ?h ?i pt) then MessageSent m else MessageReceived m)) (\<lambda>_.
      ret m))) ?ob"
    using s1(1) named(2) s2(1) s3(1) key
    by (simp add: process_incoming_def accept_message_def payload envelope_parses bindM_def [of "liftM (Inr v)" for v] bindM_def [of "on_store m" for m]
        bindM_def [of "draw_from m" for m] bindM_def [of "getM own_key"] on_store_def draw_from_def)
  show ?thesis
  proof (cases ?m)
    case None
    then obtain e where e: "incoming_message (toLowerCase k) (own_key ob) (timestamp_of now payload) (reading ?h ?i pt) = Inl e"
      by (auto simp: received_def split: sum.splits)
    have "process_incoming P E now payload ob = (Inl e, ?ob)" unfolding upto e by (simp add: bindM_def)
    then have "handleIncomingMessage P E now payload ob = (Inr None, snd (emit (ErrorReported e) ?ob))"
      by (simp add: handleIncomingMessage_def tryM_def bindM_def emit_def)
    moreover have "ao_store (snd (emit (ErrorReported e) ?ob)) = s3" by (simp add: emit_def)
    ultimately show ?thesis using None s1(2) s2(1) s3(2,3)
      by (intro exI [of _ s1] exI [of _ s2] exI [of _ "snd (emit (ErrorReported e) ?ob)"] exI [of _ ?h]) simp
  next
    case (Some m)
    then have m: "incoming_message (toLowerCase k) (own_key ob) (timestamp_of now payload) (reading ?h ?i pt) = Inr m"
      by (auto simp: received_def split: sum.splits)
    have "toLowerCase (sm_contactPubkeyHash m) \<in> c_recipient_pubkey_hash ` set (contacts (db_of (ss_db s3)))"
      using s3(4) received_target [OF Some] by (simp add: stored_hashes_def)
    then obtain s4 where s4: "on_db (saveMessage m) s3 = (Inr (), s4)" "same_keys P s3 s4"
      "contacts (db_of (ss_db s4)) = contacts (db_of (ss_db s3))"
      using on_db_saveMessage [of P s3 m] s3(2) by (auto simp: same_keys_def)
    let ?e = "if rm_isSync (reading ?h ?i pt) then MessageSent m else MessageReceived m"
    let ?ob' = "snd (emit ?e (?ob\<lparr>ao_store := s4\<rparr>))"
    have "on_repo (saveMessage m) ?ob = (Inr (), ?ob\<lparr>ao_store := s4\<rparr>)"
      using on_repo_run [of "saveMessage m" ?ob] s4(1) by simp
    then have "process_incoming P E now payload ob = (Inr m, ?ob')"
      unfolding upto m by (simp add: bindM_def emit_def)
    then have "handleIncomingMessage P E now payload ob = (Inr (Some m), ?ob')"
      by (simp add: handleIncomingMessage_def tryM_def bindM_def)
    moreover have "lower_contacts s4" using s3(3) s4(3) by (simp add: lower_contacts_def)
    moreover have "ao_store ?ob' = s4" by (simp add: emit_def)
    ultimately show ?thesis using Some s1(2) s2(1) s4(2) s3(2)
      by (intro exI [of _ s1] exI [of _ s2] exI [of _ ?ob'] exI [of _ ?h]) (auto simp: same_keys_def)
  qed
qed

subsection \<open>Sending\<close>

text \<open>The envelope of a message, and whether the answer says it was delivered live.\<close>

definition envelope_of :: "hex \<Rightarrow> encrypted_message \<Rightarrow> outgoing_envelope" where
  "envelope_of mailbox msg =
     \<lparr>oe_recipient_pubkey_hash = mailbox, oe_encrypted_payload = JSON_stringify (json_of_encrypted msg), oe_nonce = em_nonce msg\<rparr>"

definition answered_live :: "orch_env \<Rightarrow> nat \<Rightarrow> outgoing_envelope \<Rightarrow> bool" where
  "answered_live E i e = (case sendMessage_result (http E i e) of Inl _ \<Rightarrow> False | Inr resp \<Rightarrow> jtruthy (jfield resp ''delivered_live''))"

lemma deliver_device_eq:
  "deliver_device P E now pt dev ob =
     (case encrypt P (sql_ops P) (nonce_at E (ao_drawn ob)) now (dr_identityPubkeyHex dev) pt None (ao_store ob) of
        (Inl e, s1) \<Rightarrow> (Inr False, ob\<lparr>ao_store := s1, ao_drawn := ao_drawn ob + 1\<rparr>)
      | (Inr msg, s1) \<Rightarrow>
          let e = envelope_of (dr_recipientPubkeyHash dev) msg in
          (Inr (answered_live E (length (ao_posted ob)) e),
           ob\<lparr>ao_store := s1, ao_drawn := ao_drawn ob + 1, ao_posted := ao_posted ob @ [e]\<rparr>))"
  by (auto simp: deliver_device_def send_to_def tryM_def bindM_def draw_from_def on_store_def post_def envelope_of_def
      answered_live_def jfield_def Let_def split: prod.splits sum.splits)

lemma sync_device_eq:
  "sync_device P E now y own ob =
     (case encrypt P (sql_ops P) (nonce_at E (ao_drawn ob)) now (or_identityPubkeyHex own)
             (JSON_stringify (json_of_sync y)) None (ao_store ob) of
        (Inl e, s1) \<Rightarrow> (Inr (), ob\<lparr>ao_store := s1, ao_drawn := ao_drawn ob + 1\<rparr>)
      | (Inr msg, s1) \<Rightarrow>
          (Inr (), ob\<lparr>ao_store := s1, ao_drawn := ao_drawn ob + 1,
                     ao_posted := ao_posted ob @ [envelope_of (or_recipientPubkeyHash own) msg]\<rparr>))"
  by (auto simp: sync_device_def send_to_def tryM_def bindM_def draw_from_def on_store_def post_def envelope_of_def
      Let_def split: prod.splits sum.splits)

text \<open>A contact with one device, from a user without further devices.\<close>

definition sole_device :: "sql_store \<Rightarrow> hex \<Rightarrow> contact_row \<Rightarrow> device_record \<Rightarrow> bool" where
  "sole_device s h r dev \<longleftrightarrow>
     select_key c_recipient_pubkey_hash (toLowerCase h) (contacts (db_of (ss_db s))) = Some r \<and>
     target_devices (mapRowToContact r) = [dev] \<and> own_linked_devices (db_of (ss_db s)) = []"

lemma outgoing_run:
  assumes inv: "sql_invar P (ao_store ob)" and low: "lower_contacts (ao_store ob)"
    and sole: "sole_device (ao_store ob) h r dev"
    and enc: "encrypt P (sql_ops P) (nonce_at E (ao_drawn ob + 1)) now (dr_identityPubkeyHex dev) pt None (ao_store ob) = (Inr msg, s1)"
    and inv1: "sql_invar P s1"
  shows "\<exists>ob' live. sendOutboundMessage P E now h pt ob =
       (Inr (outgoing_message (own_key ob) now (mapRowToContact r) (bytesToHex P (id_at E (ao_drawn ob))) pt live), ob') \<and>
     ao_posted ob' = ao_posted ob @ [envelope_of (dr_recipientPubkeyHash dev) msg] \<and>
     same_keys P s1 (ao_store ob') \<and> lower_contacts (ao_store ob') \<and>
     stored_hashes (ao_store ob') = stored_hashes (ao_store ob) \<and>
     own_linked_devices (db_of (ss_db (ao_store ob'))) = []"
proof -
  let ?e = "envelope_of (dr_recipientPubkeyHash dev) msg"
  let ?live = "answered_live E (length (ao_posted ob)) ?e"
  let ?ob1 = "ob\<lparr>ao_store := s1, ao_drawn := ao_drawn ob + 2, ao_posted := ao_posted ob @ [?e]\<rparr>"
  let ?c = "mapRowToContact r"
  let ?m = "outgoing_message (own_key ob) now ?c (bytesToHex P (id_at E (ao_drawn ob))) pt ?live"
  note sel = sole [unfolded sole_device_def]
  have row: "r \<in> set (contacts (db_of (ss_db (ao_store ob))))" using sel by (auto dest: select_key_Some)
  have "app_tables (ao_store ob) s1" using app.after [OF encrypt_keeps enc] .
  then have same: "contacts (db_of (ss_db s1)) = contacts (db_of (ss_db (ao_store ob)))"
    "own_linked_devices (db_of (ss_db s1)) = []" "ss_identity s1 = ss_identity (ao_store ob)"
    using sql_invar_ready [OF inv] sel by (auto simp: app_tables_def)
  have "toLowerCase (sm_contactPubkeyHash ?m) \<in> c_recipient_pubkey_hash ` set (contacts (db_of (ss_db s1)))"
    using contact_hash_stored [OF low row] same(1) by (simp add: stored_hashes_def outgoing_message_def)
  then obtain s2 where s2: "on_db (saveMessage ?m) s1 = (Inr (), s2)" "same_keys P s1 s2"
    "contacts (db_of (ss_db s2)) = contacts (db_of (ss_db s1))"
    "own_linked_devices (db_of (ss_db s2)) = own_linked_devices (db_of (ss_db s1))"
    using on_db_saveMessage [OF inv1, of ?m] by auto
  have dev: "deliver_device P E now pt dev (ob\<lparr>ao_drawn := ao_drawn ob + 1\<rparr>) = (Inr ?live, ?ob1)"
    using enc by (simp add: deliver_device_eq Let_def)
  have "sendOutboundMessage P E now h pt ob = (Inr ?m, snd (emit (MessageSent ?m) (?ob1\<lparr>ao_store := s2\<rparr>)))"
    using on_db_read(1) [OF inv, of h] on_db_read(4) [OF inv1] sel same dev s2(1)
    by (simp add: sendOutboundMessage_def bindM_def on_repo_def on_store_def draw_from_def own_key_def emit_def
        order_by_asc_def Let_def)
  moreover have "lower_contacts s2" "stored_hashes s2 = stored_hashes (ao_store ob)"
    using low s2(3) same(1) by (simp_all add: lower_contacts_def stored_hashes_def)
  moreover have "ao_store (snd (emit (MessageSent ?m) (?ob1\<lparr>ao_store := s2\<rparr>))) = s2"
    "ao_posted (snd (emit (MessageSent ?m) (?ob1\<lparr>ao_store := s2\<rparr>))) = ao_posted ob @ [?e]" by (simp_all add: emit_def)
  ultimately show ?thesis using s2 same(2)
    by (intro exI [of _ "snd (emit (MessageSent ?m) (?ob1\<lparr>ao_store := s2\<rparr>))"] exI [of _ ?live]) simp
qed

lemma encrypt_names_sender:
  assumes "encrypt P (sql_ops P) nonce now h pt ctx s = (Inr msg, s')"
  shows "em_initialIdentityKeyHex msg = Some (publicKeyHex (encryptionKey (ss_identity s)))"
proof -
  have "em_initialIdentityKeyHex msg = Some (publicKeyHex (encryptionKey (ss_identity s')))"
    using assms by (auto simp: encrypt_def bindM_def Let_def sql_ops_def split: sum.splits prod.splits option.splits)
  moreover have "ss_identity s' = ss_identity s" using app.after [OF encrypt_keeps assms] by (simp add: app_tables_def)
  ultimately show ?thesis by simp
qed

text \<open>A device without a session gets nothing, and nothing else is posted.\<close>

definition posts_nothing :: "orchestrator \<Rightarrow> orchestrator \<Rightarrow> bool" where
  "posts_nothing ob ob' \<longleftrightarrow> ao_posted ob' = ao_posted ob"

interpretation quiet: frame posts_nothing
  by unfold_locales (simp_all add: posts_nothing_def)

lemma quiet_calls: "keeps posts_nothing (on_repo m)" "keeps posts_nothing (on_store m2)" "keeps posts_nothing (emit e)"
  "keeps posts_nothing (draw_from f)"
  by (auto simp: keeps_def posts_nothing_def on_repo_def on_store_def emit_def draw_from_def split: prod.splits)

lemma outgoing_failed:
  assumes "sql_invar P (ao_store ob)" "sole_device (ao_store ob) h r dev"
    and enc: "encrypt P (sql_ops P) (nonce_at E (ao_drawn ob + 1)) now (dr_identityPubkeyHex dev) pt None (ao_store ob) = (Inl e, s1)"
  shows "ao_posted (snd (sendOutboundMessage P E now h pt ob)) = ao_posted ob"
proof -
  note sel = assms(2) [unfolded sole_device_def]
  have "app_tables (ao_store ob) s1" using app.after [OF encrypt_keeps enc] .
  then have own: "dm_ready (ss_db s1)" "own_linked_devices (db_of (ss_db s1)) = []"
    using sql_invar_ready [OF assms(1)] sel by (auto simp: app_tables_def)
  define ob2 where "ob2 = ob\<lparr>ao_store := s1, ao_drawn := ao_drawn ob + 2\<rparr>"
  have r1: "on_repo (getContactByHash h) ob = (Inr (Some (mapRowToContact r)), ob)"
    using on_repo_run [OF on_db_read(1) [OF assms(1), of h]] sel by simp
  have r2: "draw_from (id_at E) ob = (Inr (id_at E (ao_drawn ob)), ob\<lparr>ao_drawn := Suc (ao_drawn ob)\<rparr>)"
    by (simp add: draw_from_def)
  have r3: "deliver_devices P E now pt [dev] (ob\<lparr>ao_drawn := Suc (ao_drawn ob)\<rparr>) = (Inr False, ob2)"
    using enc by (simp add: deliver_device_eq ob2_def bindM_def)
  have "on_db listOwnLinkedDevices s1 = (Inr [], s1)"
    using own by (simp add: on_db_def listOwnLinkedDevices_def bindM_def query_ready order_by_asc_def)
  then have r4: "on_repo listOwnLinkedDevices ob2 = (Inr [], ob2)"
    using on_repo_run [of listOwnLinkedDevices ob2] by (simp add: ob2_def)
  let ?m = "outgoing_message (own_key ob2) now (mapRowToContact r) (bytesToHex P (id_at E (ao_drawn ob))) pt False"
  have "sendOutboundMessage P E now h pt ob =
      bindM (on_repo (saveMessage ?m)) (\<lambda>_. bindM (emit (MessageSent ?m)) (\<lambda>_. ret ?m)) ob2"
    using sel by (simp add: sendOutboundMessage_def Let_def bindM_Inr [where m = "on_repo (getContactByHash h)", OF r1]
        bindM_Inr [where m = "draw_from (id_at E)", OF r2] bindM_Inr [where m = "deliver_devices P E now pt [dev]", OF r3]
        bindM_Inr [where m = "on_repo listOwnLinkedDevices", OF r4] bindM_Inr [where m = "getM own_key"]
        del: deliver_devices.simps)
  moreover have "keeps posts_nothing (bindM (on_repo (saveMessage ?m)) (\<lambda>_. bindM (emit (MessageSent ?m)) (\<lambda>_. ret ?m)))"
    by (intro quiet.bind quiet_calls quiet.pure)
  ultimately show ?thesis by (simp add: keeps_def posts_nothing_def ob2_def)
qed

end
