(* ===== verification/Conversation.thy ===== *)
theory Conversation
  imports Orch_Runs Ws_Properties Engine_Properties
begin

section \<open>Two clients in a conversation\<close>

text \<open>
  The whole path of a message: Bob publishes a bundle as a contact URI, Alice imports it, and then
  both send with \<open>sendOutboundMessage\<close> and receive with \<open>handleIncomingMessage\<close> while the relay
  delays, reorders and loses what was posted. The engine's channel is reached through JSON text, the
  contact and message tables and the database.
\<close>

subsection \<open>The engine's invariant survives the application's own statements\<close>

definition paired :: "prims \<Rightarrow> (side \<Rightarrow> hex) \<Rightarrow> sql_store world \<Rightarrow> bool" where
  "paired P key w \<longleftrightarrow> (\<forall>d. sql_invar P (store_of w d)) \<and>
     (greeted P (sql_ops P) ss_identity (sql_otks P) (sql_sess P) key w \<or> talking P (sql_sess P) key w)"

lemma paired_touch:
  assumes "paired P key w" "same_keys P (store_of w d) s'"
  shows "paired P key (w\<lparr>store_of := (store_of w)(d := s')\<rparr>)"
proof -
  let ?w = "w\<lparr>store_of := (store_of w)(d := s')\<rparr>"
  have get: "getLatestSignedPreKey (sql_ops P) = sql_getLatestSignedPreKey P" by (simp add: sql_ops_def)
  have latest: "getLatestSignedPreKey (sql_ops P) (store_of w x) = (Inr (Some k), store_of w x) \<Longrightarrow>
       getLatestSignedPreKey (sql_ops P) (store_of ?w x) = (Inr (Some k), store_of ?w x)" for x k
    using assms(2) by (cases "x = d") (auto simp: same_keys_def get)
  have eq: "sql_sess P (store_of ?w x) = sql_sess P (store_of w x)" "sql_otks P (store_of ?w x) = sql_otks P (store_of w x)"
    "ss_identity (store_of ?w x) = ss_identity (store_of w x)" for x
    using assms(2) by (simp_all add: same_keys_def)
  have "greeted P (sql_ops P) ss_identity (sql_otks P) (sql_sess P) key w \<Longrightarrow>
      greeted P (sql_ops P) ss_identity (sql_otks P) (sql_sess P) key ?w"
    unfolding greeted_def eq using latest [of Bob] by auto
  moreover have "talking P (sql_sess P) key w \<Longrightarrow> talking P (sql_sess P) key ?w"
    unfolding talking_def eq by simp
  ultimately show ?thesis using assms by (auto simp: paired_def same_keys_def)
qed

lemma paired_send:
  assumes "ratchet_laws P" "paired P key w"
    and "encrypt P (sql_ops P) nonce now (key (other d)) pt None (store_of w d) = (Inr msg, s')"
    and "length nonce = 24" "sendable pt"
  shows "paired P key (w\<lparr>store_of := (store_of w)(d := s'), wire := (wire w)(other d := wire w (other d) @ [(msg, pt)])\<rparr>)"
proof -
  have i: "\<forall>d. sql_invar P (store_of w d)" using assms(2) by (simp add: paired_def)
  let ?w = "w\<lparr>store_of := (store_of w)(d := s'), wire := (wire w)(other d := wire w (other d) @ [(msg, pt)])\<rparr>"
  have "sql_invar P s' \<and> (greeted P (sql_ops P) ss_identity (sql_otks P) (sql_sess P) key ?w \<or> talking P (sql_sess P) key ?w)"
    using conjunct2 [OF assms(2) [unfolded paired_def]]
  proof
    assume g: "greeted P (sql_ops P) ss_identity (sql_otks P) (sql_sess P) key w"
    show ?thesis using sql.greeted_send [where w = w and d = d, OF assms(1) i g assms(3-5) refl] by blast
  next
    assume t: "talking P (sql_sess P) key w"
    show ?thesis using sql.talking_send [where w = w and d = d, OF assms(1) i t assms(3-5)] by blast
  qed
  then show ?thesis using i by (simp add: paired_def)
qed

lemma paired_deliver:
  assumes "ratchet_laws P" "paired P key w" "wire w d = F1 @ (msg, pt) # F2"
    and "deliverable (sql_ops P) (key (other d)) (offered w) msg (store_of w d)"
    and "decrypt P (sql_ops P) bk rk now (key (other d)) msg (store_of w d) = (r, s')"
    and "fresh_secret P (used_keys w) bk" "fresh_secret P (insert (bytesToHex P (boxPublic P bk)) (used_keys w)) rk"
  shows "r = Inr pt \<and> paired P key (w\<lparr>store_of := (store_of w)(d := s'), wire := (wire w)(d := F1 @ F2),
      used_keys := insert (bytesToHex P (boxPublic P bk)) (insert (bytesToHex P (boxPublic P rk)) (used_keys w))\<rparr>)"
    (is "_ \<and> paired P key ?w")
proof -
  have i: "\<forall>d. sql_invar P (store_of w d)" using assms(2) by (simp add: paired_def)
  have "sql_invar P s' \<and> r = Inr pt \<and> talking P (sql_sess P) key ?w"
    using assms(2) unfolding paired_def
  proof (elim conjE disjE)
    assume g: "greeted P (sql_ops P) ss_identity (sql_otks P) (sql_sess P) key w"
    show ?thesis by (rule sql.greeted_deliver [OF assms(1) i g assms(3-7)]) simp_all
  next
    assume t: "talking P (sql_sess P) key w"
    show ?thesis by (rule sql.talking_deliver [OF assms(1) i t assms(3-5) assms(7)]) auto
  qed
  then show ?thesis using i by (auto simp: paired_def)
qed

lemma paired_store:
  assumes "paired P key w"
  shows "sql_invar P (store_of w d)"
  using assms by (simp add: paired_def)

lemma paired_drop:
  assumes "paired P key w" "wire w d = F1 @ f # F2"
  shows "paired P key (w\<lparr>wire := (wire w)(d := F1 @ F2)\<rparr>)"
  using assms(1) greeted_drop [where w = w and d = d, OF _ assms(2)] talking_drop [where w = w and d = d, OF _ assms(2)]
  by (auto simp: paired_def)

subsection \<open>The import of a contact\<close>

lemma generated_texts:
  assumes "sign_correct P" "wf_identity P (ss_identity s)"
    and "generatePreKeyBundle P (sql_ops P) spkSecret spkId draw now n s = (Inr bdl, s')"
  shows "pb_signingKeyHex bdl = publicKeyHex (signingKey (ss_identity s))"
    and "\<exists>sg. sp_signatureHex (pb_signedPreKey bdl) = bytesToHex P sg \<and> sg \<noteq> []"
    and "\<forall>k. pb_oneTimePreKey bdl = Some k \<longrightarrow> (\<exists>b. op_publicKeyHex k = bytesToHex P b)"
proof -
  let ?sk = "secretKey (signingKey (ss_identity s))"
  have "getIdentity (sql_ops P) s = (Inr (ss_identity s), s)" by (simp add: sql_ops_def)
  then have sg: "signChallenge P (publicKeyHex (generateCurve25519KeyPair P spkSecret)) ?sk = Inr (sp_signatureHex (pb_signedPreKey bdl))"
    and key: "pb_signingKeyHex bdl = publicKeyHex (signingKey (ss_identity s))"
    and otk: "\<forall>k. pb_oneTimePreKey bdl = Some k \<longrightarrow> op_publicKeyHex k = publicKeyHex (generateCurve25519KeyPair P (fst (draw 0)))"
    using assms(3) by (auto simp: generatePreKeyBundle_def bindM_def Let_def split: sum.splits prod.splits if_splits)
  show "pb_signingKeyHex bdl = publicKeyHex (signingKey (ss_identity s))" by (rule key)
  show "\<forall>k. pb_oneTimePreKey bdl = Some k \<longrightarrow> (\<exists>b. op_publicKeyHex k = bytesToHex P b)"
    using otk by (auto simp: generateCurve25519KeyPair_def)
  from sg obtain c sig where c: "sign_detached P c ?sk = Inr sig" "sp_signatureHex (pb_signedPreKey bdl) = bytesToHex P sig"
    by (auto simp: signChallenge_def bindR_Inr_iff split: if_splits)
  have "length ?sk = 64" using assms(2) by (simp add: wf_identity_def sign_keypair_def)
  then obtain sig' where "sign_detached P c ?sk = Inr sig'" "length sig' = 64"
    using assms(1) unfolding sign_correct_def by blast
  then have "sig \<noteq> []" using c(1) by auto
  then show "\<exists>sg. sp_signatureHex (pb_signedPreKey bdl) = bytesToHex P sg \<and> sg \<noteq> []" using c(2) by blast
qed

text \<open>A published bundle, read back from its URI by the other client.\<close>

lemma import_run:
  assumes L: "ratchet_laws P" "sign_correct P" and inv: "sql_invar P s" and low: "lower_contacts s"
    and u: "wf_identity P u" and pub: "pb_identityKeyHex bdl = publicKeyHex (encryptionKey u)"
      "pb_signingKeyHex bdl = publicKeyHex (signingKey u)" "sp_signatureHex (pb_signedPreKey bdl) = bytesToHex P sg" "sg \<noteq> []"
      "sp_publicKeyHex (pb_signedPreKey bdl) = publicKeyHex (generateCurve25519KeyPair P spkSecret)" "length spkSecret = 32"
      "\<forall>k. pb_oneTimePreKey bdl = Some k \<longrightarrow> (\<exists>b. op_publicKeyHex k = bytesToHex P b)"
      "verifySignature P (sp_publicKeyHex (pb_signedPreKey bdl)) (sp_signatureHex (pb_signedPreKey bdl)) (pb_signingKeyHex bdl)"
    and named: "\<forall>a. alias = Some a \<longrightarrow> wf_text a"
  shows "\<exists>s1. same_keys P s s1 \<and> lower_contacts s1 \<and> own_linked_devices (db_of (ss_db s1)) = own_linked_devices (db_of (ss_db s)) \<and>
     contacts (db_of (ss_db s1)) = upsert c_recipient_pubkey_hash merge_contact (contact_row_of
        \<lparr>cr_recipientPubkeyHash = recipientPubkeyHash u, cr_identityPubkeyHex = publicKeyHex (encryptionKey u),
         cr_signingPubkeyHex = publicKeyHex (signingKey u),
         cr_alias = (if truthy custom then custom else if truthy alias then alias else None),
         cr_createdAt = now, cr_linkedDevices = None\<rparr>) (contacts (db_of (ss_db s))) \<and>
     importContact P ekSecret now (exportContactUri bdl alias) custom s =
       (case initiateSession P (sql_ops P) ekSecret now (publicKeyHex (encryptionKey u)) bdl s1 of
          (Inl e, s2) \<Rightarrow> (Inl e, s2)
        | (Inr _, s2) \<Rightarrow> (Inr \<lparr>cr_recipientPubkeyHash = recipientPubkeyHash u,
             cr_identityPubkeyHex = publicKeyHex (encryptionKey u), cr_signingPubkeyHex = publicKeyHex (signingKey u),
             cr_alias = (if truthy custom then custom else if truthy alias then alias else None),
             cr_createdAt = now, cr_linkedDevices = None\<rparr>, s2))"
proof -
  note laws = ratchet_lawsD [OF L(1)]
  have hex: "bytesToHex P b \<noteq> []" "wf_text (bytesToHex P b)" if "b \<noteq> []" for b
    using that wf_text_hex [OF laws(1)] laws(1) by (simp_all add: bytesToHex_Nil_iff)
  have keys: "publicKeyHex (encryptionKey u) = bytesToHex P (publicKey (encryptionKey u))"
    "publicKeyHex (signingKey u) = bytesToHex P (publicKey (signingKey u))"
    "length (publicKey (encryptionKey u)) = 32" "length (publicKey (signingKey u)) = 32"
    "recipientPubkeyHash u = bytesToHex P (sha256 P (publicKey (signingKey u)))"
    using u laws(2) L(2) by (auto simp: wf_identity_def sign_keypair_def box_keypair_def dh_agreement_def sign_correct_def)
  have ne: "publicKey (encryptionKey u) \<noteq> []" "publicKey (signingKey u) \<noteq> []" "boxPublic P spkSecret \<noteq> []"
    using keys(3,4) pub(6) laws(2) by (auto simp: dh_agreement_def)
  have plain: "plain_bundle bdl"
    unfolding plain_bundle_def pub(1-3,5) keys(1,2)
    using hex [OF ne(1)] hex [OF ne(2)] hex [OF ne(3)] hex [OF pub(4)] pub(7) wf_text_hex [OF laws(1)]
    by (auto simp: generateCurve25519KeyPair_def)
  have sk: "hexToBytes P (pb_signingKeyHex bdl) = Inr (publicKey (signingKey u))"
    using laws(1) by (simp add: pub(2) keys(2) prim_laws)
  obtain p where p: "parseContactUri P (exportContactUri bdl alias) = Inr (p, recipientPubkeyHash u, bdl)" "cp_alias p = alias"
    using contact_uri_read [OF plain named pub(8) sk keys(4)] keys(5) by auto
  have pk: "cp_identityKeyHex p = publicKeyHex (encryptionKey u)" "cp_signingKeyHex p = publicKeyHex (signingKey u)"
  proof -
    have "bdl = bundle_of_payload p" using p(1) by (auto simp: parseContactUri_def bindR_Inr_iff split: if_splits)
    then show "cp_identityKeyHex p = publicKeyHex (encryptionKey u)" "cp_signingKeyHex p = publicKeyHex (signingKey u)"
      using pub(1,2) by (auto simp: bundle_of_payload_def)
  qed
  let ?c = "\<lparr>cr_recipientPubkeyHash = recipientPubkeyHash u, cr_identityPubkeyHex = publicKeyHex (encryptionKey u),
     cr_signingPubkeyHex = publicKeyHex (signingKey u),
     cr_alias = (if truthy custom then custom else if truthy alias then alias else None), cr_createdAt = now, cr_linkedDevices = None\<rparr>"
  obtain s1 where s1: "on_db (saveContact ?c) s = (Inr (), s1)" "same_keys P s s1"
    "contacts (db_of (ss_db s1)) = upsert c_recipient_pubkey_hash merge_contact (contact_row_of ?c) (contacts (db_of (ss_db s)))"
    "own_linked_devices (db_of (ss_db s1)) = own_linked_devices (db_of (ss_db s))"
    using on_db_saveContact [OF inv, of ?c] by blast
  have low_hash: "toLowerCase (recipientPubkeyHash u) = recipientPubkeyHash u" using laws(1) by (simp add: keys(5) prim_laws)
  have al: "(if truthy custom then custom else if truthy (cp_alias p) then cp_alias p else None) =
      (if truthy custom then custom else if truthy alias then alias else None)" by (simp add: p(2))
  have run: "importContact P ekSecret now (exportContactUri bdl alias) custom s =
      bindM (initiateSession P (sql_ops P) ekSecret now (publicKeyHex (encryptionKey u)) bdl) (\<lambda>_. ret ?c) s1"
    using s1(1) by (simp add: importContact_def p(1) al pk bindM_Inr [where m = "on_db (saveContact ?c)"] Let_def split del: if_split)
  have hashes: "lower_contacts s1"
    using saved_hashes [OF s1(3)] low low_hash by simp_all
  show ?thesis
    unfolding run bindM_def using s1(2-4) hashes by (intro exI [of _ s1]) (simp split: prod.split sum.split)
qed

subsection \<open>The conversation\<close>

text \<open>
  \<open>cs_net d\<close> holds the messages posted for \<open>d\<close> that were neither delivered nor lost, with the text
  they were sent for; \<open>cs_inbox d\<close> what the handler returned for the messages delivered to \<open>d\<close>.
\<close>

record chat_state =
  cs_apps :: "side \<Rightarrow> orchestrator"
  cs_net :: "side \<Rightarrow> flight list"
  cs_offered :: "int option"
  cs_used :: "hex set"
  cs_inbox :: "side \<Rightarrow> (string \<times> stored_message option res) list"

definition identity_key :: "identity \<Rightarrow> hex" where
  "identity_key u = publicKeyHex (encryptionKey u)"

definition world_of :: "chat_state \<Rightarrow> sql_store world" where
  "world_of c = \<lparr>store_of = (\<lambda>d. ao_store (cs_apps c d)), wire = cs_net c, offered = cs_offered c,
     used_keys = cs_used c, log_of = (\<lambda>_. [])\<rparr>"

inductive chat ::
  "prims \<Rightarrow> (side \<Rightarrow> orch_env) \<Rightarrow> (side \<Rightarrow> identity) \<Rightarrow> (side \<Rightarrow> orchestrator) \<Rightarrow> chat_state \<Rightarrow> bool"
  for P :: prims and E :: "side \<Rightarrow> orch_env" and u :: "side \<Rightarrow> identity" and begins :: "side \<Rightarrow> orchestrator" where
  introduce: "chat P E u begins
     \<lparr>cs_apps = (\<lambda>d. case d of Alice \<Rightarrow> a1 | Bob \<Rightarrow> b1), cs_net = (\<lambda>_. []),
      cs_offered = map_option op_keyId (pb_oneTimePreKey bdl),
      cs_used = {bytesToHex P (boxPublic P ekSecret), bytesToHex P (boxPublic P spkSecret)}, cs_inbox = (\<lambda>_. [])\<rparr>"
  if "on_store (generatePreKeyBundle P (sql_ops P) spkSecret spkId draw now n) (begins Bob) = (Inr bdl, b1)"
    and "on_store (importContact P ekSecret now' (exportContactUri bdl alias) custom) (begins Alice) = (Inr contact, a1)"
    and "\<forall>a. alias = Some a \<longrightarrow> wf_text a"
    and "length spkSecret = 32" and "length ekSecret = 32" and "\<forall>i. length (fst (draw i)) = 32"
    and "inj_on (\<lambda>j. snd (draw j)) {0..<n}"
| send: "chat P E u begins
     (c\<lparr>cs_apps := (cs_apps c)(d := ob'), cs_net := (cs_net c)(other d := cs_net c (other d) @ [(msg, pt)])\<rparr>)"
  if "chat P E u begins c"
    and "sendOutboundMessage P (E d) now h pt (cs_apps c d) = (r, ob')"
    and "sole_device (ao_store (cs_apps c d)) h row dev" and "dr_identityPubkeyHex dev = identity_key (u (other d))"
    and "ao_posted ob' = ao_posted (cs_apps c d) @ [envelope_of mailbox msg]"
    and "length (nonce_at (E d) (ao_drawn (cs_apps c d) + 1)) = 24" and "sendable pt"
| deliver: "chat P E u begins
     (c\<lparr>cs_apps := (cs_apps c)(d := ob'), cs_net := (cs_net c)(d := F1 @ F2),
        cs_used := insert (bytesToHex P (boxPublic P (secret_at (E d) (ao_drawn (cs_apps c d)))))
          (insert (bytesToHex P (boxPublic P (secret_at (E d) (ao_drawn (cs_apps c d) + 1)))) (cs_used c)),
        cs_inbox := (cs_inbox c)(d := cs_inbox c d @ [(pt, r)])\<rparr>)"
  if "chat P E u begins c" and "cs_net c d = F1 @ (msg, pt) # F2"
    and "deliverable (sql_ops P) (identity_key (u (other d))) (cs_offered c) msg (ao_store (cs_apps c d))"
    and "ip_encrypted_payload payload = JSON_stringify (json_of_encrypted msg)"
    and "handleIncomingMessage P (E d) now payload (cs_apps c d) = (r, ob')"
    and "fresh_secret P (cs_used c) (secret_at (E d) (ao_drawn (cs_apps c d)))"
    and "fresh_secret P (insert (bytesToHex P (boxPublic P (secret_at (E d) (ao_drawn (cs_apps c d))))) (cs_used c))
          (secret_at (E d) (ao_drawn (cs_apps c d) + 1))"
| lose: "chat P E u begins (c\<lparr>cs_net := (cs_net c)(d := F1 @ F2)\<rparr>)"
  if "chat P E u begins c" and "cs_net c d = F1 @ f # F2"

definition chat_inv :: "prims \<Rightarrow> (side \<Rightarrow> identity) \<Rightarrow> chat_state \<Rightarrow> bool" where
  "chat_inv P u c \<longleftrightarrow> paired P (\<lambda>d. identity_key (u d)) (world_of c) \<and>
     (\<forall>d. lower_contacts (ao_store (cs_apps c d)) \<and> ss_identity (ao_store (cs_apps c d)) = u d) \<and>
     (\<forall>d. \<forall>f \<in> set (cs_net c d). em_initialIdentityKeyHex (fst f) = Some (identity_key (u (other d)))) \<and>
     (\<forall>d. \<forall>(pt, r) \<in> set (cs_inbox c d). \<exists>own ts target i. r = Inr (received (identity_key (u (other d))) own ts target i pt))"

lemma chat_store:
  assumes "chat_inv P u c"
  shows "sql_invar P (ao_store (cs_apps c d))"
proof -
  have "paired P (\<lambda>d. identity_key (u d)) (world_of c)" using assms unfolding chat_inv_def by blast
  from paired_store [OF this, of d] show ?thesis by (simp add: world_of_def)
qed

lemma identity_key_hex:
  assumes "hex_codec P" "dh_agreement P" "wf_identity P u"
  shows "toLowerCase (identity_key u) = identity_key u" "identity_key u \<noteq> []"
proof -
  have "identity_key u = bytesToHex P (publicKey (encryptionKey u))" "length (publicKey (encryptionKey u)) = 32"
    using assms by (auto simp: identity_key_def wf_identity_def box_keypair_def dh_agreement_def)
  then show "toLowerCase (identity_key u) = identity_key u" "identity_key u \<noteq> []"
    using assms(1) by (auto simp: prim_laws)
qed

lemma envelope_message: "envelope_of m1 msg1 = envelope_of m2 msg2 \<Longrightarrow> msg1 = msg2"
  by (metis envelope_of_def envelope_parses encrypted_json(1) outgoing_envelope.select_convs(2) sum.inject(2))

lemma chat_send:
  assumes L: "ratchet_laws P" and inv: "chat_inv P u c"
    and run: "sendOutboundMessage P (E d) now h pt (cs_apps c d) = (r, ob')"
    and sole: "sole_device (ao_store (cs_apps c d)) h row dev" "dr_identityPubkeyHex dev = identity_key (u (other d))"
    and posted: "ao_posted ob' = ao_posted (cs_apps c d) @ [envelope_of mailbox msg]"
    and pt: "length (nonce_at (E d) (ao_drawn (cs_apps c d) + 1)) = 24" "sendable pt"
  shows "chat_inv P u (c\<lparr>cs_apps := (cs_apps c)(d := ob'), cs_net := (cs_net c)(other d := cs_net c (other d) @ [(msg, pt)])\<rparr>)"
    (is "chat_inv P u ?c")
proof -
  let ?ob = "cs_apps c d" and ?key = "\<lambda>d. identity_key (u d)"
  note I = inv [unfolded chat_inv_def]
  have pair: "paired P ?key (world_of c)" and low: "lower_contacts (ao_store ?ob)" and id: "ss_identity (ao_store ?ob) = u d"
    using I by blast+
  have si: "sql_invar P (ao_store ?ob)" using pair by (simp add: paired_def world_of_def)
  let ?enc = "encrypt P (sql_ops P) (nonce_at (E d) (ao_drawn ?ob + 1)) now (dr_identityPubkeyHex dev) pt None (ao_store ?ob)"
  obtain msg' s1 where enc: "?enc = (Inr msg', s1)"
  proof (cases ?enc)
    case (Pair res s1)
    then show ?thesis using that outgoing_failed [where E = "E d", OF si sole(1)] posted run by (cases res) force+
  qed
  have w1: "paired P ?key ((world_of c)\<lparr>store_of := (store_of (world_of c))(d := s1),
      wire := (wire (world_of c))(other d := wire (world_of c) (other d) @ [(msg', pt)])\<rparr>)"
    using paired_send [OF L pair, of "nonce_at (E d) (ao_drawn ?ob + 1)" now d pt msg' s1] enc pt sole(2)
    by (simp add: world_of_def)
  have "sql_invar P s1" using paired_store [OF w1, of d] by simp
  then obtain ob'' live where out: "sendOutboundMessage P (E d) now h pt ?ob =
       (Inr (outgoing_message (own_key ?ob) now (mapRowToContact row) (bytesToHex P (id_at (E d) (ao_drawn ?ob))) pt live), ob'')"
     "ao_posted ob'' = ao_posted ?ob @ [envelope_of (dr_recipientPubkeyHash dev) msg']"
     "same_keys P s1 (ao_store ob'')" "lower_contacts (ao_store ob'')"
    using outgoing_run [OF si low sole(1) enc] by blast
  have eq: "ob'' = ob'" "msg' = msg" using out(1,2) run posted envelope_message by auto
  let ?w1 = "(world_of c)\<lparr>store_of := (store_of (world_of c))(d := s1),
      wire := (wire (world_of c))(other d := wire (world_of c) (other d) @ [(msg', pt)])\<rparr>"
  have "paired P ?key (?w1\<lparr>store_of := (store_of ?w1)(d := ao_store ob')\<rparr>)"
    by (rule paired_touch [OF w1]) (use out(3) eq in simp)
  moreover have "world_of ?c = ?w1\<lparr>store_of := (store_of ?w1)(d := ao_store ob')\<rparr>"
    using eq by (simp add: world_of_def fun_eq_iff)
  moreover have "em_initialIdentityKeyHex msg = Some (identity_key (u d))"
    using encrypt_names_sender [OF enc] id eq(2) by (simp add: identity_key_def)
  moreover have "ss_identity (ao_store ob') = u d"
    using app.after [OF encrypt_keeps enc] out(3) id eq(1) by (simp add: app_tables_def same_keys_def)
  moreover have "other (other d) = d" by (cases d) simp_all
  ultimately show ?thesis using I out(4) eq(1) by (auto simp: chat_inv_def)
qed

lemma chat_deliver:
  assumes L: "ratchet_laws P" and inv: "chat_inv P u c" and wf: "wf_identity P (u (other d))"
    and net: "cs_net c d = F1 @ (msg, pt) # F2"
    and gap: "deliverable (sql_ops P) (identity_key (u (other d))) (cs_offered c) msg (ao_store (cs_apps c d))"
    and payload: "ip_encrypted_payload payload = JSON_stringify (json_of_encrypted msg)"
    and run: "handleIncomingMessage P (E d) now payload (cs_apps c d) = (r, ob')"
    and fresh: "fresh_secret P (cs_used c) (secret_at (E d) (ao_drawn (cs_apps c d)))"
      "fresh_secret P (insert (bytesToHex P (boxPublic P (secret_at (E d) (ao_drawn (cs_apps c d))))) (cs_used c))
          (secret_at (E d) (ao_drawn (cs_apps c d) + 1))"
  shows "chat_inv P u (c\<lparr>cs_apps := (cs_apps c)(d := ob'), cs_net := (cs_net c)(d := F1 @ F2),
        cs_used := insert (bytesToHex P (boxPublic P (secret_at (E d) (ao_drawn (cs_apps c d)))))
          (insert (bytesToHex P (boxPublic P (secret_at (E d) (ao_drawn (cs_apps c d) + 1)))) (cs_used c)),
        cs_inbox := (cs_inbox c)(d := cs_inbox c d @ [(pt, r)])\<rparr>)"
    (is "chat_inv P u ?c")
    and "\<exists>target. r = Inr (received (identity_key (u (other d))) (own_key (cs_apps c d)) (timestamp_of now payload) target
          (bytesToHex P (id_at (E d) (ao_drawn (cs_apps c d) + 2))) pt)"
proof -
  let ?ob = "cs_apps c d" and ?key = "\<lambda>d. identity_key (u d)"
  let ?bk = "secret_at (E d) (ao_drawn ?ob)" and ?rk = "secret_at (E d) (ao_drawn ?ob + 1)"
  let ?used = "insert (bytesToHex P (boxPublic P ?bk)) (insert (bytesToHex P (boxPublic P ?rk)) (cs_used c))"
  note I = inv [unfolded chat_inv_def] and laws = ratchet_lawsD [OF L]
  have pair: "paired P ?key (world_of c)" and low: "lower_contacts (ao_store ?ob)" and id: "ss_identity (ao_store ?ob) = u d"
    using I by blast+
  have "\<forall>f \<in> set (cs_net c d). em_initialIdentityKeyHex (fst f) = Some (identity_key (u (other d)))"
    using I by blast
  then have rest: "\<forall>f \<in> set (F1 @ F2). em_initialIdentityKeyHex (fst f) = Some (identity_key (u (other d)))"
    and from_other: "em_initialIdentityKeyHex msg = Some (identity_key (u (other d)))"
    unfolding net by simp_all
  note hex = identity_key_hex [OF laws(1,2) wf]
  have si: "sql_invar P (ao_store ?ob)" using paired_store [OF pair, of d] by (simp add: world_of_def)
  have opened: "res = Inr pt \<and> paired P ?key ((world_of c)\<lparr>store_of := (store_of (world_of c))(d := s2), wire := (wire (world_of c))(d := F1 @ F2),
      used_keys := ?used\<rparr>)"
    if same: "same_keys P (ao_store ?ob) s1" and dec: "decrypt P (sql_ops P) ?bk ?rk now (?key (other d)) msg s1 = (res, s2)" for s1 res s2
  proof -
    let ?w = "(world_of c)\<lparr>store_of := (store_of (world_of c))(d := s1)\<rparr>"
    have w: "paired P ?key ?w" using paired_touch [OF pair, of d s1] same by (simp add: world_of_def)
    have "session_of (sql_ops P) (?key (other d)) s1 = session_of (sql_ops P) (?key (other d)) (ao_store ?ob)"
      using same sql.session_of_sess [of P] si by (simp add: same_keys_def)
    then have "deliverable (sql_ops P) (?key (other d)) (offered ?w) msg (store_of ?w d)"
      using gap by (simp add: deliverable_def world_of_def)
    from paired_deliver [OF L w _ this, where ?F1.0 = F1 and ?F2.0 = F2 and pt = pt and bk = ?bk and rk = ?rk and now = now and r = res and s' = s2]
    show ?thesis using net dec fresh by (simp add: world_of_def)
  qed
  have dec: "\<exists>s2. decrypt P (sql_ops P) ?bk ?rk now (toLowerCase (identity_key (u (other d)))) msg s1 = (Inr pt, s2) \<and> sql_invar P s2"
    if same: "same_keys P (ao_store ?ob) s1" for s1
  proof -
    obtain res s2 where d: "decrypt P (sql_ops P) ?bk ?rk now (?key (other d)) msg s1 = (res, s2)" by fastforce
    note o1 = opened [OF same d]
    show ?thesis using d o1 paired_store [OF conjunct2 [OF o1], of d] hex(1) by auto
  qed
  obtain s1 s2 ob'' target where out: "same_keys P (ao_store ?ob) s1"
    "decrypt P (sql_ops P) ?bk ?rk now (toLowerCase (?key (other d))) msg s1 = (Inr pt, s2)"
    "handleIncomingMessage P (E d) now payload ?ob =
       (Inr (received (toLowerCase (?key (other d))) (own_key ?ob) (timestamp_of now payload) target
          (bytesToHex P (id_at (E d) (ao_drawn ?ob + 2))) pt), ob'')"
    "same_keys P s2 (ao_store ob'')" "lower_contacts (ao_store ob'')"
    using incoming_run [OF si low payload from_other hex(2) dec] by blast
  have eq: "ob'' = ob'" "r = Inr (received (?key (other d)) (own_key ?ob) (timestamp_of now payload) target
          (bytesToHex P (id_at (E d) (ao_drawn ?ob + 2))) pt)"
    using out(3) run hex(1) by auto
  let ?w2 = "(world_of c)\<lparr>store_of := (store_of (world_of c))(d := s2), wire := (wire (world_of c))(d := F1 @ F2), used_keys := ?used\<rparr>"
  have "paired P ?key ?w2" using opened [OF out(1)] out(2) hex(1) by simp
  then have "paired P ?key (?w2\<lparr>store_of := (store_of ?w2)(d := ao_store ob')\<rparr>)"
    by (rule paired_touch) (use out(4) eq in simp)
  moreover have "world_of ?c = ?w2\<lparr>store_of := (store_of ?w2)(d := ao_store ob')\<rparr>"
    by (simp add: world_of_def fun_eq_iff)
  moreover have "ss_identity (ao_store ob') = u d"
    using app.after [OF decrypt_keeps out(2)] out(1,4) id eq(1) by (simp add: app_tables_def same_keys_def)
  moreover have "\<forall>(pt', r') \<in> set (cs_inbox c d @ [(pt, r)]). \<exists>own ts target i. r' = Inr (received (?key (other d)) own ts target i pt')"
    using I unfolding eq(2) by auto
  ultimately show "chat_inv P u ?c" using I out(5) eq(1) rest by (simp add: chat_inv_def)
  show "\<exists>target. r = Inr (received (?key (other d)) (own_key ?ob) (timestamp_of now payload) target
          (bytesToHex P (id_at (E d) (ao_drawn ?ob + 2))) pt)" using eq(2) by blast
qed

text \<open>A client whose database has just been created.\<close>

definition fresh_app :: "identity \<Rightarrow> orchestrator \<Rightarrow> bool" where
  "fresh_app u ob \<longleftrightarrow>
     (\<exists>db. ao_store ob = new_SqliteSignalStore u db \<and> dm_ready db \<and> same_rows (empty_database\<lparr>foreign_keys := True\<rparr>) (db_of db))"

lemma fresh_store:
  assumes "fresh_app u ob"
  shows "sql_invar P (ao_store ob)" "sql_spks P (ao_store ob) = Map.empty" "sql_sess P (ao_store ob) = Map.empty"
    "ss_identity (ao_store ob) = u" "lower_contacts (ao_store ob)" "stored_hashes (ao_store ob) = {}"
    "own_linked_devices (db_of (ss_db (ao_store ob))) = []" "contacts (db_of (ss_db (ao_store ob))) = []"
proof -
  obtain db where db: "ao_store ob = new_SqliteSignalStore u db" "dm_ready db"
    "same_rows (empty_database\<lparr>foreign_keys := True\<rparr>) (db_of db)" using assms unfolding fresh_app_def by blast
  have "contacts (db_of db) = []" "own_linked_devices (db_of db) = []"
    using db(3) by (simp_all add: same_rows_def empty_database_def)
  then show "sql_invar P (ao_store ob)" "sql_spks P (ao_store ob) = Map.empty" "sql_sess P (ao_store ob) = Map.empty"
    "ss_identity (ao_store ob) = u" "lower_contacts (ao_store ob)" "stored_hashes (ao_store ob) = {}"
    "own_linked_devices (db_of (ss_db (ao_store ob))) = []" "contacts (db_of (ss_db (ao_store ob))) = []"
    unfolding db(1) using new_sql_store [OF db(2,3)]
    by (simp_all add: lower_contacts_def stored_hashes_def) (simp_all add: new_SqliteSignalStore_def)
qed

lemma on_store_inv: "on_store m ob = (r, ob') \<Longrightarrow> m (ao_store ob) = (r, ao_store ob') \<and> ob' = ob\<lparr>ao_store := ao_store ob'\<rparr>"
  by (auto simp: on_store_def split: prod.splits)

text \<open>What Bob publishes and what the import runs on Alice's side.\<close>

lemma published_run:
  assumes L: "ratchet_laws P" "sign_correct P" and wf: "wf_identity P u" and fresh: "fresh_app u ob"
    and len: "length spkSecret = 32" "\<forall>i. length (fst (draw i)) = 32" and inj: "inj_on (\<lambda>j. snd (draw j)) {0..<n}"
  shows "\<exists>bdl b1 sg. on_store (generatePreKeyBundle P (sql_ops P) spkSecret spkId draw now n) ob = (Inr bdl, b1) \<and>
     sql_invar P (ao_store b1) \<and> sql_sess P (ao_store b1) = Map.empty \<and> lower_contacts (ao_store b1) \<and>
     ss_identity (ao_store b1) = u \<and> ao_drawn b1 = ao_drawn ob \<and>
     pb_identityKeyHex bdl = publicKeyHex (encryptionKey u) \<and> pb_signingKeyHex bdl = publicKeyHex (signingKey u) \<and>
     sp_signatureHex (pb_signedPreKey bdl) = bytesToHex P sg \<and> sg \<noteq> [] \<and>
     sp_publicKeyHex (pb_signedPreKey bdl) = publicKeyHex (generateCurve25519KeyPair P spkSecret) \<and>
     (\<forall>k. pb_oneTimePreKey bdl = Some k \<longrightarrow> (\<exists>b. op_publicKeyHex k = bytesToHex P b)) \<and>
     verifySignature P (sp_publicKeyHex (pb_signedPreKey bdl)) (sp_signatureHex (pb_signedPreKey bdl)) (pb_signingKeyHex bdl) \<and>
     (\<exists>spk. published P u spk (sql_otks P (ao_store b1)) bdl)"
proof -
  note laws = ratchet_lawsD [OF L(1)] and fs = fresh_store [OF fresh]
  have older: "\<forall>k \<in> ran (sql_spks P (ao_store ob)). spk_createdAt k < now" by (simp add: fs)
  obtain bdl s' and spk :: signed_prekey where g: "generatePreKeyBundle P (sql_ops P) spkSecret spkId draw now n (ao_store ob) = (Inr bdl, s')"
    "sql_invar P s'" "sql_sess P s' = sql_sess P (ao_store ob)" "ss_identity s' = u"
    "verifySignature P (sp_publicKeyHex (pb_signedPreKey bdl)) (sp_signatureHex (pb_signedPreKey bdl)) (pb_signingKeyHex bdl)"
    "pb_identityKeyHex bdl = publicKeyHex (encryptionKey u)"
    "sp_publicKeyHex (pb_signedPreKey bdl) = publicKeyHex (generateCurve25519KeyPair P spkSecret)"
    "spk_keyPair spk = generateCurve25519KeyPair P spkSecret"
    "case pb_oneTimePreKey bdl of None \<Rightarrow> n = 0
      | Some op \<Rightarrow> 0 < n \<and> op_keyId op = snd (draw 0) \<and>
          op_publicKeyHex op = publicKeyHex (generateCurve25519KeyPair P (fst (draw 0))) \<and>
          sql_otks P s' (op_keyId op) =
            Some \<lparr>otk_keyId = snd (draw 0), otk_keyPair = generateCurve25519KeyPair P (fst (draw 0))\<rparr>"
    using sql.generatePreKeyBundle_run [OF laws(1,2) L(2), where s = "ao_store ob", unfolded fs(4), OF wf fs(1) len older inj, of spkId]
    by (elim exE conjE) (rule that; assumption)
  have "published P u spk (sql_otks P s') bdl"
    using g(5-9) wf generated_keypair len unfolding published_def by (auto simp: wf_identity_def split: option.splits)
  note texts = generated_texts [OF L(2), where s = "ao_store ob", unfolded fs(4), OF wf g(1)]
  let ?b = "ob\<lparr>ao_store := s'\<rparr>"
  have "app_tables (ao_store ob) s'" using app.after [OF generatePreKeyBundle_keeps g(1)] .
  then have "lower_contacts s'" using fs(8) sql_invar_ready [OF fs(1)] by (simp add: lower_contacts_def app_tables_def)
  moreover have "on_store (generatePreKeyBundle P (sql_ops P) spkSecret spkId draw now n) ob = (Inr bdl, ?b)"
    using on_store_run [of "generatePreKeyBundle P (sql_ops P) spkSecret spkId draw now n" ob, OF g(1)] .
  ultimately show ?thesis using g(2-7) texts fs(3) \<open>published P u spk (sql_otks P s') bdl\<close>
    by (intro exI [of _ bdl] exI [of _ ?b]) auto
qed

lemma chat_introduce:
  assumes L: "ratchet_laws P" "sign_correct P" and wf: "\<forall>d. wf_identity P (u d)" and fresh: "\<forall>d. fresh_app (u d) (begins d)"
    and g: "on_store (generatePreKeyBundle P (sql_ops P) spkSecret spkId draw now n) (begins Bob) = (Inr bdl, b1)"
    and i: "on_store (importContact P ekSecret now' (exportContactUri bdl alias) custom) (begins Alice) = (Inr contact, a1)"
    and named: "\<forall>a. alias = Some a \<longrightarrow> wf_text a"
    and len: "length spkSecret = 32" "length ekSecret = 32" "\<forall>i. length (fst (draw i)) = 32"
    and inj: "inj_on (\<lambda>j. snd (draw j)) {0..<n}"
  shows "chat_inv P u \<lparr>cs_apps = (\<lambda>d. case d of Alice \<Rightarrow> a1 | Bob \<Rightarrow> b1), cs_net = (\<lambda>_. []),
      cs_offered = map_option op_keyId (pb_oneTimePreKey bdl),
      cs_used = {bytesToHex P (boxPublic P ekSecret), bytesToHex P (boxPublic P spkSecret)}, cs_inbox = (\<lambda>_. [])\<rparr>"
    (is "chat_inv P u ?c")
proof -
  note A = fresh_store [OF fresh [rule_format, of Alice]] and B = fresh_store [OF fresh [rule_format, of Bob]]
  obtain sg where pub: "sql_invar P (ao_store b1)" "lower_contacts (ao_store b1)" "ss_identity (ao_store b1) = u Bob"
    "pb_identityKeyHex bdl = publicKeyHex (encryptionKey (u Bob))" "pb_signingKeyHex bdl = publicKeyHex (signingKey (u Bob))"
    "sp_signatureHex (pb_signedPreKey bdl) = bytesToHex P sg" "sg \<noteq> []"
    "sp_publicKeyHex (pb_signedPreKey bdl) = publicKeyHex (generateCurve25519KeyPair P spkSecret)"
    "\<forall>k. pb_oneTimePreKey bdl = Some k \<longrightarrow> (\<exists>b. op_publicKeyHex k = bytesToHex P b)"
    "verifySignature P (sp_publicKeyHex (pb_signedPreKey bdl)) (sp_signatureHex (pb_signedPreKey bdl)) (pb_signingKeyHex bdl)"
    using published_run [OF L wf [rule_format, of Bob] fresh [rule_format, of Bob] len(1,3) inj, of spkId now] g by auto
  obtain s1 where s1: "same_keys P (ao_store (begins Alice)) s1" "lower_contacts s1"
    "importContact P ekSecret now' (exportContactUri bdl alias) custom (ao_store (begins Alice)) =
       (case initiateSession P (sql_ops P) ekSecret now' (publicKeyHex (encryptionKey (u Bob))) bdl s1 of
          (Inl e, s2) \<Rightarrow> (Inl e, s2)
        | (Inr _, s2) \<Rightarrow> (Inr \<lparr>cr_recipientPubkeyHash = recipientPubkeyHash (u Bob),
             cr_identityPubkeyHex = publicKeyHex (encryptionKey (u Bob)), cr_signingPubkeyHex = publicKeyHex (signingKey (u Bob)),
             cr_alias = (if truthy custom then custom else if truthy alias then alias else None),
             cr_createdAt = now', cr_linkedDevices = None\<rparr>, s2))"
    using import_run [OF L A(1,5) wf [rule_format, of Bob] pub(4-8) len(1) pub(9,10) named, where ekSecret = ekSecret and now = now' and custom = custom] by blast
  obtain ses where ses: "initiateSession P (sql_ops P) ekSecret now' (identity_key (u Bob)) bdl s1 = (Inr ses, ao_store a1)"
    using s1(3) on_store_inv [OF i] by (auto simp: identity_key_def split: prod.splits sum.splits)
  define start where "start = (\<lambda>d. case d of Alice \<Rightarrow> s1 | Bob \<Rightarrow> ao_store (begins Bob))"
  have st: "\<forall>d. sql_invar P (start d)" "\<forall>d. wf_identity P (ss_identity (start d))" "sql_spks P (start Bob) = Map.empty"
    "sql_sess P (start Bob) (toLowerCase (identity_key (u Alice))) = None"
    using s1(1) A(4) B(1-4) wf by (auto simp: start_def same_keys_def split: side.splits)
  have "sql_invar P (ao_store a1) \<and> sql_invar P (ao_store b1) \<and>
      greeted P (sql_ops P) ss_identity (sql_otks P) (sql_sess P) (\<lambda>d. identity_key (u d)) (world_of ?c)"
    by (rule sql.greeted_start [where start = start and key = "\<lambda>d. identity_key (u d)", OF L st, where sA = "ao_store a1" and sB = "ao_store b1" and ekSecret = ekSecret and
        spkSecret = spkSecret and spkId = spkId and draw = draw and now = now and n = n and bdl = bdl and now' = now' and ses = ses])
      (use ses on_store_inv [OF g] len inj in \<open>simp_all add: start_def world_of_def fun_eq_iff\<close>)
  then have "paired P (\<lambda>d. identity_key (u d)) (world_of ?c)"
    by (auto simp: paired_def world_of_def split: side.splits)
  moreover have "lower_contacts (ao_store a1)" "ss_identity (ao_store a1) = u Alice"
    using app.after [OF initiateSession_keeps ses] s1(1,2) A(4) sql_invar_ready [of P s1]
    by (auto simp: app_tables_def same_keys_def lower_contacts_def)
  ultimately show ?thesis using pub(2,3) by (auto simp: chat_inv_def split: side.splits)
qed

text \<open>From two new clients to the first message in flight.\<close>

lemma first_message:
  assumes L: "ratchet_laws P" "sign_correct P" and wf: "\<forall>d. wf_identity P (u d)" and fresh: "\<forall>d. fresh_app (u d) (begins d)"
    and named: "\<forall>a. alias = Some a \<longrightarrow> wf_text a"
    and len: "length spkSecret = 32" "length ekSecret = 32" "\<forall>i. length (fst (draw i)) = 32"
    and inj: "inj_on (\<lambda>j. snd (draw j)) {0..<n}" and nonce: "\<forall>i. length (nonce_at EA i) = 24"
  shows "\<exists>bdl b1 contact a1 row dev msg m a2.
     on_store (generatePreKeyBundle P (sql_ops P) spkSecret spkId draw now n) (begins Bob) = (Inr bdl, b1) \<and>
     on_store (importContact P ekSecret now' (exportContactUri bdl alias) custom) (begins Alice) = (Inr contact, a1) \<and>
     cr_recipientPubkeyHash contact = recipientPubkeyHash (u Bob) \<and>
     sole_device (ao_store a1) (recipientPubkeyHash (u Bob)) row dev \<and> dr_identityPubkeyHex dev = identity_key (u Bob) \<and>
     sendOutboundMessage P EA now'' (recipientPubkeyHash (u Bob)) pt a1 = (Inr m, a2) \<and>
     ao_posted a2 = ao_posted a1 @ [envelope_of (recipientPubkeyHash (u Bob)) msg] \<and>
     ao_drawn b1 = ao_drawn (begins Bob) \<and>
     deliverable (sql_ops P) (identity_key (u Alice)) (map_option op_keyId (pb_oneTimePreKey bdl)) msg (ao_store b1)"
proof -
  note laws = ratchet_lawsD [OF L(1)]
  note A = fresh_store [OF fresh [rule_format, of Alice]] and B = fresh_store [OF fresh [rule_format, of Bob]]
  obtain bdl b1 sg spk where pub: "on_store (generatePreKeyBundle P (sql_ops P) spkSecret spkId draw now n) (begins Bob) = (Inr bdl, b1)"
    "sql_invar P (ao_store b1)" "sql_sess P (ao_store b1) = Map.empty" "ao_drawn b1 = ao_drawn (begins Bob)"
    "pb_identityKeyHex bdl = publicKeyHex (encryptionKey (u Bob))" "pb_signingKeyHex bdl = publicKeyHex (signingKey (u Bob))"
    "sp_signatureHex (pb_signedPreKey bdl) = bytesToHex P sg" "sg \<noteq> []"
    "sp_publicKeyHex (pb_signedPreKey bdl) = publicKeyHex (generateCurve25519KeyPair P spkSecret)"
    "\<forall>k. pb_oneTimePreKey bdl = Some k \<longrightarrow> (\<exists>b. op_publicKeyHex k = bytesToHex P b)"
    "verifySignature P (sp_publicKeyHex (pb_signedPreKey bdl)) (sp_signatureHex (pb_signedPreKey bdl)) (pb_signingKeyHex bdl)"
    "published P (u Bob) spk (sql_otks P (ao_store b1)) bdl"
    using published_run [OF L wf [rule_format, of Bob] fresh [rule_format, of Bob] len(1,3) inj, of spkId now] by blast
  let ?c = "\<lparr>cr_recipientPubkeyHash = recipientPubkeyHash (u Bob), cr_identityPubkeyHex = publicKeyHex (encryptionKey (u Bob)),
     cr_signingPubkeyHex = publicKeyHex (signingKey (u Bob)),
     cr_alias = (if truthy custom then custom else if truthy alias then alias else None), cr_createdAt = now', cr_linkedDevices = None\<rparr>"
  let ?row = "contact_row_of ?c"
  obtain s1 where s1: "same_keys P (ao_store (begins Alice)) s1" "lower_contacts s1"
    "own_linked_devices (db_of (ss_db s1)) = []" "contacts (db_of (ss_db s1)) = [?row]"
    "importContact P ekSecret now' (exportContactUri bdl alias) custom (ao_store (begins Alice)) =
       (case initiateSession P (sql_ops P) ekSecret now' (publicKeyHex (encryptionKey (u Bob))) bdl s1 of
          (Inl e, s2) \<Rightarrow> (Inl e, s2) | (Inr _, s2) \<Rightarrow> (Inr ?c, s2))"
    using import_run [OF L A(1,5) wf [rule_format, of Bob] pub(5-9) len(1) pub(10,11) named, where ekSecret = ekSecret and now = now' and custom = custom] A(7,8)
    by (auto simp: upsert_def)
  have inv1: "sql_invar P s1" and id1: "ss_identity s1 = u Alice" using s1(1) A(4) by (simp_all add: same_keys_def)
  have enc: "box_keypair P (encryptionKey (ss_identity s1))" using wf id1 by (simp add: wf_identity_def)
  obtain ses s2 where ses: "initiateSession P (sql_ops P) ekSecret now' (publicKeyHex (encryptionKey (u Bob))) bdl s1 = (Inr ses, s2)"
    "sql_invar P s2" "ss_identity s2 = u Alice" "sql_sess P s2 = (sql_sess P s1)(toLowerCase (identity_key (u Bob)) \<mapsto> ses)"
    "sendSequenceNumber ses = 0" "greeting P (u Alice) (u Bob) spk (sql_otks P (ao_store b1)) bdl ses []"
    using sql.initiateSession_run [OF L(1) inv1 enc pub(12) len(2), of now' "publicKeyHex (encryptionKey (u Bob))"] id1
    by (auto simp: identity_key_def)
  let ?a1 = "(begins Alice)\<lparr>ao_store := s2\<rparr>"
  have import: "on_store (importContact P ekSecret now' (exportContactUri bdl alias) custom) (begins Alice) = (Inr ?c, ?a1)"
    using s1(5) ses(1) by (intro on_store_run) simp
  have tabs: "contacts (db_of (ss_db s2)) = [?row]" "own_linked_devices (db_of (ss_db s2)) = []"
    using app.after [OF initiateSession_keeps ses(1)] s1(3,4) sql_invar_ready [OF inv1] by (auto simp: app_tables_def)
  note key = identity_key_hex [OF laws(1,2) wf [rule_format, of Bob]]
  have hash: "toLowerCase (recipientPubkeyHash (u Bob)) = recipientPubkeyHash (u Bob)"
    using wf laws(1) by (simp add: wf_identity_def prim_laws)
  let ?dev = "primary_device ?row"
  have dev: "dr_identityPubkeyHex ?dev = identity_key (u Bob)" "dr_recipientPubkeyHash ?dev = recipientPubkeyHash (u Bob)"
    using key(1) hash by (simp_all add: primary_device_def contact_row_of_def identity_key_def)
  have "cr_linkedDevices (mapRowToContact ?row) = Some [?dev]"
    by (simp add: mapRowToContact_def contact_row_of_def Let_def)
  then have sole: "sole_device s2 (recipientPubkeyHash (u Bob)) ?row ?dev"
    using tabs hash by (simp add: sole_device_def select_key_def target_devices_def)
  let ?nonce = "nonce_at EA (ao_drawn (begins Alice) + 1)"
  obtain ct ses' where st: "encryptStep P ?nonce now'' pt ses = (Inr (0, ct), ses')" "storable_session P ses'"
    "\<And>m. carries P ses' ?nonce 0 ct m \<Longrightarrow> em_oneTimePreKeyId m = oneTimePreKeyId ses' \<Longrightarrow>
        em_initialIdentityKeyHex m = Some (publicKeyHex (encryptionKey (u Alice))) \<Longrightarrow>
        em_initialEphemeralKeyHex m = Some (publicKeyHex (localDhKeyPair ses')) \<Longrightarrow>
        greeting P (u Alice) (u Bob) spk (sql_otks P (ao_store b1)) bdl ses' [(m, text_decode (text_encode pt))]"
    using greeting_send [OF L(1) ses(6) nonce [rule_format], of "ao_drawn (begins Alice) + 1" now'' pt] ses(5) by auto
  have "sql_sess P s2 (toLowerCase (identity_key (u Bob))) = Some ses" by (simp add: ses(4))
  then obtain msg s3 where e: "encrypt P (sql_ops P) ?nonce now'' (identity_key (u Bob)) pt None s2 = (Inr msg, s3)"
    "carries P ses' ?nonce 0 ct msg" "em_oneTimePreKeyId msg = oneTimePreKeyId ses'"
    "em_initialIdentityKeyHex msg = Some (publicKeyHex (encryptionKey (u Alice)))"
    "em_initialEphemeralKeyHex msg = Some (publicKeyHex (localDhKeyPair ses'))" "sql_invar P s3"
    using sql.encrypt_run [OF ses(2) _ st(1,2), of "identity_key (u Bob)"] ses(3) by auto
  have low: "lower_contacts s2" using tabs(1) hash by (simp add: lower_contacts_def)
  obtain m a2 where out: "sendOutboundMessage P EA now'' (recipientPubkeyHash (u Bob)) pt ?a1 = (Inr m, a2)"
    "ao_posted a2 = ao_posted ?a1 @ [envelope_of (recipientPubkeyHash (u Bob)) msg]"
    using outgoing_run [where ob = ?a1, simplified, OF ses(2) low sole _ e(6), of EA now'' pt] e(1) dev by auto
  have "greeting P (u Alice) (u Bob) spk (sql_otks P (ao_store b1)) bdl ses' [(msg, text_decode (text_encode pt))]"
    using st(3) e(2-5) by blast
  then have "em_oneTimePreKeyId msg = map_option op_keyId (pb_oneTimePreKey bdl)" "em_sequenceNumber msg = 0"
    using e(2,3) by (simp_all add: greeting_def carries_def)
  moreover have "session_of (sql_ops P) (identity_key (u Alice)) (ao_store b1) = None"
    using sql.session_of_sess [OF pub(2)] pub(3) by simp
  ultimately have "deliverable (sql_ops P) (identity_key (u Alice)) (map_option op_keyId (pb_oneTimePreKey bdl)) msg (ao_store b1)"
    by (simp add: deliverable_def MAX_SKIP_MESSAGES_def)
  then show ?thesis using pub(1,4) import sole dev(1) out
    by (intro exI [of _ bdl] exI [of _ b1] exI [of _ ?c] exI [of _ ?a1] exI [of _ ?row] exI [of _ ?dev] exI [of _ msg]
        exI [of _ m] exI [of _ a2]) simp
qed

lemma chat_reaches:
  assumes "ratchet_laws P" "sign_correct P" "\<forall>d. wf_identity P (u d)" "\<forall>d. fresh_app (u d) (begins d)"
    and "chat P E u begins c"
  shows "chat_inv P u c"
  using assms(5)
proof (induction rule: chat.induct)
  case introduce
  then show ?case by (intro chat_introduce [OF assms(1-4)])
next
  case send
  then show ?case by (intro chat_send [OF assms(1)])
next
  case deliver
  then show ?case using assms(3) by (intro chat_deliver(1) [OF assms(1)]) simp_all
next
  case (lose c d F1 f F2)
  then have "paired P (\<lambda>d. identity_key (u d)) ((world_of c)\<lparr>wire := (wire (world_of c))(d := F1 @ F2)\<rparr>)"
    by (intro paired_drop) (simp_all add: chat_inv_def world_of_def)
  moreover have "\<forall>x \<in> set (F1 @ F2). em_initialIdentityKeyHex (fst x) = Some (identity_key (u (other d)))"
  proof -
    have "\<forall>x \<in> set (cs_net c d). em_initialIdentityKeyHex (fst x) = Some (identity_key (u (other d)))"
      using lose.IH unfolding chat_inv_def by blast
    then show ?thesis unfolding lose.hyps(2) by simp
  qed
  ultimately show ?case using lose.IH by (simp add: chat_inv_def world_of_def)
qed

lemma chat_inbox:
  assumes "chat_inv P u c" "(pt, r) \<in> set (cs_inbox c d)"
  shows "\<exists>own ts target i. r = Inr (received (identity_key (u (other d))) own ts target i pt)"
  using assms unfolding chat_inv_def by fast

lemma chat_inbox_ordinary:
  assumes "chat_inv P u c" "(pt, r) \<in> set (cs_inbox c d)" "ordinary_text pt"
  shows "\<exists>m. r = Inr (Some m) \<and> sm_body m = pt \<and> \<not> sm_isOutgoing m \<and> sm_senderIdentityHex m = identity_key (u (other d))"
  using chat_inbox [OF assms(1,2)] received_ordinary [OF assms(3)] by fastforce

text \<open>The first message in flight.\<close>

lemma first_in_flight:
  assumes L: "ratchet_laws P" "sign_correct P" and wf: "\<forall>d. wf_identity P (u d)" and fresh: "\<forall>d. fresh_app (u d) (begins d)"
    and named: "\<forall>a. alias = Some a \<longrightarrow> wf_text a"
    and len: "length spkSecret = 32" "length ekSecret = 32" "\<forall>i. length (fst (draw i)) = 32"
    and inj: "inj_on (\<lambda>j. snd (draw j)) {0..<n}" and nonce: "\<forall>i. length (nonce_at (E Alice) i) = 24"
    and pt: "sendable pt"
  shows "\<exists>bdl b1 contact a1 msg m a2 c.
     on_store (generatePreKeyBundle P (sql_ops P) spkSecret spkId draw now n) (begins Bob) = (Inr bdl, b1) \<and>
     on_store (importContact P ekSecret now' (exportContactUri bdl alias) custom) (begins Alice) = (Inr contact, a1) \<and>
     sendOutboundMessage P (E Alice) now'' (cr_recipientPubkeyHash contact) pt a1 = (Inr m, a2) \<and>
     ao_posted a2 = ao_posted a1 @ [envelope_of (recipientPubkeyHash (u Bob)) msg] \<and>
     chat P E u begins c \<and> cs_net c Bob = [(msg, pt)] \<and> cs_apps c Bob = b1 \<and> ao_drawn b1 = ao_drawn (begins Bob) \<and>
     cs_used c = {bytesToHex P (boxPublic P ekSecret), bytesToHex P (boxPublic P spkSecret)} \<and>
     deliverable (sql_ops P) (identity_key (u Alice)) (cs_offered c) msg (ao_store b1)"
proof -
  obtain bdl b1 contact a1 row dev msg m a2 where F:
    "on_store (generatePreKeyBundle P (sql_ops P) spkSecret spkId draw now n) (begins Bob) = (Inr bdl, b1)"
    "on_store (importContact P ekSecret now' (exportContactUri bdl alias) custom) (begins Alice) = (Inr contact, a1)"
    "cr_recipientPubkeyHash contact = recipientPubkeyHash (u Bob)"
    "sole_device (ao_store a1) (recipientPubkeyHash (u Bob)) row dev" "dr_identityPubkeyHex dev = identity_key (u Bob)"
    "sendOutboundMessage P (E Alice) now'' (recipientPubkeyHash (u Bob)) pt a1 = (Inr m, a2)"
    "ao_posted a2 = ao_posted a1 @ [envelope_of (recipientPubkeyHash (u Bob)) msg]" "ao_drawn b1 = ao_drawn (begins Bob)"
    "deliverable (sql_ops P) (identity_key (u Alice)) (map_option op_keyId (pb_oneTimePreKey bdl)) msg (ao_store b1)"
    using first_message [OF L wf fresh named len inj nonce, where now' = now' and now'' = now'' and pt = pt and spkId = spkId and now = now and custom = custom]
    by (elim exE conjE) (rule that; assumption)
  let ?c0 = "\<lparr>cs_apps = (\<lambda>d. case d of Alice \<Rightarrow> a1 | Bob \<Rightarrow> b1), cs_net = (\<lambda>_. []),
      cs_offered = map_option op_keyId (pb_oneTimePreKey bdl),
      cs_used = {bytesToHex P (boxPublic P ekSecret), bytesToHex P (boxPublic P spkSecret)}, cs_inbox = (\<lambda>_. [])\<rparr>"
  have "chat P E u begins ?c0" by (rule chat.introduce [OF F(1,2) named len inj])
  then have c1: "chat P E u begins (?c0\<lparr>cs_apps := (cs_apps ?c0)(Alice := a2),
      cs_net := (cs_net ?c0)(other Alice := cs_net ?c0 (other Alice) @ [(msg, pt)])\<rparr>)" (is "chat _ _ _ _ ?c1")
    by (rule chat.send) (use F(4-7) nonce pt in simp_all)
  then show ?thesis using F(1,2,6-9) unfolding F(3)
    by (intro exI [of _ bdl] exI [of _ b1] exI [of _ contact] exI [of _ a1] exI [of _ msg] exI [of _ m] exI [of _ a2] exI [of _ ?c1])
      (simp add: F(3))
qed

text \<open>What handling it on the other side means for the conversation.\<close>

lemma first_exchange:
  assumes L: "ratchet_laws P" "sign_correct P" and wf: "\<forall>d. wf_identity P (u d)" and fresh: "\<forall>d. fresh_app (u d) (begins d)"
    and named: "\<forall>a. alias = Some a \<longrightarrow> wf_text a"
    and len: "length spkSecret = 32" "length ekSecret = 32" "\<forall>i. length (fst (draw i)) = 32"
    and inj: "inj_on (\<lambda>j. snd (draw j)) {0..<n}" and nonce: "\<forall>i. length (nonce_at (E Alice) i) = 24"
    and pt: "sendable pt"
    and secrets: "fresh_secret P {bytesToHex P (boxPublic P ekSecret), bytesToHex P (boxPublic P spkSecret)}
        (secret_at (E Bob) (ao_drawn (begins Bob)))"
      "fresh_secret P {bytesToHex P (boxPublic P (secret_at (E Bob) (ao_drawn (begins Bob)))),
          bytesToHex P (boxPublic P ekSecret), bytesToHex P (boxPublic P spkSecret)}
        (secret_at (E Bob) (ao_drawn (begins Bob) + 1))"
  shows "\<exists>bdl b1 contact a1 msg m a2.
     on_store (generatePreKeyBundle P (sql_ops P) spkSecret spkId draw now n) (begins Bob) = (Inr bdl, b1) \<and>
     on_store (importContact P ekSecret now' (exportContactUri bdl alias) custom) (begins Alice) = (Inr contact, a1) \<and>
     sendOutboundMessage P (E Alice) now'' (cr_recipientPubkeyHash contact) pt a1 = (Inr m, a2) \<and>
     ao_posted a2 = ao_posted a1 @ [envelope_of (recipientPubkeyHash (u Bob)) msg] \<and>
     (\<forall>payload t r b2. ip_encrypted_payload payload = JSON_stringify (json_of_encrypted msg) \<longrightarrow>
        handleIncomingMessage P (E Bob) t payload b1 = (r, b2) \<longrightarrow>
        (\<exists>c. chat P E u begins c \<and> (pt, r) \<in> set (cs_inbox c Bob)))"
proof -
  obtain bdl b1 contact a1 msg m a2 c where F:
    "on_store (generatePreKeyBundle P (sql_ops P) spkSecret spkId draw now n) (begins Bob) = (Inr bdl, b1)"
    "on_store (importContact P ekSecret now' (exportContactUri bdl alias) custom) (begins Alice) = (Inr contact, a1)"
    "sendOutboundMessage P (E Alice) now'' (cr_recipientPubkeyHash contact) pt a1 = (Inr m, a2)"
    "ao_posted a2 = ao_posted a1 @ [envelope_of (recipientPubkeyHash (u Bob)) msg]"
    "chat P E u begins c" "cs_net c Bob = [(msg, pt)]" "cs_apps c Bob = b1" "ao_drawn b1 = ao_drawn (begins Bob)"
    "cs_used c = {bytesToHex P (boxPublic P ekSecret), bytesToHex P (boxPublic P spkSecret)}"
    "deliverable (sql_ops P) (identity_key (u Alice)) (cs_offered c) msg (ao_store b1)"
    using first_in_flight [where E = E and u = u and begins = begins and draw = draw, OF L wf fresh named len inj nonce pt, where now' = now' and now'' = now'' and spkId = spkId and now = now and custom = custom]
    by (elim exE conjE) (rule that; assumption)
  have "\<exists>c. chat P E u begins c \<and> (pt, r) \<in> set (cs_inbox c Bob)"
    if "ip_encrypted_payload payload = JSON_stringify (json_of_encrypted msg)"
      and "handleIncomingMessage P (E Bob) t payload b1 = (r, b2)" for payload t r b2
    by (rule exI, rule conjI, rule chat.deliver [OF F(5), of Bob "[]" msg pt "[]" payload t r b2])
      (use F(6-10) that secrets in simp_all)
  then show ?thesis using F(1-4) by blast
qed

text \<open>Two clients created on in-memory databases.\<close>

lemma created_app_fresh:
  "\<exists>ob. create_app P open_file kc drawn fallback now u cfg dbName (Some True) inst events kst = (Inr ob, kst) \<and>
     fresh_app u ob \<and> ao_drawn ob = 0 \<and> ao_posted ob = []"
proof -
  let ?m = "new_DatabaseManager dbName (Some True)"
  obtain m' where "initialize P open_file kc drawn fallback now (?m, kst) = (Inr (), (m', kst))" "dm_ready m'"
    "same_rows (empty_database\<lparr>foreign_keys := True\<rparr>) (db_of m')"
    using initialize_memory [of ?m P open_file kc drawn fallback now kst] by (auto simp: new_DatabaseManager_def)
  then show ?thesis
    by (auto simp: create_app_def initialize_app_def new_AppOrchestrator_def fresh_app_def new_SqliteSignalStore_def)
qed

definition demo_app :: "side \<Rightarrow> orchestrator" where
  "demo_app d = (case create_app model_prims (\<lambda>_ _. Inl LibError) None [] [] 0 (demo_identity d) demo_config None (Some True)
       None {} () of (Inr ob, _) \<Rightarrow> ob)"

lemma demo_app_fresh: "fresh_app (demo_identity d) (demo_app d)" "ao_drawn (demo_app d) = 0" "ao_posted (demo_app d) = []"
  using created_app_fresh [of model_prims "\<lambda>_ _. Inl LibError" None "[]" "[]" 0 "demo_identity d" demo_config None None "{}" "()"]
  by (auto simp: demo_app_def)

definition demo_orch_env :: "side \<Rightarrow> orch_env" where
  "demo_orch_env d = \<lparr>nonce_at = (\<lambda>_. replicate 24 0), id_at = (\<lambda>_. replicate 16 7),
     secret_at = (\<lambda>i. replicate 32 (of_nat i + 5)), http = (\<lambda>_ _. Inl LibError), ws_draws = demo_env\<rparr>"

lemma demo_inputs:
  "\<forall>d. wf_identity model_prims (demo_identity d)" "\<forall>d. fresh_app (demo_identity d) (demo_app d)"
  "\<forall>a. Some ''bob'' = Some a \<longrightarrow> wf_text a" "length (replicate 32 (3 :: byte)) = 32" "length (replicate 32 (4 :: byte)) = 32"
  "\<forall>i. length (fst (replicate 32 (2 :: byte), int i)) = 32" "inj_on (\<lambda>j. snd (replicate 32 (2 :: byte), int j)) {0..<1}"
  "\<forall>i. length (nonce_at (demo_orch_env Alice) i) = 24" 
  "fresh_secret model_prims {bytesToHex model_prims (boxPublic model_prims (replicate 32 4)),
      bytesToHex model_prims (boxPublic model_prims (replicate 32 3))} (secret_at (demo_orch_env Bob) (ao_drawn (demo_app Bob)))"
  "fresh_secret model_prims {bytesToHex model_prims (boxPublic model_prims (secret_at (demo_orch_env Bob) (ao_drawn (demo_app Bob)))),
      bytesToHex model_prims (boxPublic model_prims (replicate 32 4)), bytesToHex model_prims (boxPublic model_prims (replicate 32 3))}
      (secret_at (demo_orch_env Bob) (ao_drawn (demo_app Bob) + 1))"
proof -
  show "\<forall>a. Some ''bob'' = Some a \<longrightarrow> wf_text a" by (simp add: wf_text_punct code_def del: wf_text.simps(2))
  have ne: "replicate 32 (a :: byte) = replicate 32 b \<longleftrightarrow> a = b" for a b by (simp add: replicate_eq_replicate)
  have pub: "boxPublic model_prims a = a" for a by (simp add: model_prims_def)
  show "fresh_secret model_prims {bytesToHex model_prims (boxPublic model_prims (replicate 32 4)),
      bytesToHex model_prims (boxPublic model_prims (replicate 32 3))} (secret_at (demo_orch_env Bob) (ao_drawn (demo_app Bob)))"
    by (simp add: fresh_secret_def demo_orch_env_def demo_app_fresh bytesToHex_inject [OF model_hex_codec] pub)
  show "fresh_secret model_prims {bytesToHex model_prims (boxPublic model_prims (secret_at (demo_orch_env Bob) (ao_drawn (demo_app Bob)))),
      bytesToHex model_prims (boxPublic model_prims (replicate 32 4)), bytesToHex model_prims (boxPublic model_prims (replicate 32 3))}
      (secret_at (demo_orch_env Bob) (ao_drawn (demo_app Bob) + 1))"
    by (simp add: fresh_secret_def demo_orch_env_def demo_app_fresh bytesToHex_inject [OF model_hex_codec] pub)
qed (simp_all add: demo_app_fresh demo_identity_wf demo_orch_env_def)

lemma demo_ordinary: "ordinary_text ''hi''"
  by code_simp

lemma demo_sendable: "sendable ''hi''"
  by (rule sendable_ascii) (simp add: code_def)

lemmas demo_exchange = first_exchange [OF model_ratchet_laws model_sign_correct demo_inputs(1-8) _ demo_inputs(9,10),
  where spkId = 9 and now = 1 and now' = 2 and now'' = 3 and custom = None]

lemmas demo_flight = first_in_flight [where E = demo_orch_env and u = demo_identity and begins = demo_app,
  OF model_ratchet_laws model_sign_correct demo_inputs(1-8), where spkId = 9 and now = 1 and now' = 2 and now'' = 3 and custom = None]

lemma demo_conversation:
  assumes "sendable pt"
  shows "\<exists>c r. chat model_prims demo_orch_env demo_identity demo_app c \<and> (pt, r) \<in> set (cs_inbox c Bob)"
proof -
  obtain msg b1 where h: "\<forall>payload t r b2. ip_encrypted_payload payload = JSON_stringify (json_of_encrypted msg) \<longrightarrow>
      handleIncomingMessage model_prims (demo_orch_env Bob) t payload b1 = (r, b2) \<longrightarrow>
      (\<exists>c. chat model_prims demo_orch_env demo_identity demo_app c \<and> (pt, r) \<in> set (cs_inbox c Bob))"
    using demo_exchange [OF assms] by (elim exE conjE) (rule that)
  let ?payload = "\<lparr>ip_encrypted_payload = JSON_stringify (json_of_encrypted msg), ip_nonce = [], ip_created_at = None\<rparr>"
  obtain r b2 where "handleIncomingMessage model_prims (demo_orch_env Bob) 4 ?payload b1 = (r, b2)" by fastforce
  then show ?thesis using h [rule_format, of ?payload 4 r b2] by auto
qed

text \<open>C11. The self-sync format is not authenticated: a text of that shape from the other side of a conversation,
  which is not a device of the user, is stored as a message the user sent, already read and delivered, in
  whatever conversation and under whatever id the text names.\<close>

theorem correspondent_writes_history:
  assumes "ratchet_laws P" "sign_correct P" "\<forall>d. wf_identity P (u d)" "\<forall>d. fresh_app (u d) (begins d)"
    and "chat P E u begins c" "(JSON_stringify (json_of_sync y), r) \<in> set (cs_inbox c d)"
  shows "\<exists>m. r = Inr (Some m) \<and> sm_isOutgoing m \<and> sm_isRead m \<and> sm_body m = sy_body y \<and>
     sm_contactPubkeyHash m = sy_originalRecipientHash y \<and> (sy_messageId y \<noteq> [] \<longrightarrow> sm_id m = sy_messageId y)"
  using chat_inbox [OF chat_reaches [OF assms(1-5)] assms(6)] received_sync [of _ _ _ _ _ y] by fastforce

definition forged_sync :: sync_payload where
  "forged_sync = \<lparr>sy_originalRecipientHash = ''c0ffee'', sy_body = ''I agree'', sy_timestamp = 1, sy_messageId = ''m1''\<rparr>"

theorem correspondent_writes_history_witness:
  "\<exists>c m. chat model_prims demo_orch_env demo_identity demo_app c \<and>
     (JSON_stringify (json_of_sync forged_sync), Inr (Some m)) \<in> set (cs_inbox c Bob) \<and>
     sm_isOutgoing m \<and> sm_body m = ''I agree'' \<and> sm_contactPubkeyHash m = ''c0ffee'' \<and> sm_id m = ''m1''"
proof -
  have "sendable (JSON_stringify (json_of_sync forged_sync))"
    by (rule sendable_ascii) code_simp
  then obtain c r where c: "chat model_prims demo_orch_env demo_identity demo_app c"
    "(JSON_stringify (json_of_sync forged_sync), r) \<in> set (cs_inbox c Bob)"
    using demo_conversation by blast
  then show ?thesis
    using correspondent_writes_history [OF model_ratchet_laws model_sign_correct _ _ c] demo_identity_wf demo_app_fresh(1)
    by (auto simp: forged_sync_def)
qed

text \<open>C2. Two new clients get their first message across: the bundle Bob publishes, the import of its contact
  URI by Alice and her first \<open>sendOutboundMessage\<close> succeed, exactly one envelope is posted, to Bob's
  mailbox, and the handler on Bob's side returns the text, whoever relays the envelope and at any time.\<close>

theorem first_message_arrives:
  assumes "ratchet_laws P" "sign_correct P" "\<forall>d. wf_identity P (u d)" "\<forall>d. fresh_app (u d) (begins d)"
    and "\<forall>a. alias = Some a \<longrightarrow> wf_text a"
    and "length spkSecret = 32" "length ekSecret = 32" "\<forall>i. length (fst (draw i)) = 32"
    and "inj_on (\<lambda>j. snd (draw j)) {0..<n}" "\<forall>i. length (nonce_at (E Alice) i) = 24"
    and "sendable pt" "ordinary_text pt"
    and "fresh_secret P {bytesToHex P (boxPublic P ekSecret), bytesToHex P (boxPublic P spkSecret)}
        (secret_at (E Bob) (ao_drawn (begins Bob)))"
    and "fresh_secret P {bytesToHex P (boxPublic P (secret_at (E Bob) (ao_drawn (begins Bob)))),
          bytesToHex P (boxPublic P ekSecret), bytesToHex P (boxPublic P spkSecret)}
        (secret_at (E Bob) (ao_drawn (begins Bob) + 1))"
  shows "\<exists>bdl b1 contact a1 e m a2.
     on_store (generatePreKeyBundle P (sql_ops P) spkSecret spkId draw now n) (begins Bob) = (Inr bdl, b1) \<and>
     on_store (importContact P ekSecret now' (exportContactUri bdl alias) custom) (begins Alice) = (Inr contact, a1) \<and>
     sendOutboundMessage P (E Alice) now'' (cr_recipientPubkeyHash contact) pt a1 = (Inr m, a2) \<and>
     ao_posted a2 = ao_posted a1 @ [e] \<and> oe_recipient_pubkey_hash e = recipientPubkeyHash (u Bob) \<and>
     (\<forall>payload t. ip_encrypted_payload payload = oe_encrypted_payload e \<longrightarrow>
        (\<exists>m' b2. handleIncomingMessage P (E Bob) t payload b1 = (Inr (Some m'), b2) \<and> sm_body m' = pt \<and>
           \<not> sm_isOutgoing m' \<and> sm_senderIdentityHex m' = identity_key (u Alice)))"
proof -
  obtain bdl b1 contact a1 msg m a2 where F:
    "on_store (generatePreKeyBundle P (sql_ops P) spkSecret spkId draw now n) (begins Bob) = (Inr bdl, b1)"
    "on_store (importContact P ekSecret now' (exportContactUri bdl alias) custom) (begins Alice) = (Inr contact, a1)"
    "sendOutboundMessage P (E Alice) now'' (cr_recipientPubkeyHash contact) pt a1 = (Inr m, a2)"
    "ao_posted a2 = ao_posted a1 @ [envelope_of (recipientPubkeyHash (u Bob)) msg]"
    "\<forall>payload t r b2. ip_encrypted_payload payload = JSON_stringify (json_of_encrypted msg) \<longrightarrow>
        handleIncomingMessage P (E Bob) t payload b1 = (r, b2) \<longrightarrow>
        (\<exists>c. chat P E u begins c \<and> (pt, r) \<in> set (cs_inbox c Bob))"
    using first_exchange [OF assms(1-11,13,14), where now' = now' and now'' = now'' and spkId = spkId and now = now and custom = custom]
    by (elim exE conjE) (rule that; assumption)
  have "\<exists>m' b2. handleIncomingMessage P (E Bob) t payload b1 = (Inr (Some m'), b2) \<and> sm_body m' = pt \<and>
      \<not> sm_isOutgoing m' \<and> sm_senderIdentityHex m' = identity_key (u Alice)"
    if p: "ip_encrypted_payload payload = JSON_stringify (json_of_encrypted msg)" for payload t
  proof -
    obtain r b2 where r: "handleIncomingMessage P (E Bob) t payload b1 = (r, b2)" by fastforce
    then obtain c where "chat P E u begins c" "(pt, r) \<in> set (cs_inbox c Bob)" using F(5) p by blast
    then show ?thesis using r chat_inbox_ordinary [OF chat_reaches [OF assms(1-4)] _ assms(12)] by fastforce
  qed
  then show ?thesis using F(1-4)
    by (intro exI [of _ bdl] exI [of _ b1] exI [of _ contact] exI [of _ a1]
        exI [of _ "envelope_of (recipientPubkeyHash (u Bob)) msg"] exI [of _ m] exI [of _ a2]) (simp add: envelope_of_def)
qed

theorem first_message_arrives_witness:
  "\<exists>bdl b1 contact a1 e m a2.
     on_store (generatePreKeyBundle model_prims (sql_ops model_prims) (replicate 32 3) 9 (\<lambda>i. (replicate 32 2, int i)) 1 1)
       (demo_app Bob) = (Inr bdl, b1) \<and>
     on_store (importContact model_prims (replicate 32 4) 2 (exportContactUri bdl (Some ''bob'')) None) (demo_app Alice) = (Inr contact, a1) \<and>
     sendOutboundMessage model_prims (demo_orch_env Alice) 3 (cr_recipientPubkeyHash contact) ''hi'' a1 = (Inr m, a2) \<and>
     ao_posted a2 = ao_posted a1 @ [e] \<and> oe_recipient_pubkey_hash e = recipientPubkeyHash (demo_identity Bob) \<and>
     (\<forall>payload t. ip_encrypted_payload payload = oe_encrypted_payload e \<longrightarrow>
        (\<exists>m' b2. handleIncomingMessage model_prims (demo_orch_env Bob) t payload b1 = (Inr (Some m'), b2) \<and> sm_body m' = ''hi'' \<and>
           \<not> sm_isOutgoing m' \<and> sm_senderIdentityHex m' = identity_key (demo_identity Alice)))"
  by (rule first_message_arrives [OF model_ratchet_laws model_sign_correct])
    (rule demo_inputs demo_sendable demo_ordinary)+

end
