(* ===== verification/Orch_Properties.thy ===== *)
theory Orch_Properties
  imports Conversation "HOL-Library.Sublist"
begin

section \<open>What the orchestrator sends and keeps\<close>

text \<open>
  \<open>sendOutboundMessage\<close> for any number of devices, with and without sessions; what a failed
  \<open>handleIncomingMessage\<close> leaves behind; and the senders it does not know.
\<close>

subsection \<open>Envelopes, devices and the status of a message\<close>

definition app_store :: "orchestrator \<Rightarrow> orchestrator \<Rightarrow> bool" where
  "app_store ob ob' \<longleftrightarrow> app_tables (ao_store ob) (ao_store ob')"

lemma deliver_devices_run:
  "\<exists>live ob' es. deliver_devices P E now pt ds ob = (Inr live, ob') \<and> ao_posted ob' = ao_posted ob @ es \<and>
     subseq (map oe_recipient_pubkey_hash es) (map dr_recipientPubkeyHash ds) \<and>
     (live \<longleftrightarrow> (\<exists>i. i < length es \<and> answered_live E (length (ao_posted ob) + i) (es ! i))) \<and>
     app_tables (ao_store ob) (ao_store ob')"
proof (induction ds arbitrary: ob)
  case Nil
  show ?case by (rule exI [of _ False]) (simp add: app.refl)
next
  case (Cons d ds)
  obtain r s1 where enc: "encrypt P (sql_ops P) (nonce_at E (ao_drawn ob)) now (dr_identityPubkeyHex d) pt None (ao_store ob) = (r, s1)"
    by fastforce
  have tabs: "app_tables (ao_store ob) s1" using app.after [OF encrypt_keeps enc] .
  show ?case
  proof (cases r)
    case (Inl e)
    let ?ob = "ob\<lparr>ao_store := s1, ao_drawn := ao_drawn ob + 1\<rparr>"
    obtain live ob' es where IH: "deliver_devices P E now pt ds ?ob = (Inr live, ob')" "ao_posted ob' = ao_posted ob @ es"
      "subseq (map oe_recipient_pubkey_hash es) (map dr_recipientPubkeyHash ds)"
      "live \<longleftrightarrow> (\<exists>i. i < length es \<and> answered_live E (length (ao_posted ob) + i) (es ! i))" "app_tables s1 (ao_store ob')"
      using Cons.IH [of ?ob] by auto
    have "deliver_devices P E now pt (d # ds) ob = (Inr live, ob')"
      using enc Inl IH(1) by (simp add: bindM_def deliver_device_eq)
    then show ?thesis using IH(2-4) app.trans [OF tabs IH(5)] by (intro exI [of _ live] exI [of _ ob'] exI [of _ es]) (simp add: list_emb_Cons del: deliver_devices.simps)
  next
    case (Inr msg)
    let ?e = "envelope_of (dr_recipientPubkeyHash d) msg"
    let ?first = "answered_live E (length (ao_posted ob)) ?e"
    let ?ob = "ob\<lparr>ao_store := s1, ao_drawn := ao_drawn ob + 1, ao_posted := ao_posted ob @ [?e]\<rparr>"
    obtain live ob' es where IH: "deliver_devices P E now pt ds ?ob = (Inr live, ob')" "ao_posted ob' = (ao_posted ob @ [?e]) @ es"
      "subseq (map oe_recipient_pubkey_hash es) (map dr_recipientPubkeyHash ds)"
      "live \<longleftrightarrow> (\<exists>i. i < length es \<and> answered_live E (Suc (length (ao_posted ob)) + i) (es ! i))" "app_tables s1 (ao_store ob')"
      using Cons.IH [of ?ob] by auto
    have "deliver_devices P E now pt (d # ds) ob = (Inr (?first \<or> live), ob')"
      using enc Inr IH(1) by (simp add: bindM_def deliver_device_eq Let_def)
    moreover have "(?first \<or> live) \<longleftrightarrow>
        (\<exists>i. i < length (?e # es) \<and> answered_live E (length (ao_posted ob) + i) ((?e # es) ! i))"
      unfolding IH(4) by (simp add: Ex_less_Suc2)
    ultimately show ?thesis using IH(2,3) app.trans [OF tabs IH(5)]
      by (intro exI [of _ "?first \<or> live"] exI [of _ ob'] exI [of _ "?e # es"]) (simp add: envelope_of_def)
  qed
qed

lemma sync_devices_run:
  "\<exists>ob' ys. sync_devices P E now y ds ob = (Inr (), ob') \<and> ao_posted ob' = ao_posted ob @ ys \<and>
     subseq (map oe_recipient_pubkey_hash ys) (map or_recipientPubkeyHash ds) \<and> app_tables (ao_store ob) (ao_store ob')"
proof (induction ds arbitrary: ob)
  case Nil
  then show ?case by (simp add: app.refl)
next
  case (Cons d ds)
  obtain r s1 where enc: "encrypt P (sql_ops P) (nonce_at E (ao_drawn ob)) now (or_identityPubkeyHex d)
      (JSON_stringify (json_of_sync y)) None (ao_store ob) = (r, s1)" by fastforce
  have tabs: "app_tables (ao_store ob) s1" using app.after [OF encrypt_keeps enc] .
  define e where "e = (case r of Inl _ \<Rightarrow> [] | Inr msg \<Rightarrow> [envelope_of (or_recipientPubkeyHash d) msg])"
  let ?ob = "ob\<lparr>ao_store := s1, ao_drawn := ao_drawn ob + 1, ao_posted := ao_posted ob @ e\<rparr>"
  have first: "sync_device P E now y d ob = (Inr (), ?ob)"
    using enc by (cases r) (simp_all add: sync_device_eq e_def)
  obtain ob' ys where IH: "sync_devices P E now y ds ?ob = (Inr (), ob')" "ao_posted ob' = (ao_posted ob @ e) @ ys"
    "subseq (map oe_recipient_pubkey_hash ys) (map or_recipientPubkeyHash ds)" "app_tables s1 (ao_store ob')"
    using Cons.IH [of ?ob] by auto
  have "sync_devices P E now y (d # ds) ob = (Inr (), ob')" using first IH(1) by (simp add: bindM_def)
  moreover have "subseq (map oe_recipient_pubkey_hash (e @ ys)) (map or_recipientPubkeyHash (d # ds))"
    using IH(3) by (cases r) (auto simp: e_def envelope_of_def intro: list_emb_Cons)
  ultimately show ?case using IH(2) app.trans [OF tabs IH(4)]
    by (intro exI [of _ ob'] exI [of _ "e @ ys"]) (simp del: sync_devices.simps)
qed

text \<open>The last two steps once the contact is there: the list of own devices and the insert.\<close>

lemma saveMessage_stored:
  assumes "dm_ready (ss_db s)" "toLowerCase (sm_contactPubkeyHash m) \<in> stored_hashes s"
  shows "\<exists>s'. on_db (saveMessage m) s = (Inr (), s') \<and>
     messages (db_of (ss_db s')) = upsert m_id merge_message (row_of_message m) (messages (db_of (ss_db s)))"
proof -
  let ?d' = "(db_of (ss_db s))\<lparr>messages := upsert m_id merge_message (row_of_message m) (messages (db_of (ss_db s)))\<rparr>"
  have "saveMessage m (ss_db s) = (Inr (), (ss_db s)\<lparr>dm_driver := Some ?d'\<rparr>)"
    using assms db_ok_fk by (auto simp: saveMessage_def execute_stmt Let_def row_of_message_def dm_same stored_hashes_def)
  then show ?thesis using on_db_run [of "saveMessage m" s "Inr ()" "(ss_db s)\<lparr>dm_driver := Some ?d'\<rparr>"] by simp
qed

lemma repository_reads:
  assumes "dm_ready (ss_db s)"
  shows "on_db (getContactByHash h) s =
       (Inr (map_option mapRowToContact (select_key c_recipient_pubkey_hash (toLowerCase h) (contacts (db_of (ss_db s))))), s)"
    and "on_db listOwnLinkedDevices s =
       (Inr (map own_device_of_row (order_by_asc d_device_id (own_linked_devices (db_of (ss_db s))))), s)"
  using assms by (simp_all add: on_db_def getContactByHash_def listOwnLinkedDevices_def bindM_def queryOne_ready query_ready)

definition own_devices :: "orchestrator \<Rightarrow> own_device_record list" where
  "own_devices ob = map own_device_of_row (order_by_asc d_device_id (own_linked_devices (db_of (ss_db (ao_store ob)))))"

definition message_rows :: "orchestrator \<Rightarrow> message_row list" where
  "message_rows ob = messages (db_of (ss_db (ao_store ob)))"

definition contact_rows :: "orchestrator \<Rightarrow> contact_row list" where
  "contact_rows ob = contacts (db_of (ss_db (ao_store ob)))"

lemma outbound_run:
  assumes ready: "dm_ready (ss_db (ao_store ob))" and low: "lower_contacts (ao_store ob)"
    and row: "select_key c_recipient_pubkey_hash (toLowerCase h) (contact_rows ob) = Some r"
    and devs: "deliver_devices P E now pt (target_devices (mapRowToContact r)) (ob\<lparr>ao_drawn := Suc (ao_drawn ob)\<rparr>) = (Inr live, ob1)"
      "app_tables (ao_store ob) (ao_store ob1)"
    and sync: "sync_devices P E now \<lparr>sy_originalRecipientHash = cr_recipientPubkeyHash (mapRowToContact r), sy_body = pt,
        sy_timestamp = now, sy_messageId = bytesToHex P (id_at E (ao_drawn ob))\<rparr> (own_devices ob) ob1 = (Inr (), ob2)"
      "app_tables (ao_store ob1) (ao_store ob2)"
  shows "\<exists>ob'. sendOutboundMessage P E now h pt ob =
       (Inr (outgoing_message (own_key ob) now (mapRowToContact r) (bytesToHex P (id_at E (ao_drawn ob))) pt live), ob') \<and>
     ao_posted ob' = ao_posted ob2 \<and>
     message_rows ob' = upsert m_id merge_message (row_of_message
        (outgoing_message (own_key ob) now (mapRowToContact r) (bytesToHex P (id_at E (ao_drawn ob))) pt live)) (message_rows ob)"
proof -
  let ?m = "outgoing_message (own_key ob) now (mapRowToContact r) (bytesToHex P (id_at E (ao_drawn ob))) pt live"
  have tabs: "app_tables (ao_store ob) (ao_store ob2)" using app.trans [OF devs(2) sync(2)] .
  have ready2: "dm_ready (ss_db (ao_store ob2))" using tabs ready by (simp add: app_tables_def)
  have in_rows: "r \<in> set (contacts (db_of (ss_db (ao_store ob))))" using row select_key_Some by (fastforce simp: contact_rows_def)
  have "toLowerCase (cr_recipientPubkeyHash (mapRowToContact r)) \<in> stored_hashes (ao_store ob2)"
    using contact_hash_stored [OF low in_rows] tabs ready by (simp add: stored_hashes_def app_tables_def)
  then obtain s3 where s3: "on_db (saveMessage ?m) (ao_store ob2) = (Inr (), s3)"
    "messages (db_of (ss_db s3)) = upsert m_id merge_message (row_of_message ?m) (messages (db_of (ss_db (ao_store ob2))))"
    using saveMessage_stored [OF ready2, of ?m] by (auto simp: outgoing_message_def)
  have r1: "on_repo (getContactByHash h) ob = (Inr (Some (mapRowToContact r)), ob)"
    using on_repo_run [OF repository_reads(1) [OF ready]] row by (simp add: contact_rows_def)
  have r2: "draw_from (id_at E) ob = (Inr (id_at E (ao_drawn ob)), ob\<lparr>ao_drawn := Suc (ao_drawn ob)\<rparr>)"
    by (simp add: draw_from_def)
  have "own_devices ob1 = own_devices ob" "dm_ready (ss_db (ao_store ob1))"
    using devs(2) ready by (simp_all add: own_devices_def app_tables_def)
  then have r4: "on_repo listOwnLinkedDevices ob1 = (Inr (own_devices ob), ob1)"
    using on_repo_run [OF repository_reads(2), of ob1] by (simp add: own_devices_def)
  have key: "own_key ob2 = own_key ob" using tabs by (simp add: own_key_def app_tables_def)
  have "sendOutboundMessage P E now h pt ob = (Inr ?m, snd (emit (MessageSent ?m) (ob2\<lparr>ao_store := s3\<rparr>)))"
    using on_repo_run [OF s3(1)]
    by (simp add: sendOutboundMessage_def Let_def bindM_Inr [where m = "on_repo (getContactByHash h)", OF r1]
        bindM_Inr [where m = "draw_from (id_at E)", OF r2] bindM_Inr [where m = "deliver_devices P E now pt ds" for ds, OF devs(1)]
        bindM_Inr [where m = "on_repo listOwnLinkedDevices", OF r4] bindM_Inr [where m = "sync_devices P E now y ds" for y ds, OF sync(1)]
        bindM_Inr [where m = "getM own_key"] key del: deliver_devices.simps) (simp add: bindM_def emit_def)
  then show ?thesis using s3(2) tabs ready
    by (intro exI [of _ "snd (emit (MessageSent ?m) (ob2\<lparr>ao_store := s3\<rparr>))"]) (simp add: emit_def message_rows_def app_tables_def)
qed

text \<open>A store without a session for any device, of the contact or of the user.\<close>

lemma encrypt_no_session:
  assumes "sql_invar P s" "sql_sess P s (toLowerCase k) = None"
  shows "encrypt P (sql_ops P) nonce now k pt ctx s = (Inl (Error (''No active session found for '' @ k)), s)"
  using sql_gets(3) [OF assms(1), of k] assms(2) by (simp add: encrypt_def bindM_def sql_ops_def)

lemma deliver_devices_no_session:
  assumes "sql_invar P (ao_store ob)" "\<forall>d \<in> set ds. sql_sess P (ao_store ob) (toLowerCase (dr_identityPubkeyHex d)) = None"
  shows "deliver_devices P E now pt ds ob = (Inr False, ob\<lparr>ao_drawn := ao_drawn ob + length ds\<rparr>)"
  using assms
proof (induction ds arbitrary: ob)
  case (Cons d ds)
  let ?ob = "ob\<lparr>ao_drawn := Suc (ao_drawn ob)\<rparr>"
  have "deliver_device P E now pt d ob = (Inr False, ?ob)"
    using encrypt_no_session [OF Cons.prems(1)] Cons.prems(2) by (simp add: deliver_device_eq)
  then show ?case using Cons.IH [of ?ob] Cons.prems by (simp add: bindM_def)
qed simp

lemma sync_devices_no_session:
  assumes "sql_invar P (ao_store ob)" "\<forall>d \<in> set ds. sql_sess P (ao_store ob) (toLowerCase (or_identityPubkeyHex d)) = None"
  shows "sync_devices P E now y ds ob = (Inr (), ob\<lparr>ao_drawn := ao_drawn ob + length ds\<rparr>)"
  using assms
proof (induction ds arbitrary: ob)
  case (Cons d ds)
  let ?ob = "ob\<lparr>ao_drawn := Suc (ao_drawn ob)\<rparr>"
  have "sync_device P E now y d ob = (Inr (), ?ob)"
    using encrypt_no_session [OF Cons.prems(1)] Cons.prems(2) by (simp add: sync_device_eq)
  then show ?case using Cons.IH [of ?ob] Cons.prems by (simp add: bindM_def)
qed simp

text \<open>Two concrete clients: Alice with a contact that was saved but never given a session.\<close>

definition demo_contact :: contact_record where
  "demo_contact = \<lparr>cr_recipientPubkeyHash = ''c0ffee'', cr_identityPubkeyHex = ''1d'', cr_signingPubkeyHex = ''51'',
     cr_alias = Some ''Carol'', cr_createdAt = 1, cr_linkedDevices = None\<rparr>"

definition lonely_app :: orchestrator where
  "lonely_app = snd (on_repo (saveContact demo_contact) (demo_app Alice))"

lemma lonely_app_rows:
  "sql_invar model_prims (ao_store lonely_app)" "lower_contacts (ao_store lonely_app)"
  "contact_rows lonely_app = [contact_row_of demo_contact]" "own_devices lonely_app = []"
  "sql_sess model_prims (ao_store lonely_app) = Map.empty"
proof -
  note F = fresh_store [OF demo_app_fresh(1) [of Alice]]
  obtain s where s: "on_db (saveContact demo_contact) (ao_store (demo_app Alice)) = (Inr (), s)"
    "same_keys model_prims (ao_store (demo_app Alice)) s"
    "contacts (db_of (ss_db s)) = upsert c_recipient_pubkey_hash merge_contact (contact_row_of demo_contact)
        (contacts (db_of (ss_db (ao_store (demo_app Alice)))))"
    "own_linked_devices (db_of (ss_db s)) = own_linked_devices (db_of (ss_db (ao_store (demo_app Alice))))"
    using on_db_saveContact [OF F(1)] by blast
  have st: "ao_store lonely_app = s" using s(1) by (simp add: lonely_app_def on_repo_run)
  show "sql_invar model_prims (ao_store lonely_app)" "sql_sess model_prims (ao_store lonely_app) = Map.empty"
    using s(2) F(3) by (simp_all add: st same_keys_def)
  show "contact_rows lonely_app = [contact_row_of demo_contact]" "own_devices lonely_app = []"
    using s(3,4) F(7,8) by (simp_all add: contact_rows_def own_devices_def st upsert_def order_by_asc_def)
  show "lower_contacts (ao_store lonely_app)" using saved_hashes(2) [OF s(3) F(5)] by (simp add: st)
qed

lemma lonely_row: "select_key c_recipient_pubkey_hash (toLowerCase ''C0FFEE'') (contact_rows lonely_app) = Some (contact_row_of demo_contact)"
proof -
  have "toLowerCase ''C0FFEE'' = ''c0ffee''" "toLowerCase ''c0ffee'' = ''c0ffee''" by code_simp+
  then show ?thesis by (simp add: lonely_app_rows select_key_def demo_contact_def)
qed

lemma row_key: "m_id (row_of_message m) = sm_id m"
  by (simp add: row_of_message_def)

text \<open>C18. Sending to a contact always succeeds once the contact is stored: the envelopes posted are in the order of
  the contact's devices, at most one for each, then those for the user's own devices; the message is
  stored, and it is marked delivered exactly when the answer to one of the contact's envelopes says so.\<close>

theorem outbound_message:
  assumes "dm_ready (ss_db (ao_store ob))" "lower_contacts (ao_store ob)"
    and "select_key c_recipient_pubkey_hash (toLowerCase h) (contact_rows ob) = Some r"
  shows "\<exists>m ob' es ys. sendOutboundMessage P E now h pt ob = (Inr m, ob') \<and> ao_posted ob' = ao_posted ob @ es @ ys \<and>
     subseq (map oe_recipient_pubkey_hash es) (map dr_recipientPubkeyHash (target_devices (mapRowToContact r))) \<and>
     subseq (map oe_recipient_pubkey_hash ys) (map or_recipientPubkeyHash (own_devices ob)) \<and>
     (sm_deliveryStatus m = delivered \<longleftrightarrow> (\<exists>i. i < length es \<and> answered_live E (length (ao_posted ob) + i) (es ! i))) \<and>
     sm_body m = pt \<and> sm_isOutgoing m \<and> sm_contactPubkeyHash m = cr_recipientPubkeyHash (mapRowToContact r) \<and>
     message_rows ob' = upsert m_id merge_message (row_of_message m) (message_rows ob)"
proof -
  let ?ob = "ob\<lparr>ao_drawn := Suc (ao_drawn ob)\<rparr>"
  obtain live ob1 es where D: "deliver_devices P E now pt (target_devices (mapRowToContact r)) ?ob = (Inr live, ob1)"
    "ao_posted ob1 = ao_posted ob @ es"
    "subseq (map oe_recipient_pubkey_hash es) (map dr_recipientPubkeyHash (target_devices (mapRowToContact r)))"
    "live \<longleftrightarrow> (\<exists>i. i < length es \<and> answered_live E (length (ao_posted ob) + i) (es ! i))"
    "app_tables (ao_store ob) (ao_store ob1)"
    using deliver_devices_run [of P E now pt "target_devices (mapRowToContact r)" ?ob] by auto
  obtain ob2 ys where Y: "sync_devices P E now \<lparr>sy_originalRecipientHash = cr_recipientPubkeyHash (mapRowToContact r), sy_body = pt,
        sy_timestamp = now, sy_messageId = bytesToHex P (id_at E (ao_drawn ob))\<rparr> (own_devices ob) ob1 = (Inr (), ob2)"
    "ao_posted ob2 = ao_posted ob1 @ ys" "subseq (map oe_recipient_pubkey_hash ys) (map or_recipientPubkeyHash (own_devices ob))"
    "app_tables (ao_store ob1) (ao_store ob2)"
    using sync_devices_run [of P E now _ "own_devices ob" ob1] by blast
  let ?m = "outgoing_message (own_key ob) now (mapRowToContact r) (bytesToHex P (id_at E (ao_drawn ob))) pt live"
  have "sm_deliveryStatus ?m = delivered \<longleftrightarrow> live" by (simp add: outgoing_message_def)
  moreover obtain ob' where "sendOutboundMessage P E now h pt ob = (Inr ?m, ob')" "ao_posted ob' = ao_posted ob2"
    "message_rows ob' = upsert m_id merge_message (row_of_message ?m) (message_rows ob)"
    using outbound_run [OF assms D(1,5) Y(1,4)] by blast
  moreover have "sm_body ?m = pt" "sm_isOutgoing ?m" "sm_contactPubkeyHash ?m = cr_recipientPubkeyHash (mapRowToContact r)"
    by (simp_all add: outgoing_message_def)
  ultimately show ?thesis using D(2-4) Y(2,3)
    by (intro exI [of _ ?m] exI [of _ ob'] exI [of _ es] exI [of _ ys]) simp
qed

theorem outbound_message_witness:
  "\<exists>m ob' es ys. sendOutboundMessage model_prims (demo_orch_env Alice) 1 ''C0FFEE'' ''hi'' lonely_app = (Inr m, ob') \<and>
     ao_posted ob' = ao_posted lonely_app @ es @ ys \<and> sm_contactPubkeyHash m = ''c0ffee''"
proof -
  have "cr_recipientPubkeyHash (mapRowToContact (contact_row_of demo_contact)) = ''c0ffee''"
  proof -
    have "toLowerCase ''c0ffee'' = ''c0ffee''" by code_simp
    then show ?thesis by (simp add: mapRowToContact_def contact_row_of_def demo_contact_def Let_def)
  qed
  then show ?thesis
    using outbound_message [OF conjunct1 [OF sql_invar_ready [OF lonely_app_rows(1)]] lonely_app_rows(2) lonely_row,
        of model_prims "demo_orch_env Alice" 1 "''hi''"] by fastforce
qed

text \<open>A message to a contact whose devices have no session leaves the client nowhere, and neither does its copy
  for the user's own devices; the call succeeds all the same, and the message is stored and returned
  with the status sent.\<close>

theorem unsent_message_marked_sent:
  assumes "sql_invar P (ao_store ob)" "lower_contacts (ao_store ob)"
    and "select_key c_recipient_pubkey_hash (toLowerCase h) (contact_rows ob) = Some r"
    and "\<forall>d \<in> set (target_devices (mapRowToContact r)). sql_sess P (ao_store ob) (toLowerCase (dr_identityPubkeyHex d)) = None"
    and "\<forall>d \<in> set (own_devices ob). sql_sess P (ao_store ob) (toLowerCase (or_identityPubkeyHex d)) = None"
  shows "\<exists>m ob' row. sendOutboundMessage P E now h pt ob = (Inr m, ob') \<and> ao_posted ob' = ao_posted ob \<and>
     sm_deliveryStatus m = sent_st \<and> select_key m_id (sm_id m) (message_rows ob') = Some row \<and> m_delivery_status row = ''sent''"
proof -
  let ?ob = "ob\<lparr>ao_drawn := Suc (ao_drawn ob)\<rparr>" and ?ds = "target_devices (mapRowToContact r)"
  have ready: "dm_ready (ss_db (ao_store ob))" using sql_invar_ready [OF assms(1)] by blast
  let ?ob1 = "?ob\<lparr>ao_drawn := ao_drawn ?ob + length ?ds\<rparr>"
  have D: "deliver_devices P E now pt ?ds ?ob = (Inr False, ?ob1)"
    using deliver_devices_no_session [of P ?ob ?ds E now pt] assms(1,4) by simp
  let ?ob2 = "?ob1\<lparr>ao_drawn := ao_drawn ?ob1 + length (own_devices ob)\<rparr>"
  have Y: "sync_devices P E now y (own_devices ob) ?ob1 = (Inr (), ?ob2)" for y
    using sync_devices_no_session [of P ?ob1 "own_devices ob" E now y] assms(1,5) by simp
  let ?m = "outgoing_message (own_key ob) now (mapRowToContact r) (bytesToHex P (id_at E (ao_drawn ob))) pt False"
  obtain ob' where ob': "sendOutboundMessage P E now h pt ob = (Inr ?m, ob')" "ao_posted ob' = ao_posted ?ob2"
    "message_rows ob' = upsert m_id merge_message (row_of_message ?m) (message_rows ob)"
    using outbound_run [OF ready assms(2,3) D _ Y] app.refl by auto
  have "select_key m_id (sm_id ?m) (message_rows ob') =
      Some (case select_key m_id (sm_id ?m) (message_rows ob) of None \<Rightarrow> row_of_message ?m | Some r \<Rightarrow> merge_message r (row_of_message ?m))"
    unfolding ob'(3) by (simp add: messages_tab.select_upsert row_key)
  moreover have "m_delivery_status (case x of None \<Rightarrow> row_of_message ?m | Some r \<Rightarrow> merge_message r (row_of_message ?m)) = ''sent''" for x
    by (simp add: row_of_message_def outgoing_message_def merge_message_def show_status_def split: option.split)
  ultimately show ?thesis using ob'(1,2)
    by (intro exI [of _ ?m] exI [of _ ob'] exI) (auto simp: outgoing_message_def)
qed

theorem unsent_message_marked_sent_witness:
  "\<exists>m ob' row. sendOutboundMessage model_prims (demo_orch_env Alice) 1 ''C0FFEE'' ''hi'' lonely_app = (Inr m, ob') \<and>
     ao_posted ob' = ao_posted lonely_app \<and> sm_deliveryStatus m = sent_st \<and>
     select_key m_id (sm_id m) (message_rows ob') = Some row \<and> m_delivery_status row = ''sent''"
  by (rule unsent_message_marked_sent [OF lonely_app_rows(1,2) lonely_row]) (simp_all add: lonely_app_rows)

subsection \<open>What a handler leaves behind when it fails\<close>

text \<open>A call that may fail: \<open>R\<close> relates the states when it throws, \<open>Q\<close> when it returns.\<close>

definition outcome :: "('s \<Rightarrow> 's \<Rightarrow> bool) \<Rightarrow> ('a \<Rightarrow> 's \<Rightarrow> 's \<Rightarrow> bool) \<Rightarrow> ('s, 'a) M \<Rightarrow> bool" where
  "outcome R Q m \<longleftrightarrow> (\<forall>s. case m s of (Inl e, s') \<Rightarrow> R s s' | (Inr a, s') \<Rightarrow> Q a s s')"

context frame
begin

lemma outcome_after:
  assumes "keeps R m" "\<And>a. outcome R Q (f a)" "\<And>a s t u. R s t \<Longrightarrow> Q a t u \<Longrightarrow> Q a s u"
  shows "outcome R Q (bindM m f)"
  unfolding outcome_def
proof
  fix s
  obtain x t where m: "m s = (x, t)" by fastforce
  have st: "R s t" using assms(1) m unfolding keeps_def by (metis snd_conv)
  show "case bindM m f s of (Inl e, s') \<Rightarrow> R s s' | (Inr a, s') \<Rightarrow> Q a s s'"
  proof (cases x)
    case (Inl e)
    then show ?thesis using m st by (simp add: bindM_def)
  next
    case (Inr a)
    obtain y u where f: "f a t = (y, u)" by fastforce
    have "case y of Inl e \<Rightarrow> R t u | Inr b \<Rightarrow> Q b t u"
      using assms(2) [of a] f unfolding outcome_def by (cases y) (auto dest: spec [of _ t])
    then show ?thesis using m f Inr st assms(3) trans by (cases y) (auto simp: bindM_def)
  qed
qed

end

definition kept :: "sql_store \<Rightarrow> sql_store \<Rightarrow> bool" where
  "kept s s' \<longleftrightarrow> (dm_ready (ss_db s) \<longrightarrow> dm_ready (ss_db s') \<and> messages (db_of (ss_db s')) = messages (db_of (ss_db s)) \<and>
     stored_hashes s \<subseteq> stored_hashes s')"

interpretation kept: frame kept
  by unfold_locales (auto simp: kept_def)

definition kept_app :: "orchestrator \<Rightarrow> orchestrator \<Rightarrow> bool" where
  "kept_app ob ob' \<longleftrightarrow> kept (ao_store ob) (ao_store ob') \<and> ao_posted ob' = ao_posted ob \<and> ao_registered ob' = ao_registered ob"

interpretation kept_app: frame kept_app
  by unfold_locales (auto simp: kept_app_def intro: kept.refl kept.trans)

lemma app_kept: "keeps app_tables m \<Longrightarrow> keeps kept m"
  by (auto simp: keeps_def app_tables_def kept_def stored_hashes_def)

lemma kept_reads:
  "keeps kept (on_db (getContactByHash h))" "keeps kept (on_db (getContactByIdentityKey h))" "keeps kept (on_db listContacts)"
  by (auto simp: keeps_def kept_def on_db_def getContactByHash_def getContactByIdentityKey_def listContacts_def bindM_def
      queryOne_ready query_ready split: prod.splits sum.splits)

lemma kept_saveContact: "keeps kept (on_db (saveContact c))"
proof -
  have "kept s (snd (on_db (saveContact c) s))" for s
  proof (cases "dm_ready (ss_db s)")
    case True
    let ?d' = "(db_of (ss_db s))\<lparr>contacts := upsert c_recipient_pubkey_hash merge_contact (contact_row_of c) (contacts (db_of (ss_db s)))\<rparr>"
    have run: "saveContact c (ss_db s) = (Inr (), (ss_db s)\<lparr>dm_driver := Some ?d'\<rparr>)"
      using True by (simp add: saveContact_def execute_modify contact_row_of_def Let_def)
    then show ?thesis
      using saveContact_keeps [OF True, of c] on_db_run [of "saveContact c" s, OF run]
      by (auto simp: kept_def stored_hashes_def upserted_hashes)
  qed (simp add: kept_def)
  then show ?thesis by (simp add: keeps_def)
qed

lemma kept_app_calls:
  "keeps kept m \<Longrightarrow> keeps kept_app (on_store m)" "keeps kept_app (draw_from f)" "keeps kept_app (emit e)"
  by (auto simp: keeps_def kept_app_def on_store_def draw_from_def emit_def kept.refl split: prod.splits) (metis snd_conv)

lemma first_with_session_kept: "keeps kept (first_with_session cs)"
proof (induction cs)
  case Nil
  show ?case unfolding first_with_session.simps by (rule kept.pure)
next
  case (Cons c cs)
  then show ?case unfolding first_with_session.simps
    by (intro kept.bind kept.choice kept.pure app_kept [OF sql_ops_keep(9)])
qed

lemma resolve_sender_kept: "keeps kept (resolve_sender alias now v)"
  unfolding resolve_sender_def Let_def
  by (intro kept.choice kept.bind kept.pure kept.cases_option kept_reads kept_saveContact first_with_session_kept)

lemma read_sync_kept: "keeps kept (read_sync now h i raw)"
proof -
  have "keeps kept (ensure_synced_contact now ho)" for ho
    unfolding ensure_synced_contact_def
    by (intro kept.cases_option kept.bind kept.pure kept_reads kept_saveContact)
  then show ?thesis
    unfolding read_sync_def Let_def
    by (cases "JSON_parse raw") (simp_all add: kept.pure kept.bind kept.attempt)
qed

text \<open>The row of a message that was accepted is inserted, or merged into the row with its id.\<close>

definition stored_in :: "stored_message \<Rightarrow> orchestrator \<Rightarrow> orchestrator \<Rightarrow> bool" where
  "stored_in m ob ob' \<longleftrightarrow> ao_posted ob' = ao_posted ob \<and> (dm_ready (ss_db (ao_store ob)) \<longrightarrow>
     message_rows ob' = upsert m_id merge_message (row_of_message m) (message_rows ob) \<and>
     stored_hashes (ao_store ob) \<subseteq> stored_hashes (ao_store ob'))"

lemma stored_after: "kept_app ob t \<Longrightarrow> stored_in m t u \<Longrightarrow> stored_in m ob u"
  by (auto simp: kept_app_def kept_def stored_in_def message_rows_def)

lemma save_and_emit: "outcome kept_app stored_in (bindM (on_repo (saveMessage m)) (\<lambda>_. bindM (emit e) (\<lambda>_. ret m)))"
  unfolding outcome_def
proof
  fix ob
  have run: "dm_ready (ss_db s) \<Longrightarrow> (\<exists>s'. on_db (saveMessage m) s = (Inr (), s') \<and> stored_hashes s' = stored_hashes s \<and>
       messages (db_of (ss_db s')) = upsert m_id merge_message (row_of_message m) (messages (db_of (ss_db s)))) \<or>
       (\<exists>e. on_db (saveMessage m) s = (Inl e, s))" for s
  proof -
    assume ready: "dm_ready (ss_db s)"
    let ?db = "ss_db s"
    let ?d' = "(db_of ?db)\<lparr>messages := upsert m_id merge_message (row_of_message m) (messages (db_of ?db))\<rparr>"
    let ?ok = "sm_id m \<in> m_id ` set (messages (db_of ?db)) \<or>
           toLowerCase (sm_contactPubkeyHash m) \<in> c_recipient_pubkey_hash ` set (contacts (db_of ?db))"
    have "foreign_keys (db_of ?db)" using db_ok_fk [OF dm_ready_db_ok [OF ready]] by simp
    then have "saveMessage m ?db = (if ?ok then (Inr (), ?db\<lparr>dm_driver := Some ?d'\<rparr>) else (Inl LibError, ?db))"
      using ready by (auto simp: saveMessage_def execute_stmt Let_def row_of_message_def dm_same)
    then show ?thesis
      using on_db_run [of "saveMessage m" s "Inr ()" "?db\<lparr>dm_driver := Some ?d'\<rparr>"] on_db_run [of "saveMessage m" s "Inl LibError" ?db]
      by (cases ?ok) (auto simp: stored_hashes_def)
  qed
  show "case bindM (on_repo (saveMessage m)) (\<lambda>_. bindM (emit e) (\<lambda>_. ret m)) ob of
      (Inl e, ob') \<Rightarrow> kept_app ob ob' | (Inr a, ob') \<Rightarrow> stored_in a ob ob'"
    using run [of "ao_store ob"]
    by (cases "on_db (saveMessage m) (ao_store ob)")
      (auto simp: bindM_def on_repo_def on_store_def emit_def kept_app_def kept_def stored_in_def message_rows_def split: sum.splits)
qed

lemma accept_outcome: "outcome kept_app stored_in (accept_message P E now payload v k c)"
  unfolding accept_message_def
  by (intro kept_app.outcome_after kept_app_calls kept_app.pure app_kept [OF decrypt_keeps] read_sync_kept save_and_emit)
    (erule (1) stored_after)+

lemma process_outcome: "outcome kept_app stored_in (process_incoming P E now payload)"
proof -
  have stop: "outcome kept_app stored_in (throwM e)" for e
    by (simp add: outcome_def kept_app.refl)
  have step: "outcome kept_app stored_in (case so of None \<Rightarrow> throwM e | Some (k, c) \<Rightarrow>
      if k = [] then throwM e else accept_message P E now payload v k c)" for so e v
    using stop accept_outcome by (auto split: option.split)
  show ?thesis
    unfolding process_incoming_def
    by (intro kept_app.outcome_after kept_app_calls kept_app.pure resolve_sender_kept step) (erule (1) stored_after)+
qed

lemma handler_result:
  "(case process_incoming P E now payload ob of
      (Inl e, ob1) \<Rightarrow> handleIncomingMessage P E now payload ob = (Inr None, snd (emit (ErrorReported e) ob1))
    | (Inr m, ob1) \<Rightarrow> handleIncomingMessage P E now payload ob = (Inr (Some m), ob1))"
  by (auto simp: handleIncomingMessage_def tryM_def bindM_def emit_def split: prod.split sum.split)

text \<open>The rows of the messages once the handler has returned one.\<close>

lemma handled_rows:
  assumes "dm_ready (ss_db (ao_store ob))" "handleIncomingMessage P E now payload ob = (Inr (Some m), ob')"
  shows "message_rows ob' = upsert m_id merge_message (row_of_message m) (message_rows ob)" "ao_posted ob' = ao_posted ob"
proof -
  obtain r ob1 where run: "process_incoming P E now payload ob = (r, ob1)" by fastforce
  then have "r = Inr m \<and> ob1 = ob'" using handler_result [of P E now payload ob] assms(2) by (cases r) auto
  then show "message_rows ob' = upsert m_id merge_message (row_of_message m) (message_rows ob)" "ao_posted ob' = ao_posted ob"
    using process_outcome [of P E now payload, unfolded outcome_def, rule_format, of ob, unfolded run] assms(1)
    by (auto simp: stored_in_def)
qed

text \<open>C19. Handling an incoming message never throws and posts nothing. Either one message is stored and
  returned, or no message is stored and the error callback, when there is one, is told.\<close>

theorem incoming_all_or_nothing:
  assumes "dm_ready (ss_db (ao_store ob))"
  shows "case handleIncomingMessage P E now payload ob of
      (Inl e, ob') \<Rightarrow> False
    | (Inr None, ob') \<Rightarrow> message_rows ob' = message_rows ob \<and> ao_posted ob' = ao_posted ob \<and>
        (KError \<in> ao_registered ob \<longrightarrow> (\<exists>e. ErrorReported e \<in> set (ao_events ob')))
    | (Inr (Some m), ob') \<Rightarrow> message_rows ob' = upsert m_id merge_message (row_of_message m) (message_rows ob) \<and>
        ao_posted ob' = ao_posted ob"
proof -
  obtain r ob1 where run: "process_incoming P E now payload ob = (r, ob1)" by fastforce
  note out = process_outcome [of P E now payload, unfolded outcome_def, rule_format, of ob, unfolded run]
  show ?thesis
  proof (cases r)
    case (Inl e)
    then have "kept_app ob ob1" using out by simp
    then show ?thesis using handler_result [of P E now payload ob] run Inl assms
      by (auto simp: kept_app_def kept_def message_rows_def emit_def)
  next
    case (Inr m)
    then show ?thesis using handler_result [of P E now payload ob] run out assms by (simp add: stored_in_def)
  qed
qed

theorem incoming_all_or_nothing_witness:
  "case handleIncomingMessage model_prims (demo_orch_env Alice) 1 \<lparr>ip_encrypted_payload = ''{}'', ip_nonce = [], ip_created_at = None\<rparr> lonely_app of
      (Inl e, ob') \<Rightarrow> False
    | (Inr None, ob') \<Rightarrow> message_rows ob' = message_rows lonely_app \<and> ao_posted ob' = ao_posted lonely_app \<and>
        (KError \<in> ao_registered lonely_app \<longrightarrow> (\<exists>e. ErrorReported e \<in> set (ao_events ob')))
    | (Inr (Some m), ob') \<Rightarrow> message_rows ob' = upsert m_id merge_message (row_of_message m) (message_rows lonely_app) \<and>
        ao_posted ob' = ao_posted lonely_app"
  by (rule incoming_all_or_nothing [OF conjunct1 [OF sql_invar_ready [OF lonely_app_rows(1)]]])

text \<open>C40. Whoever can post to the mailbox adds contacts: an envelope that names an unknown identity key
  leaves a contact behind, whose mailbox is that key, whether or not the rest of it can be decrypted.\<close>

theorem stranger_becomes_contact:
  assumes "sql_invar P (ao_store ob)" "lower_contacts (ao_store ob)"
    and "JSON_parse (ip_encrypted_payload payload) = Inr v" "jprop v ''initialIdentityKeyHex'' = Inr (Some (JStr k))" "k \<noteq> []"
    and "select_key c_identity_pubkey_hex (toLowerCase k) (contact_rows ob) = None"
  shows "toLowerCase k \<in> stored_hashes (ao_store (snd (handleIncomingMessage P E now payload ob)))"
proof -
  let ?c = "unknown_contact ''Unknown Contact'' (toLowerCase k) now"
  obtain s1 where s1: "resolve_sender ''Unknown Contact'' now v (ao_store ob) = (Inr (Some (toLowerCase k, ?c)), s1)"
    "same_keys P (ao_store ob) s1" "toLowerCase (cr_recipientPubkeyHash ?c) \<in> stored_hashes s1"
    using resolve_named [OF assms(1,2,4,5), of "''Unknown Contact''" now] assms(6) by (auto simp: contact_rows_def)
  let ?ob = "ob\<lparr>ao_store := s1\<rparr>"
  have ready: "dm_ready (ss_db s1)" using s1(2) sql_invar_ready by (auto simp: same_keys_def)
  have "toLowerCase k \<in> stored_hashes s1" using s1(3) by (simp add: unknown_contact_def)
  moreover obtain r ob1 where run: "accept_message P E now payload v (toLowerCase k) ?c ?ob = (r, ob1)" by fastforce
  moreover have "stored_hashes s1 \<subseteq> stored_hashes (ao_store ob1)"
    using accept_outcome [of P E now payload v "toLowerCase k" ?c, unfolded outcome_def, rule_format, of ?ob, unfolded run] ready
    by (cases r) (simp_all add: kept_app_def kept_def stored_in_def)
  moreover have "process_incoming P E now payload ob = (r, ob1)"
    using s1(1) assms(3,5) run by (simp add: process_incoming_def bindM_def on_store_def)
  ultimately show ?thesis using handler_result [of P E now payload ob] by (cases r) (auto simp: emit_def)
qed

definition stranger_payload :: incoming_payload where
  "stranger_payload = \<lparr>ip_encrypted_payload = JSON_stringify (JObj [(''initialIdentityKeyHex'', JStr ''ABBA'')]), ip_nonce = [],
     ip_created_at = None\<rparr>"

theorem stranger_becomes_contact_witness:
  "toLowerCase ''ABBA'' \<in> stored_hashes (ao_store (snd (handleIncomingMessage model_prims (demo_orch_env Alice) 1 stranger_payload lonely_app)))"
proof (rule stranger_becomes_contact [OF lonely_app_rows(1,2)])
  show "JSON_parse (ip_encrypted_payload stranger_payload) = Inr (JObj [(''initialIdentityKeyHex'', JStr ''ABBA'')])"
    unfolding stranger_payload_def by simp (rule JSON_parse_stringify, simp)
  show "jprop (JObj [(''initialIdentityKeyHex'', JStr ''ABBA'')]) ''initialIdentityKeyHex'' = Inr (Some (JStr ''ABBA''))"
    by (simp add: jprop_def obj_get_def)
  have "toLowerCase ''ABBA'' = ''abba''" "toLowerCase ''1d'' = ''1d''" by code_simp+
  then show "select_key c_identity_pubkey_hex (toLowerCase ''ABBA'') (contact_rows lonely_app) = None"
    by (simp add: lonely_app_rows select_key_def contact_row_of_def demo_contact_def)
qed simp

end
