(* ===== verification/Arrivals.thy ===== *)
theory Arrivals
  imports Orch_Properties
begin

section \<open>What an arriving message leaves in the database\<close>

text \<open>
  The engine's channel, the conversation of two clients and the database of the receiver put together: which row a message
  that is still in flight adds to the table of messages when \<open>handleIncomingMessage\<close> of
  \<open>client/src/orchestrator/AppOrchestrator.ts\<close> gets it.
\<close>

text \<open>C1. End to end: Alice has imported Bob's contact URI, and both have sent, received and lost messages in any order. A
  message in flight whose text is not of the self-sync format is handled without error when it is delivered to its
  receiver: exactly one row is added to the table of messages, an incoming message with exactly the text that was sent and
  the identity key of the other side as its sender. The delivery has to be one the protocol covers, as all before it: when
  the receiver has a session, at most \<open>MAX_SKIP_MESSAGES\<close> messages are passed over; when he has none yet, the message names the
  one-time pre-key of the bundle, as only the first message does (or there was none), and its number is at most
  \<open>MAX_SKIP_MESSAGES\<close>. The other hypotheses are the laws of the primitives, new clients, and that the random secrets and the
  random id are new.\<close>

theorem conversation_arrives:
  assumes "ratchet_laws P" "sign_correct P" "\<forall>d. wf_identity P (u d)" "\<forall>d. fresh_app (u d) (begins d)"
    and "chat P E u begins c" "(msg, pt) \<in> set (cs_net c d)" "ordinary_text pt"
    and "case sql_sess P (ao_store (cs_apps c d)) (identity_key (u (other d))) of
        Some ses \<Rightarrow> within_gap ses msg
      | None \<Rightarrow> em_oneTimePreKeyId msg = cs_offered c \<and> em_sequenceNumber msg \<le> MAX_SKIP_MESSAGES"
    and "ip_encrypted_payload payload = JSON_stringify (json_of_encrypted msg)"
    and "fresh_secret P (cs_used c) (secret_at (E d) (ao_drawn (cs_apps c d)))"
      "fresh_secret P (insert (bytesToHex P (boxPublic P (secret_at (E d) (ao_drawn (cs_apps c d))))) (cs_used c))
          (secret_at (E d) (ao_drawn (cs_apps c d) + 1))"
    and "bytesToHex P (id_at (E d) (ao_drawn (cs_apps c d) + 2)) \<notin> m_id ` set (message_rows (cs_apps c d))"
  shows "\<exists>m ob'. handleIncomingMessage P (E d) now payload (cs_apps c d) = (Inr (Some m), ob') \<and>
     sm_body m = pt \<and> \<not> sm_isOutgoing m \<and> sm_senderIdentityHex m = identity_key (u (other d)) \<and>
     message_rows ob' = message_rows (cs_apps c d) @ [row_of_message m] \<and> ao_posted ob' = ao_posted (cs_apps c d)"
proof -
  let ?ob = "cs_apps c d" and ?k = "identity_key (u (other d))"
  have inv: "chat_inv P u c" using chat_reaches [OF assms(1-5)] .
  then have si: "sql_invar P (ao_store ?ob)" by (rule chat_store)
  have "toLowerCase ?k = ?k" using identity_key_hex ratchet_lawsD [OF assms(1)] assms(3) by blast
  then have D: "deliverable (sql_ops P) ?k (cs_offered c) msg (ao_store ?ob)"
    using assms(8) sql.session_of_sess [OF si, of ?k] by (simp add: deliverable_def)
  obtain F1 F2 where net: "cs_net c d = F1 @ (msg, pt) # F2" using split_list [OF assms(6)] by blast
  obtain r ob' where run: "handleIncomingMessage P (E d) now payload ?ob = (r, ob')" by fastforce
  obtain m where m: "r = Inr (Some m)" "sm_body m = pt" "\<not> sm_isOutgoing m" "sm_senderIdentityHex m = ?k"
    "sm_id m = bytesToHex P (id_at (E d) (ao_drawn ?ob + 2))"
    using chat_deliver(2) [where E = E and d = d and u = u and c = c, OF assms(1) inv spec [OF assms(3)] net D assms(9) run assms(10,11)] received_ordinary [OF assms(7)]
    by fastforce
  have "message_rows ob' = upsert m_id merge_message (row_of_message m) (message_rows ?ob)" "ao_posted ob' = ao_posted ?ob"
    using handled_rows [OF conjunct1 [OF sql_invar_ready [OF si]]] run m(1) by blast+
  moreover have "upsert m_id merge_message (row_of_message m) (message_rows ?ob) = message_rows ?ob @ [row_of_message m]"
    using assms(12) m(5) by (force simp: upsert_def list_ex_iff row_of_message_def)
  ultimately show ?thesis using run m by auto
qed

text \<open>On the concrete parameters: the first message.\<close>

theorem conversation_arrives_witness:
  "\<exists>c msg m ob'. chat model_prims demo_orch_env demo_identity demo_app c \<and> (msg, ''hi'') \<in> set (cs_net c Bob) \<and>
     handleIncomingMessage model_prims (demo_orch_env Bob) 4
       \<lparr>ip_encrypted_payload = JSON_stringify (json_of_encrypted msg), ip_nonce = [], ip_created_at = None\<rparr> (cs_apps c Bob)
       = (Inr (Some m), ob') \<and> sm_body m = ''hi'' \<and> message_rows ob' = message_rows (cs_apps c Bob) @ [row_of_message m]"
proof -
  obtain c msg b1 bdl where c: "chat model_prims demo_orch_env demo_identity demo_app c" "cs_net c Bob = [(msg, ''hi'')]"
    "cs_apps c Bob = b1" "ao_drawn b1 = ao_drawn (demo_app Bob)"
    "cs_used c = {bytesToHex model_prims (boxPublic model_prims (replicate 32 4)), bytesToHex model_prims (boxPublic model_prims (replicate 32 3))}"
    "deliverable (sql_ops model_prims) (identity_key (demo_identity Alice)) (cs_offered c) msg (ao_store b1)"
    "on_store (generatePreKeyBundle model_prims (sql_ops model_prims) (replicate 32 3) 9 (\<lambda>i. (replicate 32 2, int i)) 1 1)
       (demo_app Bob) = (Inr bdl, b1)"
    using demo_flight [OF demo_sendable] by (elim exE conjE) (rule that; assumption)
  let ?ob = "cs_apps c Bob"
  have rows: "message_rows ?ob = []"
  proof -
    obtain db where db: "ao_store (demo_app Bob) = new_SqliteSignalStore (demo_identity Bob) db" "dm_ready db"
      "same_rows (empty_database\<lparr>foreign_keys := True\<rparr>) (db_of db)"
      using demo_app_fresh(1) unfolding fresh_app_def by blast
    have "app_tables (ao_store (demo_app Bob)) (ao_store b1)"
      using app.after [OF generatePreKeyBundle_keeps conjunct1 [OF on_store_inv [OF c(7)]]] .
    then show ?thesis using db unfolding c(3)
      by (simp add: app_tables_def message_rows_def new_SqliteSignalStore_def same_rows_def empty_database_def)
  qed
  have low: "toLowerCase (identity_key (demo_identity Alice)) = identity_key (demo_identity Alice)"
    using identity_key_hex [OF model_hex_codec model_dh_agreement demo_identity_wf] by blast
  have si: "sql_invar model_prims (ao_store ?ob)"
    by (rule chat_store [OF chat_reaches [OF model_ratchet_laws model_sign_correct demo_inputs(1,2) c(1)]])
  have gap: "case sql_sess model_prims (ao_store ?ob) (identity_key (demo_identity (other Bob))) of Some ses \<Rightarrow> within_gap ses msg
      | None \<Rightarrow> em_oneTimePreKeyId msg = cs_offered c \<and> em_sequenceNumber msg \<le> MAX_SKIP_MESSAGES"
    using c(6) sql.session_of_sess [OF si, of "identity_key (demo_identity Alice)"] low c(3) by (simp add: deliverable_def)
  have "(msg, ''hi'') \<in> set (cs_net c Bob)" by (simp add: c(2))
  from conversation_arrives [OF model_ratchet_laws model_sign_correct demo_inputs(1,2) c(1) this demo_ordinary gap,
      of "\<lparr>ip_encrypted_payload = JSON_stringify (json_of_encrypted msg), ip_nonce = [], ip_created_at = None\<rparr>" 4]
  obtain m ob' where "handleIncomingMessage model_prims (demo_orch_env Bob) 4
      \<lparr>ip_encrypted_payload = JSON_stringify (json_of_encrypted msg), ip_nonce = [], ip_created_at = None\<rparr> ?ob = (Inr (Some m), ob')"
    "sm_body m = ''hi''" "message_rows ob' = message_rows ?ob @ [row_of_message m]"
    using demo_inputs(9,10) rows unfolding c(3-5) by auto
  then show ?thesis using c(1,2)
    by (intro exI [of _ c] exI [of _ msg] exI [of _ m] exI [of _ ob']) simp
qed

end
