(* ===== verification/Device_Link.thy ===== *)
theory Device_Link
  imports Contact_Exchange
begin

section \<open>Linking a device\<close>

text \<open>
  \<open>client/src/devices/DeviceLinkManager.ts\<close>: the pairing QR code of a new device, and the envelope
  in which the first device sends it the account. Secrets, nonces and times are arguments; the HTTP
  client is the function \<open>send\<close> from an envelope to what its request settles to. A member that the
  reader of a QR code does not check may be missing, and stays missing in what is made of it.
\<close>

definition DEVICE_LINK_URI_SCHEME :: string where
  "DEVICE_LINK_URI_SCHEME = ''tore2ee://link''"

record link_payload =
  lp_version :: "int option"
  lp_ephemeralPubkeyHex :: hex
  lp_ephemeralMailboxHash :: hex
  lp_deviceName :: "string option"

definition json_of_link :: "link_payload \<Rightarrow> json" where
  "json_of_link p = JObj (opt_member ''version'' JNum (lp_version p)
     @ [(''ephemeralPubkeyHex'', JStr (lp_ephemeralPubkeyHex p)), (''ephemeralMailboxHash'', JStr (lp_ephemeralMailboxHash p))]
     @ opt_member ''deviceName'' JStr (lp_deviceName p))"

definition link_of_json :: "json \<Rightarrow> link_payload res" where
  "link_of_json v =
     bindR (jget_opt as_int v ''version'') (\<lambda>n. bindR (jget as_str v ''ephemeralPubkeyHex'') (\<lambda>k.
     bindR (jget as_str v ''ephemeralMailboxHash'') (\<lambda>h. bindR (jget_opt as_str v ''deviceName'') (\<lambda>d.
     Inr \<lparr>lp_version = n, lp_ephemeralPubkeyHex = k, lp_ephemeralMailboxHash = h, lp_deviceName = d\<rparr>))))"

subsection \<open>The pairing code\<close>

record link_qr =
  lq_qrUri :: string
  lq_ephemeralKeyPair :: keypair
  lq_ephemeralMailboxHash :: hex

definition generateLinkQrPayload :: "prims \<Rightarrow> bytes \<Rightarrow> string option \<Rightarrow> link_qr" where
  "generateLinkQrPayload P secret deviceName =
     (let kp = generateCurve25519KeyPair P secret;
          mailbox = bytesToHex P (sha256 P (publicKey kp));
          name = (case deviceName of None \<Rightarrow> ''Desktop Client'' | Some d \<Rightarrow> d);
          payload = \<lparr>lp_version = Some 1, lp_ephemeralPubkeyHex = publicKeyHex kp, lp_ephemeralMailboxHash = mailbox,
                     lp_deviceName = Some name\<rparr> in
      \<lparr>lq_qrUri = link_uri DEVICE_LINK_URI_SCHEME (json_of_link payload), lq_ephemeralKeyPair = kp,
       lq_ephemeralMailboxHash = mailbox\<rparr>)"

definition parseLinkQrUri :: "string \<Rightarrow> link_payload res" where
  "parseLinkQrUri uri =
     bindR (link_data DEVICE_LINK_URI_SCHEME ''Invalid device link URI: missing parameter \"d\"'' uri) (\<lambda>d.
     case link_json d of
       Inl _ \<Rightarrow> Inl (Error ''Failed to parse device link QR code'')
     | Inr v \<Rightarrow>
         if \<not> has_member v ''ephemeralPubkeyHex'' \<or> \<not> has_member v ''ephemeralMailboxHash''
         then Inl (Error ''Failed to parse device link QR code'')
         else link_of_json v)"

subsection \<open>The provisioning envelope\<close>

record provisioning_payload =
  pr_masterMnemonic :: string
  pr_deviceId :: int
  pr_deviceName :: "string option"
  pr_masterRecipientPubkeyHash :: hex
  pr_timestamp :: int

definition json_of_provisioning :: "provisioning_payload \<Rightarrow> json" where
  "json_of_provisioning p = JObj ([(''masterMnemonic'', JStr (pr_masterMnemonic p)), (''deviceId'', JNum (pr_deviceId p))]
     @ opt_member ''deviceName'' JStr (pr_deviceName p)
     @ [(''masterRecipientPubkeyHash'', JStr (pr_masterRecipientPubkeyHash p)), (''timestamp'', JNum (pr_timestamp p))])"

record slave_record =
  sl_deviceId :: int
  sl_deviceName :: "string option"
  sl_recipientPubkeyHash :: hex
  sl_identityPubkeyHex :: hex
  sl_createdAt :: int

definition provisioning_data :: "identity \<Rightarrow> int \<Rightarrow> link_payload \<Rightarrow> int \<Rightarrow> provisioning_payload" where
  "provisioning_data u deviceId qr now =
     \<lparr>pr_masterMnemonic = mnemonic u, pr_deviceId = deviceId, pr_deviceName = lp_deviceName qr,
      pr_masterRecipientPubkeyHash = recipientPubkeyHash u, pr_timestamp = now\<rparr>"

definition json_of_sealed :: "hex \<Rightarrow> bytes \<Rightarrow> json" where
  "json_of_sealed masterEphemeralPkHex encryptedBox =
     JObj [(''masterEphemeralPkHex'', JStr masterEphemeralPkHex), (''encryptedData'', JStr (b64_encode encryptedBox))]"

definition provisioning_envelope ::
  "prims \<Rightarrow> bytes \<Rightarrow> bytes \<Rightarrow> link_payload \<Rightarrow> provisioning_payload \<Rightarrow> outgoing_envelope res" where
  "provisioning_envelope P masterSecret nonce qr p =
     bindR (hexToBytes P (lp_ephemeralPubkeyHex qr)) (\<lambda>slaveEphemeralPk.
     bindR (box_seal P (text_encode (JSON_stringify (json_of_provisioning p))) nonce slaveEphemeralPk masterSecret) (\<lambda>encryptedBox.
     Inr \<lparr>oe_recipient_pubkey_hash = lp_ephemeralMailboxHash qr,
          oe_encrypted_payload = JSON_stringify (json_of_sealed (bytesToHex P (boxPublic P masterSecret)) encryptedBox),
          oe_nonce = bytesToHex P nonce\<rparr>))"

text \<open>The record of the new device, and the envelopes that were handed to the HTTP client.\<close>

definition provisionSlaveDevice ::
  "prims \<Rightarrow> bytes \<Rightarrow> bytes \<Rightarrow> int \<Rightarrow> int \<Rightarrow> (outgoing_envelope \<Rightarrow> http_response res) \<Rightarrow> string \<Rightarrow> identity \<Rightarrow> int
     \<Rightarrow> slave_record res \<times> outgoing_envelope list" where
  "provisionSlaveDevice P masterSecret nonce now later send qrUri u deviceId =
     (case bindR (parseLinkQrUri qrUri) (\<lambda>qr.
             bindR (provisioning_envelope P masterSecret nonce qr (provisioning_data u deviceId qr now)) (\<lambda>e. Inr (qr, e))) of
        Inl x \<Rightarrow> (Inl x, [])
      | Inr (qr, e) \<Rightarrow>
          (bindR (sendMessage_result (send e)) (\<lambda>_.
             Inr \<lparr>sl_deviceId = deviceId, sl_deviceName = lp_deviceName qr, sl_recipientPubkeyHash = lp_ephemeralMailboxHash qr,
                  sl_identityPubkeyHex = lp_ephemeralPubkeyHex qr, sl_createdAt = later\<rparr>), [e]))"

definition decryptProvisioningPayload :: "prims \<Rightarrow> string \<Rightarrow> hex \<Rightarrow> bytes \<Rightarrow> json res" where
  "decryptProvisioningPayload P envelopePayload nonceHex slaveSecretKey =
     bindR (JSON_parse envelopePayload) (\<lambda>parsed.
     bindR (jget as_str parsed ''masterEphemeralPkHex'') (\<lambda>pkHex. bindR (hexToBytes P pkHex) (\<lambda>masterEphemeralPk.
     bindR (jget as_str parsed ''encryptedData'') (\<lambda>d.
     bindR (hexToBytes P nonceHex) (\<lambda>nonce.
     bindR (box_open P (b64_decode d) nonce masterEphemeralPk slaveSecretKey) (\<lambda>ro.
     case ro of None \<Rightarrow> Inl (Error ''Failed to decrypt provisioning payload: MAC check failed'')
     | Some decryptedBytes \<Rightarrow> JSON_parse (text_decode decryptedBytes)))))))"

subsection \<open>What a pairing achieves\<close>

lemma link_reads_back:
  "link_of_json (json_of_link p) = Inr p" "wf_json (json_of_link p)"
  "has_member (json_of_link p) ''ephemeralPubkeyHex'' \<longleftrightarrow> lp_ephemeralPubkeyHex p \<noteq> []"
  "has_member (json_of_link p) ''ephemeralMailboxHash'' \<longleftrightarrow> lp_ephemeralMailboxHash p \<noteq> []"
  by (simp_all add: link_of_json_def json_of_link_def opt_member_def has_member_def split: option.split)

lemma link_qr_read:
  assumes "lp_ephemeralPubkeyHex p \<noteq> []" "lp_ephemeralMailboxHash p \<noteq> []" "wf_text (lp_ephemeralPubkeyHex p)"
    and "wf_text (lp_ephemeralMailboxHash p)" "\<forall>d. lp_deviceName p = Some d \<longrightarrow> wf_text d"
  shows "parseLinkQrUri (link_uri DEVICE_LINK_URI_SCHEME (json_of_link p)) = Inr p"
proof -
  have enc: "wf_text (JSON_stringify (json_of_link p))"
    using assms(3-5) by (intro wf_text_stringify)
      (auto simp: json_of_link_def opt_member_def wf_text_punct code_def simp del: wf_text.simps(2) split: option.split)
  have scheme: "DEVICE_LINK_URI_SCHEME \<noteq> []" "CHR ''?'' \<notin> set DEVICE_LINK_URI_SCHEME" "\<not> is_space (hd DEVICE_LINK_URI_SCHEME)"
    by (simp_all add: DEVICE_LINK_URI_SCHEME_def is_space_def code_def)
  obtain ms where obj: "json_of_link p = JObj ms" by (simp add: json_of_link_def)
  obtain d where "link_data DEVICE_LINK_URI_SCHEME ''Invalid device link URI: missing parameter \"d\"''
      (link_uri DEVICE_LINK_URI_SCHEME (json_of_link p)) = Inr d" "link_json d = Inr (json_of_link p)"
    using link_uri_read [OF scheme link_reads_back(2) enc obj] by blast
  then show ?thesis using assms(1,2) by (simp add: parseLinkQrUri_def link_reads_back)
qed

lemma open_sealed:
  assumes "hex_codec P" "box_correct P" "length nonce = 24" "length masterSecret = 32" "length secret = 32"
    and "lp_ephemeralPubkeyHex qr = bytesToHex P (boxPublic P secret)" "wf_text (JSON_stringify (json_of_provisioning p))"
  shows "\<exists>e. provisioning_envelope P masterSecret nonce qr p = Inr e \<and> oe_recipient_pubkey_hash e = lp_ephemeralMailboxHash qr \<and>
     decryptProvisioningPayload P (oe_encrypted_payload e) (oe_nonce e) secret = Inr (json_of_provisioning p)"
proof -
  let ?m = "text_encode (JSON_stringify (json_of_provisioning p))"
  obtain c where c: "box_seal P ?m nonce (boxPublic P secret) masterSecret = Inr c"
    "box_open P c nonce (boxPublic P masterSecret) secret = Inr (Some ?m)"
    using assms(2-5) unfolding box_correct_def by blast
  let ?v = "json_of_sealed (bytesToHex P (boxPublic P masterSecret)) c"
  have v: "JSON_parse (JSON_stringify ?v) = Inr ?v" by (rule JSON_parse_stringify) (simp add: json_of_sealed_def)
  have "take 3 (JSON_stringify (json_of_provisioning p)) \<noteq> bom"
    by (simp add: JSON_stringify_def json_of_provisioning_def bom_def)
  then have decoded: "text_decode ?m = JSON_stringify (json_of_provisioning p)" by (intro text_decode_encode assms(7))
  have "JSON_parse (JSON_stringify (json_of_provisioning p)) = Inr (json_of_provisioning p)"
    by (rule JSON_parse_stringify) (simp add: json_of_provisioning_def opt_member_def split: option.split)
  then show ?thesis
    using c v decoded assms(1,6)
    by (simp add: provisioning_envelope_def decryptProvisioningPayload_def prim_laws) (simp add: json_of_sealed_def prim_laws)
qed

text \<open>C30. Pairing: the code a new device shows is read by the first device, which then posts exactly one
  envelope, to the mailbox of the code, and records that device; what the new device decrypts from the
  envelope with its secret is the account's mnemonic and mailbox with the name it had chosen.\<close>

theorem device_provisioned:
  assumes "hex_codec P" "dh_agreement P" "box_correct P" "length secret = 32" "length masterSecret = 32" "length nonce = 24"
    and "wf_text name" "wf_text (mnemonic u)" "wf_text (recipientPubkeyHash u)" "sha256 P (boxPublic P secret) \<noteq> []"
    and "\<And>e. sendMessage_result (send e) = Inr resp"
  shows "\<exists>e. provisionSlaveDevice P masterSecret nonce now later send (lq_qrUri (generateLinkQrPayload P secret (Some name))) u deviceId =
      (Inr \<lparr>sl_deviceId = deviceId, sl_deviceName = Some name,
            sl_recipientPubkeyHash = lq_ephemeralMailboxHash (generateLinkQrPayload P secret (Some name)),
            sl_identityPubkeyHex = publicKeyHex (lq_ephemeralKeyPair (generateLinkQrPayload P secret (Some name))), sl_createdAt = later\<rparr>, [e]) \<and>
     oe_recipient_pubkey_hash e = lq_ephemeralMailboxHash (generateLinkQrPayload P secret (Some name)) \<and>
     decryptProvisioningPayload P (oe_encrypted_payload e) (oe_nonce e)
       (secretKey (lq_ephemeralKeyPair (generateLinkQrPayload P secret (Some name)))) =
       Inr (json_of_provisioning \<lparr>pr_masterMnemonic = mnemonic u, pr_deviceId = deviceId, pr_deviceName = Some name,
         pr_masterRecipientPubkeyHash = recipientPubkeyHash u, pr_timestamp = now\<rparr>)"
proof -
  define qr where "qr = \<lparr>lp_version = Some 1, lp_ephemeralPubkeyHex = bytesToHex P (boxPublic P secret),
    lp_ephemeralMailboxHash = bytesToHex P (sha256 P (boxPublic P secret)), lp_deviceName = Some name\<rparr>"
  have gen: "generateLinkQrPayload P secret (Some name) = \<lparr>lq_qrUri = link_uri DEVICE_LINK_URI_SCHEME (json_of_link qr),
      lq_ephemeralKeyPair = generateCurve25519KeyPair P secret, lq_ephemeralMailboxHash = lp_ephemeralMailboxHash qr\<rparr>"
    by (simp add: generateLinkQrPayload_def generateCurve25519KeyPair_def qr_def Let_def)
  have "boxPublic P secret \<noteq> []" using assms(2,4) by (auto simp: dh_agreement_def)
  then have read: "parseLinkQrUri (link_uri DEVICE_LINK_URI_SCHEME (json_of_link qr)) = Inr qr"
    using assms(1,7,10) by (intro link_qr_read) (simp_all add: qr_def prim_laws wf_text_hex)
  let ?p = "provisioning_data u deviceId qr now"
  have "wf_text (JSON_stringify (json_of_provisioning ?p))"
    using assms(7-9) by (intro wf_text_stringify)
      (simp add: provisioning_data_def qr_def json_of_provisioning_def opt_member_def wf_text_punct code_def del: wf_text.simps(2))
  then obtain e where "provisioning_envelope P masterSecret nonce qr ?p = Inr e"
    "oe_recipient_pubkey_hash e = lp_ephemeralMailboxHash qr"
    "decryptProvisioningPayload P (oe_encrypted_payload e) (oe_nonce e) secret = Inr (json_of_provisioning ?p)"
    using open_sealed [of P nonce masterSecret secret qr ?p] assms(1,3-6) by (auto simp: qr_def)
  then show ?thesis
    unfolding gen using read assms(11) by (simp add: provisionSlaveDevice_def generateCurve25519KeyPair_def provisioning_data_def)
      (simp add: qr_def)
qed

definition relay_ok :: http_response where
  "relay_ok = \<lparr>hr_status = 200, hr_statusText = ''OK'', hr_headers = [], hr_body = ''{}''\<rparr>"

theorem device_provisioned_witness:
  "\<exists>e. provisionSlaveDevice model_prims (replicate 32 7) (replicate 24 1) 5 6 (\<lambda>_. Inr relay_ok)
        (lq_qrUri (generateLinkQrPayload model_prims (replicate 32 9) (Some ''PC''))) (demo_identity Alice) 2 =
      (Inr \<lparr>sl_deviceId = 2, sl_deviceName = Some ''PC'',
            sl_recipientPubkeyHash = lq_ephemeralMailboxHash (generateLinkQrPayload model_prims (replicate 32 9) (Some ''PC'')),
            sl_identityPubkeyHex = publicKeyHex (lq_ephemeralKeyPair (generateLinkQrPayload model_prims (replicate 32 9) (Some ''PC''))),
            sl_createdAt = 6\<rparr>, [e]) \<and>
     oe_recipient_pubkey_hash e = lq_ephemeralMailboxHash (generateLinkQrPayload model_prims (replicate 32 9) (Some ''PC'')) \<and>
     decryptProvisioningPayload model_prims (oe_encrypted_payload e) (oe_nonce e)
       (secretKey (lq_ephemeralKeyPair (generateLinkQrPayload model_prims (replicate 32 9) (Some ''PC'')))) =
       Inr (json_of_provisioning \<lparr>pr_masterMnemonic = mnemonic (demo_identity Alice), pr_deviceId = 2, pr_deviceName = Some ''PC'',
         pr_masterRecipientPubkeyHash = recipientPubkeyHash (demo_identity Alice), pr_timestamp = 5\<rparr>)"
proof (rule device_provisioned)
  show "sendMessage_result (Inr relay_ok) = Inr (JObj [])" by code_simp
  show "wf_text ''PC''" by (simp add: wf_text_punct code_def del: wf_text.simps(2))
  show "wf_text (mnemonic (demo_identity Alice))" by (simp add: demo_identity_def)
  show "wf_text (recipientPubkeyHash (demo_identity Alice))"
    by (simp add: demo_identity_def wf_text_hex [OF model_hex_codec])
  show "sha256 model_prims (boxPublic model_prims (replicate 32 9)) \<noteq> []"
    by (simp add: model_prims_def fit_def)
qed (simp_all add: model_prims_laws)

end
