(* ===== verification/Notifications.thy ===== *)
theory Notifications
  imports Crypto_Types
begin

section \<open>Notifications\<close>

text \<open>
  \<open>client/src/notifications/NotificationManager.ts\<close>: the driver keeps the notifications it displayed in
  a map and hands them to \<open>notifee\<close> when that module is there. What \<open>notifee\<close> is given is recorded in
  \<open>nd_shown\<close>; whether its promise is kept is the argument \<open>settles\<close>. An id that the driver makes up from the
  time and \<open>Math.random\<close> is the argument \<open>fresh\<close>.
\<close>

definition DEFAULT_CHANNEL_ID :: string where
  "DEFAULT_CHANNEL_ID = ''tore2ee_messages''"

record notif_options =
  no_title :: string
  no_body :: string
  no_contactPubkeyHash :: "string option"
  no_messageId :: "string option"
  no_privacyMode :: bool

record channel_config =
  ch_id :: string
  ch_name :: string
  ch_importance :: int
  ch_vibration :: bool

record shown_notification =
  sh_id :: string
  sh_title :: string
  sh_body :: string
  sh_contactPubkeyHash :: string
  sh_messageId :: string

record notif_driver =
  nd_notifications :: "(string \<times> notif_options) list"
  nd_notifee :: bool
  nd_channels :: "channel_config list"
  nd_shown :: "shown_notification list"

definition new_DefaultNotificationDriver :: "bool \<Rightarrow> notif_driver" where
  "new_DefaultNotificationDriver notifee =
     \<lparr>nd_notifications = [], nd_notifee = notifee, nd_channels = [], nd_shown = []\<rparr>"

definition createChannel :: "unit res \<Rightarrow> channel_config \<Rightarrow> (notif_driver, unit) M" where
  "createChannel settles config d =
     (if nd_notifee d then (settles, d\<lparr>nd_channels := nd_channels d @ [config]\<rparr>) else (Inr (), d))"

text \<open>The generic texts of the privacy mode, in UTF-8.\<close>

definition private_title :: string where
  "private_title = ''TorE2EE Messenger''"

definition private_body :: string where
  "private_body = ''M'' @ [CHR 0xC3, CHR 0xA1] @ ''te novou '' @ [CHR 0xC5, CHR 0xA1] @ ''ifrovanou zpr'' @ [CHR 0xC3, CHR 0xA1]
     @ ''vu p'' @ [CHR 0xC5, CHR 0x99] @ ''es Tor.''"

definition displayNotification :: "unit res \<Rightarrow> string \<Rightarrow> notif_options \<Rightarrow> (notif_driver, string) M" where
  "displayNotification settles fresh options d =
     (let i = (if truthy (no_messageId options) then the (no_messageId options) else fresh);
          d1 = d\<lparr>nd_notifications := AList.update i options (nd_notifications d)\<rparr> in
      if nd_notifee d1 then
        (case settles of Inl e \<Rightarrow> Inl e | Inr _ \<Rightarrow> Inr i,
         d1\<lparr>nd_shown := nd_shown d1 @
           [\<lparr>sh_id = i, sh_title = (if no_privacyMode options then private_title else no_title options),
             sh_body = (if no_privacyMode options then private_body else no_body options),
             sh_contactPubkeyHash = (if truthy (no_contactPubkeyHash options) then the (no_contactPubkeyHash options) else []),
             sh_messageId = (if truthy (no_messageId options) then the (no_messageId options) else [])\<rparr>]\<rparr>)
      else (Inr i, d1))"

definition driver_cancelNotification :: "unit res \<Rightarrow> string \<Rightarrow> (notif_driver, unit) M" where
  "driver_cancelNotification settles i d =
     (if nd_notifee d then settles else Inr (), d\<lparr>nd_notifications := AList.delete i (nd_notifications d)\<rparr>)"

definition driver_cancelAll :: "unit res \<Rightarrow> (notif_driver, unit) M" where
  "driver_cancelAll settles d = (if nd_notifee d then settles else Inr (), d\<lparr>nd_notifications := []\<rparr>)"

definition getDisplayedNotifications :: "notif_driver \<Rightarrow> notif_options list" where
  "getDisplayedNotifications d = map snd (nd_notifications d)"

subsection \<open>The manager\<close>

record notif_manager =
  nm_driver :: notif_driver
  nm_isInitialized :: bool

definition new_NotificationManager :: "bool \<Rightarrow> notif_driver option \<Rightarrow> notif_manager" where
  "new_NotificationManager notifee driver =
     \<lparr>nm_driver = (case driver of Some d \<Rightarrow> d | None \<Rightarrow> new_DefaultNotificationDriver notifee), nm_isInitialized = False\<rparr>"

text \<open>The static field \<open>instance\<close> is the last argument; the manager returned is its new value.\<close>

definition notif_getInstance :: "bool \<Rightarrow> notif_driver option \<Rightarrow> notif_manager option \<Rightarrow> notif_manager" where
  "notif_getInstance notifee driver inst =
     (case inst of None \<Rightarrow> new_NotificationManager notifee driver
      | Some m \<Rightarrow> (case driver of Some d \<Rightarrow> m\<lparr>nm_driver := d\<rparr> | None \<Rightarrow> m))"

definition on_notif :: "(notif_driver, 'a) M \<Rightarrow> (notif_manager, 'a) M" where
  "on_notif m nm = (let (r, d') = m (nm_driver nm) in (r, nm\<lparr>nm_driver := d'\<rparr>))"

definition message_channel :: channel_config where
  "message_channel = \<lparr>ch_id = DEFAULT_CHANNEL_ID, ch_name = ''TorE2EE Zpr'' @ [CHR 0xC3, CHR 0xA1] @ ''vy'', ch_importance = 4,
     ch_vibration = True\<rparr>"

definition notif_initialize :: "unit res \<Rightarrow> (notif_manager, unit) M" where
  "notif_initialize settles nm =
     (if nm_isInitialized nm then (Inr (), nm)
      else bindM (on_notif (createChannel settles message_channel)) (\<lambda>_. modifyM (\<lambda>nm. nm\<lparr>nm_isInitialized := True\<rparr>)) nm)"

definition displayMessageNotification ::
  "unit res \<Rightarrow> unit res \<Rightarrow> string \<Rightarrow> string \<Rightarrow> string \<Rightarrow> string option \<Rightarrow> bool \<Rightarrow> (notif_manager, string) M" where
  "displayMessageNotification channel settles fresh senderAlias messageBody contactPubkeyHash privacyMode =
     bindM (notif_initialize channel) (\<lambda>_.
     on_notif (displayNotification settles fresh
       \<lparr>no_title = senderAlias, no_body = messageBody, no_contactPubkeyHash = contactPubkeyHash, no_messageId = None,
        no_privacyMode = privacyMode\<rparr>))"

definition cancelNotification :: "unit res \<Rightarrow> string \<Rightarrow> (notif_manager, unit) M" where
  "cancelNotification settles i = on_notif (driver_cancelNotification settles i)"

definition cancelAll :: "unit res \<Rightarrow> (notif_manager, unit) M" where
  "cancelAll settles = on_notif (driver_cancelAll settles)"

text \<open>What the screen shows in privacy mode does not depend on the message or on who sent it, and the
  manager asks for its channel at most once.\<close>

lemma private_display:
  "nd_shown (nm_driver (snd (displayMessageNotification c r i alias1 body1 h True nm))) =
   nd_shown (nm_driver (snd (displayMessageNotification c r i alias2 body2 h True nm)))"
  by (simp add: displayMessageNotification_def notif_initialize_def displayNotification_def createChannel_def on_notif_def
      bindM_def Let_def split: prod.split sum.split)

lemma initialized_once:
  "notif_initialize r nm = (Inr (), nm') \<Longrightarrow> notif_initialize r' nm' = (Inr (), nm')"
  by (auto simp: notif_initialize_def bindM_def split: if_splits prod.splits sum.splits)

end
