(* ===== verification/Background_Sync.thy ===== *)
theory Background_Sync
  imports Orch_Properties Notifications
begin

section \<open>Background synchronisation\<close>

text \<open>
  \<open>client/src/background/BackgroundSyncService.ts\<close> and \<open>BackgroundSyncTask.ts\<close>: the headless run that
  opens its own database and stream, takes the queued messages and closes everything again.

  The promise the run waits for is settled by callbacks of the stream and by the drain timer, so this
  part is a step function over events; a run that never settles has no result. Timers are numbered;
  \<open>dr_live\<close> holds those that neither fired nor were cleared. Each callback runs to its end before the
  next event.
\<close>

datatype sync_status = NEW_DATA | NO_DATA | FAILED_SYNC | SKIPPED_NO_IDENTITY

record sync_config =
  sc_torConfig :: "partial_config option"
  sc_databaseConfig :: "(string option \<times> bool option) option"
  sc_bootstrapTimeoutMs :: "int option"
  sc_drainTimeoutMs :: "int option"
  sc_privacyMode :: "bool option"

record sync_result =
  sr_status :: sync_status
  sr_messagesReceived :: nat
  sr_durationMs :: int
  sr_error :: "string option"

text \<open>What the environment answers: random bytes by a counter, whether \<open>notifee\<close> is there, the outcome
  of the native Tor module or \<open>None\<close> when it is missing, whether it was slower than the timeout.\<close>

record sync_env =
  se_secret_at :: "nat \<Rightarrow> bytes"
  se_id_at :: "nat \<Rightarrow> bytes"
  se_notif_id_at :: "nat \<Rightarrow> string"
  se_channel :: "unit res"
  se_settles :: "unit res"
  se_notifee :: bool
  se_native :: "unit res option"
  se_slow :: bool
  se_start :: int
  se_end :: int
  se_key_drawn :: bytes
  se_key_fallback :: bytes
  se_ws :: ws_env

subsection \<open>One envelope\<close>

record mailbox =
  mb_store :: sql_store
  mb_notif :: notif_manager
  mb_drawn :: nat

definition mb_on_store :: "(sql_store, 'a) M \<Rightarrow> (mailbox, 'a) M" where
  "mb_on_store m mb = (let (r, s') = m (mb_store mb) in (r, mb\<lparr>mb_store := s'\<rparr>))"

definition mb_draw :: "(nat \<Rightarrow> 'a) \<Rightarrow> (mailbox, 'a) M" where
  "mb_draw f mb = (Inr (f (mb_drawn mb)), mb\<lparr>mb_drawn := mb_drawn mb + 1\<rparr>)"

definition mb_notify :: "(notif_manager, 'a) M \<Rightarrow> (mailbox, 'a) M" where
  "mb_notify m mb = (let (r, n') = m (mb_notif mb) in (r, mb\<lparr>mb_notif := n'\<rparr>))"

definition unknown_alias :: string where
  "unknown_alias = ''Nezn'' @ [CHR 0xC3, CHR 0xA1] @ ''m'' @ [CHR 0xC3, CHR 0xBD] @ '' kontakt''"

definition background_message :: "hex \<Rightarrow> hex \<Rightarrow> int \<Rightarrow> hex \<Rightarrow> string \<Rightarrow> string \<Rightarrow> stored_message" where
  "background_message sender own ts target i plaintext =
     \<lparr>sm_id = i, sm_contactPubkeyHash = target, sm_senderIdentityHex = sender, sm_recipientIdentityHex = own,
      sm_body = plaintext, sm_timestamp = ts, sm_isOutgoing = False, sm_isRead = False, sm_deliveryStatus = delivered\<rparr>"

definition accept_envelope ::
  "prims \<Rightarrow> sync_env \<Rightarrow> int \<Rightarrow> hex \<Rightarrow> bool \<Rightarrow> incoming_payload \<Rightarrow> json \<Rightarrow> hex \<Rightarrow> contact_record \<Rightarrow> (mailbox, stored_message) M" where
  "accept_envelope P E now localIdentityKeyHex privacyMode payload v senderIdentityHex contact =
     bindM (mb_draw (se_secret_at E)) (\<lambda>bobSecret. bindM (mb_draw (se_secret_at E)) (\<lambda>ratchetSecret.
     bindM (liftM (encrypted_of_json v)) (\<lambda>encryptedMsg.
     bindM (mb_on_store (decrypt P (sql_ops P) bobSecret ratchetSecret now senderIdentityHex encryptedMsg)) (\<lambda>plaintext.
     bindM (mb_draw (se_id_at E)) (\<lambda>rid.
     let storedMsg = background_message senderIdentityHex localIdentityKeyHex (timestamp_of now payload)
           (cr_recipientPubkeyHash contact) (bytesToHex P rid) plaintext in
     bindM (mb_on_store (on_db (saveMessage storedMsg))) (\<lambda>_.
     bindM (mb_draw (se_notif_id_at E)) (\<lambda>notifId.
     bindM (mb_notify (displayMessageNotification (se_channel E) (se_settles E) notifId
         (if truthy (cr_alias contact) then the (cr_alias contact) else ''TorE2EE Kontakt'') plaintext
         (Some (cr_recipientPubkeyHash contact)) privacyMode)) (\<lambda>_. ret storedMsg))))))))"

definition processIncomingEnvelope ::
  "prims \<Rightarrow> sync_env \<Rightarrow> int \<Rightarrow> hex \<Rightarrow> bool \<Rightarrow> incoming_payload \<Rightarrow> (mailbox, stored_message) M" where
  "processIncomingEnvelope P E now localIdentityKeyHex privacyMode payload =
     bindM (liftM (JSON_parse (ip_encrypted_payload payload))) (\<lambda>v.
     bindM (mb_on_store (resolve_sender unknown_alias now v)) (\<lambda>so.
     case so of None \<Rightarrow> throwM (Error ''Sender identity cannot be resolved'')
     | Some (senderIdentityHex, contact) \<Rightarrow>
       if senderIdentityHex = [] then throwM (Error ''Sender identity cannot be resolved'')
       else accept_envelope P E now localIdentityKeyHex privacyMode payload v senderIdentityHex contact))"

subsection \<open>The drain\<close>

record drain =
  dr_ws :: ws_client
  dr_mailbox :: mailbox
  dr_timer :: "nat option"
  dr_live :: "nat list"
  dr_next :: nat
  dr_result :: "unit res option"
  dr_count :: nat

datatype sync_event = Net ws_event | DrainFires nat

definition clear_drain :: "drain \<Rightarrow> drain" where
  "clear_drain d = (case dr_timer d of None \<Rightarrow> d | Some i \<Rightarrow> d\<lparr>dr_live := removeAll i (dr_live d)\<rparr>)"

definition arm_drain :: "drain \<Rightarrow> drain" where
  "arm_drain d = d\<lparr>dr_timer := Some (dr_next d), dr_live := dr_next d # dr_live d, dr_next := dr_next d + 1\<rparr>"

definition settle_drain :: "unit res \<Rightarrow> drain \<Rightarrow> drain" where
  "settle_drain r d = d\<lparr>dr_result := (case dr_result d of None \<Rightarrow> Some r | Some r0 \<Rightarrow> Some r0)\<rparr>"

definition cleanupAndFinish :: "drain \<Rightarrow> drain" where
  "cleanupAndFinish d = settle_drain (Inr ()) (clear_drain d)"

text \<open>The callbacks given to the WebSocket client; \<open>onStateChange\<close> is not given. An error of the
  socket, of the handshake or reported by the relay ends the run with a failure.\<close>

fun on_sync_callback :: "prims \<Rightarrow> sync_env \<Rightarrow> int \<Rightarrow> hex \<Rightarrow> bool \<Rightarrow> ws_callback \<Rightarrow> drain \<Rightarrow> drain" where
  "on_sync_callback P E now own privacy (OnAuthenticated h) d = arm_drain d"
| "on_sync_callback P E now own privacy (OnMessage p n t) d =
     (case payload_of_callback p n t of None \<Rightarrow> d
      | Some payload \<Rightarrow>
          (case processIncomingEnvelope P E now own privacy payload (dr_mailbox d) of
             (Inl _, mb) \<Rightarrow> d\<lparr>dr_mailbox := mb\<rparr>
           | (Inr _, mb) \<Rightarrow>
               let d1 = d\<lparr>dr_mailbox := mb, dr_count := dr_count d + 1\<rparr> in
               if dr_timer d1 = None then d1 else arm_drain (clear_drain d1)))"
| "on_sync_callback P E now own privacy (OnWsError e) d = settle_drain (Inl e) (clear_drain d)"
| "on_sync_callback P E now own privacy (OnDisconnect reason) d = cleanupAndFinish d"
| "on_sync_callback P E now own privacy (OnStateChange st) d = d"

fun drain_step :: "prims \<Rightarrow> sync_env \<Rightarrow> int \<Rightarrow> hex \<Rightarrow> bool \<Rightarrow> sync_event \<Rightarrow> drain \<Rightarrow> drain" where
  "drain_step P E now own privacy (Net ev) d =
     (let w = ws_step P (se_ws E) ev (dr_ws d) in
      fold (on_sync_callback P E now own privacy) (drop (length (ws_log (dr_ws d))) (ws_log w)) (d\<lparr>dr_ws := w\<rparr>))"
| "drain_step P E now own privacy (DrainFires i) d =
     (if i \<in> set (dr_live d) then cleanupAndFinish (d\<lparr>dr_live := removeAll i (dr_live d)\<rparr>) else d)"

primrec drain_run :: "prims \<Rightarrow> sync_env \<Rightarrow> int \<Rightarrow> hex \<Rightarrow> bool \<Rightarrow> sync_event list \<Rightarrow> drain \<Rightarrow> drain" where
  "drain_run P E now own privacy [] d = d"
| "drain_run P E now own privacy (e # es) d =
     (if dr_result d \<noteq> None then d else drain_run P E now own privacy es (drain_step P E now own privacy e d))"

definition new_drain :: "tor_config \<Rightarrow> identity \<Rightarrow> mailbox \<Rightarrow> drain" where
  "new_drain cfg u mb =
     \<lparr>dr_ws = new_TorWebSocketClient cfg u, dr_mailbox = mb, dr_timer = None, dr_live = [], dr_next = 0, dr_result = None,
      dr_count = 0\<rparr>"

subsection \<open>A run\<close>

definition KEYCHAIN_DEFAULT_SERVICE :: string where
  "KEYCHAIN_DEFAULT_SERVICE = ''tore2ee.identity.keys''"

text \<open>The static fields the service shares with the rest of the process, and the keychain.\<close>

record 'k sync_world =
  sw_isRunning :: bool
  sw_tor :: "tor_manager option"
  sw_notif :: "notif_manager option"
  sw_keychain :: 'k

definition sync_tor_config :: "sync_config option \<Rightarrow> tor_config" where
  "sync_tor_config co = default_config (case co of None \<Rightarrow> no_config
      | Some c \<Rightarrow> (case sc_torConfig c of None \<Rightarrow> no_config | Some pc \<Rightarrow> pc))"

definition whole_config :: "tor_config \<Rightarrow> partial_config" where
  "whole_config cfg = \<lparr>pc_socksProxyHost = Some (socksProxyHost cfg), pc_socksProxyPort = Some (socksProxyPort cfg),
     pc_targetHost = Some (targetHost cfg), pc_targetPort = Some (targetPort cfg), pc_devMode = Some (devMode cfg)\<rparr>"

definition sync_database :: "sync_config option \<Rightarrow> identity \<Rightarrow> db_manager" where
  "sync_database co u =
     (case (case co of None \<Rightarrow> None | Some c \<Rightarrow> sc_databaseConfig c) of
        Some (name, mem) \<Rightarrow> new_DatabaseManager name mem
      | None \<Rightarrow> new_DatabaseManager (Some (''tore2ee_'' @ take 8 (recipientPubkeyHash u) @ ''.db'')) None)"

definition bootstrap_timeout :: "sync_config option \<Rightarrow> int" where
  "bootstrap_timeout co =
     (case (case co of None \<Rightarrow> None | Some c \<Rightarrow> sc_bootstrapTimeoutMs c) of None \<Rightarrow> 20000 | Some t \<Rightarrow> t)"

definition privacy_mode :: "sync_config option \<Rightarrow> bool" where
  "privacy_mode co = (case (case co of None \<Rightarrow> None | Some c \<Rightarrow> sc_privacyMode c) of None \<Rightarrow> False | Some b \<Rightarrow> b)"

definition dev_mode :: "sync_config option \<Rightarrow> bool" where
  "dev_mode co = (case (case co of None \<Rightarrow> None | Some c \<Rightarrow> sc_torConfig c) of
     None \<Rightarrow> False | Some pc \<Rightarrow> (case pc_devMode pc of None \<Rightarrow> False | Some b \<Rightarrow> b))"

text \<open>The race of \<open>startTor\<close> with the timeout; a slow start goes on in the background.\<close>

definition race_tor :: "sync_env \<Rightarrow> sync_config option \<Rightarrow> tor_manager \<Rightarrow> unit res \<times> tor_manager" where
  "race_tor E co m =
     (if se_slow E \<and> tm_status m \<noteq> READY \<and> \<not> devMode (tm_config m) \<and> se_native E \<noteq> None
      then (Inl (Error (''Tor bootstrap timed out after '' @ show_int (bootstrap_timeout co) @ ''ms'')),
            m\<lparr>tm_status := BOOTSTRAPPING, tm_native := True\<rparr>)
      else (case startTor (se_native E) m of ((r, _), m') \<Rightarrow> (case r of Inl e \<Rightarrow> Inl e | Inr _ \<Rightarrow> Inr (), m')))"

text \<open>Steps 1 to 3, up to the stream: what they leave, and the drain the stream starts with.\<close>

record 'k sync_phase =
  ph_world :: "'k sync_world"
  ph_torUsed :: bool
  ph_outcome :: "drain option res"

definition prepare_sync ::
  "prims \<Rightarrow> bip39_ops \<Rightarrow> 'k keychain_ops option \<Rightarrow> (string \<Rightarrow> hex option \<Rightarrow> database res) \<Rightarrow> sync_env \<Rightarrow> sync_config option
     \<Rightarrow> 'k sync_world \<Rightarrow> 'k sync_phase" where
  "prepare_sync P B kc open_file E co w =
     (case loadIdentityFromKeychain P B kc KEYCHAIN_DEFAULT_SERVICE (sw_keychain w) of
        (Inl e, k) \<Rightarrow> \<lparr>ph_world = w\<lparr>sw_keychain := k\<rparr>, ph_torUsed = False, ph_outcome = Inl e\<rparr>
      | (Inr None, k) \<Rightarrow> \<lparr>ph_world = w\<lparr>sw_keychain := k\<rparr>, ph_torUsed = False, ph_outcome = Inr None\<rparr>
      | (Inr (Some u), k) \<Rightarrow>
        (case initialize P open_file kc (se_key_drawn E) (se_key_fallback E) (se_start E) (sync_database co u, k) of
           (Inl e, (_, k')) \<Rightarrow> \<lparr>ph_world = w\<lparr>sw_keychain := k'\<rparr>, ph_torUsed = False, ph_outcome = Inl e\<rparr>
         | (Inr _, (db, k')) \<Rightarrow>
           (case notif_initialize (se_channel E) (notif_getInstance (se_notifee E) None (sw_notif w)) of
              (Inl e, n) \<Rightarrow> \<lparr>ph_world = w\<lparr>sw_keychain := k', sw_notif := Some n\<rparr>, ph_torUsed = False, ph_outcome = Inl e\<rparr>
            | (Inr _, n) \<Rightarrow>
              (case race_tor E co (getInstance (Some (whole_config (sync_tor_config co))) (sw_tor w)) of
                 (r, m) \<Rightarrow>
                   \<lparr>ph_world = w\<lparr>sw_keychain := k', sw_notif := Some n, sw_tor := Some m\<rparr>, ph_torUsed = True,
                    ph_outcome = bindR r (\<lambda>_. Inr (Some (new_drain (sync_tor_config co) u
                       \<lparr>mb_store = new_SqliteSignalStore u db, mb_notif = n, mb_drawn = 0\<rparr>)))\<rparr>))))"

text \<open>The \<open>finally\<close> block on the static fields; the database and the stream are the run's own.\<close>

definition finish_sync :: "sync_config option \<Rightarrow> bool \<Rightarrow> 'k sync_world \<Rightarrow> 'k sync_world" where
  "finish_sync co torUsed w =
     w\<lparr>sw_tor := (if torUsed \<and> \<not> dev_mode co then map_option stopTor (sw_tor w) else sw_tor w), sw_isRunning := False\<rparr>"

definition in_progress :: sync_result where
  "in_progress = \<lparr>sr_status = NO_DATA, sr_messagesReceived = 0, sr_durationMs = 0,
     sr_error = Some ''Background sync is already in progress''\<rparr>"

definition sync_report :: "sync_env \<Rightarrow> sync_status \<Rightarrow> nat \<Rightarrow> string option \<Rightarrow> sync_result" where
  "sync_report E status n er =
     \<lparr>sr_status = status, sr_messagesReceived = n, sr_durationMs = se_end E - se_start E, sr_error = er\<rparr>"

text \<open>After step 4: a promise that was not settled leaves the run waiting.\<close>

definition conclude_drain ::
  "sync_env \<Rightarrow> sync_config option \<Rightarrow> bool \<Rightarrow> drain \<Rightarrow> 'k sync_world \<Rightarrow> sync_result option \<times> 'k sync_world" where
  "conclude_drain E co torUsed d w =
     (let w1 = w\<lparr>sw_notif := Some (mb_notif (dr_mailbox d))\<rparr> in
      case dr_result d of
        None \<Rightarrow> (None, w1)
      | Some (Inr _) \<Rightarrow>
          (Some (sync_report E (if 0 < dr_count d then NEW_DATA else NO_DATA) (dr_count d) None), finish_sync co torUsed w1)
      | Some (Inl e) \<Rightarrow>
          (Some (sync_report E FAILED_SYNC (dr_count d) (Some (exn_message e))), finish_sync co torUsed w1))"

definition executeSync ::
  "prims \<Rightarrow> bip39_ops \<Rightarrow> 'k keychain_ops option \<Rightarrow> (string \<Rightarrow> hex option \<Rightarrow> database res) \<Rightarrow> sync_env \<Rightarrow> int \<Rightarrow> sync_event list
     \<Rightarrow> sync_config option \<Rightarrow> 'k sync_world \<Rightarrow> sync_result option \<times> 'k sync_world" where
  "executeSync P B kc open_file E now events co w =
     (if sw_isRunning w then (Some in_progress, w)
      else
        let ph = prepare_sync P B kc open_file E co (w\<lparr>sw_isRunning := True\<rparr>) in
        case ph_outcome ph of
          Inl e \<Rightarrow> (Some (sync_report E FAILED_SYNC 0 (Some (exn_message e))), finish_sync co (ph_torUsed ph) (ph_world ph))
        | Inr None \<Rightarrow> (Some (sync_report E SKIPPED_NO_IDENTITY 0 None), finish_sync co (ph_torUsed ph) (ph_world ph))
        | Inr (Some d0) \<Rightarrow>
            conclude_drain E co (ph_torUsed ph)
              (drain_run P E now (publicKeyHex (encryptionKey (ws_identity (dr_ws d0)))) (privacy_mode co)
                 (Net Connect # events) d0) (ph_world ph))"

subsection \<open>The task of the operating system\<close>

datatype fetch_result = FETCH_RESULT_NEW_DATA | FETCH_RESULT_NO_DATA | FETCH_RESULT_FAILED

text \<open>The calls of \<open>BackgroundFetch.finish\<close>; a sync that has not ended yet has made none.\<close>

definition headless_finish :: "bool \<Rightarrow> string \<Rightarrow> sync_result option \<Rightarrow> (string \<times> fetch_result option) list" where
  "headless_finish present taskId ro =
     (case ro of None \<Rightarrow> []
      | Some r \<Rightarrow> if present then [(taskId, Some (case sr_status r of NEW_DATA \<Rightarrow> FETCH_RESULT_NEW_DATA
            | FAILED_SYNC \<Rightarrow> FETCH_RESULT_FAILED | _ \<Rightarrow> FETCH_RESULT_NO_DATA))] else [])"

definition backgroundFetchHeadlessTask ::
  "bool \<Rightarrow> string \<Rightarrow> bool \<Rightarrow> ('k sync_world \<Rightarrow> sync_result option \<times> 'k sync_world) \<Rightarrow> 'k sync_world
     \<Rightarrow> (string \<times> fetch_result option) list \<times> 'k sync_world" where
  "backgroundFetchHeadlessTask present taskId timeout run w =
     (if timeout then (if present then [(taskId, None)] else [], w)
      else (case run w of (ro, w') \<Rightarrow> (headless_finish present taskId ro, w')))"

text \<open>The module is missing, or its two registration calls settle together.\<close>

definition registerBackgroundSync :: "unit res option \<Rightarrow> bool" where
  "registerBackgroundSync calls = (case calls of Some (Inr _) \<Rightarrow> True | _ \<Rightarrow> False)"

end
