(* ===== verification/Sync_Properties.thy ===== *)
theory Sync_Properties
  imports Background_Sync
begin

section \<open>When a background run ends, and what it stores\<close>

text \<open>
  The drain timer of \<open>BackgroundSyncService.ts\<close> as an invariant, the runs that end and the one that does
  not, and the comparison of its handler with that of the orchestrator.
\<close>

subsection \<open>The drain timer\<close>

text \<open>While the run waits, the timer it armed last is still running.\<close>

definition drain_armed :: "drain \<Rightarrow> bool" where
  "drain_armed d \<longleftrightarrow> (dr_result d = None \<longrightarrow> (\<forall>i. dr_timer d = Some i \<longrightarrow> i \<in> set (dr_live d)))"

lemma callback_armed: "drain_armed d \<Longrightarrow> drain_armed (on_sync_callback P E now own privacy c d)"
  by (cases c) (auto simp: drain_armed_def arm_drain_def settle_drain_def cleanupAndFinish_def clear_drain_def Let_def
      split: option.splits prod.splits sum.splits)

lemma callbacks_armed: "drain_armed d \<Longrightarrow> drain_armed (fold (on_sync_callback P E now own privacy) cs d)"
  by (induction cs arbitrary: d) (simp_all add: callback_armed)

lemma step_armed: "drain_armed d \<Longrightarrow> drain_armed (drain_step P E now own privacy e d)"
proof (cases e)
  case (Net ev)
  assume "drain_armed d"
  then have "drain_armed (d\<lparr>dr_ws := ws_step P (se_ws E) ev (dr_ws d)\<rparr>)" by (simp add: drain_armed_def)
  then show ?thesis by (simp add: Net Let_def callbacks_armed)
next
  case (DrainFires i)
  assume "drain_armed d"
  then show ?thesis
    by (auto simp: DrainFires drain_armed_def cleanupAndFinish_def settle_drain_def clear_drain_def split: option.splits)
qed

lemma run_armed: "drain_armed d \<Longrightarrow> drain_armed (drain_run P E now own privacy es d)"
  by (induction es arbitrary: d) (simp_all add: step_armed del: drain_step.simps)

lemma drain_run_append:
  "drain_run P E now own privacy (es @ fs) d = drain_run P E now own privacy fs (drain_run P E now own privacy es d)"
proof (induction es arbitrary: d)
  case (Cons e es)
  have "dr_result d \<noteq> None \<Longrightarrow> drain_run P E now own privacy fs d = d" for d by (cases fs) simp_all
  then show ?case using Cons.IH by simp
qed simp

lemma timer_finishes:
  assumes "drain_armed d" "dr_timer d = Some i"
  shows "dr_result (drain_run P E now own privacy [DrainFires i] d) \<noteq> None"
  using assms by (auto simp: drain_armed_def cleanupAndFinish_def settle_drain_def clear_drain_def split: option.splits)

lemma new_drain_armed: "drain_armed (new_drain cfg u mb)"
  by (simp add: drain_armed_def new_drain_def)

subsection \<open>The log of the stream only grows\<close>

definition logged :: "ws_callback list \<Rightarrow> ws_client \<Rightarrow> bool" where
  "logged l w \<longleftrightarrow> (\<exists>m. ws_log w = l @ m)"

named_theorems logged_keep \<open>methods that keep the callbacks of the log\<close>

lemma logged_call_back [logged_keep]: "logged l w \<Longrightarrow> logged l (call_back c w)"
  by (auto simp: logged_def call_back_def)

lemma logged_same: "ws_log w' = ws_log w \<Longrightarrow> logged l w' = logged l w"
  by (simp add: logged_def)

lemma logged_fields [simp]:
  "logged l (w\<lparr>ws_buffer := b\<rparr>) = logged l w" "logged l (w\<lparr>ws_socks := f\<rparr>) = logged l w"
  "logged l (w\<lparr>ws_sent := s\<rparr>) = logged l w" "logged l (w\<lparr>ws_next := n\<rparr>) = logged l w"
  "logged l (w\<lparr>ws_dialling := d\<rparr>) = logged l w" "logged l (w\<lparr>ws_reconnectAttempts := a\<rparr>) = logged l w"
  "logged l (w\<lparr>ws_autoReconnect := r\<rparr>) = logged l w" "logged l (w\<lparr>ws_pingTimer := p\<rparr>) = logged l w"
  "logged l (w\<lparr>ws_socket := s'\<rparr>) = logged l w" "logged l (w\<lparr>ws_armed := ar\<rparr>) = logged l w"
  "logged l (w\<lparr>ws_state := st\<rparr>) = logged l w" "logged l (w\<lparr>ws_reconnectTimer := t\<rparr>) = logged l w"
  "logged l (cleanupSocket w) = logged l w"
  by (simp_all add: logged_def)

lemma logged_small [logged_keep]:
  "logged l w \<Longrightarrow> logged l (setState st w)" "logged l w \<Longrightarrow> logged l (cleanupTimers w)"
  "logged l w \<Longrightarrow> logged l (sendRawFrame E opcode payload w)"
  by (simp_all add: setState_def cleanupTimers_def sendRawFrame_def logged_call_back Let_def split: option.split)

lemma logged_methods [logged_keep]:
  "logged l w \<Longrightarrow> logged l (sendJson E v w)" "logged l w \<Longrightarrow> logged l (startPingKeepAlive w)"
  "logged l w \<Longrightarrow> logged l (scheduleReconnect E w)" "logged l w \<Longrightarrow> logged l (disconnect w)" "logged l w \<Longrightarrow> logged l (connect w)"
  by (simp_all add: sendJson_def startPingKeepAlive_def scheduleReconnect_def disconnect_def connect_def logged_keep Let_def)

lemma logged_failure [logged_keep]: "logged l w \<Longrightarrow> logged l (handleConnectionFailure E e w)"
  by (simp add: handleConnectionFailure_def logged_keep Let_def)

lemma logged_text [logged_keep]: "logged l w \<Longrightarrow> logged l (handleTextMessage P E t w)"
  by (simp add: handleTextMessage_def handleServerChallenge_def logged_keep Let_def split: sum.split)

lemma logged_frame: "logged l w \<Longrightarrow> logged l (processFrame P E opcode payload w)"
  by (simp add: processFrame_def logged_keep)

lemma logged_loop: "logged l w \<Longrightarrow> logged l (raw_loop P E w)"
proof (induction P E w rule: raw_loop.induct)
  case (1 P E w)
  then show ?case
    by (subst raw_loop.simps) (auto split: option.splits prod.splits intro!: "1.IH" logged_frame)
qed

lemma logged_raw [logged_keep]: "logged l w \<Longrightarrow> logged l (handleRawData P E chunk w)"
  by (simp add: handleRawData_def logged_loop)

lemma logged_data: "logged l w \<Longrightarrow> logged l (on_data P E n chunk w)"
proof -
  assume w: "logged l w"
  have "logged l (fst (onHandshakeData n chunk w))" using w by (simp add: onHandshakeData_def Let_def split: option.split)
  then have "logged l ((handleRawData P E chunk ^^ k) (fst (onHandshakeData n chunk w)))" for k
    by (intro funpow_keeps [where I = "logged l"]) (simp_all add: logged_keep)
  moreover have "logged l (setupSocketHandlers w') = logged l w'" for w'
    by (simp add: setupSocketHandlers_def split: option.split)
  ultimately show ?thesis using w
    by (auto simp: on_data_def Let_def connect_upgraded_def intro!: logged_keep split: prod.splits upgrade_result.splits)
qed

lemma logged_step: "logged l w \<Longrightarrow> logged l (ws_step P E ev w)"
proof (cases ev)
  case (SocketClosed n)
  assume w: "logged l w"
  have "logged l (close_handler E w)" if "logged l w" for w
    using that by (simp add: close_handler_def logged_keep Let_def)
  then show ?thesis using SocketClosed w by (simp add: on_close_def Let_def funpow_keeps [where I = "logged l"])
next
  case (SocketFailed n msg)
  assume "logged l w"
  then show ?thesis using SocketFailed by (simp add: on_error_def funpow_keeps [where I = "logged l"] logged_keep)
qed (simp_all add: logged_keep logged_data performWebSocketUpgrade_def)

lemma log_grows: "ws_log (ws_step P E ev w) = ws_log w @ drop (length (ws_log w)) (ws_log (ws_step P E ev w))"
  using logged_step [of "ws_log w" w P E ev] by (auto simp: logged_def)

text \<open>Once the relay authenticated the client there is a drain timer.\<close>

definition authenticated :: "ws_client \<Rightarrow> bool" where
  "authenticated w \<longleftrightarrow> (\<exists>h. OnAuthenticated h \<in> set (ws_log w))"

lemma callback_timer:
  "dr_timer d \<noteq> None \<or> (\<exists>h. c = OnAuthenticated h) \<Longrightarrow> dr_timer (on_sync_callback P E now own privacy c d) \<noteq> None"
  by (cases c) (auto simp: arm_drain_def settle_drain_def cleanupAndFinish_def clear_drain_def Let_def
      split: option.splits prod.splits sum.splits)

lemma callbacks_timer:
  "dr_timer d \<noteq> None \<or> (\<exists>h. OnAuthenticated h \<in> set cs) \<Longrightarrow> dr_timer (fold (on_sync_callback P E now own privacy) cs d) \<noteq> None"
proof (induction cs arbitrary: d)
  case (Cons c cs)
  have "dr_timer (on_sync_callback P E now own privacy c d) \<noteq> None \<or> (\<exists>h. OnAuthenticated h \<in> set cs)"
    using Cons.prems callback_timer [of d c P E now own privacy] by auto
  then show ?case using Cons.IH by simp
qed simp

lemma callback_stream: "dr_ws (on_sync_callback P E now own privacy c d) = dr_ws d"
  by (cases c) (auto simp: arm_drain_def settle_drain_def cleanupAndFinish_def clear_drain_def Let_def
      split: option.splits prod.splits sum.splits)

lemma callbacks_stream: "dr_ws (fold (on_sync_callback P E now own privacy) cs d) = dr_ws d"
  by (induction cs arbitrary: d) (simp_all add: callback_stream)

definition timed :: "drain \<Rightarrow> bool" where
  "timed d \<longleftrightarrow> (authenticated (dr_ws d) \<longrightarrow> dr_timer d \<noteq> None)"

lemma timed_step: "timed d \<Longrightarrow> timed (drain_step P E now own privacy e d)"
proof (cases e)
  case (Net ev)
  assume d: "timed d"
  let ?w = "ws_step P (se_ws E) ev (dr_ws d)" and ?new = "drop (length (ws_log (dr_ws d))) (ws_log (ws_step P (se_ws E) ev (dr_ws d)))"
  have "set (ws_log ?w) = set (ws_log (dr_ws d)) \<union> set ?new"
    using arg_cong [OF log_grows [of P "se_ws E" ev "dr_ws d"], of set] by (simp only: set_append)
  then have "authenticated ?w \<Longrightarrow> dr_timer (d\<lparr>dr_ws := ?w\<rparr>) \<noteq> None \<or> (\<exists>h. OnAuthenticated h \<in> set ?new)"
    using d by (auto simp: timed_def authenticated_def)
  then show ?thesis
    using callbacks_timer [of "d\<lparr>dr_ws := ?w\<rparr>" ?new P E now own privacy] by (simp add: Net timed_def Let_def callbacks_stream del: ws_step.simps)
qed (auto simp: timed_def cleanupAndFinish_def settle_drain_def clear_drain_def split: option.split)

lemma timed_run: "timed d \<Longrightarrow> timed (drain_run P E now own privacy es d)"
  by (induction es arbitrary: d) (simp_all add: timed_step del: drain_step.simps)

lemma new_drain_timed: "timed (new_drain cfg u mb)"
  by (simp add: timed_def authenticated_def new_drain_def new_TorWebSocketClient_def)

subsection \<open>Runs\<close>

lemma prepare_drain:
  assumes "ph_outcome (prepare_sync P B kc open_file E co w) = Inr (Some d0)"
  shows "(\<exists>cfg u mb. d0 = new_drain cfg u mb) \<and> ph_torUsed (prepare_sync P B kc open_file E co w) \<and>
    (\<exists>m. sw_tor (ph_world (prepare_sync P B kc open_file E co w)) = Some m)"
  using assms by (auto simp: prepare_sync_def bindR_Inr_iff split: prod.splits sum.splits option.splits)

lemma prepare_running: "sw_isRunning (ph_world (prepare_sync P B kc open_file E co w)) = sw_isRunning w"
  by (auto simp: prepare_sync_def split: prod.splits sum.splits option.splits)

lemma running_returns: "sw_isRunning w \<Longrightarrow> executeSync P B kc open_file E now events co w = (Some in_progress, w)"
  by (simp add: executeSync_def)

definition streamed :: "prims \<Rightarrow> sync_env \<Rightarrow> int \<Rightarrow> sync_config option \<Rightarrow> sync_event list \<Rightarrow> drain \<Rightarrow> drain" where
  "streamed P E now co events d0 =
     drain_run P E now (publicKeyHex (encryptionKey (ws_identity (dr_ws d0)))) (privacy_mode co) (Net Connect # events) d0"

lemma execute_streamed:
  assumes "\<not> sw_isRunning w" "ph_outcome (prepare_sync P B kc open_file E co (w\<lparr>sw_isRunning := True\<rparr>)) = Inr (Some d0)"
  shows "executeSync P B kc open_file E now events co w =
     conclude_drain E co True (streamed P E now co events d0)
       (ph_world (prepare_sync P B kc open_file E co (w\<lparr>sw_isRunning := True\<rparr>)))"
  using assms prepare_drain [OF assms(2)] by (simp add: executeSync_def streamed_def Let_def del: drain_run.simps)

lemma concluded:
  "dr_result d \<noteq> None \<Longrightarrow> \<exists>r w'. conclude_drain E co torUsed d w = (Some r, w') \<and> \<not> sw_isRunning w'"
  by (auto simp: conclude_drain_def finish_sync_def Let_def split: sum.split)

text \<open>A run on an in-memory database whose keychain holds a phrase, up to the authentication.\<close>

definition demo_phrases :: "string \<Rightarrow> string option" where
  "demo_phrases svc = Some (JSON_stringify (JObj [(''mnemonic'', JStr ''zoo able'')]))"

definition demo_sync_config :: sync_config where
  "demo_sync_config = \<lparr>sc_torConfig = None, sc_databaseConfig = Some (None, Some True), sc_bootstrapTimeoutMs = None,
     sc_drainTimeoutMs = None, sc_privacyMode = None\<rparr>"

definition demo_sync_env :: sync_env where
  "demo_sync_env = \<lparr>se_secret_at = (\<lambda>i. replicate 32 (of_nat i)), se_id_at = (\<lambda>_. replicate 16 7), se_notif_id_at = (\<lambda>_. ''n''),
     se_channel = Inr (), se_settles = Inr (), se_notifee = True, se_native = None, se_slow = False, se_start = 0, se_end = 9,
     se_key_drawn = [], se_key_fallback = [], se_ws = demo_env\<rparr>"

definition demo_world :: "(string \<Rightarrow> string option) sync_world" where
  "demo_world = \<lparr>sw_isRunning = False, sw_tor = None, sw_notif = None, sw_keychain = demo_phrases\<rparr>"

lemma demo_identity_loads:
  "\<exists>u. loadIdentityFromKeychain model_prims model_bip39 (Some map_keychain) svc demo_phrases = (Inr (Some u), demo_phrases)"
proof -
  have "normalize_mnemonic ''zoo able'' = ''zoo able''" by code_simp
  then obtain u where u: "restoreIdentity model_prims model_bip39 ''zoo able'' = Inr u"
    using model_derives [of "''zoo able''"] by (auto simp: restoreIdentity_def model_bip39_def Let_def)
  have "bindR (JSON_parse (JSON_stringify (JObj [(''mnemonic'', JStr ''zoo able'')]))) (restore_from_json model_prims model_bip39)
      = Inr (Some u)"
    using u by (simp add: JSON_parse_stringify restore_from_json_mnemonic)
  then show ?thesis
    using JSON_stringify_nonempty
    by (simp add: loadIdentityFromKeychain_def tryM_def bindM_def map_keychain_def demo_phrases_def)
qed

lemma demo_prepared:
  "\<exists>d0. ph_outcome (prepare_sync model_prims model_bip39 (Some map_keychain) (\<lambda>_ _. Inl LibError) demo_sync_env (Some demo_sync_config)
      (demo_world\<lparr>sw_isRunning := True\<rparr>)) = Inr (Some d0)"
proof -
  obtain u where u: "loadIdentityFromKeychain model_prims model_bip39 (Some map_keychain) KEYCHAIN_DEFAULT_SERVICE demo_phrases
      = (Inr (Some u), demo_phrases)" using demo_identity_loads by blast
  let ?m = "new_DatabaseManager None (Some True)"
  obtain m' where m': "initialize model_prims (\<lambda>_ _. Inl LibError) (Some map_keychain) [] [] 0 (?m, demo_phrases) = (Inr (), (m', demo_phrases))"
    using initialize_memory [of ?m model_prims "\<lambda>_ _. Inl LibError" "Some map_keychain" "[]" "[]" 0 demo_phrases]
    by (auto simp: new_DatabaseManager_def)
  show ?thesis
    using u m'
    by (simp add: prepare_sync_def demo_world_def demo_sync_env_def demo_sync_config_def sync_database_def notif_initialize_def
        notif_getInstance_def new_NotificationManager_def new_DefaultNotificationDriver_def on_notif_def createChannel_def bindM_def
        race_tor_def getInstance_def new_TorManager_def default_config_def startTor_def whole_config_def Let_def)
qed

definition auth_bytes :: bytes where
  "auth_bytes = [0x81, 0x18] @ text_encode (JSON_stringify (JObj [(''type'', JStr ''authenticated'')]))"

lemma auth_frame: "next_frame auth_bytes = Some ((0x01, drop 2 auth_bytes), [])"
  by code_simp

lemma auth_text: "JSON_parse (utf8_toString (drop 2 auth_bytes)) = Inr (JObj [(''type'', JStr ''authenticated'')])"
  by code_simp

lemma authenticated_log:
  assumes "streaming 0 w" "ws_buffer w = []"
  shows "ws_log (ws_step P E (Data 0 auth_bytes) w) = ws_log w @ [OnStateChange CONNECTED_AUTHENTICATED, OnAuthenticated None]"
proof -
  have e: "next_frame [] = None" by (simp add: next_frame_empty)
  let ?w = "call_back (OnAuthenticated None) (startPingKeepAlive (setState CONNECTED_AUTHENTICATED (w\<lparr>ws_buffer := []\<rparr>)))"
  have "processFrame P E 0x01 (drop 2 auth_bytes) (w\<lparr>ws_buffer := []\<rparr>) = ?w"
    by (simp add: processFrame_def handleTextMessage_def auth_text)
  moreover have "raw_loop P E ?w = ?w"
    by (subst raw_loop.simps) (simp add: e startPingKeepAlive_def setState_def call_back_def cleanupTimers_def Let_def)
  ultimately have "raw_loop P E (w\<lparr>ws_buffer := auth_bytes\<rparr>) = ?w"
    by (subst raw_loop.simps) (simp add: auth_frame)
  then show ?thesis using assms
    by (simp add: on_data_streaming handleRawData_def startPingKeepAlive_def setState_def call_back_def cleanupTimers_def Let_def)
qed

definition to_authentication :: "sync_event list" where
  "to_authentication = [Net (Dialled 0), Net (Data 0 switching_protocols), Net (Data 0 auth_bytes)]"

lemma opened_stream:
  fixes P E cfg u
  defines "w \<equiv> ws_run P E [Connect, Dialled 0, Data 0 switching_protocols] (new_TorWebSocketClient cfg u)"
  shows "streaming 0 w" "ws_buffer w = []" "ws_log w = [OnStateChange CONNECTING, OnStateChange AWAITING_CHALLENGE]"
  unfolding w_def streaming_def
  by (simp_all add: ws_run_def new_TorWebSocketClient_def connect_def setState_def call_back_def Let_def
      performWebSocketUpgrade_def on_data_def onHandshakeData_def handshake_answer handshake_text connect_upgraded_def
      setupSocketHandlers_def startsWith_def)

lemma state_changes_only:
  "fold (on_sync_callback P E now own privacy) (map OnStateChange sts) d = d"
  by (induction sts) simp_all

lemma quiet_step:
  "ws_log (ws_step P (se_ws E) ev (dr_ws d)) = ws_log (dr_ws d) @ map OnStateChange sts \<Longrightarrow>
     drain_step P E now own privacy (Net ev) d = d\<lparr>dr_ws := ws_step P (se_ws E) ev (dr_ws d)\<rparr>"
  by (simp add: Let_def state_changes_only del: ws_step.simps)

lemma authenticated_timer:
  "dr_timer (drain_run P E now own privacy (Net Connect # to_authentication) (new_drain cfg u mb)) = Some 0"
  "dr_result (drain_run P E now own privacy (Net Connect # to_authentication) (new_drain cfg u mb)) = None"
  "authenticated (dr_ws (drain_run P E now own privacy (Net Connect # to_authentication) (new_drain cfg u mb)))"
proof -
  let ?d0 = "new_drain cfg u mb" and ?step = "\<lambda>ev w. ws_step P (se_ws E) ev w"
  let ?w0 = "new_TorWebSocketClient cfg u"
  let ?w1 = "?step Connect ?w0"
  let ?w2 = "?step (Dialled 0) ?w1"
  let ?w3 = "?step (Data 0 switching_protocols) ?w2"
  have w3: "?w3 = ws_run P (se_ws E) [Connect, Dialled 0, Data 0 switching_protocols] ?w0" by (simp add: ws_run_def)
  note open3 = opened_stream [where P = P and E = "se_ws E" and cfg = cfg and u = u, folded w3]
  have logs: "ws_log ?w0 = []" "ws_log ?w1 = [OnStateChange CONNECTING]" "ws_log ?w2 = [OnStateChange CONNECTING]"
    by (simp_all add: new_TorWebSocketClient_def connect_def setState_def call_back_def Let_def performWebSocketUpgrade_def)
  have d0: "dr_ws ?d0 = ?w0" "dr_result ?d0 = None" "dr_timer ?d0 = None" "dr_next ?d0 = 0" by (simp_all add: new_drain_def)
  have s1: "drain_step P E now own privacy (Net Connect) ?d0 = ?d0\<lparr>dr_ws := ?w1\<rparr>"
    using quiet_step [of P E Connect ?d0 "[CONNECTING]"] logs d0(1) by simp
  have s2: "drain_step P E now own privacy (Net (Dialled 0)) (?d0\<lparr>dr_ws := ?w1\<rparr>) = ?d0\<lparr>dr_ws := ?w2\<rparr>"
    using quiet_step [of P E "Dialled 0" "?d0\<lparr>dr_ws := ?w1\<rparr>" "[]"] logs by (simp del: ws_step.simps)
  have s3: "drain_step P E now own privacy (Net (Data 0 switching_protocols)) (?d0\<lparr>dr_ws := ?w2\<rparr>) = ?d0\<lparr>dr_ws := ?w3\<rparr>"
    using quiet_step [of P E "Data 0 switching_protocols" "?d0\<lparr>dr_ws := ?w2\<rparr>" "[AWAITING_CHALLENGE]"] logs open3(3)
    by (simp del: ws_step.simps)
  have s4: "dr_timer (drain_step P E now own privacy (Net (Data 0 auth_bytes)) (?d0\<lparr>dr_ws := ?w3\<rparr>)) = Some 0"
    "dr_result (drain_step P E now own privacy (Net (Data 0 auth_bytes)) (?d0\<lparr>dr_ws := ?w3\<rparr>)) = None"
    using authenticated_log [OF open3(1,2), of P "se_ws E"] d0(2,4) by (simp_all add: Let_def arm_drain_def del: ws_step.simps)
  have w5: "dr_ws (drain_step P E now own privacy (Net (Data 0 auth_bytes)) (?d0\<lparr>dr_ws := ?w3\<rparr>)) = ?step (Data 0 auth_bytes) ?w3"
    by (simp add: Let_def callbacks_stream del: ws_step.simps)
  have s5: "authenticated (dr_ws (drain_step P E now own privacy (Net (Data 0 auth_bytes)) (?d0\<lparr>dr_ws := ?w3\<rparr>)))"
    unfolding authenticated_def w5 authenticated_log [OF open3(1,2)] by auto
  show "dr_timer (drain_run P E now own privacy (Net Connect # to_authentication) (new_drain cfg u mb)) = Some 0"
    "dr_result (drain_run P E now own privacy (Net Connect # to_authentication) (new_drain cfg u mb)) = None"
    "authenticated (dr_ws (drain_run P E now own privacy (Net Connect # to_authentication) (new_drain cfg u mb)))"
    using s4 s5 d0(2) by (simp_all add: to_authentication_def s1 s2 s3 del: drain_step.simps ws_step.simps)
qed

text \<open>C27. A run whose stream was authenticated ends: whatever happened on the stream before and after, the run has a
  result already, or the timer it armed last is still running and its firing gives the run a result. Either way its
  resources are given back and the next run can start.\<close>

theorem authenticated_sync_ends:
  assumes "\<not> sw_isRunning w" "ph_outcome (prepare_sync P B kc open_file E co (w\<lparr>sw_isRunning := True\<rparr>)) = Inr (Some d0)"
    and "authenticated (dr_ws (streamed P E now co events d0))"
  shows "\<exists>i r w'. dr_timer (streamed P E now co events d0) = Some i \<and>
     (dr_result (streamed P E now co events d0) \<noteq> None \<or> i \<in> set (dr_live (streamed P E now co events d0))) \<and>
     executeSync P B kc open_file E now (events @ [DrainFires i]) co w = (Some r, w') \<and> \<not> sw_isRunning w'"
proof -
  let ?own = "publicKeyHex (encryptionKey (ws_identity (dr_ws d0)))" and ?d = "streamed P E now co events d0"
  obtain cfg u mb where d0: "d0 = new_drain cfg u mb" using prepare_drain [OF assms(2)] by blast
  have armed: "drain_armed ?d" unfolding streamed_def d0 by (rule run_armed) (rule new_drain_armed)
  have "timed ?d" unfolding streamed_def d0 by (rule timed_run) (rule new_drain_timed)
  then obtain i where i: "dr_timer ?d = Some i" using assms(3) by (auto simp: timed_def)
  then have live: "dr_result ?d \<noteq> None \<or> i \<in> set (dr_live ?d)" using armed by (auto simp: drain_armed_def)
  have "streamed P E now co (events @ [DrainFires i]) d0 = drain_run P E now ?own (privacy_mode co) [DrainFires i] ?d"
    unfolding streamed_def append_Cons [symmetric] drain_run_append ..
  then have "dr_result (streamed P E now co (events @ [DrainFires i]) d0) \<noteq> None" using timer_finishes [OF armed i] by simp
  then show ?thesis using live i unfolding execute_streamed [OF assms(1,2)] using concluded by blast
qed

theorem authenticated_sync_ends_witness:
  "\<exists>i r w'. executeSync model_prims model_bip39 (Some map_keychain) (\<lambda>_ _. Inl LibError) demo_sync_env 1
      (to_authentication @ [DrainFires i]) (Some demo_sync_config) demo_world = (Some r, w') \<and> \<not> sw_isRunning w'"
proof -
  obtain d0 where p: "ph_outcome (prepare_sync model_prims model_bip39 (Some map_keychain) (\<lambda>_ _. Inl LibError) demo_sync_env
      (Some demo_sync_config) (demo_world\<lparr>sw_isRunning := True\<rparr>)) = Inr (Some d0)" using demo_prepared by blast
  obtain cfg u mb where "d0 = new_drain cfg u mb" using prepare_drain [OF p] by blast
  then have "authenticated (dr_ws (streamed model_prims demo_sync_env 1 (Some demo_sync_config) to_authentication d0))"
    unfolding streamed_def by (simp only: authenticated_timer)
  from authenticated_sync_ends [OF _ p this] show ?thesis by (auto simp: demo_world_def)
qed

subsection \<open>A run that never ends\<close>

lemma stranded_log: "stranded w \<Longrightarrow> ev \<noteq> Disconnect \<Longrightarrow> ws_log (ws_step P E ev w) = ws_log w"
  by (cases ev) (auto simp: stranded_def connect_def sendJson_def sendRawFrame_def on_data_def on_close_def on_error_def
      Let_def split: option.splits)

definition hanging :: "drain \<Rightarrow> bool" where
  "hanging d \<longleftrightarrow> stranded (dr_ws d) \<and> dr_live d = [] \<and> dr_result d = None"

lemma hanging_step: "hanging d \<Longrightarrow> e \<noteq> Net Disconnect \<Longrightarrow> hanging (drain_step P E now own privacy e d)"
  using stranded_step stranded_log by (cases e) (auto simp: hanging_def Let_def simp del: ws_step.simps)

lemma hanging_run: "hanging d \<Longrightarrow> Net Disconnect \<notin> set es \<Longrightarrow> hanging (drain_run P E now own privacy es d)"
  by (induction es arbitrary: d) (auto simp: hanging_step simp del: drain_step.simps)

lemma closed_handshake_hangs:
  "hanging (drain_run P E now own privacy [Net Connect, Net (Dialled 0), Net (SocketClosed 0)] (new_drain cfg u mb))"
  by (simp add: hanging_def stranded_def new_drain_def new_TorWebSocketClient_def connect_def setState_def call_back_def Let_def
      performWebSocketUpgrade_def on_close_def dead_sock_def)

text \<open>C28. If the relay closes the connection before it answered the handshake, the background run waits for
  ever: no drain timer was armed and no callback will come. The service stays marked as running, so
  that every later run returns at once without having looked for messages.\<close>

theorem background_sync_hangs:
  assumes "\<not> sw_isRunning w" "ph_outcome (prepare_sync P B kc open_file E co (w\<lparr>sw_isRunning := True\<rparr>)) = Inr (Some d0)"
    and "Net Disconnect \<notin> set events"
  shows "\<exists>w'. executeSync P B kc open_file E now ([Net (Dialled 0), Net (SocketClosed 0)] @ events) co w = (None, w') \<and>
     executeSync P B kc open_file E' now' events' co' w' = (Some in_progress, w')"
proof -
  let ?d = "streamed P E now co ([Net (Dialled 0), Net (SocketClosed 0)] @ events) d0"
  obtain cfg u mb where d0: "d0 = new_drain cfg u mb" using prepare_drain [OF assms(2)] by blast
  have "?d = drain_run P E now (publicKeyHex (encryptionKey (ws_identity (dr_ws d0)))) (privacy_mode co) events
      (drain_run P E now (publicKeyHex (encryptionKey (ws_identity (dr_ws d0)))) (privacy_mode co)
        [Net Connect, Net (Dialled 0), Net (SocketClosed 0)] d0)"
    by (simp only: streamed_def drain_run_append [symmetric] append.simps)
  then have "hanging ?d" unfolding d0 using hanging_run [OF closed_handshake_hangs assms(3)] by metis
  then have "dr_result ?d = None" by (simp add: hanging_def)
  then have run: "executeSync P B kc open_file E now ([Net (Dialled 0), Net (SocketClosed 0)] @ events) co w = (None,
      (ph_world (prepare_sync P B kc open_file E co (w\<lparr>sw_isRunning := True\<rparr>)))\<lparr>sw_notif := Some (mb_notif (dr_mailbox ?d))\<rparr>)"
    (is "_ = (None, ?w)")
    unfolding execute_streamed [OF assms(1,2)] by (simp add: conclude_drain_def)
  have "sw_isRunning ?w" using prepare_running [of P B kc open_file E co "w\<lparr>sw_isRunning := True\<rparr>"] by simp
  then show ?thesis using run running_returns by blast
qed

theorem background_sync_hangs_witness:
  "\<exists>w'. executeSync model_prims model_bip39 (Some map_keychain) (\<lambda>_ _. Inl LibError) demo_sync_env 1
      ([Net (Dialled 0), Net (SocketClosed 0)] @ [DrainFires 0, Net Connect]) (Some demo_sync_config) demo_world = (None, w') \<and>
     executeSync model_prims model_bip39 (Some map_keychain) (\<lambda>_ _. Inl LibError) demo_sync_env 2 to_authentication
      (Some demo_sync_config) w' = (Some in_progress, w')"
proof -
  obtain d0 where p: "ph_outcome (prepare_sync model_prims model_bip39 (Some map_keychain) (\<lambda>_ _. Inl LibError) demo_sync_env
      (Some demo_sync_config) (demo_world\<lparr>sw_isRunning := True\<rparr>)) = Inr (Some d0)" using demo_prepared by blast
  show ?thesis by (rule background_sync_hangs [OF _ p]) (simp_all add: demo_world_def)
qed

subsection \<open>What a completed run leaves\<close>

text \<open>A run that reports new or no data gives back the service and reports exactly whether it stored
  messages; and outside the developer mode the Tor manager, which is the one the application in the
  foreground uses, is not ready any more.\<close>

theorem completed_sync_stops_tor:
  assumes "\<not> sw_isRunning w" "executeSync P B kc open_file E now events co w = (Some r, w')" "sr_error r = None"
    and "sr_status r \<noteq> SKIPPED_NO_IDENTITY" "\<not> dev_mode co"
  shows "\<not> sw_isRunning w' \<and> (sr_status r = NEW_DATA \<longleftrightarrow> 0 < sr_messagesReceived r) \<and>
     (\<exists>m. sw_tor w' = Some m \<and> \<not> isReady m)"
proof -
  let ?ph = "prepare_sync P B kc open_file E co (w\<lparr>sw_isRunning := True\<rparr>)"
  obtain d0 where p: "ph_outcome ?ph = Inr (Some d0)"
    using assms(1-4) by (auto simp: executeSync_def sync_report_def Let_def split: sum.splits option.splits)
  obtain m where m: "sw_tor (ph_world ?ph) = Some m" using prepare_drain [OF p] by blast
  have "\<not> isReady (stopTor m)" by (simp add: isReady_def stopTor_def)
  then show ?thesis
    using assms(2,3,5) m unfolding execute_streamed [OF assms(1) p] conclude_drain_def Let_def
    by (auto simp: finish_sync_def sync_report_def split: option.splits sum.splits if_splits)
qed

lemma timer_completes:
  assumes "drain_armed d" "dr_timer d = Some i" "dr_result d = None"
  shows "dr_result (drain_run P E now own privacy [DrainFires i] d) = Some (Inr ())"
  using assms by (auto simp: drain_armed_def cleanupAndFinish_def settle_drain_def clear_drain_def)

theorem completed_sync_stops_tor_witness:
  "\<exists>r w'. executeSync model_prims model_bip39 (Some map_keychain) (\<lambda>_ _. Inl LibError) demo_sync_env 1
      (to_authentication @ [DrainFires 0]) (Some demo_sync_config) demo_world = (Some r, w') \<and>
     (\<exists>m. sw_tor w' = Some m \<and> \<not> isReady m)"
proof -
  let ?run = "executeSync model_prims model_bip39 (Some map_keychain) (\<lambda>_ _. Inl LibError) demo_sync_env 1
      (to_authentication @ [DrainFires 0]) (Some demo_sync_config) demo_world"
  have idle: "\<not> sw_isRunning demo_world" by (simp add: demo_world_def)
  obtain d0 where p: "ph_outcome (prepare_sync model_prims model_bip39 (Some map_keychain) (\<lambda>_ _. Inl LibError) demo_sync_env
      (Some demo_sync_config) (demo_world\<lparr>sw_isRunning := True\<rparr>)) = Inr (Some d0)" using demo_prepared by blast
  obtain cfg u mb where d0: "d0 = new_drain cfg u mb" using prepare_drain [OF p] by blast
  let ?own = "publicKeyHex (encryptionKey (ws_identity (dr_ws d0)))" and ?priv = "privacy_mode (Some demo_sync_config)"
  have "drain_armed (drain_run model_prims demo_sync_env 1 ?own ?priv (Net Connect # to_authentication) d0)"
    unfolding d0 by (rule run_armed) (rule new_drain_armed)
  then have "dr_result (drain_run model_prims demo_sync_env 1 ?own ?priv [DrainFires 0]
      (drain_run model_prims demo_sync_env 1 ?own ?priv (Net Connect # to_authentication) d0)) = Some (Inr ())"
    unfolding d0 by (rule timer_completes) (rule authenticated_timer)+
  then have "dr_result (streamed model_prims demo_sync_env 1 (Some demo_sync_config) (to_authentication @ [DrainFires 0]) d0)
      = Some (Inr ())"
    unfolding streamed_def append_Cons [symmetric] drain_run_append .
  then obtain r w' where run: "?run = (Some r, w')" "sr_error r = None" "sr_status r \<noteq> SKIPPED_NO_IDENTITY"
    unfolding execute_streamed [OF idle p] by (auto simp: conclude_drain_def sync_report_def Let_def)
  have "\<not> dev_mode (Some demo_sync_config)" by (simp add: dev_mode_def demo_sync_config_def)
  then show ?thesis using completed_sync_stops_tor [OF idle run] run(1) by blast
qed

subsection \<open>The background stores what the foreground stores\<close>

definition same_inputs :: "orch_env \<Rightarrow> sync_env \<Rightarrow> orchestrator \<Rightarrow> mailbox \<Rightarrow> bool" where
  "same_inputs E F ob mb \<longleftrightarrow> mb_store mb = ao_store ob \<and> mb_drawn mb = ao_drawn ob \<and>
     se_secret_at F = secret_at E \<and> se_id_at F = id_at E"

lemma accept_same_store:
  assumes same: "same_inputs E F ob mb"
    and ordinary: "\<And>m pt s2. encrypted_of_json v = Inr m \<Longrightarrow>
      decrypt P (sql_ops P) (secret_at E (ao_drawn ob)) (secret_at E (ao_drawn ob + 1)) now k m (ao_store ob) = (Inr pt, s2) \<Longrightarrow>
      ordinary_text pt"
  shows "ao_store (snd (accept_message P E now payload v k c ob)) =
     mb_store (snd (accept_envelope P F now (own_key ob) privacy payload v k c mb))"
proof -
  let ?b = "secret_at E (ao_drawn ob)" and ?r = "secret_at E (Suc (ao_drawn ob))"
  let ?i = "bytesToHex P (id_at E (Suc (Suc (ao_drawn ob))))"
  note in_eq = same [unfolded same_inputs_def]
  show ?thesis
  proof (cases "encrypted_of_json v")
    case (Inl e)
    then show ?thesis using in_eq
      by (simp add: accept_message_def accept_envelope_def bindM_def draw_from_def mb_draw_def)
  next
    case (Inr m)
    obtain x s2 where dec: "decrypt P (sql_ops P) ?b ?r now k m (ao_store ob) = (x, s2)" by fastforce
    show ?thesis
    proof (cases x)
      case (Inl e)
      then show ?thesis using in_eq Inr dec \<open>encrypted_of_json v = Inr m\<close>
        by (simp add: accept_message_def accept_envelope_def bindM_def draw_from_def mb_draw_def on_store_def mb_on_store_def)
    next
      case (Inr pt)
      have pt: "ordinary_text pt" using ordinary \<open>encrypted_of_json v = Inr m\<close> dec Inr by simp
      have read: "read_sync now (cr_recipientPubkeyHash c) ?i pt s2 = (Inr (plain_message pt (cr_recipientPubkeyHash c) ?i), s2)"
        using pt by (auto simp: read_sync_def ordinary_text_def split: sum.splits)
      have own: "publicKeyHex (encryptionKey (ss_identity s2)) = own_key ob"
        using app.after [OF decrypt_keeps dec] by (simp add: app_tables_def own_key_def)
      let ?m = "background_message k (own_key ob) (timestamp_of now payload) (cr_recipientPubkeyHash c) ?i pt"
      have msg: "incoming_message k (own_key ob) (timestamp_of now payload) (plain_message pt (cr_recipientPubkeyHash c) ?i) = Inr ?m"
        by (simp add: incoming_message_def plain_message_def background_message_def)
      obtain y s3 where save: "on_db (saveMessage ?m) s2 = (y, s3)" by fastforce
      have "ao_store (snd (accept_message P E now payload v k c ob)) = s3"
        using \<open>encrypted_of_json v = Inr m\<close> dec Inr read own msg save
        by (cases y) (simp_all add: accept_message_def bindM_def draw_from_def on_store_def on_repo_def own_key_def emit_def)
      moreover have "mb_store (snd (accept_envelope P F now (own_key ob) privacy payload v k c mb)) = s3"
        using in_eq \<open>encrypted_of_json v = Inr m\<close> dec Inr save
        by (cases y) (auto simp: accept_envelope_def bindM_def mb_draw_def mb_on_store_def mb_notify_def Let_def
            split: prod.splits sum.splits)
      ultimately show ?thesis by simp
    qed
  qed
qed

text \<open>C29. For a message of a known sender whose text is not in the self-sync format, the background service
  leaves the database exactly as the handler of the application in the foreground does, on success and on every
  failure.\<close>

theorem background_equals_foreground:
  assumes "sql_invar P (ao_store ob)" "same_inputs E F ob mb" "JSON_parse (ip_encrypted_payload payload) = Inr v"
    and "jprop v ''initialIdentityKeyHex'' = Inr (Some (JStr k))" "k \<noteq> []"
    and "select_key c_identity_pubkey_hex (toLowerCase k) (contact_rows ob) = Some r"
    and "\<And>m pt s2. encrypted_of_json v = Inr m \<Longrightarrow>
      decrypt P (sql_ops P) (secret_at E (ao_drawn ob)) (secret_at E (ao_drawn ob + 1)) now (toLowerCase k) m (ao_store ob) = (Inr pt, s2) \<Longrightarrow>
      ordinary_text pt"
  shows "ao_store (snd (handleIncomingMessage P E now payload ob)) =
     mb_store (snd (processIncomingEnvelope P F now (own_key ob) privacy payload mb))"
proof -
  have resolve: "resolve_sender al now v (ao_store ob) = (Inr (Some (toLowerCase k, mapRowToContact r)), ao_store ob)" for al
    using assms(4-6) on_db_read(2) [OF assms(1), of "toLowerCase k"]
    by (simp add: resolve_sender_def bindM_def Let_def contact_rows_def)
  have mb: "mb\<lparr>mb_store := ao_store ob\<rparr> = mb" using assms(2) by (cases mb) (simp add: same_inputs_def)
  have front: "process_incoming P E now payload ob = accept_message P E now payload v (toLowerCase k) (mapRowToContact r) ob"
    using assms(3,5) resolve by (simp add: process_incoming_def bindM_def on_store_def)
  have "processIncomingEnvelope P F now (own_key ob) privacy payload mb =
      accept_envelope P F now (own_key ob) privacy payload v (toLowerCase k) (mapRowToContact r) mb"
    using assms(2,3,5) resolve by (simp add: processIncomingEnvelope_def bindM_def mb_on_store_def same_inputs_def mb)
  moreover have "ao_store (snd (handleIncomingMessage P E now payload ob)) = ao_store (snd (process_incoming P E now payload ob))"
    using handler_result [of P E now payload ob] by (auto simp: emit_def split: prod.splits sum.splits)
  ultimately show ?thesis using accept_same_store [OF assms(2,7)] front by simp
qed

definition carol_payload :: incoming_payload where
  "carol_payload = \<lparr>ip_encrypted_payload = JSON_stringify (JObj [(''initialIdentityKeyHex'', JStr ''1D'')]), ip_nonce = [],
     ip_created_at = Some 3\<rparr>"

definition lonely_mailbox :: mailbox where
  "lonely_mailbox = \<lparr>mb_store = ao_store lonely_app, mb_notif = new_NotificationManager True None, mb_drawn = ao_drawn lonely_app\<rparr>"

definition lonely_env :: sync_env where
  "lonely_env = demo_sync_env\<lparr>se_secret_at := secret_at (demo_orch_env Alice), se_id_at := id_at (demo_orch_env Alice)\<rparr>"

theorem background_equals_foreground_witness:
  "ao_store (snd (handleIncomingMessage model_prims (demo_orch_env Alice) 1 carol_payload lonely_app)) =
     mb_store (snd (processIncomingEnvelope model_prims lonely_env 1 (own_key lonely_app) True carol_payload lonely_mailbox))"
proof (rule background_equals_foreground [OF lonely_app_rows(1)])
  let ?v = "JObj [(''initialIdentityKeyHex'', JStr ''1D'')]"
  show "JSON_parse (ip_encrypted_payload carol_payload) = Inr ?v"
    unfolding carol_payload_def by simp (rule JSON_parse_stringify, simp)
  show "jprop ?v ''initialIdentityKeyHex'' = Inr (Some (JStr ''1D''))" by (simp add: jprop_def obj_get_def)
  have "toLowerCase ''1D'' = ''1d''" "toLowerCase ''1d'' = ''1d''" by code_simp+
  then show "select_key c_identity_pubkey_hex (toLowerCase ''1D'') (contact_rows lonely_app) = Some (contact_row_of demo_contact)"
    by (simp add: lonely_app_rows select_key_def contact_row_of_def demo_contact_def)
  show "same_inputs (demo_orch_env Alice) lonely_env lonely_app lonely_mailbox"
    by (simp add: same_inputs_def lonely_env_def lonely_mailbox_def)
  show "ordinary_text pt" if "encrypted_of_json ?v = Inr m" for m pt
    using that by (simp add: encrypted_of_json_def jprop_def obj_get_def jget_def)
qed simp

end
