(* ===== verification/Store_Refinement.thy ===== *)
theory Store_Refinement
  imports Engine_Properties
begin

section \<open>The two store providers refine one specification\<close>

text \<open>
  \<open>client/src/crypto/ISignalStore.ts\<close> as a specification: a state of three finite maps and, for each
  call of the interface, the answers it allows. Every history of calls on \<open>SqliteSignalStore\<close> or on
  \<open>InMemorySignalStore\<close> is a history of the specification (forward simulation through the abstraction
  functions of the contract \<open>signal_store\<close>), so that both give the same answers. The one freedom of
  the specification is which of several equally old signed pre-keys is the latest.
\<close>

subsection \<open>Calls and answers\<close>

datatype store_call =
  SaveSignedPreKey int signed_prekey
| GetSignedPreKey int
| GetLatestSignedPreKey
| SaveOneTimePreKey int one_time_prekey
| GetOneTimePreKey int
| RemoveOneTimePreKey int
| CountOneTimePreKeys
| SaveSession hex session
| GetSession hex
| HasSession hex
| RemoveSession hex
| GetIdentity

datatype store_answer =
  Nothing
| AnIdentity identity
| ASignedPreKey "signed_prekey option"
| AOneTimePreKey "one_time_prekey option"
| ASession "session option"
| ACount nat
| AFlag bool

definition answering :: "('a \<Rightarrow> store_answer) \<Rightarrow> ('s, 'a) M \<Rightarrow> ('s, store_answer) M" where
  "answering f m = bindM m (\<lambda>a. ret (f a))"

fun call_store :: "'s store_ops \<Rightarrow> store_call \<Rightarrow> ('s, store_answer) M" where
  "call_store S (SaveSignedPreKey i k) = answering (\<lambda>_. Nothing) (saveSignedPreKey S i k)"
| "call_store S (GetSignedPreKey i) = answering ASignedPreKey (getSignedPreKey S i)"
| "call_store S GetLatestSignedPreKey = answering ASignedPreKey (getLatestSignedPreKey S)"
| "call_store S (SaveOneTimePreKey i k) = answering (\<lambda>_. Nothing) (saveOneTimePreKey S i k)"
| "call_store S (GetOneTimePreKey i) = answering AOneTimePreKey (getOneTimePreKey S i)"
| "call_store S (RemoveOneTimePreKey i) = answering (\<lambda>_. Nothing) (removeOneTimePreKey S i)"
| "call_store S CountOneTimePreKeys = answering ACount (countOneTimePreKeys S)"
| "call_store S (SaveSession k w) = answering (\<lambda>_. Nothing) (saveSession S k w)"
| "call_store S (GetSession k) = answering ASession (getSession S k)"
| "call_store S (HasSession k) = answering AFlag (hasSession S k)"
| "call_store S (RemoveSession k) = answering (\<lambda>_. Nothing) (removeSession S k)"
| "call_store S GetIdentity = answering AnIdentity (getIdentity S)"

primrec run_calls :: "'s store_ops \<Rightarrow> store_call list \<Rightarrow> 's \<Rightarrow> store_answer res list \<times> 's" where
  "run_calls S [] s = ([], s)"
| "run_calls S (c # cs) s =
     (case call_store S c s of (r, s1) \<Rightarrow> (case run_calls S cs s1 of (rs, s2) \<Rightarrow> (r # rs, s2)))"

text \<open>What may be saved: keys and sessions that survive serialisation.\<close>

fun storable_call :: "prims \<Rightarrow> store_call \<Rightarrow> bool" where
  "storable_call P (SaveSignedPreKey i k) = storable_keypair P (spk_keyPair k)"
| "storable_call P (SaveOneTimePreKey i k) = storable_keypair P (otk_keyPair k)"
| "storable_call P (SaveSession k w) = storable_session P w"
| "storable_call P _ = True"

subsection \<open>The specification\<close>

record store_spec =
  st_identity :: identity
  st_signed :: "int \<Rightarrow> signed_prekey option"
  st_oneTime :: "int \<Rightarrow> one_time_prekey option"
  st_sessions :: "hex \<Rightarrow> session option"

definition latest_key :: "(int \<Rightarrow> signed_prekey option) \<Rightarrow> signed_prekey option \<Rightarrow> bool" where
  "latest_key m r \<longleftrightarrow> (case r of None \<Rightarrow> m = Map.empty
     | Some k \<Rightarrow> k \<in> ran m \<and> (\<forall>k' \<in> ran m. spk_createdAt k' \<le> spk_createdAt k))"

fun spec_next :: "store_call \<Rightarrow> store_spec \<Rightarrow> store_spec" where
  "spec_next (SaveSignedPreKey i k) a = a\<lparr>st_signed := (st_signed a)(i \<mapsto> k)\<rparr>"
| "spec_next (SaveOneTimePreKey i k) a = a\<lparr>st_oneTime := (st_oneTime a)(i \<mapsto> k)\<rparr>"
| "spec_next (RemoveOneTimePreKey i) a = a\<lparr>st_oneTime := (st_oneTime a)(i := None)\<rparr>"
| "spec_next (SaveSession k w) a = a\<lparr>st_sessions := (st_sessions a)(toLowerCase k \<mapsto> w)\<rparr>"
| "spec_next (RemoveSession k) a = a\<lparr>st_sessions := (st_sessions a)(toLowerCase k := None)\<rparr>"
| "spec_next _ a = a"

fun spec_answers :: "store_call \<Rightarrow> store_spec \<Rightarrow> store_answer \<Rightarrow> bool" where
  "spec_answers (GetSignedPreKey i) a r \<longleftrightarrow> r = ASignedPreKey (st_signed a i)"
| "spec_answers GetLatestSignedPreKey a r \<longleftrightarrow> (\<exists>k. r = ASignedPreKey k \<and> latest_key (st_signed a) k)"
| "spec_answers (GetOneTimePreKey i) a r \<longleftrightarrow> r = AOneTimePreKey (st_oneTime a i)"
| "spec_answers CountOneTimePreKeys a r \<longleftrightarrow> r = ACount (card (dom (st_oneTime a)))"
| "spec_answers (GetSession k) a r \<longleftrightarrow> r = ASession (st_sessions a (toLowerCase k))"
| "spec_answers (HasSession k) a r \<longleftrightarrow> r = AFlag (st_sessions a (toLowerCase k) \<noteq> None)"
| "spec_answers GetIdentity a r \<longleftrightarrow> r = AnIdentity (st_identity a)"
| "spec_answers _ a r \<longleftrightarrow> r = Nothing"

inductive spec_run :: "store_spec \<Rightarrow> store_call list \<Rightarrow> store_answer list \<Rightarrow> store_spec \<Rightarrow> bool" where
  stop: "spec_run a [] [] a"
| call: "spec_answers c a r \<Longrightarrow> spec_run (spec_next c a) cs rs b \<Longrightarrow> spec_run a (c # cs) (r # rs) b"

inductive_cases spec_run_NilE: "spec_run a [] rs b"
inductive_cases spec_run_ConsE: "spec_run a (c # cs) rs b"

text \<open>The specification is deterministic up to the latest of equally old signed pre-keys.\<close>

definition same_answer :: "store_answer \<Rightarrow> store_answer \<Rightarrow> bool" where
  "same_answer r r' \<longleftrightarrow> r = r' \<or>
     (\<exists>k k'. r = ASignedPreKey (Some k) \<and> r' = ASignedPreKey (Some k') \<and> spk_createdAt k = spk_createdAt k')"

lemma latest_key_unique:
  assumes "latest_key m r" "latest_key m r'"
  shows "same_answer (ASignedPreKey r) (ASignedPreKey r')"
proof (cases "m = Map.empty")
  case True
  then show ?thesis using assms by (auto simp: latest_key_def same_answer_def split: option.splits)
next
  case False
  then obtain k k' where "r = Some k" "r' = Some k'" using assms by (auto simp: latest_key_def split: option.splits)
  then show ?thesis using assms by (auto simp: latest_key_def same_answer_def intro: order_antisym)
qed

lemma spec_answers_unique: "spec_answers c a r \<Longrightarrow> spec_answers c a r' \<Longrightarrow> same_answer r r'"
proof (cases "c = GetLatestSignedPreKey")
  case True
  assume "spec_answers c a r" "spec_answers c a r'"
  then show ?thesis using True latest_key_unique by auto
next
  case False
  assume "spec_answers c a r" "spec_answers c a r'"
  then show ?thesis using False by (cases c) (simp_all add: same_answer_def)
qed

lemma spec_run_deterministic:
  "spec_run a cs rs b \<Longrightarrow> spec_run a cs rs' b' \<Longrightarrow> list_all2 same_answer rs rs' \<and> b = b'"
proof (induction a cs rs b arbitrary: rs' rule: spec_run.induct)
  case (stop a)
  then show ?case by (auto elim: spec_run_NilE)
next
  case (call c a r cs rs b)
  from call.prems obtain r1 rs1 where rs': "rs' = r1 # rs1" "spec_answers c a r1" "spec_run (spec_next c a) cs rs1 b'"
    by (rule spec_run_ConsE) blast
  then show ?case using call.IH [of rs1] spec_answers_unique [OF call.hyps(1)] by simp
qed

subsection \<open>Simulation\<close>

lemma answering_run: "m s = (Inr a, s') \<Longrightarrow> answering f m s = (Inr (f a), s')"
  by (simp add: answering_def bindM_def)

context signal_store
begin

definition abs_store :: "'s \<Rightarrow> store_spec" where
  "abs_store s = \<lparr>st_identity = ident s, st_signed = spks s, st_oneTime = otks s, st_sessions = sess s\<rparr>"

lemma call_simulates:
  assumes "invar s" "storable_call P c"
  shows "\<exists>r s'. call_store S c s = (Inr r, s') \<and> invar s' \<and> spec_answers c (abs_store s) r \<and>
     abs_store s' = spec_next c (abs_store s)"
proof (cases c)
  case (SaveSignedPreKey i k)
  then obtain s' where "saveSignedPreKey S i k s = (Inr (), s')" "invar s'" "spks s' = (spks s)(i \<mapsto> k)"
    "otks s' = otks s" "sess s' = sess s" "ident s' = ident s"
    using saveSignedPreKey [OF assms(1)] assms(2) by auto
  then show ?thesis using SaveSignedPreKey answering_run by (fastforce simp: abs_store_def)
next
  case GetLatestSignedPreKey
  obtain r where r: "getLatestSignedPreKey S s = (Inr r, s)" "r = None \<longleftrightarrow> spks s = Map.empty"
    "\<And>k. r = Some k \<Longrightarrow> k \<in> ran (spks s) \<and> (\<forall>k' \<in> ran (spks s). spk_createdAt k' \<le> spk_createdAt k)"
    using getLatestSignedPreKey [OF assms(1)] by blast
  then have "latest_key (spks s) r" by (auto simp: latest_key_def split: option.splits)
  then show ?thesis
    using GetLatestSignedPreKey answering_run [where m = "getLatestSignedPreKey S", OF r(1)] assms(1)
    by (auto simp: abs_store_def)
next
  case (SaveOneTimePreKey i k)
  then obtain s' where "saveOneTimePreKey S i k s = (Inr (), s')" "invar s'" "otks s' = (otks s)(i \<mapsto> k)"
    "spks s' = spks s" "sess s' = sess s" "ident s' = ident s"
    using saveOneTimePreKey [OF assms(1)] assms(2) by auto
  then show ?thesis using SaveOneTimePreKey answering_run by (fastforce simp: abs_store_def)
next
  case (RemoveOneTimePreKey i)
  obtain s' where "removeOneTimePreKey S i s = (Inr (), s')" "invar s'" "otks s' = (otks s)(i := None)"
    "spks s' = spks s" "sess s' = sess s" "ident s' = ident s"
    using removeOneTimePreKey [OF assms(1)] by blast
  then show ?thesis using RemoveOneTimePreKey answering_run by (fastforce simp: abs_store_def)
next
  case (SaveSession k w)
  then obtain s' where "saveSession S k w s = (Inr (), s')" "invar s'" "sess s' = (sess s)(toLowerCase k \<mapsto> w)"
    "spks s' = spks s" "otks s' = otks s" "ident s' = ident s"
    using saveSession [OF assms(1)] assms(2) by auto
  then show ?thesis using SaveSession answering_run by (fastforce simp: abs_store_def)
next
  case (RemoveSession k)
  obtain s' where "removeSession S k s = (Inr (), s')" "invar s'" "sess s' = (sess s)(toLowerCase k := None)"
    "spks s' = spks s" "otks s' = otks s" "ident s' = ident s"
    using removeSession [OF assms(1)] by blast
  then show ?thesis using RemoveSession answering_run by (fastforce simp: abs_store_def)
qed (use assms(1) getSignedPreKey getOneTimePreKey countOneTimePreKeys getSession hasSession getIdentity in
      \<open>simp_all add: answering_def bindM_def abs_store_def\<close>)

lemma run_simulates:
  "invar s \<Longrightarrow> list_all (storable_call P) cs \<Longrightarrow>
   \<exists>rs s'. run_calls S cs s = (map Inr rs, s') \<and> invar s' \<and> spec_run (abs_store s) cs rs (abs_store s')"
proof (induction cs arbitrary: s)
  case Nil
  then show ?case by (auto intro: spec_run.stop)
next
  case (Cons c cs)
  have c: "storable_call P c" "list_all (storable_call P) cs" using Cons.prems(2) by simp_all
  obtain r s1 where 1: "call_store S c s = (Inr r, s1)" "invar s1" "spec_answers c (abs_store s) r"
    "abs_store s1 = spec_next c (abs_store s)"
    using call_simulates [OF Cons.prems(1) c(1)] by blast
  obtain rs s' where 2: "run_calls S cs s1 = (map Inr rs, s')" "invar s'" "spec_run (abs_store s1) cs rs (abs_store s')"
    using Cons.IH [OF 1(2) c(2)] by blast
  have "spec_run (abs_store s) (c # cs) (r # rs) (abs_store s')"
    using spec_run.call [OF 1(3)] 2(3) 1(4) by simp
  then show ?case using 1(1) 2(1,2) by (intro exI [of _ "r # rs"] exI [of _ s']) simp
qed

end

subsection \<open>Both providers\<close>

definition new_spec :: "identity \<Rightarrow> store_spec" where
  "new_spec u = \<lparr>st_identity = u, st_signed = Map.empty, st_oneTime = Map.empty, st_sessions = Map.empty\<rparr>"

lemma mem_abs_new: "mem.abs_store (new_mem_store u) = new_spec u"
  by (simp add: mem.abs_store_def new_spec_def fun_eq_iff)

lemma sql_abs_new:
  assumes "dm_ready m" "same_rows (empty_database\<lparr>foreign_keys := True\<rparr>) (db_of m)"
  shows "sql.abs_store P (new_SqliteSignalStore u m) = new_spec u"
proof -
  have "sql_otks P (new_SqliteSignalStore u m) = Map.empty"
    using assms(2) by (simp add: new_SqliteSignalStore_def same_rows_def empty_database_def sql_otks_def read_table_def
        read_row_def select_key_def fun_eq_iff)
  then show ?thesis using new_sql_store(2-4) [OF assms] by (simp add: sql.abs_store_def new_spec_def)
qed

text \<open>The state of the specification that the rows of the database stand for.\<close>

definition stored_state :: "prims \<Rightarrow> sql_store \<Rightarrow> store_spec" where
  "stored_state P s = \<lparr>st_identity = ss_identity s, st_signed = sql_spks P s, st_oneTime = sql_otks P s, st_sessions = sql_sess P s\<rparr>"

lemma stored_state_abs: "sql.abs_store P s = stored_state P s"
  by (simp add: sql.abs_store_def stored_state_def)

lemma sqlite_history:
  assumes "dm_ready m" "same_rows (empty_database\<lparr>foreign_keys := True\<rparr>) (db_of m)" "list_all (storable_call P) cs"
  shows "\<exists>rs s. run_calls (sql_ops P) cs (new_SqliteSignalStore u m) = (map Inr rs, s) \<and> sql_invar P s \<and>
     spec_run (new_spec u) cs rs (stored_state P s)"
  using sql.run_simulates [OF new_sql_store(1) [OF assms(1,2)] assms(3)] sql_abs_new [OF assms(1,2)]
  unfolding stored_state_abs by metis

lemma memory_history:
  assumes "list_all (storable_call P) cs"
  shows "\<exists>rs s b. run_calls mem_ops cs (new_mem_store u) = (map Inr rs, s) \<and> spec_run (new_spec u) cs rs b"
  using mem.run_simulates [OF new_mem_store_invar assms] mem_abs_new by metis

text \<open>C4. Whatever the engine asks of the SQLite store, in any order and number, starting from a database
  without rows, every call returns, the answers are those of a run of the specification, and that run ends in the
  state the rows stand for. The keys and sessions that are saved have to be ones whose text form is read back
  (\<open>storable_call\<close>).\<close>

theorem sqlite_refines_specification:
  assumes "dm_ready m" "same_rows (empty_database\<lparr>foreign_keys := True\<rparr>) (db_of m)" "list_all (storable_call P) cs"
  shows "\<exists>rs s. run_calls (sql_ops P) cs (new_SqliteSignalStore u m) = (map Inr rs, s) \<and>
     spec_run (new_spec u) cs rs (stored_state P s)"
  using sqlite_history [OF assms] by blast

definition sample_calls :: "store_call list" where
  "sample_calls = [SaveSession ''B0'' sample_session, HasSession ''b0'', RemoveSession ''B0'', GetSession ''b0'', CountOneTimePreKeys]"

lemma sample_calls_storable: "list_all (storable_call model_prims) sample_calls"
proof -
  have "hexToBytes model_prims ''01'' = Inr [1]" by code_simp
  then show ?thesis
    by (simp add: sample_calls_def storable_session_def storable_keypair_def sample_session_def
        hexToBytes_bytesToHex [OF model_hex_codec])
qed

theorem sqlite_refines_specification_witness:
  "\<exists>rs s. run_calls (sql_ops model_prims) sample_calls (new_SqliteSignalStore sample_identity memory_manager) = (map Inr rs, s) \<and>
     spec_run (new_spec sample_identity) sample_calls rs (stored_state model_prims s)"
  by (rule sqlite_refines_specification [OF memory_manager_ready sample_calls_storable])

text \<open>C20. Two engines that make the same calls, one on the SQLite store and one on the in-memory store, get
  the same answers to all of them, up to the choice between signed pre-keys of the same age.\<close>

theorem providers_agree:
  assumes "dm_ready m" "same_rows (empty_database\<lparr>foreign_keys := True\<rparr>) (db_of m)" "list_all (storable_call P) cs"
  shows "\<exists>rs rs' s s'. run_calls (sql_ops P) cs (new_SqliteSignalStore u m) = (map Inr rs, s) \<and>
     run_calls mem_ops cs (new_mem_store u) = (map Inr rs', s') \<and> list_all2 same_answer rs rs'"
proof -
  obtain rs s where sq: "run_calls (sql_ops P) cs (new_SqliteSignalStore u m) = (map Inr rs, s)"
    "spec_run (new_spec u) cs rs (stored_state P s)" using sqlite_history [OF assms] by blast
  obtain rs' s' b' where me: "run_calls mem_ops cs (new_mem_store u) = (map Inr rs', s')" "spec_run (new_spec u) cs rs' b'"
    using memory_history [OF assms(3)] by blast
  show ?thesis using sq(1) me(1) spec_run_deterministic [OF sq(2) me(2)] by blast
qed

theorem providers_agree_witness:
  "\<exists>rs rs' s s'. run_calls (sql_ops model_prims) sample_calls (new_SqliteSignalStore sample_identity memory_manager) = (map Inr rs, s) \<and>
     run_calls mem_ops sample_calls (new_mem_store sample_identity) = (map Inr rs', s') \<and> list_all2 same_answer rs rs'"
  by (rule providers_agree [OF memory_manager_ready sample_calls_storable])

end
