(* ===== verification/Interleaving.thy ===== *)
theory Interleaving
  imports Engine_Properties
begin

section \<open>Calls that overlap\<close>

text \<open>
  The other theories let every asynchronous method run to its end. Here \<open>encrypt\<close> and \<open>decrypt\<close> of
  \<open>client/src/crypto/CryptoEngine.ts\<close> are cut at their \<open>await\<close>s: a process is finished, or waits and
  goes on with the state it finds then. The orchestrator does not wait for \<open>handleIncomingMessage\<close> when the
  stream calls it, so that receiving overlaps with sending and with receiving. A call of the store is atomic, and a process keeps
  the session record it was given, as with the SQLite store, which builds a new record for every caller.
\<close>

subsection \<open>Processes\<close>

datatype ('s, 'a) proc = Done "'a res" | Await "'s \<Rightarrow> ('s, 'a) proc \<times> 's"

definition await :: "('s, 'b) M \<Rightarrow> ('b \<Rightarrow> ('s, 'a) proc) \<Rightarrow> ('s, 'a) proc" where
  "await m k = Await (\<lambda>s. case m s of (Inl e, s') \<Rightarrow> (Done (Inl e), s') | (Inr b, s') \<Rightarrow> (k b, s'))"

definition sync :: "'b res \<Rightarrow> ('b \<Rightarrow> ('s, 'a) proc) \<Rightarrow> ('s, 'a) proc" where
  "sync r k = (case r of Inl e \<Rightarrow> Done (Inl e) | Inr b \<Rightarrow> k b)"

text \<open>One turn of a process, and a process that is left alone.\<close>

fun turn :: "('s, 'a) proc \<Rightarrow> 's \<Rightarrow> ('s, 'a) proc \<times> 's" where
  "turn (Done r) s = (Done r, s)"
| "turn (Await f) s = f s"

primrec finish :: "('s, 'a) proc \<Rightarrow> ('s, 'a) M" where
  "finish (Done r) = (\<lambda>s. (r, s))"
| "finish (Await f) = (\<lambda>s. case map_prod finish id (f s) of (g, s') \<Rightarrow> g s')"

declare finish.simps [simp del]

text \<open>Two processes take turns by a schedule: \<open>True\<close> is a turn of the first.\<close>

primrec overlap :: "bool list \<Rightarrow> ('s, 'a) proc \<Rightarrow> ('s, 'b) proc \<Rightarrow> 's \<Rightarrow> (('s, 'a) proc \<times> ('s, 'b) proc) \<times> 's" where
  "overlap [] p q s = ((p, q), s)"
| "overlap (b # bs) p q s =
     (if b then (case turn p s of (p', s') \<Rightarrow> overlap bs p' q s') else (case turn q s of (q', s') \<Rightarrow> overlap bs p q' s'))"

lemma finish_await [simp]: "finish (await m k) = bindM m (\<lambda>b. finish (k b))"
  by (rule ext) (simp add: finish.simps await_def bindM_def split: prod.split sum.split)

lemma finish_sync [simp]: "finish (sync r k) = bindM (liftM r) (\<lambda>b. finish (k b))"
  by (rule ext) (simp add: finish.simps sync_def bindM_def liftM_def split: sum.split)

lemma finish_Done [simp]: "finish (Done r) = liftM r"
  by (rule ext) (simp add: finish.simps liftM_def)

lemma turn_await: "m s = (Inr b, s') \<Longrightarrow> turn (await m k) s = (k b, s')"
  by (simp add: await_def)

text \<open>Two processes that pass through stages, each of which keeps what the other relies on: after any schedule each
  is as far as its number of turns has taken it.\<close>

lemma overlap_stages:
  fixes ps :: "nat \<Rightarrow> ('s, 'a) proc" and qs :: "nat \<Rightarrow> ('s, 'b) proc" and I :: "nat \<Rightarrow> nat \<Rightarrow> 's \<Rightarrow> bool"
  assumes p: "\<And>i j s. I i j s \<Longrightarrow> i < a \<Longrightarrow> \<exists>s'. turn (ps i) s = (ps (Suc i), s') \<and> I (Suc i) j s'" "ps a = Done r"
    and q: "\<And>i j s. I i j s \<Longrightarrow> j < b \<Longrightarrow> \<exists>s'. turn (qs j) s = (qs (Suc j), s') \<and> I i (Suc j) s'" "qs b = Done r'"
  shows "I i j s \<Longrightarrow> i \<le> a \<Longrightarrow> j \<le> b \<Longrightarrow> a \<le> i + count_list bs True \<Longrightarrow> b \<le> j + count_list bs False \<Longrightarrow>
     \<exists>s'. overlap bs (ps i) (qs j) s = ((Done r, Done r'), s') \<and> I a b s'"
proof (induction bs arbitrary: i j s)
  case Nil
  then show ?case using p(2) q(2) by (auto dest: antisym)
next
  case (Cons x bs)
  show ?case
  proof (cases x)
    case True
    show ?thesis
    proof (cases "i = a")
      case True
      then show ?thesis using Cons.IH [OF Cons.prems(1-3)] Cons.prems \<open>x\<close> p(2) by simp
    next
      case False
      then obtain s' where "turn (ps i) s = (ps (Suc i), s')" "I (Suc i) j s'" using p(1) Cons.prems(1,2) by fastforce
      then show ?thesis using Cons.IH [of "Suc i" j s'] Cons.prems False \<open>x\<close> by simp
    qed
  next
    case nx: False
    show ?thesis
    proof (cases "j = b")
      case True
      then show ?thesis using Cons.IH [OF Cons.prems(1-3)] Cons.prems nx q(2) by simp
    next
      case False
      then obtain s' where "turn (qs j) s = (qs (Suc j), s')" "I i (Suc j) s'" using q(1) Cons.prems(1,3) by fastforce
      then show ?thesis using Cons.IH [of i "Suc j" s'] Cons.prems False nx by simp
    qed
  qed
qed

subsection \<open>The engine's methods\<close>

definition encrypt_saved ::
  "prims \<Rightarrow> 's store_ops \<Rightarrow> bytes \<Rightarrow> int option \<Rightarrow> int \<times> bytes \<times> session \<Rightarrow> ('s, encrypted_message) proc" where
  "encrypt_saved P S nonce contextOtkId = (\<lambda>(seqNum, ciphertext, ses).
     let otkIdToSend = (if contextOtkId \<noteq> None then contextOtkId
                        else if seqNum = 0 then oneTimePreKeyId ses else None) in
     await (getIdentity S) (\<lambda>u.
     Done (Inr \<lparr>em_ephemeralPublicKeyHex = publicKeyHex (localDhKeyPair ses),
          em_sequenceNumber = seqNum,
          em_previousChainLength = previousChainLength ses,
          em_ciphertext = b64_encode ciphertext,
          em_nonce = bytesToHex P nonce,
          em_oneTimePreKeyId = otkIdToSend,
          em_initialIdentityKeyHex = Some (publicKeyHex (encryptionKey u)),
          em_initialEphemeralKeyHex = Some (publicKeyHex (localDhKeyPair ses))\<rparr>)))"

definition encrypt_loaded ::
  "prims \<Rightarrow> 's store_ops \<Rightarrow> bytes \<Rightarrow> int \<Rightarrow> hex \<Rightarrow> string \<Rightarrow> int option \<Rightarrow> session \<Rightarrow> ('s, encrypted_message) proc" where
  "encrypt_loaded P S nonce now recipientKeyHex plaintext contextOtkId ses0 =
     await (bindM (on_session S recipientKeyHex (encryptStep P nonce now plaintext) ses0) (\<lambda>((seqNum, ciphertext), ses).
            bindM (saveSession S recipientKeyHex ses) (\<lambda>_. ret (seqNum, ciphertext, ses))))
       (encrypt_saved P S nonce contextOtkId)"

definition encrypt_proc ::
  "prims \<Rightarrow> 's store_ops \<Rightarrow> bytes \<Rightarrow> int \<Rightarrow> hex \<Rightarrow> string \<Rightarrow> int option \<Rightarrow> ('s, encrypted_message) proc" where
  "encrypt_proc P S nonce now recipientKeyHex plaintext contextOtkId =
     await (getSession S recipientKeyHex) (\<lambda>so.
     case so of None \<Rightarrow> Done (Inl (Error (''No active session found for '' @ recipientKeyHex)))
     | Some ses0 \<Rightarrow> encrypt_loaded P S nonce now recipientKeyHex plaintext contextOtkId ses0)"

definition take_proc :: "'s store_ops \<Rightarrow> int option \<Rightarrow> (one_time_prekey option \<Rightarrow> ('s, 'a) proc) \<Rightarrow> ('s, 'a) proc" where
  "take_proc S io k =
     (case io of None \<Rightarrow> k None
      | Some i \<Rightarrow> await (getOneTimePreKey S i) (\<lambda>opk.
          case opk of None \<Rightarrow> k None | Some v \<Rightarrow> await (removeOneTimePreKey S i) (\<lambda>_. k (Some v))))"

definition initiateBob_agreed ::
  "prims \<Rightarrow> 's store_ops \<Rightarrow> bytes \<Rightarrow> int \<Rightarrow> hex \<Rightarrow> encrypted_message \<Rightarrow> (session \<Rightarrow> ('s, 'a) proc) \<Rightarrow>
     identity \<Rightarrow> bytes \<Rightarrow> bytes \<Rightarrow> signed_prekey \<Rightarrow> one_time_prekey option \<Rightarrow> ('s, 'a) proc" where
  "initiateBob_agreed P S dhsSecret now senderKeyHex msg k u ikA ekA spk opk =
     sync (x3dh_responder P u (spk_keyPair spk) (map_option otk_keyPair opk) ikA ekA (em_ephemeralPublicKeyHex msg)) (\<lambda>rc.
     let ses = bob_session P dhsSecret now senderKeyHex (em_ephemeralPublicKeyHex msg) rc in
     await (saveSession S senderKeyHex ses) (\<lambda>_. k ses))"

definition initiateBob_proc ::
  "prims \<Rightarrow> 's store_ops \<Rightarrow> bytes \<Rightarrow> int \<Rightarrow> hex \<Rightarrow> encrypted_message \<Rightarrow> (session \<Rightarrow> ('s, 'a) proc) \<Rightarrow> ('s, 'a) proc" where
  "initiateBob_proc P S dhsSecret now senderKeyHex msg k =
     (if \<not> truthy (em_initialEphemeralKeyHex msg) \<or> \<not> truthy (em_initialIdentityKeyHex msg)
      then Done (Inl (Error ''Initial message missing X3DH parameters''))
      else
        await (getIdentity S) (\<lambda>u.
        sync (hexToBytes P (the (em_initialIdentityKeyHex msg))) (\<lambda>ikA.
        sync (hexToBytes P (the (em_initialEphemeralKeyHex msg))) (\<lambda>ekA.
        await (getLatestSignedPreKey S) (\<lambda>spko.
        case spko of None \<Rightarrow> Done (Inl (Error ''No Signed PreKey found in store''))
        | Some spk \<Rightarrow>
          take_proc S (em_oneTimePreKeyId msg)
            (initiateBob_agreed P S dhsSecret now senderKeyHex msg k u ikA ekA spk))))))"

definition decrypt_loaded ::
  "prims \<Rightarrow> 's store_ops \<Rightarrow> bytes \<Rightarrow> int \<Rightarrow> hex \<Rightarrow> encrypted_message \<Rightarrow> session \<Rightarrow> ('s, string) proc" where
  "decrypt_loaded P S ratchetSecret now senderKeyHex msg ses0 =
     await (bindM (on_session S senderKeyHex (openSession P ratchetSecret now msg) ses0) (\<lambda>(messageKey, ses).
            bindM (saveSession S senderKeyHex ses) (\<lambda>_. ret messageKey))) (\<lambda>messageKey.
     Done (decryptWithKey P msg messageKey))"

definition decrypt_proc ::
  "prims \<Rightarrow> 's store_ops \<Rightarrow> bytes \<Rightarrow> bytes \<Rightarrow> int \<Rightarrow> hex \<Rightarrow> encrypted_message \<Rightarrow> ('s, string) proc" where
  "decrypt_proc P S bobSecret ratchetSecret now senderKeyHex msg =
     await (getSession S senderKeyHex) (\<lambda>so.
     case so of None \<Rightarrow> initiateBob_proc P S bobSecret now senderKeyHex msg (decrypt_loaded P S ratchetSecret now senderKeyHex msg)
     | Some ses \<Rightarrow> decrypt_loaded P S ratchetSecret now senderKeyHex msg ses)"

text \<open>Left alone, the processes are the methods.\<close>

lemma lift_ret [simp]: "liftM (Inr a) = ret a" "liftM (Inl e) = throwM e"
  by (auto simp: liftM_def ret_def throwM_def)

lemma encrypt_proc_alone: "finish (encrypt_proc P S nonce now k pt ctx) = encrypt P S nonce now k pt ctx"
  unfolding encrypt_proc_def encrypt_loaded_def encrypt_saved_def encrypt_def finish_await
  by (rule arg_cong [where f = "bindM _"], rule ext)
    (simp add: bindM_assoc split_def Let_def cong: if_cong split: option.split)

lemma take_proc_alone: "finish (take_proc S io k) = bindM (take_oneTimePreKey S io) (\<lambda>opk. finish (k opk))"
proof (cases io)
  case (Some i)
  have "bindM (getOneTimePreKey S i) (\<lambda>opk. finish (case opk of None \<Rightarrow> k None
        | Some v \<Rightarrow> await (removeOneTimePreKey S i) (\<lambda>_. k (Some v)))) s =
      bindM (getOneTimePreKey S i) (\<lambda>opk. bindM (case opk of None \<Rightarrow> ret None
        | Some v \<Rightarrow> bindM (removeOneTimePreKey S i) (\<lambda>_. ret (Some v))) (\<lambda>opk. finish (k opk))) s" for s
    unfolding bindM_def [of "getOneTimePreKey S i"] by (simp add: bindM_assoc split: prod.split sum.split option.split)
  then show ?thesis using Some by (simp add: take_proc_def take_oneTimePreKey_def bindM_assoc ext)
qed (simp add: take_proc_def take_oneTimePreKey_def)

lemma initiateBob_proc_alone:
  "finish (initiateBob_proc P S dhs now sk msg k) = bindM (initiateBobSession P S dhs now sk msg) (\<lambda>ses. finish (k ses))"
proof (cases "\<not> truthy (em_initialEphemeralKeyHex msg) \<or> \<not> truthy (em_initialIdentityKeyHex msg)")
  case False
  have e: "finish (case spko of None \<Rightarrow> Done (Inl e) | Some v \<Rightarrow> f v) = bindM (case spko of None \<Rightarrow> throwM e | Some v \<Rightarrow> g v) h"
    if "\<And>v. finish (f v) = bindM (g v) h"
    for spko :: "signed_prekey option" and e f and g :: "signed_prekey \<Rightarrow> ('a, session) M" and h :: "session \<Rightarrow> ('a, 'b) M"
    using that by (simp split: option.split)
  show ?thesis using False
    unfolding initiateBob_proc_def initiateBobSession_def
    by (simp only: if_False finish_await finish_sync bindM_assoc)
      (intro arg_cong [where f = "bindM _"] ext e,
        simp add: bindM_assoc take_proc_alone initiateBob_agreed_def Let_def bob_session_def split_def)
qed (simp add: initiateBob_proc_def initiateBobSession_def)

lemma open_await:
  "finish (decrypt_loaded P S rk now k msg ses) =
    (if hasSkippedKey ses msg
     then bindM (on_session S k (takeSkippedKey P msg) ses)
        (\<lambda>(mk, ses'). bindM (saveSession S k ses') (\<lambda>_. liftM (decryptWithKey P msg mk)))
     else bindM (on_session S k (deriveMessageKey P rk now msg) ses)
        (\<lambda>(mk, ses'). bindM (saveSession S k ses') (\<lambda>_. liftM (decryptWithKey P msg mk))))"
proof -
  have o: "on_session S k (openSession P rk now msg) ses =
      on_session S k (if hasSkippedKey ses msg then takeSkippedKey P msg else deriveMessageKey P rk now msg) ses"
    by (rule ext) (simp add: on_session_def openSession_def)
  show ?thesis unfolding decrypt_loaded_def finish_await o finish_Done
    by (simp add: bindM_assoc split_def del: liftM_apply split: if_split)
qed

lemma decrypt_proc_alone: "finish (decrypt_proc P S bk rk now k msg) = decrypt P S bk rk now k msg"
  unfolding decrypt_proc_def decrypt_def finish_await [of "getSession S k"]
proof (rule arg_cong [where f = "bindM _"], rule ext, goal_cases)
  case (1 so)
  show ?case by (cases so) (simp_all only: option.case initiateBob_proc_alone open_await bindM_ret)
qed

text \<open>A message whose number is not ahead of the chain is tried with the chain's next key.\<close>

lemma stale_receive:
  assumes "hex_codec P" "kdf_length P" "recv_at P ses c n" "remoteDhPublicKeyHex ses = Some h" "wf_header h"
    and "em_ephemeralPublicKeyHex msg = h" "em_sequenceNumber msg = int m" "m \<le> n"
    and "obj_get (skippedMessageKeys ses) (skippedKeyId h (int m)) = None"
  shows "openSession P rk now msg ses = (Inr (message_key P c n), advanced P c n now (skip_to P c h n m ses))"
proof -
  have "int m \<le> int n + MAX_SKIP_MESSAGES" using assms(8) by (simp add: MAX_SKIP_MESSAGES_def)
  from deriveMessageKey_any [OF assms(1-7) this] show ?thesis
    using assms(6-9) by (simp add: openSession_def hasSkippedKey_def max_def)
qed

text \<open>A message is sealed with the key of its number, and no other key opens it.\<close>

lemma encryptStep_sealed:
  assumes L: "ratchet_laws P" and "send_at P ses c n" "encryptStep P nonce now pt ses = (Inr (sn, ct), ses')"
  shows "sn = int n \<and> secretbox P (text_encode pt) nonce (message_key P c n) = Inr ct"
proof -
  note laws = ratchet_lawsD [OF L]
  have s: "sendChainKeyHex ses = Some (bytesToHex P (chain_key P c n))" "sendSequenceNumber ses = int n"
    using assms(2) by (simp_all add: send_at_def)
  have e: "ensureSendChain P ses = (Inr (), ses)" using ensureSendChain_at [OF laws(1,3) assms(2)] .
  show ?thesis using assms(3)
    unfolding encryptStep_def bindM_Inr [where m = "ensureSendChain P", OF e]
    by (simp only: bindM_getM id_apply s option.sel hexToBytes_bytesToHex [OF laws(1)] bindM_liftM_Inr
        kdfChain_chain_key Let_def prod.case bindM_modifyM)
      (cases "secretbox P (text_encode pt) nonce (message_key P c n)"; simp)
qed

lemma wrong_key_refused:
  assumes "ratchet_laws P" "secretbox_authentic P" "carries P ses nonce n ct msg" "length nonce = 24"
    and "secretbox P pt nonce k = Inr ct" "length k = 32" "length k' = 32" "k \<noteq> k'"
  shows "decryptWithKey P msg k' = Inl (Error ''Decryption failed or message corrupted / tampered with'')"
proof -
  have "secretbox_open P ct nonce k' = Inr None" using assms(2,4-8) unfolding secretbox_authentic_def by blast
  then show ?thesis
    using assms(3) ratchet_lawsD(1) [OF assms(1)] by (simp add: decryptWithKey_def carries_def prim_laws)
qed

subsection \<open>Concrete sessions\<close>

text \<open>A session that can send and receive, the other end of its sending chain, and a store that holds two sessions.\<close>

definition demo_sender :: session where
  "demo_sender = demo_session\<lparr>sendChainKeyHex := Some (bytesToHex model_prims (replicate 32 0))\<rparr>"

definition demo_receiver :: session where
  "demo_receiver = demo_session\<lparr>remoteDhPublicKeyHex := Some (publicKeyHex (localDhKeyPair demo_session))\<rparr>"

lemma demo_local_header: "wf_header (publicKeyHex (localDhKeyPair demo_session))"
proof -
  have "box_keypair model_prims (localDhKeyPair demo_session)" unfolding demo_session_def by (simp add: generated_keypair)
  then show ?thesis by (rule wf_header_keypair [OF model_hex_codec model_dh_agreement])
qed

lemma demo_ends:
  "storable_session model_prims demo_sender" "storable_session model_prims demo_receiver"
  "send_at model_prims demo_sender (replicate 32 0) 0" "recv_at model_prims demo_sender (replicate 32 0) 0"
  "remoteDhPublicKeyHex demo_sender = Some demo_hex"
  "obj_get (skippedMessageKeys demo_sender) (skippedKeyId demo_hex (int 0)) = None"
  "recv_at model_prims demo_receiver (replicate 32 0) 0"
  "remoteDhPublicKeyHex demo_receiver = Some (publicKeyHex (localDhKeyPair demo_sender))"
  "wf_header (publicKeyHex (localDhKeyPair demo_sender))"
  "obj_get (skippedMessageKeys demo_receiver) (skippedKeyId (publicKeyHex (localDhKeyPair demo_sender)) (int 0)) = None"
  using demo_session_storable demo_session_recv demo_local_header
  by (simp_all add: storable_session_def demo_sender_def demo_receiver_def send_at_def recv_at_def demo_session_def)

lemma demo_genuine_sel: "em_ephemeralPublicKeyHex demo_genuine = demo_hex" "em_sequenceNumber demo_genuine = int 0"
  by (simp_all add: demo_genuine_def demo_message_def)

lemma demo_genuine_opens: "decryptWithKey model_prims demo_genuine (message_key model_prims (replicate 32 0) 0) = Inr ''hi''"
proof -
  have "text_decode (text_encode ''hi'') = ''hi''" by code_simp
  then show ?thesis by (simp add: demo_genuine_def demo_decryptWithKey demo_message_keys)
qed

lemma demo_saved:
  assumes "storable_session model_prims w" "storable_session model_prims w'"
  shows "\<exists>s. sql_invar model_prims s \<and> sql_sess model_prims s (toLowerCase ''b0'') = Some w \<and>
     sql_sess model_prims s (toLowerCase ''c0'') = Some w'"
proof -
  have c: "toLowerCase ''c0'' = ''c0''" by code_simp
  have "sql_invar model_prims (new_SqliteSignalStore (demo_identity Alice) memory_manager)"
    by (rule new_sql_store(1) [OF memory_manager_ready])
  from sql.saveSession [OF this assms(1), of "''b0''"] obtain s where s: "sql_invar model_prims s"
    "sql_sess model_prims s ''b0'' = Some w" by auto
  from sql.saveSession [OF s(1) assms(2), of "''c0''"] show ?thesis using s(2) c by auto
qed

subsection \<open>Calls for different contacts\<close>

context signal_store
begin

text \<open>A send to one contact and a receive from another, taken apart into their stages, change one entry each of the
  table of sessions.\<close>

lemma apart_run:
  assumes inv: "invar s" and ne: "toLowerCase kB \<noteq> toLowerCase kC"
    and B: "sess s (toLowerCase kB) = Some b" "encryptStep P nonce now pt b = (Inr (n, ct), b')" "storable_session P b'"
    and C: "sess s (toLowerCase kC) = Some c" "openSession P rk now' g c = (Inr mk, c')" "storable_session P c'"
    and turns: "3 \<le> count_list bs True" "2 \<le> count_list bs False"
  shows "\<exists>s'. overlap bs (encrypt_proc P S nonce now kB pt None) (decrypt_proc P S bk rk now' kC g) s
        = ((Done (fst (encrypt P S nonce now kB pt None s)), Done (decryptWithKey P g mk)), s') \<and>
     invar s' \<and> sess s' = (sess s)(toLowerCase kB \<mapsto> b', toLowerCase kC \<mapsto> c') \<and> spks s' = spks s \<and> otks s' = otks s"
proof -
  define T where "T i j = (sess s)(toLowerCase kB := if i < (2 :: nat) then Some b else Some b',
      toLowerCase kC := if j < (2 :: nat) then Some c else Some c')" for i j
  define I where "I i j x \<longleftrightarrow> invar x \<and> ident x = ident s \<and> spks x = spks s \<and> otks x = otks s \<and> sess x = T i j" for i j x
  define r where "r = fst (encrypt P S nonce now kB pt None s)"
  have T: "T i j (toLowerCase kB) = (if i < 2 then Some b else Some b')" "T i j (toLowerCase kC) = (if j < 2 then Some c else Some c')"
    "T (Suc 1) j = (T 1 j)(toLowerCase kB \<mapsto> b')" "T i (Suc 1) = (T i 1)(toLowerCase kC \<mapsto> c')"
    "T 1 j = T 0 j" "T (Suc (Suc 1)) j = T (Suc 1) j" "T i 1 = T i 0" for i j
    using ne by (simp_all add: T_def fun_upd_twist [OF ne])
  define ps where "ps i = [encrypt_proc P S nonce now kB pt None, encrypt_loaded P S nonce now kB pt None b,
      encrypt_saved P S nonce None (n, ct, b'), Done r] ! i" for i
  define qs where "qs j = [decrypt_proc P S bk rk now' kC g, decrypt_loaded P S rk now' kC g c,
      Done (decryptWithKey P g mk)] ! j" for j
  have e: "on_session S kB (encryptStep P nonce now pt) b x = (Inr ((n, ct), b'), mutateSession S kB b' x)" for x
    using on_session_Inr [where m = "encryptStep P nonce now pt", OF B(2)] .
  have d: "on_session S kC (openSession P rk now' g) c x = (Inr (mk, c'), mutateSession S kC c' x)" for x
    using on_session_Inr [where m = "openSession P rk now' g", OF C(2)] .
  have r: "turn (encrypt_saved P S nonce None (n, ct, b')) x = (Done r, x)" if "ident x = ident s" for x
  proof -
    obtain s' where s': "saveSession S kB b' (mutateSession S kB b' s) = (Inr (), s')" "ident s' = ident s"
      using save_mutated [OF inv B(3), of kB] by blast
    have "getSession S kB s = (Inr (Some b), s)" using getSession [OF inv] B(1) by simp
    then show ?thesis using e s' getIdentity that
      by (simp add: r_def encrypt_def encrypt_saved_def bindM_def await_def Let_def)
  qed
  have step1: "\<exists>x'. turn (ps i) x = (ps (Suc i), x') \<and> I (Suc i) j x'" if "I i j x" "i < 3" for i j x
  proof -
    have x: "invar x" "ident x = ident s" "sess x = T i j" "spks x = spks s" "otks x = otks s" using that(1) by (simp_all add: I_def)
    have "i < 3" using that(2) .
    then consider "i = 0" | "i = 1" | "i = Suc 1" by linarith
    then show ?thesis
    proof cases
      case 1
      then show ?thesis using x getSession [OF x(1), of kB] T(1,5)
        by (simp add: ps_def I_def encrypt_proc_def await_def)
    next
      case 2
      obtain y where y: "saveSession S kB b' (mutateSession S kB b' x) = (Inr (), y)" "invar y"
        "sess y = (sess x)(toLowerCase kB \<mapsto> b')" "spks y = spks x" "otks y = otks x" "ident y = ident x"
        using save_mutated [OF x(1) B(3), of kB] by blast
      then show ?thesis using 2 x e T(3) by (simp add: ps_def I_def encrypt_loaded_def await_def bindM_def)
    next
      case 3
      then show ?thesis using x r T(6) by (simp add: ps_def I_def)
    qed
  qed
  have step2: "\<exists>x'. turn (qs j) x = (qs (Suc j), x') \<and> I i (Suc j) x'" if "I i j x" "j < 2" for i j x
  proof -
    have x: "invar x" "ident x = ident s" "sess x = T i j" "spks x = spks s" "otks x = otks s" using that(1) by (simp_all add: I_def)
    have "j < 2" using that(2) .
    then consider "j = 0" | "j = 1" by linarith
    then show ?thesis
    proof cases
      case 1
      then show ?thesis using x getSession [OF x(1), of kC] T(2,7)
        by (simp add: qs_def I_def decrypt_proc_def await_def)
    next
      case 2
      obtain y where y: "saveSession S kC c' (mutateSession S kC c' x) = (Inr (), y)" "invar y"
        "sess y = (sess x)(toLowerCase kC \<mapsto> c')" "spks y = spks x" "otks y = otks x" "ident y = ident x"
        using save_mutated [OF x(1) C(3), of kC] by blast
      then show ?thesis using 2 x d T(4) by (simp add: qs_def I_def decrypt_loaded_def await_def bindM_def)
    qed
  qed
  have "sess s = T 0 0" using B(1) C(1) by (auto simp: T_def)
  then have "I 0 0 s" using inv by (simp add: I_def)
  from overlap_stages [where I = I and ps = ps and qs = qs, OF step1 _ step2 _ this, of 3 r 2 "decryptWithKey P g mk" bs] turns
  obtain s' where "overlap bs (ps 0) (qs 0) s = ((Done r, Done (decryptWithKey P g mk)), s')" "I 3 2 s'"
    by (auto simp: ps_def qs_def)
  then show ?thesis by (auto simp: ps_def qs_def I_def T_def r_def)
qed

end

text \<open>C10. On the SQLite store, a send to one contact and a receive from another do not disturb each other: whatever the
  order of their turns, each returns what it would have returned alone, and the sessions and pre-keys that are left are
  those of one call after the other. The hypotheses are that both contacts have a session and that the session
  functions succeed with sessions that can be stored.\<close>

theorem different_contacts_independent:
  assumes "sql_invar P s" "toLowerCase kB \<noteq> toLowerCase kC"
    and "sql_sess P s (toLowerCase kB) = Some b" "encryptStep P nonce t pt b = (Inr (n, ct), b')" "storable_session P b'"
    and "sql_sess P s (toLowerCase kC) = Some c" "openSession P rk t g c = (Inr mk, c')" "storable_session P c'"
    and "3 \<le> count_list bs True" "2 \<le> count_list bs False"
  shows "\<exists>msg s1 pt' s2 s'. encrypt P (sql_ops P) nonce t kB pt None s = (Inr msg, s1) \<and>
     decrypt P (sql_ops P) bk rk t kC g s1 = (pt', s2) \<and> pt' = fst (decrypt P (sql_ops P) bk rk t kC g s) \<and>
     overlap bs (encrypt_proc P (sql_ops P) nonce t kB pt None) (decrypt_proc P (sql_ops P) bk rk t kC g) s
       = ((Done (Inr msg), Done pt'), s') \<and>
     sql_invar P s' \<and> sql_sess P s' = sql_sess P s2 \<and> sql_spks P s' = sql_spks P s2 \<and> sql_otks P s' = sql_otks P s2"
proof -
  obtain msg s1 where e: "encrypt P (sql_ops P) nonce t kB pt None s = (Inr msg, s1)" "sql_invar P s1"
    "sql_sess P s1 = (sql_sess P s)(toLowerCase kB \<mapsto> b')" "sql_spks P s1 = sql_spks P s" "sql_otks P s1 = sql_otks P s"
    using sql.encrypt_run [OF assms(1,3-5)] by blast
  have c: "sql_sess P s1 (toLowerCase kC) = Some c" using e(3) assms(2,6) by simp
  obtain s2 where d: "decrypt P (sql_ops P) bk rk t kC g s1 = (decryptWithKey P g mk, s2)"
    "sql_sess P s2 = (sql_sess P s1)(toLowerCase kC \<mapsto> c')" "sql_spks P s2 = sql_spks P s1" "sql_otks P s2 = sql_otks P s1"
    using sql.decrypt_run [OF e(2) c assms(7,8), of bk] by blast
  have "fst (decrypt P (sql_ops P) bk rk t kC g s) = decryptWithKey P g mk"
    using sql.decrypt_run [OF assms(1,6-8), of bk] by (metis fst_conv)
  moreover obtain s' where "overlap bs (encrypt_proc P (sql_ops P) nonce t kB pt None) (decrypt_proc P (sql_ops P) bk rk t kC g) s
        = ((Done (fst (encrypt P (sql_ops P) nonce t kB pt None s)), Done (decryptWithKey P g mk)), s')" "sql_invar P s'"
    "sql_sess P s' = (sql_sess P s)(toLowerCase kB \<mapsto> b', toLowerCase kC \<mapsto> c')"
    "sql_spks P s' = sql_spks P s" "sql_otks P s' = sql_otks P s"
    using sql.apart_run [OF assms, of bk] by blast
  ultimately show ?thesis using e d by auto
qed

text \<open>Two contacts \<open>b0\<close> and \<open>c0\<close>: \<open>hi\<close> arrives from the second while \<open>one\<close> is sent to the first.\<close>

theorem different_contacts_independent_witness:
  "\<exists>s msg s'. sql_invar model_prims s' \<and>
     overlap [False, True, True, False, True]
       (encrypt_proc model_prims (sql_ops model_prims) (replicate 24 0) 0 ''b0'' ''one'' None)
       (decrypt_proc model_prims (sql_ops model_prims) [] [] 0 ''c0'' demo_genuine) s
       = ((Done (Inr msg), Done (Inr ''hi'')), s')"
proof -
  note laws = ratchet_lawsD [OF model_ratchet_laws]
  let ?P = model_prims and ?c = "replicate 32 0 :: bytes"
  let ?D = "advanced ?P ?c 0 0 (skip_to ?P ?c demo_hex 0 0 demo_sender)"
  obtain s where s: "sql_invar ?P s" "sql_sess ?P s (toLowerCase ''b0'') = Some demo_sender"
    "sql_sess ?P s (toLowerCase ''c0'') = Some demo_sender" using demo_saved demo_ends(1) by meson
  have ne: "toLowerCase ''b0'' \<noteq> toLowerCase ''c0''" by code_simp
  have "length (replicate 24 (0 :: byte)) = 24" by simp
  from encryptStep_at [OF model_ratchet_laws ensureSendChain_at [OF laws(1,3) demo_ends(3)] demo_ends(3) this, of 0 "''one''"]
  obtain ct where E: "encryptStep ?P (replicate 24 0) 0 ''one'' demo_sender = (Inr (int 0, ct), sent ?P ?c 0 0 demo_sender)" by blast
  have D: "openSession ?P [] 0 demo_genuine demo_sender = (Inr (message_key ?P ?c 0), ?D)"
    by (rule stale_receive [OF laws(1,3) demo_ends(4,5) demo_hex_ok demo_genuine_sel _ demo_ends(6)]) simp
  have st: "storable_session ?P (sent ?P ?c 0 0 demo_sender)" "storable_session ?P ?D"
    using demo_ends(1) storable_advanced by (simp_all add: storable_session_def)
  have bs: "3 \<le> count_list [False, True, True, False, True] True" "2 \<le> count_list [False, True, True, False, True] False" by simp_all
  obtain s2 where "decrypt ?P (sql_ops ?P) [] [] 0 ''c0'' demo_genuine s = (Inr ''hi'', s2)"
    using sql.decrypt_run [OF s(1,3) D st(2), of "[]"] demo_genuine_opens by auto
  then show ?thesis
    using different_contacts_independent [OF s(1) ne s(2) E st(1) s(3) D st(2) bs, of "[]"] by auto
qed

subsection \<open>A receive between the two store calls of a send\<close>

text \<open>The schedules in which both methods load the session, the send saves, and the receive saves after it. Each
  method has a turn to load and a turn to save, and the send one more, to read the identity.\<close>

fun crossing :: "bool list \<Rightarrow> bool" where
  "crossing (x # y # z # bs) = (x \<noteq> y \<and> z \<and> True \<in> set bs \<and> False \<in> set bs)"
| "crossing _ = False"

context signal_store
begin

text \<open>The session that stays is the receiver's.\<close>

lemma crossing_run:
  assumes inv: "invar s" "sess s (toLowerCase k) = Some ses"
    and E: "encryptStep P nonce now pt ses = (Inr (n, ct), sesE)" "storable_session P sesE"
    and D: "openSession P rk now' g ses = (Inr mk, sesD)" "storable_session P sesD"
    and bs: "crossing bs"
  shows "\<exists>msg s'. overlap bs (encrypt_proc P S nonce now k pt None) (decrypt_proc P S bk rk now' k g) s
        = ((Done (Inr msg), Done (decryptWithKey P g mk)), s') \<and>
     carries P sesE nonce n ct msg \<and> invar s' \<and> sess s' = (sess s)(toLowerCase k \<mapsto> sesD)"
proof -
  obtain x y rest where b: "bs = x # y # True # rest" "x \<noteq> y" "True \<in> set rest" "False \<in> set rest"
    using bs by (cases bs rule: crossing.cases) auto
  obtain s1 where s1: "saveSession S k sesE (mutateSession S k sesE s) = (Inr (), s1)" "invar s1" "ident s1 = ident s"
    "sess s1 = (sess s)(toLowerCase k \<mapsto> sesE)" using save_mutated [OF inv(1) E(2)] by blast
  have get: "getSession S k s = (Inr (Some ses), s)" using getSession [OF inv(1)] inv(2) by simp
  have e: "on_session S k (encryptStep P nonce now pt) ses s = (Inr ((n, ct), sesE), mutateSession S k sesE s)"
    using on_session_Inr [where m = "encryptStep P nonce now pt", OF E(1)] .
  have d: "on_session S k (openSession P rk now' g) ses s = (Inr (mk, sesD), mutateSession S k sesD s)" for s
    using on_session_Inr [where m = "openSession P rk now' g", OF D(1)] .
  let ?E = "encrypt_saved P S nonce None (n, ct, sesE)" and ?D = "decrypt_loaded P S rk now' k g ses"
  have tail: "overlap bs (encrypt_proc P S nonce now k pt None) (decrypt_proc P S bk rk now' k g) s = overlap rest ?E ?D s1"
    using b(1,2) get e s1(1) by (cases x; cases y)
      (simp_all add: encrypt_proc_def encrypt_loaded_def decrypt_proc_def turn_await bindM_def)
  obtain msg where msg: "\<And>x. ident x = ident s \<Longrightarrow> turn ?E x = (Done (Inr msg), x)" "carries P sesE nonce n ct msg"
    using getIdentity by (simp add: encrypt_saved_def await_def Let_def carries_def)
  define I where "I i j x \<longleftrightarrow> invar x \<and> ident x = ident s \<and> sess x = (if j = (0 :: nat) then sess s1 else (sess s)(toLowerCase k \<mapsto> sesD))"
    for i j :: nat and x
  define ps where "ps i = [?E, Done (Inr msg)] ! i" for i
  define qs where "qs j = [?D, Done (decryptWithKey P g mk)] ! j" for j
  have P: "\<exists>x'. turn (ps i) x = (ps (Suc i), x') \<and> I (Suc i) j x'" if "I i j x" "i < 1" for i j x
    using that msg(1) [of x] by (simp add: ps_def I_def)
  have Q: "\<exists>x'. turn (qs j) x = (qs (Suc j), x') \<and> I i (Suc j) x'" if I: "I i j x" "j < 1" for i j x
  proof -
    have "invar x" using I(1) by (simp add: I_def)
    from save_mutated [OF this D(2), of k] obtain y where y: "saveSession S k sesD (mutateSession S k sesD x) = (Inr (), y)"
      "invar y" "sess y = (sess x)(toLowerCase k \<mapsto> sesD)" "ident y = ident x" by blast
    then show ?thesis using I d s1(4) by (simp add: qs_def I_def decrypt_loaded_def await_def bindM_def)
  qed
  have "0 < count_list rest True" "0 < count_list rest False" using b(3,4) count_list_0_iff by (metis gr0I)+
  then obtain s' where "overlap rest (ps 0) (qs 0) s1 = ((Done (Inr msg), Done (decryptWithKey P g mk)), s')" "I 1 1 s'"
    using overlap_stages [where I = I and ps = ps and qs = qs and i = 0 and j = 0 and s = s1 and bs = rest, OF P _ Q,
      of 1 "Inr msg" 1 "decryptWithKey P g mk"] s1(2-4) by (auto simp: ps_def qs_def I_def)
  then show ?thesis using msg(2) tail by (auto simp: ps_def qs_def I_def)
qed

end

text \<open>A receiver takes a message with the number it expects, and a second one with this number as the next of the chain.\<close>

lemma number_reused:
  assumes "ratchet_laws P" "sql_invar P sB" "sql_sess P sB (toLowerCase kA) = Some B" "storable_session P B"
    and "recv_at P B c n" "remoteDhPublicKeyHex B = Some h" "wf_header h"
    and "obj_get (skippedMessageKeys B) (skippedKeyId h (int n)) = None"
    and msg1: "em_ephemeralPublicKeyHex msg1 = h" "em_sequenceNumber msg1 = int n"
    and msg2: "em_ephemeralPublicKeyHex msg2 = h" "em_sequenceNumber msg2 = int n"
  shows "\<exists>sB1 sB2. decrypt P (sql_ops P) bk rk t kA msg1 sB = (decryptWithKey P msg1 (message_key P c n), sB1) \<and>
     decrypt P (sql_ops P) bk rk t kA msg2 sB1 = (decryptWithKey P msg2 (message_key P c (Suc n)), sB2)"
proof -
  note laws = ratchet_lawsD [OF assms(1)]
  let ?B1 = "advanced P c n t (skip_to P c h n n B)"
  let ?B2 = "advanced P c (Suc n) t (skip_to P c h (Suc n) n ?B1)"
  have st: "storable_session P ?B1" "storable_session P ?B2"
    using storable_advanced assms(4) by (simp_all add: storable_session_def distinct_store_keys)
  have o1: "openSession P rk t msg1 B = (Inr (message_key P c n), ?B1)"
    using stale_receive [OF laws(1,3) assms(5-7) msg1 _ assms(8)] by simp
  have B1: "recv_at P ?B1 c (Suc n)" "remoteDhPublicKeyHex ?B1 = Some h"
    "obj_get (skippedMessageKeys ?B1) (skippedKeyId h (int n)) = None"
    using advanced_recv [OF skip_to_recv [OF assms(5), of h n]] assms(6,8) by simp_all
  have o2: "openSession P rk t msg2 ?B1 = (Inr (message_key P c (Suc n)), ?B2)"
    using stale_receive [OF laws(1,3) B1(1,2) assms(7) msg2 _ B1(3)] by simp
  obtain sB1 where d1: "decrypt P (sql_ops P) bk rk t kA msg1 sB = (decryptWithKey P msg1 (message_key P c n), sB1)"
    "sql_invar P sB1" "sql_sess P sB1 (toLowerCase kA) = Some ?B1"
    using sql.decrypt_run [OF assms(2,3) o1 st(1), of bk] by auto
  then show ?thesis using sql.decrypt_run [OF d1(2,3) o2 st(2)] by blast
qed

text \<open>C9. On the SQLite store, a receive that loads the session before a send has saved it, and saves after the send, undoes
  the send when its message belongs to the chain it is receiving on (no Diffie-Hellman ratchet): under every schedule with
  this order of the two loads and the two saves, both calls succeed, the next message has the number of the one before and
  is encrypted with the same key, which opens both, and a receiver who has opened the first refuses the second. The
  hypotheses are the laws of the primitives, two sessions on one chain, an arriving message with the next number of the
  other chain, and that two keys in a row differ.\<close>

theorem receive_undoes_send:
  assumes "ratchet_laws P" "secretbox_authentic P" "length nonce1 = 24" "length nonce2 = 24" "sendable pt1" "sendable pt2" "crossing bs"
    and "sql_invar P sA" "sql_sess P sA (toLowerCase kB) = Some A" "storable_session P A"
      "send_at P A c n" "recv_at P A c' m" "remoteDhPublicKeyHex A = Some h" "wf_header h"
    and "em_ephemeralPublicKeyHex g = h" "em_sequenceNumber g = int m"
      "obj_get (skippedMessageKeys A) (skippedKeyId h (int m)) = None"
    and "sql_invar P sB" "sql_sess P sB (toLowerCase kA) = Some B" "storable_session P B"
      "recv_at P B c n" "remoteDhPublicKeyHex B = Some (publicKeyHex (localDhKeyPair A))"
      "wf_header (publicKeyHex (localDhKeyPair A))"
      "obj_get (skippedMessageKeys B) (skippedKeyId (publicKeyHex (localDhKeyPair A)) (int n)) = None"
    and "message_key P c n \<noteq> message_key P c (Suc n)"
  shows "\<exists>msg1 msg2 sA1 sA2 sB1 sB2.
     overlap bs (encrypt_proc P (sql_ops P) nonce1 t kB pt1 None) (decrypt_proc P (sql_ops P) bk rk t kB g) sA
       = ((Done (Inr msg1), Done (decryptWithKey P g (message_key P c' m))), sA1) \<and>
     encrypt P (sql_ops P) nonce2 t kB pt2 None sA1 = (Inr msg2, sA2) \<and>
     em_sequenceNumber msg2 = em_sequenceNumber msg1 \<and>
     decryptWithKey P msg1 (message_key P c n) = Inr pt1 \<and> decryptWithKey P msg2 (message_key P c n) = Inr pt2 \<and>
     decrypt P (sql_ops P) bk rk t kA msg1 sB = (Inr pt1, sB1) \<and>
     decrypt P (sql_ops P) bk rk t kA msg2 sB1 =
       (Inl (Error ''Decryption failed or message corrupted / tampered with''), sB2)"
proof -
  note L = assms(1) and laws = ratchet_lawsD [OF assms(1)]
  let ?hA = "publicKeyHex (localDhKeyPair A)" and ?A1 = "advanced P c' m t (skip_to P c' h m m A)"
  have sA1: "send_at P ?A1 c n" using assms(11) by (simp add: send_at_def)
  obtain ct1 where ct1: "encryptStep P nonce1 t pt1 A = (Inr (int n, ct1), sent P c n t A)"
    "\<And>ses' msg. carries P ses' nonce1 (int n) ct1 msg \<Longrightarrow> opens P (msg, text_decode (text_encode pt1)) (message_key P c n)"
    using encryptStep_at [OF L ensureSendChain_at [OF laws(1,3) assms(11)] assms(11,3)] by blast
  obtain ct2 where ct2: "encryptStep P nonce2 t pt2 ?A1 = (Inr (int n, ct2), sent P c n t ?A1)"
    "\<And>ses' msg. carries P ses' nonce2 (int n) ct2 msg \<Longrightarrow> opens P (msg, text_decode (text_encode pt2)) (message_key P c n)"
    using encryptStep_at [OF L ensureSendChain_at [OF laws(1,3) sA1] sA1 assms(4)] by blast
  have box2: "secretbox P (text_encode pt2) nonce2 (message_key P c n) = Inr ct2"
    using encryptStep_sealed [OF L sA1 ct2(1)] by simp
  have st: "storable_session P (sent P c n t A)" "storable_session P ?A1" "storable_session P (sent P c n t ?A1)"
    using storable_advanced assms(10) by (simp_all add: storable_session_def distinct_store_keys)
  have oA: "openSession P rk t g A = (Inr (message_key P c' m), ?A1)"
    using stale_receive [OF laws(1,3) assms(12-16) _ assms(17)] by simp
  obtain msg1 s1 where r1: "overlap bs (encrypt_proc P (sql_ops P) nonce1 t kB pt1 None)
        (decrypt_proc P (sql_ops P) bk rk t kB g) sA = ((Done (Inr msg1), Done (decryptWithKey P g (message_key P c' m))), s1)"
    "carries P (sent P c n t A) nonce1 (int n) ct1 msg1" "sql_invar P s1" "sql_sess P s1 (toLowerCase kB) = Some ?A1"
    using sql.crossing_run [OF assms(8,9) ct1(1) st(1) oA st(2) assms(7), of bk] by auto
  obtain msg2 s2 where r2: "encrypt P (sql_ops P) nonce2 t kB pt2 None s1 = (Inr msg2, s2)"
    "carries P (sent P c n t ?A1) nonce2 (int n) ct2 msg2"
    using sql.encrypt_run [OF r1(3,4) ct2(1) st(3)] by blast
  have h1: "em_ephemeralPublicKeyHex msg1 = ?hA" "em_sequenceNumber msg1 = int n"
    and h2: "em_ephemeralPublicKeyHex msg2 = ?hA" "em_sequenceNumber msg2 = int n"
    using r1(2) r2(2) by (simp_all add: carries_def)
  from number_reused [OF L assms(18-24) h1 h2] obtain sB1 sB2 where
    d: "decrypt P (sql_ops P) bk rk t kA msg1 sB = (decryptWithKey P msg1 (message_key P c n), sB1)"
    "decrypt P (sql_ops P) bk rk t kA msg2 sB1 = (decryptWithKey P msg2 (message_key P c (Suc n)), sB2)" by blast
  have "decryptWithKey P msg1 (message_key P c n) = Inr pt1"
    using ct1(2) [OF r1(2)] assms(5) by (simp add: opens_def sendable_def)
  moreover have "decryptWithKey P msg2 (message_key P c n) = Inr pt2"
    using ct2(2) [OF r2(2)] assms(6) by (simp add: opens_def sendable_def)
  moreover have "decryptWithKey P msg2 (message_key P c (Suc n)) =
      Inl (Error ''Decryption failed or message corrupted / tampered with'')"
    using wrong_key_refused [OF L assms(2) r2(2) assms(4) box2 _ _ assms(25)] length_message_key [OF laws(3)] by simp
  ultimately show ?thesis using r1(1) r2(1) d h1(2) h2(2) by auto
qed

text \<open>On the concrete parameters: Alice sends \<open>one\<close> while \<open>hi\<close> arrives, and \<open>two\<close> after it.\<close>

theorem receive_undoes_send_witness:
  "\<exists>sA sB msg1 msg2 sA1 sA2 sB1 sB2.
     overlap [False, True, True, False, True]
       (encrypt_proc model_prims (sql_ops model_prims) (replicate 24 0) 0 ''b0'' ''one'' None)
       (decrypt_proc model_prims (sql_ops model_prims) [] [] 0 ''b0'' demo_genuine) sA
       = ((Done (Inr msg1), Done (Inr ''hi'')), sA1) \<and>
     encrypt model_prims (sql_ops model_prims) (replicate 24 1) 0 ''b0'' ''two'' None sA1 = (Inr msg2, sA2) \<and>
     em_sequenceNumber msg2 = em_sequenceNumber msg1 \<and>
     decryptWithKey model_prims msg1 (message_key model_prims (replicate 32 0) 0) = Inr ''one'' \<and>
     decryptWithKey model_prims msg2 (message_key model_prims (replicate 32 0) 0) = Inr ''two'' \<and>
     decrypt model_prims (sql_ops model_prims) [] [] 0 ''b0'' msg1 sB = (Inr ''one'', sB1) \<and>
     decrypt model_prims (sql_ops model_prims) [] [] 0 ''b0'' msg2 sB1 =
       (Inl (Error ''Decryption failed or message corrupted / tampered with''), sB2)"
proof -
  let ?c = "replicate 32 0 :: bytes"
  obtain sA sB where s: "sql_invar model_prims sA" "sql_sess model_prims sA (toLowerCase ''b0'') = Some demo_sender"
    "sql_invar model_prims sB" "sql_sess model_prims sB (toLowerCase ''b0'') = Some demo_receiver"
    using demo_saved demo_ends(1,2) by meson
  have ne: "message_key model_prims ?c 0 \<noteq> message_key model_prims ?c (Suc 0)" unfolding demo_message_keys by code_simp
  have one: "sendable ''one''" "sendable ''two''" by (rule sendable_ascii, simp add: code_def)+
  have crossing: "crossing [False, True, True, False, True]" by simp
  have "length (replicate 24 (0 :: byte)) = 24" "length (replicate 24 (1 :: byte)) = 24" by simp_all
  from receive_undoes_send [OF model_ratchet_laws model_secretbox_authentic this one crossing s(1,2) demo_ends(1,3-5) demo_hex_ok
      demo_genuine_sel demo_ends(6) s(3,4) demo_ends(2,7-10) ne, of 0 "[]" "[]"]
  show ?thesis unfolding demo_genuine_opens by blast
qed

end
