(* ===== verification/First_Messages.thy ===== *)
theory First_Messages
  imports Interleaving
begin

section \<open>The first two messages of a contact\<close>

text \<open>
  Only the first message of a session names the one-time pre-key it was made with, and the receiver of
  \<open>client/src/crypto/CryptoEngine.ts\<close> makes a session from whatever message finds none. This theory compares the three ways
  in which the first two messages can be handled: in order, in the other order, and together, as when both were waiting at
  the relay and arrive in one chunk: the stream starts a \<open>decrypt\<close> for each without waiting for the one before.
\<close>

text \<open>The key of message \<open>n\<close> that a responder derives with and without a one-time pre-key.\<close>

definition shared_key :: "prims \<Rightarrow> identity \<Rightarrow> identity \<Rightarrow> bytes \<Rightarrow> bytes option \<Rightarrow> bytes \<Rightarrow> nat \<Rightarrow> bytes" where
  "shared_key P uA uB ekSecret otkSecret spkSecret n =
     (case x3dh_responder P uB (generateCurve25519KeyPair P spkSecret) (map_option (generateCurve25519KeyPair P) otkSecret)
             (publicKey (encryptionKey uA)) (boxPublic P ekSecret) (bytesToHex P (boxPublic P ekSecret)) of
        Inr (r, c) \<Rightarrow> message_key P c n
      | Inl e \<Rightarrow> [])"

subsection \<open>The sender\<close>

text \<open>A message that no other key opens.\<close>

definition only_opened_by :: "prims \<Rightarrow> bytes \<Rightarrow> encrypted_message \<Rightarrow> bool" where
  "only_opened_by P k msg \<longleftrightarrow> (\<forall>k'. length k' = 32 \<longrightarrow> k' \<noteq> k \<longrightarrow>
     decryptWithKey P msg k' = Inl (Error ''Decryption failed or message corrupted / tampered with''))"

text \<open>What the first messages of a session have in common.\<close>

definition first_header :: "identity \<Rightarrow> hex \<Rightarrow> encrypted_message \<Rightarrow> bool" where
  "first_header uA h msg \<longleftrightarrow> em_initialIdentityKeyHex msg = Some (publicKeyHex (encryptionKey uA)) \<and>
     em_initialEphemeralKeyHex msg = Some h \<and> em_ephemeralPublicKeyHex msg = h"

context signal_store
begin

lemma greeting_encrypt_run:
  assumes L: "ratchet_laws P" "secretbox_authentic P" and inv: "invar s" "sess s (toLowerCase k) = Some ses"
    and g: "greeting P (ident s) uB spk otk bdl ses F" and c: "send_at P ses c n" and nonce: "length nonce = 24"
  shows "\<exists>msg s' ses'. encrypt P S nonce t k pt None s = (Inr msg, s') \<and> invar s' \<and> ident s' = ident s \<and>
     sess s' (toLowerCase k) = Some ses' \<and> greeting P (ident s) uB spk otk bdl ses' (F @ [(msg, text_decode (text_encode pt))]) \<and>
     localDhKeyPair ses' = localDhKeyPair ses \<and> send_at P ses' c (Suc n) \<and> em_sequenceNumber msg = int n \<and>
     only_opened_by P (message_key P c n) msg"
proof -
  note laws = ratchet_lawsD [OF L(1)]
  obtain sn ct ses' where st: "encryptStep P nonce t pt ses = (Inr (sn, ct), ses')" "storable_session P ses'"
    "localDhKeyPair ses' = localDhKeyPair ses"
    "\<And>m. carries P ses' nonce sn ct m \<Longrightarrow> em_oneTimePreKeyId m = (if sn = 0 then oneTimePreKeyId ses' else None) \<Longrightarrow>
        em_initialIdentityKeyHex m = Some (publicKeyHex (encryptionKey (ident s))) \<Longrightarrow>
        em_initialEphemeralKeyHex m = Some (publicKeyHex (localDhKeyPair ses')) \<Longrightarrow>
        greeting P (ident s) uB spk otk bdl ses' (F @ [(m, text_decode (text_encode pt))])"
    using greeting_send [OF L(1) g nonce, of t pt] by auto
  have sealed: "sn = int n" "secretbox P (text_encode pt) nonce (message_key P c n) = Inr ct"
    using encryptStep_sealed [OF L(1) c st(1)] by simp_all
  have "ses' = sent P c n t ses"
    using encryptStep_at [OF L(1) ensureSendChain_at [OF laws(1,3) c] c nonce, of t pt] st(1) by auto
  then have c': "send_at P ses' c (Suc n)" using sent_send_at [OF c] by simp
  obtain msg s' where e: "encrypt P S nonce t k pt None s = (Inr msg, s')" "carries P ses' nonce sn ct msg"
    "em_oneTimePreKeyId msg = (if sn = 0 then oneTimePreKeyId ses' else None)"
    "em_initialIdentityKeyHex msg = Some (publicKeyHex (encryptionKey (ident s)))"
    "em_initialEphemeralKeyHex msg = Some (publicKeyHex (localDhKeyPair ses'))"
    "invar s'" "ident s' = ident s" "sess s' (toLowerCase k) = Some ses'"
    using encrypt_run [OF inv st(1,2)] by auto
  have "only_opened_by P (message_key P c n) msg" unfolding only_opened_by_def
    using wrong_key_refused [OF L e(2) nonce sealed(2)] length_message_key [OF laws(3)] by metis
  moreover have "em_sequenceNumber msg = int n" using e(2) sealed(1) by (simp add: carries_def)
  ultimately show ?thesis using e(1,6-8) st(4) [OF e(2-5)] st(3) c' by blast
qed

text \<open>A session and its first two messages.\<close>

lemma invite_twice_run:
  assumes L: "ratchet_laws P" "secretbox_authentic P" and sA: "invar s" "box_keypair P (encryptionKey (ident s))"
    and pub: "published P uB spk otk bdl" and len: "length ek = 32" "length nonce1 = 24" "length nonce2 = 24"
  shows "\<exists>ses s1 m1 s2 m2 s3 ses' r c. initiateSession P S ek t k bdl s = (Inr ses, s1) \<and>
     encrypt P S nonce1 t k pt1 None s1 = (Inr m1, s2) \<and> encrypt P S nonce2 t k pt2 None s2 = (Inr m2, s3) \<and>
     greeting P (ident s) uB spk otk bdl ses' [(m1, text_decode (text_encode pt1)), (m2, text_decode (text_encode pt2))] \<and>
     localDhKeyPair ses' = generateCurve25519KeyPair P ek \<and> em_sequenceNumber m1 = 0 \<and> em_sequenceNumber m2 = 1 \<and>
     x3dh_initiator P (ident s) bdl (generateCurve25519KeyPair P ek) = Inr (r, c) \<and> length c = 32 \<and>
     only_opened_by P (message_key P c 0) m1 \<and> only_opened_by P (message_key P c 1) m2"
proof -
  obtain ses s1 where i: "initiateSession P S ek t k bdl s = (Inr ses, s1)" "invar s1" "ident s1 = ident s"
    "sess s1 (toLowerCase k) = Some ses" "localDhKeyPair ses = generateCurve25519KeyPair P ek"
    "sendSequenceNumber ses = 0" "greeting P (ident s) uB spk otk bdl ses []"
    using initiateSession_run [OF L(1) sA pub len(1), of t k] by auto
  obtain r c where rc: "x3dh_initiator P (ident s) bdl (localDhKeyPair ses) = Inr (r, c)" "send_at P ses c 0"
    using i(6,7) by (auto simp: greeting_def send_at_def)
  obtain m1 s2 ses2 where m1: "encrypt P S nonce1 t k pt1 None s1 = (Inr m1, s2)" "invar s2" "ident s2 = ident s1"
    "sess s2 (toLowerCase k) = Some ses2" "greeting P (ident s) uB spk otk bdl ses2 ([] @ [(m1, text_decode (text_encode pt1))])"
    "localDhKeyPair ses2 = localDhKeyPair ses" "send_at P ses2 c (Suc 0)" "em_sequenceNumber m1 = int 0"
    "only_opened_by P (message_key P c 0) m1"
    using greeting_encrypt_run [OF L i(2,4) _ rc(2) len(2), of uB spk otk bdl "[]" t pt1] i(3,7) by auto
  obtain m2 s3 ses3 where m2: "encrypt P S nonce2 t k pt2 None s2 = (Inr m2, s3)"
    "greeting P (ident s) uB spk otk bdl ses3 ([(m1, text_decode (text_encode pt1))] @ [(m2, text_decode (text_encode pt2))])"
    "localDhKeyPair ses3 = localDhKeyPair ses2" "em_sequenceNumber m2 = int (Suc 0)" "only_opened_by P (message_key P c (Suc 0)) m2"
    using greeting_encrypt_run [OF L m1(2,4) _ m1(7) len(3), of uB spk otk bdl "[(m1, text_decode (text_encode pt1))]" t pt2]
      m1(3,5) i(3) by auto
  have "length c = 32" using rc(2) by (simp add: send_at_def)
  then show ?thesis using i(1,5) rc(1) m1(1,6,8,9) m2 by auto
qed

text \<open>What the receiver needs to know of them.\<close>

lemma two_sent:
  assumes L: "ratchet_laws P" "secretbox_authentic P" and sA: "invar s" "box_keypair P (encryptionKey (ident s))"
    and pub: "published P uB spk otk bdl" "pb_oneTimePreKey bdl = Some op" and len: "length ek = 32" "length nonce1 = 24" "length nonce2 = 24"
  shows "\<exists>ses s1 m1 s2 m2 s3 r c. initiateSession P S ek t k bdl s = (Inr ses, s1) \<and>
     encrypt P S nonce1 t k pt1 None s1 = (Inr m1, s2) \<and> encrypt P S nonce2 t k pt2 None s2 = (Inr m2, s3) \<and>
     x3dh_initiator P (ident s) bdl (generateCurve25519KeyPair P ek) = Inr (r, c) \<and> length c = 32 \<and>
     first_header (ident s) (bytesToHex P (boxPublic P ek)) m1 \<and> first_header (ident s) (bytesToHex P (boxPublic P ek)) m2 \<and>
     em_sequenceNumber m1 = 0 \<and> em_sequenceNumber m2 = 1 \<and>
     em_oneTimePreKeyId m1 = Some (op_keyId op) \<and> em_oneTimePreKeyId m2 = None \<and>
     decryptWithKey P m1 (message_key P c 0) = Inr (text_decode (text_encode pt1)) \<and>
     decryptWithKey P m2 (message_key P c 1) = Inr (text_decode (text_encode pt2)) \<and>
     only_opened_by P (message_key P c 0) m1 \<and> only_opened_by P (message_key P c 1) m2"
proof -
  obtain ses s1 m1 s2 m2 s3 ses' r c where a: "initiateSession P S ek t k bdl s = (Inr ses, s1)"
    "encrypt P S nonce1 t k pt1 None s1 = (Inr m1, s2)" "encrypt P S nonce2 t k pt2 None s2 = (Inr m2, s3)"
    "greeting P (ident s) uB spk otk bdl ses' [(m1, text_decode (text_encode pt1)), (m2, text_decode (text_encode pt2))]"
    "localDhKeyPair ses' = generateCurve25519KeyPair P ek" "em_sequenceNumber m1 = 0" "em_sequenceNumber m2 = 1"
    "x3dh_initiator P (ident s) bdl (generateCurve25519KeyPair P ek) = Inr (r, c)" "length c = 32"
    "only_opened_by P (message_key P c 0) m1" "only_opened_by P (message_key P c 1) m2"
    using invite_twice_run [OF L sA pub(1) len, of t k pt1 pt2] by (elim exE conjE) (rule that; assumption)
  have f: "first_chain_msg P (ident s) bdl ses' c (m1, text_decode (text_encode pt1))"
    "first_chain_msg P (ident s) bdl ses' c (m2, text_decode (text_encode pt2))"
    using a(4,5,8) by (auto simp: greeting_def)
  have "decryptWithKey P m1 (message_key P c 0) = Inr (text_decode (text_encode pt1))"
    "decryptWithKey P m2 (message_key P c 1) = Inr (text_decode (text_encode pt2))"
    using f a(6,7) by (auto simp: first_chain_msg_def opens_def)
  moreover have "first_header (ident s) (bytesToHex P (boxPublic P ek)) m1" "first_header (ident s) (bytesToHex P (boxPublic P ek)) m2"
    "em_oneTimePreKeyId m1 = Some (op_keyId op)" "em_oneTimePreKeyId m2 = None"
    using f a(5-7) pub(2) by (auto simp: first_chain_msg_def first_header_def)
  ultimately show ?thesis using a(1-3,6-11) by blast
qed

end

subsection \<open>The receiver\<close>

text \<open>The calls take turns; the one with fewer turns ends first.\<close>

definition together :: "bool list" where
  "together = [True, False, True, False, True, False, True, False, True, False, True, True]"

text \<open>The session a responder has after opening a message.\<close>

definition opened_at :: "prims \<Rightarrow> bytes \<Rightarrow> int \<Rightarrow> hex \<Rightarrow> hex \<Rightarrow> bytes \<times> bytes \<Rightarrow> nat \<Rightarrow> session" where
  "opened_at P bk now k h rc n = advanced P (snd rc) n now (skip_to P (snd rc) h 0 n (bob_session P bk now k h rc))"

lemma opened_at_storable:
  assumes "hex_codec P" "length bk = 32"
  shows "storable_session P (bob_session P bk now k h rc)" "storable_session P (opened_at P bk now k h rc n)"
proof -
  show "storable_session P (bob_session P bk now k h rc)"
    using assms box_keypair_storable generated_keypair by (simp add: storable_session_def bob_session_def)
  then show "storable_session P (opened_at P bk now k h rc n)" using storable_advanced by (simp add: opened_at_def)
qed

lemma openSession_first:
  assumes L: "ratchet_laws P" and "length c = 32" "wf_header h" "em_ephemeralPublicKeyHex msg = h"
    and "em_sequenceNumber msg = int n" "int n \<le> MAX_SKIP_MESSAGES"
  shows "openSession P rk now msg (bob_session P bk now k h (r, c)) = (Inr (message_key P c n), opened_at P bk now k h (r, c) n)"
proof -
  note laws = ratchet_lawsD [OF L]
  let ?ses = "bob_session P bk now k h (r, c)"
  have "recv_at P ?ses c 0" "remoteDhPublicKeyHex ?ses = Some h" "hasSkippedKey ?ses msg = False"
    using assms(2,3) by (simp_all add: recv_at_def bob_session_def wf_header_def hasSkippedKey_def)
  then show ?thesis
    using deriveMessageKey_any [OF laws(1,3) _ _ assms(3-5), of ?ses c 0 rk now] assms(6)
    by (simp add: openSession_def opened_at_def)
qed

text \<open>The next message in order, and the one that was passed over.\<close>

lemma openSession_second:
  assumes L: "ratchet_laws P" and "length c = 32" "wf_header h" "em_ephemeralPublicKeyHex msg = h" "em_sequenceNumber msg = 1"
  shows "\<exists>ses'. openSession P rk now msg (opened_at P bk now k h (r, c) 0) = (Inr (message_key P c 1), ses') \<and>
     (length bk = 32 \<longrightarrow> storable_session P ses')"
proof -
  note laws = ratchet_lawsD [OF L]
  let ?ses = "opened_at P bk now k h (r, c) 0" and ?B = "bob_session P bk now k h (r, c)"
  have "recv_at P ?B c 0" using assms(2) by (simp add: recv_at_def bob_session_def)
  from skip_to_recv [OF this, of h 0]
  have "recv_at P ?ses c (Suc 0)" "remoteDhPublicKeyHex ?ses = Some h" "skippedMessageKeys ?ses = []"
    using advanced_recv assms(3) by (simp_all add: opened_at_def bob_session_def wf_header_def)
  then have "openSession P rk now msg ?ses = (Inr (message_key P c 1), advanced P c 1 now (skip_to P c h 1 1 ?ses))"
    using stale_receive [OF laws(1,3), of ?ses c 1 h msg 1 rk now] assms(3-5) by simp
  then show ?thesis using storable_advanced opened_at_storable(2) [OF laws(1)] by blast
qed

lemma openSession_passed_over:
  assumes L: "ratchet_laws P" and "em_ephemeralPublicKeyHex msg = h" "em_sequenceNumber msg = 0"
  shows "\<exists>ses'. openSession P rk now msg (opened_at P bk now k h (r, c) 1) = (Inr (message_key P c 0), ses') \<and>
     (length bk = 32 \<longrightarrow> storable_session P ses')"
proof -
  note laws = ratchet_lawsD [OF L]
  let ?ses = "opened_at P bk now k h (r, c) 1" and ?id = "skippedKeyId h (int 0)"
  let ?ses' = "?ses\<lparr>skippedMessageKeys := obj_delete ?id (skippedMessageKeys ?ses)\<rparr>"
  have g: "obj_get (skippedMessageKeys ?ses) ?id = Some (bytesToHex P (message_key P c 0))"
    by (simp add: opened_at_def)
  have ne: "bytesToHex P (message_key P c 0) \<noteq> []" using hex_key_nonempty laws(1,3) length_message_key by blast
  have "openSession P rk now msg ?ses = (Inr (message_key P c 0), ?ses')"
    using g ne assms(2,3) laws(1)
    by (simp add: openSession_def hasSkippedKey_def takeSkippedKey_def prim_laws Let_def)
  moreover have "storable_session P ?ses'" if "length bk = 32"
    using opened_at_storable(2) [OF laws(1) that, of now k h "(r, c)" 1] by (auto simp: storable_session_def)
  ultimately show ?thesis by blast
qed

context signal_store
begin

lemma initiate_run:
  assumes L: "ratchet_laws P" and inv: "invar s" and latest: "getLatestSignedPreKey S s = (Inr (Some spk), s)"
    and m: "first_header uA h msg" "box_keypair P (encryptionKey uA)" "wf_header h" "hexToBytes P h = Inr ekA"
    and x: "x3dh_responder P (ident s) (spk_keyPair spk)
      (map_option otk_keyPair (case em_oneTimePreKeyId msg of None \<Rightarrow> None | Some i \<Rightarrow> otks s i)) (publicKey (encryptionKey uA)) ekA h = Inr rc"
    and bk: "length bk = 32"
  shows "\<exists>s'. initiateBobSession P S bk now k msg s = (Inr (bob_session P bk now k h rc), s') \<and> invar s' \<and>
     sess s' = (sess s)(toLowerCase k \<mapsto> bob_session P bk now k h rc)"
proof -
  note laws = ratchet_lawsD [OF L]
  obtain s1 where s1: "take_oneTimePreKey S (em_oneTimePreKeyId msg) s =
      (Inr (case em_oneTimePreKeyId msg of None \<Rightarrow> None | Some i \<Rightarrow> otks s i), s1)"
    "invar s1" "sess s1 = sess s" using take_oneTimePreKey_run [OF inv] by blast
  obtain s' where s': "saveSession S k (bob_session P bk now k h rc) s1 = (Inr (), s')" "invar s'"
    "sess s' = (sess s1)(toLowerCase k \<mapsto> bob_session P bk now k h rc)"
    using saveSession [OF s1(2) opened_at_storable(1) [OF laws(1) bk]] by blast
  have u: "wf_header (publicKeyHex (encryptionKey uA))" using wf_header_keypair [OF laws(1,2) m(2)] .
  have hx: "hexToBytes P (publicKeyHex (encryptionKey uA)) = Inr (publicKey (encryptionKey uA))"
    using m(2) laws(1) by (simp add: box_keypair_def prim_laws)
  have "initiateBobSession P S bk now k msg s = (Inr (bob_session P bk now k h rc), s')"
    using m u hx getIdentity [of s] latest s1(1) x s'(1)
    by (simp add: initiateBobSession_def first_header_def wf_header_def bindM_def Let_def bob_session_def split_def)
  then show ?thesis using s' s1(3) by simp
qed

lemma alone_run:
  assumes L: "ratchet_laws P" and inv: "invar s" "sess s (toLowerCase k) = None"
    and latest: "getLatestSignedPreKey S s = (Inr (Some spk), s)"
    and m: "first_header uA h msg" "box_keypair P (encryptionKey uA)" "wf_header h" "hexToBytes P h = Inr ekA"
    and x: "x3dh_responder P (ident s) (spk_keyPair spk)
      (map_option otk_keyPair (case em_oneTimePreKeyId msg of None \<Rightarrow> None | Some i \<Rightarrow> otks s i)) (publicKey (encryptionKey uA)) ekA h = Inr (r, c)"
    and bk: "length bk = 32" "length c = 32" and n: "em_sequenceNumber msg = int n" "int n \<le> MAX_SKIP_MESSAGES"
  shows "\<exists>s'. decrypt P S bk rk now k msg s = (decryptWithKey P msg (message_key P c n), s') \<and> invar s' \<and>
     sess s' (toLowerCase k) = Some (opened_at P bk now k h (r, c) n)"
proof -
  note laws = ratchet_lawsD [OF L]
  let ?B = "bob_session P bk now k h (r, c)"
  obtain s1 where i: "initiateBobSession P S bk now k msg s = (Inr ?B, s1)" "invar s1" "sess s1 (toLowerCase k) = Some ?B"
    using initiate_run [OF L inv(1) latest m x bk(1), of now k] by auto
  have "em_ephemeralPublicKeyHex msg = h" using m(1) by (simp add: first_header_def)
  from decrypt_run [OF i(2,3) openSession_first [where rk = rk, OF L bk(2) m(3) this n] opened_at_storable(2) [OF laws(1) bk(1)], of bk]
  show ?thesis using decrypt_first [OF inv i(1,2,3), of rk bk] by auto
qed

text \<open>Taking turns from the start, both calls find no session, and the second makes one of its own.\<close>

lemma together_run:
  assumes L: "ratchet_laws P" and inv: "invar s" "sess s (toLowerCase k) = None"
    and latest: "getLatestSignedPreKey S s = (Inr (Some spk), s)"
    and m0: "first_header uA h m0" "em_sequenceNumber m0 = 0" "em_oneTimePreKeyId m0 = Some i" "otks s i = Some q"
    and m1: "first_header uA h m1" "em_sequenceNumber m1 = 1" "em_oneTimePreKeyId m1 = None"
    and h: "box_keypair P (encryptionKey uA)" "wf_header h" "hexToBytes P h = Inr ekA"
    and x0: "x3dh_responder P (ident s) (spk_keyPair spk) (Some (otk_keyPair q)) (publicKey (encryptionKey uA)) ekA h = Inr (r, c)"
    and x1: "x3dh_responder P (ident s) (spk_keyPair spk) None (publicKey (encryptionKey uA)) ekA h = Inr (r', c')"
    and len: "length bk0 = 32" "length bk1 = 32" "length c = 32" "length c' = 32"
  shows "\<exists>s'. overlap together (decrypt_proc P S bk0 rk0 now k m0) (decrypt_proc P S bk1 rk1 now k m1) s
       = ((Done (decryptWithKey P m0 (message_key P c 0)), Done (decryptWithKey P m1 (message_key P c' 1))), s')"
proof -
  note laws = ratchet_lawsD [OF L]
  let ?B0 = "bob_session P bk0 now k h (r, c)" and ?B1 = "bob_session P bk1 now k h (r', c')"
  let ?O0 = "opened_at P bk0 now k h (r, c) 0" and ?O1 = "opened_at P bk1 now k h (r', c') 1"
  note st = opened_at_storable [OF laws(1) len(1), of now k h "(r, c)"] opened_at_storable [OF laws(1) len(2), of now k h "(r', c')"]
  have get: "getSession S k s = (Inr None, s)" using getSession [OF inv(1), of k] inv(2) by simp
  have otk: "getOneTimePreKey S i s = (Inr (Some q), s)" using getOneTimePreKey [OF inv(1), of i] m0(4) by simp
  obtain s1 where s1: "saveSession S k ?B1 s = (Inr (), s1)" "invar s1" using saveSession [OF inv(1) st(3)] by blast
  obtain s2 where s2: "removeOneTimePreKey S i s1 = (Inr (), s2)" "invar s2" using removeOneTimePreKey [OF s1(2)] by blast
  obtain s3 where s3: "saveSession S k ?O1 (mutateSession S k ?O1 s2) = (Inr (), s3)" "invar s3"
    using save_mutated [OF s2(2) st(4)] by blast
  obtain s4 where s4: "saveSession S k ?B0 s3 = (Inr (), s4)" "invar s4" using saveSession [OF s3(2) st(1)] by blast
  obtain s5 where s5: "saveSession S k ?O0 (mutateSession S k ?O0 s4) = (Inr (), s5)"
    using save_mutated [OF s4(2) st(2)] by blast
  have hd: "em_ephemeralPublicKeyHex m0 = h" "em_initialEphemeralKeyHex m0 = Some h"
    "em_initialIdentityKeyHex m0 = Some (publicKeyHex (encryptionKey uA))" "em_ephemeralPublicKeyHex m1 = h"
    "em_initialEphemeralKeyHex m1 = Some h" "em_initialIdentityKeyHex m1 = Some (publicKeyHex (encryptionKey uA))"
    using m0(1) m1(1) by (simp_all add: first_header_def)
  have tr: "truthy (Some h)" "truthy (Some (publicKeyHex (encryptionKey uA)))"
    using h(2) wf_header_keypair [OF laws(1,2) h(1)] by (simp_all add: wf_header_def)
  have hx: "hexToBytes P (publicKeyHex (encryptionKey uA)) = Inr (publicKey (encryptionKey uA))"
    using h(1) laws(1) by (simp add: box_keypair_def prim_laws)
  have n: "em_sequenceNumber m0 = int 0" "em_sequenceNumber m1 = int 1" "int 0 \<le> MAX_SKIP_MESSAGES" "int 1 \<le> MAX_SKIP_MESSAGES"
    using m0(2) m1(2) by (simp_all add: MAX_SKIP_MESSAGES_def)
  have o0: "on_session S k (openSession P rk0 now m0) ?B0 s4 = (Inr (message_key P c 0, ?O0), mutateSession S k ?O0 s4)"
    by (rule on_session_Inr, rule openSession_first [OF L len(3) h(2) hd(1) n(1,3)])
  have o1: "on_session S k (openSession P rk1 now m1) ?B1 s2 = (Inr (message_key P c' 1, ?O1), mutateSession S k ?O1 s2)"
    by (rule on_session_Inr, rule openSession_first [OF L len(4) h(2) hd(4) n(2,4)])
  have D0: "turn (decrypt_loaded P S rk0 now k m0 ?B0) s4 = (Done (decryptWithKey P m0 (message_key P c 0)), s5)"
    unfolding decrypt_loaded_def by (rule turn_await) (simp add: bindM_def o0 s5)
  have D1: "turn (decrypt_loaded P S rk1 now k m1 ?B1) s2 = (Done (decryptWithKey P m1 (message_key P c' 1)), s3)"
    unfolding decrypt_loaded_def by (rule turn_await) (simp add: bindM_def o1 s3 del: One_nat_def)
  have a0: "turn (initiateBob_agreed P S bk0 now k m0 f (ident s) (publicKey (encryptionKey uA)) ekA spk (Some q)) s3 = (f ?B0, s4)"
    and a1: "turn (initiateBob_agreed P S bk1 now k m1 f (ident s) (publicKey (encryptionKey uA)) ekA spk None) s = (f ?B1, s1)"
    for f :: "session \<Rightarrow> ('s, string) proc"
    by (simp_all add: initiateBob_agreed_def sync_def await_def Let_def hd x0 x1 s1 s4)
  let ?i0 = "initiateBob_proc P S bk0 now k m0 (decrypt_loaded P S rk0 now k m0)"
    and ?i1 = "initiateBob_proc P S bk1 now k m1 (decrypt_loaded P S rk1 now k m1)"
  have "turn (decrypt_proc P S bk0 rk0 now k m0) s = (?i0, s)" "turn (decrypt_proc P S bk1 rk1 now k m1) s = (?i1, s)"
    by (simp_all add: decrypt_proc_def await_def get)
  then show ?thesis
    using D0 D1 a0 a1 tr
    by (simp add: together_def initiateBob_proc_def take_proc_def sync_def await_def getIdentity hd hx h(3) latest otk m0(3) m1(3) s2)
qed

text \<open>The story from the bundle on.\<close>

lemma first_two_run:
  assumes L: "ratchet_laws P" "sign_correct P" "secretbox_authentic P"
    and A: "invar sA" "box_keypair P (encryptionKey (ident sA))"
    and B: "invar sB" "wf_identity P (ident sB)" "sess sB (toLowerCase kA) = None" "\<forall>k \<in> ran (spks sB). spk_createdAt k < t"
    and len: "length sk = 32" "length ek = 32" "length bk1 = 32" "length bk2 = 32" "length nonce1 = 24" "length nonce2 = 24"
    and draws: "\<forall>i. length (fst (draw i)) = 32" "0 < n" "inj_on (\<lambda>j. snd (draw j)) {0..<n}"
    and keys: "\<And>i. i \<le> 1 \<Longrightarrow> shared_key P (ident sA) (ident sB) ek None sk i
        \<noteq> shared_key P (ident sA) (ident sB) ek (Some (fst (draw 0))) sk i"
  shows "\<exists>bdl sB1 ses sA1 m1 sA2 m2 sA3 sB2 sB3 sB4 sB5 sB6.
     generatePreKeyBundle P S sk spkId draw t n sB = (Inr bdl, sB1) \<and>
     initiateSession P S ek now kB bdl sA = (Inr ses, sA1) \<and>
     encrypt P S nonce1 now kB pt1 None sA1 = (Inr m1, sA2) \<and> encrypt P S nonce2 now kB pt2 None sA2 = (Inr m2, sA3) \<and>
     decrypt P S bk1 rk now kA m1 sB1 = (Inr (text_decode (text_encode pt1)), sB2) \<and>
     decrypt P S bk2 rk now kA m2 sB2 = (Inr (text_decode (text_encode pt2)), sB3) \<and>
     decrypt P S bk2 rk now kA m2 sB1 = (Inl (Error ''Decryption failed or message corrupted / tampered with''), sB4) \<and>
     decrypt P S bk1 rk now kA m1 sB4 = (Inl (Error ''Decryption failed or message corrupted / tampered with''), sB5) \<and>
     overlap together (decrypt_proc P S bk1 rk now kA m1) (decrypt_proc P S bk2 rk now kA m2) sB1
       = ((Done (Inr (text_decode (text_encode pt1))),
           Done (Inl (Error ''Decryption failed or message corrupted / tampered with''))), sB6)"
proof -
  note laws = ratchet_lawsD [OF L(1)]
  have kb: "box_keypair P (encryptionKey (ident sB))" using B(2) by (simp add: wf_identity_def)
  obtain bdl spk sB1 where g: "generatePreKeyBundle P S sk spkId draw t n sB = (Inr bdl, sB1)"
    "invar sB1" "sess sB1 = sess sB" "ident sB1 = ident sB"
    "verifySignature P (sp_publicKeyHex (pb_signedPreKey bdl)) (sp_signatureHex (pb_signedPreKey bdl)) (pb_signingKeyHex bdl)"
    "pb_identityKeyHex bdl = publicKeyHex (encryptionKey (ident sB))"
    "sp_publicKeyHex (pb_signedPreKey bdl) = publicKeyHex (generateCurve25519KeyPair P sk)"
    "getLatestSignedPreKey S sB1 = (Inr (Some spk), sB1)" "spk_keyPair spk = generateCurve25519KeyPair P sk"
    "case pb_oneTimePreKey bdl of None \<Rightarrow> n = 0
      | Some op \<Rightarrow> 0 < n \<and> op_keyId op = snd (draw 0) \<and>
          op_publicKeyHex op = publicKeyHex (generateCurve25519KeyPair P (fst (draw 0))) \<and>
          otks sB1 (op_keyId op) = Some \<lparr>otk_keyId = snd (draw 0), otk_keyPair = generateCurve25519KeyPair P (fst (draw 0))\<rparr>"
    using generatePreKeyBundle_full [OF laws(1,2) L(2) B(2,1) len(1) draws(1) B(4) draws(3), of spkId]
    by (elim exE conjE) (rule that; assumption)
  let ?otk = "generateCurve25519KeyPair P (fst (draw 0))" and ?ek = "generateCurve25519KeyPair P ek"
    and ?spk = "generateCurve25519KeyPair P sk" and ?uA = "ident sA"
  let ?q = "\<lparr>otk_keyId = snd (draw 0), otk_keyPair = ?otk\<rparr>" and ?h = "bytesToHex P (boxPublic P ek)"
  obtain op where op: "pb_oneTimePreKey bdl = Some op" "op_keyId op = snd (draw 0)" "op_publicKeyHex op = publicKeyHex ?otk"
    "otks sB1 (snd (draw 0)) = Some ?q"
    using g(10) draws(2) by (auto split: option.splits)
  have otk: "box_keypair P ?otk" using generated_keypair draws(1) by blast
  have pub: "published P (ident sB) spk (otks sB1) bdl"
    unfolding published_def using g(5-9) op kb generated_keypair len(1) otk by auto
  obtain ses sA1 m1 sA2 m2 sA3 r c where a: "initiateSession P S ek now kB bdl sA = (Inr ses, sA1)"
    "encrypt P S nonce1 now kB pt1 None sA1 = (Inr m1, sA2)" "encrypt P S nonce2 now kB pt2 None sA2 = (Inr m2, sA3)"
    "x3dh_initiator P ?uA bdl ?ek = Inr (r, c)" "length c = 32" "first_header ?uA ?h m1" "first_header ?uA ?h m2"
    "em_sequenceNumber m1 = 0" "em_sequenceNumber m2 = 1" "em_oneTimePreKeyId m1 = Some (op_keyId op)" "em_oneTimePreKeyId m2 = None"
    "decryptWithKey P m1 (message_key P c 0) = Inr (text_decode (text_encode pt1))"
    "decryptWithKey P m2 (message_key P c 1) = Inr (text_decode (text_encode pt2))"
    "only_opened_by P (message_key P c 0) m1" "only_opened_by P (message_key P c 1) m2"
    using two_sent [OF L(1,3) A pub op(1) len(2,5,6), of now kB pt1 pt2] by (elim exE conjE) (rule that; assumption)
  note right = a(12,13) and hd = a(6,7,10,11) [unfolded op(2)]
  have wf: "wf_header ?h" using wf_header_keypair [OF laws(1,2) generated_keypair [OF len(2)]] by simp
  have hx: "hexToBytes P ?h = Inr (boxPublic P ek)" using laws(1) by (simp add: prim_laws)
  have x0: "x3dh_responder P (ident sB) ?spk (Some ?otk) (publicKey (encryptionKey ?uA)) (boxPublic P ek) ?h = Inr (r, c)"
    using x3dh_agree [OF laws(1-3) A(2) kb generated_keypair [OF len(1)] generated_keypair [OF len(2)], of "Some ?otk" bdl]
      otk g(6,7) op a(4) by simp
  have lens: "length (boxPublic P ek) = 32" "length (publicKey (encryptionKey ?uA)) = 32" "length (secretKey (encryptionKey (ident sB))) = 32"
    using laws(2) len(2) A(2) kb by (simp_all add: prim_laws box_keypair_def)
  obtain z1 z2 z3 where z: "scalarMult P sk (publicKey (encryptionKey ?uA)) = Inr z1"
    "scalarMult P (secretKey (encryptionKey (ident sB))) (boxPublic P ek) = Inr z2" "scalarMult P sk (boxPublic P ek) = Inr z3"
    using scalarMult_defined [OF laws(2)] len lens by meson
  obtain r' c' where rc: "kdfRoot P (x3dh_master P [z1, z2, z3]) z3 = (r', c')" by fastforce
  have lc: "length c' = 32" using length_kdf(2) [OF laws(3)] rc by (metis snd_conv)
  have x1: "x3dh_responder P (ident sB) ?spk None (publicKey (encryptionKey ?uA)) (boxPublic P ek) ?h = Inr (r', c')"
    using z rc laws(1) by (simp add: x3dh_responder_def prim_laws)
  have ne: "message_key P c' i \<noteq> message_key P c i" if "i \<le> 1" for i
    using keys [OF that] x0 x1 by (simp add: shared_key_def)
  have wrong: "decryptWithKey P m1 (message_key P c' 0) = Inl (Error ''Decryption failed or message corrupted / tampered with'')"
    "decryptWithKey P m2 (message_key P c' 1) = Inl (Error ''Decryption failed or message corrupted / tampered with'')"
    using a(14,15) ne [of 0] ne [of 1] length_message_key [OF laws(3)] by (simp_all add: only_opened_by_def)
  have none: "sess sB1 (toLowerCase kA) = None" using B(3) g(3) by simp
  have n: "em_sequenceNumber m1 = int 0" "em_sequenceNumber m2 = int 1" "int 0 \<le> MAX_SKIP_MESSAGES" "int 1 \<le> MAX_SKIP_MESSAGES"
    using a(8,9) by (simp_all add: MAX_SKIP_MESSAGES_def)
  have eph: "em_ephemeralPublicKeyHex m1 = ?h" "em_ephemeralPublicKeyHex m2 = ?h" using hd(1,2) by (simp_all add: first_header_def)
  obtain sB2 where in_order: "decrypt P S bk1 rk now kA m1 sB1 = (decryptWithKey P m1 (message_key P c 0), sB2)" "invar sB2"
    "sess sB2 (toLowerCase kA) = Some (opened_at P bk1 now kA ?h (r, c) 0)"
    using alone_run [where r = r and rk = rk and now = now, OF L(1) g(2) none g(8) hd(1) A(2) wf hx _ len(3) a(5) n(1,3)] x0 g(4,9) hd(3) op(4) by auto
  obtain B3 where o3: "openSession P rk now m2 (opened_at P bk1 now kA ?h (r, c) 0) = (Inr (message_key P c 1), B3)" "storable_session P B3"
    using openSession_second [OF L(1) a(5) wf eph(2) a(9), of rk now bk1 kA r] len(3) by blast
  obtain sB3 where in_order2: "decrypt P S bk2 rk now kA m2 sB2 = (decryptWithKey P m2 (message_key P c 1), sB3)"
    using decrypt_run [OF in_order(2,3) o3, of bk2] by blast
  obtain sB4 where swapped: "decrypt P S bk2 rk now kA m2 sB1 = (decryptWithKey P m2 (message_key P c' 1), sB4)" "invar sB4"
    "sess sB4 (toLowerCase kA) = Some (opened_at P bk2 now kA ?h (r', c') 1)"
    using alone_run [where r = r' and rk = rk and now = now, OF L(1) g(2) none g(8) hd(2) A(2) wf hx _ len(4) lc n(2,4)] x1 g(4,9) hd(4) by auto
  obtain B5 where o5: "openSession P rk now m1 (opened_at P bk2 now kA ?h (r', c') 1) = (Inr (message_key P c' 0), B5)" "storable_session P B5"
    using openSession_passed_over [OF L(1) eph(1) a(8), of rk now bk2 kA r' c'] len(4) by blast
  obtain sB5 where swapped2: "decrypt P S bk1 rk now kA m1 sB4 = (decryptWithKey P m1 (message_key P c' 0), sB5)"
    using decrypt_run [OF swapped(2,3) o5, of bk1] by blast
  have X: "x3dh_responder P (ident sB1) (spk_keyPair spk) (Some (otk_keyPair ?q)) (publicKey (encryptionKey ?uA)) (boxPublic P ek) ?h = Inr (r, c)"
    "x3dh_responder P (ident sB1) (spk_keyPair spk) None (publicKey (encryptionKey ?uA)) (boxPublic P ek) ?h = Inr (r', c')"
    using x0 x1 g(4,9) by simp_all
  obtain sB6 where both: "overlap together (decrypt_proc P S bk1 rk now kA m1) (decrypt_proc P S bk2 rk now kA m2) sB1
       = ((Done (decryptWithKey P m1 (message_key P c 0)), Done (decryptWithKey P m2 (message_key P c' 1))), sB6)"
    using together_run [OF L(1) g(2) none g(8) hd(1) a(8) hd(3) op(4) hd(2) a(9) hd(4) A(2) wf hx X len(3,4) a(5) lc] by blast
  show ?thesis
    by (intro exI conjI; (rule g(1) a(1) a(2) a(3) in_order(1) [unfolded right] in_order2 [unfolded right]
        swapped(1) [unfolded wrong] swapped2 [unfolded wrong] both [unfolded right wrong]))
qed

end

text \<open>C8. The first two messages to a new contact can be read when they are handled in order; when the second is
  handled first, neither is, because it makes a session without the one-time pre-key; when both are handled together
  on the SQLite store, taking turns, the first is read and the second is refused. The hypotheses are
  the laws of the primitives, fresh stores, a bundle with a one-time pre-key, and that this pre-key matters
  for the keys of the two messages.\<close>

theorem first_two_messages:
  assumes "ratchet_laws P" "sign_correct P" "secretbox_authentic P" "\<forall>d. wf_identity P (u d)"
    and "\<forall>d. dm_ready (db d) \<and> same_rows (empty_database\<lparr>foreign_keys := True\<rparr>) (db_of (db d))"
    and "length sk = 32" "length ek = 32" "length bk1 = 32" "length bk2 = 32" "length nonce1 = 24" "length nonce2 = 24"
    and "sendable pt1" "sendable pt2"
    and "\<forall>i. length (fst (draw i)) = 32" "0 < n" "inj_on (\<lambda>j. snd (draw j)) {0..<n}"
    and "\<forall>i \<le> 1. shared_key P (u Alice) (u Bob) ek None sk i \<noteq> shared_key P (u Alice) (u Bob) ek (Some (fst (draw 0))) sk i"
  shows "\<exists>bdl sB1 ses sA1 m1 sA2 m2 sA3 sB2 sB3 sB4 sB5 sB6.
     generatePreKeyBundle P (sql_ops P) sk spkId draw t n (new_SqliteSignalStore (u Bob) (db Bob)) = (Inr bdl, sB1) \<and>
     initiateSession P (sql_ops P) ek now kB bdl (new_SqliteSignalStore (u Alice) (db Alice)) = (Inr ses, sA1) \<and>
     encrypt P (sql_ops P) nonce1 now kB pt1 None sA1 = (Inr m1, sA2) \<and>
     encrypt P (sql_ops P) nonce2 now kB pt2 None sA2 = (Inr m2, sA3) \<and>
     decrypt P (sql_ops P) bk1 rk now kA m1 sB1 = (Inr pt1, sB2) \<and>
     decrypt P (sql_ops P) bk2 rk now kA m2 sB2 = (Inr pt2, sB3) \<and>
     decrypt P (sql_ops P) bk2 rk now kA m2 sB1 = (Inl (Error ''Decryption failed or message corrupted / tampered with''), sB4) \<and>
     decrypt P (sql_ops P) bk1 rk now kA m1 sB4 = (Inl (Error ''Decryption failed or message corrupted / tampered with''), sB5) \<and>
     overlap together (decrypt_proc P (sql_ops P) bk1 rk now kA m1) (decrypt_proc P (sql_ops P) bk2 rk now kA m2) sB1
       = ((Done (Inr pt1), Done (Inl (Error ''Decryption failed or message corrupted / tampered with''))), sB6)"
proof -
  let ?s = "\<lambda>d. new_SqliteSignalStore (u d) (db d)"
  note fresh = new_sql_store [OF conjunct1 [OF spec [OF assms(5)]] conjunct2 [OF spec [OF assms(5)]]]
  have A: "sql_invar P (?s Alice)" "box_keypair P (encryptionKey (ss_identity (?s Alice)))"
    using fresh assms(4) by (simp_all add: wf_identity_def)
  have B: "sql_invar P (?s Bob)" "wf_identity P (ss_identity (?s Bob))" "sql_sess P (?s Bob) (toLowerCase kA) = None"
    "\<forall>k \<in> ran (sql_spks P (?s Bob)). spk_createdAt k < t"
    using fresh assms(4) by simp_all
  have keys: "shared_key P (ss_identity (?s Alice)) (ss_identity (?s Bob)) ek None sk i \<noteq>
      shared_key P (ss_identity (?s Alice)) (ss_identity (?s Bob)) ek (Some (fst (draw 0))) sk i" if "i \<le> 1" for i
    using assms(17) that by (simp add: fresh)
  show ?thesis
    using sql.first_two_run [OF assms(1-3) A B assms(6-11,14-16) keys, of spkId now kB pt1 pt2 rk] assms(12,13)
    unfolding sendable_def by simp
qed

text \<open>On the concrete parameters.\<close>

definition demo_draw :: "byte \<Rightarrow> int \<Rightarrow> nat \<Rightarrow> bytes \<times> int" where
  "demo_draw b base i = (replicate 32 b, base + int i)"

lemma demo_draw_laws:
  "\<forall>i. length (fst (demo_draw b base i)) = 32" "inj_on (\<lambda>j. snd (demo_draw b base j)) {0..<n}"
  by (simp_all add: demo_draw_def inj_on_def)

lemma demo_shared_key:
  "shared_key model_prims (demo_identity Alice) (demo_identity Bob) (replicate 32 4) None (replicate 32 3) n =
   message_key model_prims (snd (kdfRoot model_prims (x3dh_master model_prims
     [replicate 32 2, replicate 32 6, replicate 32 7]) (replicate 32 7))) n"
  "shared_key model_prims (demo_identity Alice) (demo_identity Bob) (replicate 32 4) (Some (replicate 32 8)) (replicate 32 3) n =
   message_key model_prims (snd (kdfRoot model_prims (x3dh_master model_prims
     [replicate 32 2, replicate 32 6, replicate 32 7, replicate 32 12]) (replicate 32 7))) n"
proof -
  have xor: "xor_bytes (replicate 32 a) (replicate 32 c) = replicate 32 (a XOR c)" for a c :: byte
    by (simp add: xor_bytes_def map2_map_map map_replicate_const)
  have "hexToBytes model_prims (bytesToHex model_prims (replicate 32 4)) = Inr (replicate 32 4)"
    by (rule hexToBytes_bytesToHex [OF model_hex_codec])
  moreover have "scalarMult model_prims (replicate 32 a) (replicate 32 c) = Inr (replicate 32 (a XOR c))" for a c
    by (simp add: model_prims_def xor)
  moreover have "boxPublic model_prims x = x" for x by (simp add: model_prims_def)
  ultimately show
    "shared_key model_prims (demo_identity Alice) (demo_identity Bob) (replicate 32 4) None (replicate 32 3) n =
     message_key model_prims (snd (kdfRoot model_prims (x3dh_master model_prims
       [replicate 32 2, replicate 32 6, replicate 32 7]) (replicate 32 7))) n"
    "shared_key model_prims (demo_identity Alice) (demo_identity Bob) (replicate 32 4) (Some (replicate 32 8)) (replicate 32 3) n =
     message_key model_prims (snd (kdfRoot model_prims (x3dh_master model_prims
       [replicate 32 2, replicate 32 6, replicate 32 7, replicate 32 12]) (replicate 32 7))) n"
    by (simp_all add: shared_key_def x3dh_responder_def demo_identity_def demo_keypair_def Let_def split: prod.split)
qed

lemma demo_shared_keys:
  "shared_key model_prims (demo_identity Alice) (demo_identity Bob) (replicate 32 4) None (replicate 32 3) 0 \<noteq>
   shared_key model_prims (demo_identity Alice) (demo_identity Bob) (replicate 32 4) (Some (replicate 32 8)) (replicate 32 3) 0"
  "shared_key model_prims (demo_identity Alice) (demo_identity Bob) (replicate 32 4) None (replicate 32 3) 1 \<noteq>
   shared_key model_prims (demo_identity Alice) (demo_identity Bob) (replicate 32 4) (Some (replicate 32 8)) (replicate 32 3) 1"
  unfolding demo_shared_key by code_simp+

theorem first_two_messages_witness:
  "\<exists>bdl sB1 ses sA1 m1 sA2 m2 sA3 sB2 sB3 sB4 sB5 sB6.
     generatePreKeyBundle model_prims (sql_ops model_prims) (replicate 32 3) 1 (demo_draw 8 10) 1 2
       (new_SqliteSignalStore (demo_identity Bob) memory_manager) = (Inr bdl, sB1) \<and>
     initiateSession model_prims (sql_ops model_prims) (replicate 32 4) 1 (demo_key Bob) bdl
       (new_SqliteSignalStore (demo_identity Alice) memory_manager) = (Inr ses, sA1) \<and>
     encrypt model_prims (sql_ops model_prims) (replicate 24 0) 1 (demo_key Bob) ''one'' None sA1 = (Inr m1, sA2) \<and>
     encrypt model_prims (sql_ops model_prims) (replicate 24 1) 1 (demo_key Bob) ''two'' None sA2 = (Inr m2, sA3) \<and>
     decrypt model_prims (sql_ops model_prims) (replicate 32 5) (replicate 32 7) 1 (demo_key Alice) m1 sB1 = (Inr ''one'', sB2) \<and>
     decrypt model_prims (sql_ops model_prims) (replicate 32 6) (replicate 32 7) 1 (demo_key Alice) m2 sB2 = (Inr ''two'', sB3) \<and>
     decrypt model_prims (sql_ops model_prims) (replicate 32 6) (replicate 32 7) 1 (demo_key Alice) m2 sB1 =
       (Inl (Error ''Decryption failed or message corrupted / tampered with''), sB4) \<and>
     decrypt model_prims (sql_ops model_prims) (replicate 32 5) (replicate 32 7) 1 (demo_key Alice) m1 sB4 =
       (Inl (Error ''Decryption failed or message corrupted / tampered with''), sB5) \<and>
     overlap together
         (decrypt_proc model_prims (sql_ops model_prims) (replicate 32 5) (replicate 32 7) 1 (demo_key Alice) m1)
         (decrypt_proc model_prims (sql_ops model_prims) (replicate 32 6) (replicate 32 7) 1 (demo_key Alice) m2) sB1
       = ((Done (Inr ''one''), Done (Inl (Error ''Decryption failed or message corrupted / tampered with''))), sB6)"
proof (rule first_two_messages [OF model_ratchet_laws model_sign_correct model_secretbox_authentic,
    where u = demo_identity and db = "\<lambda>_. memory_manager"])
  show "sendable ''one''" "sendable ''two''" by (rule sendable_ascii, simp add: code_def)+
  show "\<forall>i \<le> 1. shared_key model_prims (demo_identity Alice) (demo_identity Bob) (replicate 32 4) None (replicate 32 3) i \<noteq>
      shared_key model_prims (demo_identity Alice) (demo_identity Bob) (replicate 32 4) (Some (fst (demo_draw 8 10 0))) (replicate 32 3) i"
    using demo_shared_keys by (auto simp: demo_draw_def le_Suc_eq)
qed (simp_all add: demo_identity_wf memory_manager_ready demo_draw_laws)

end
