(* ===== verification/Invitations.thy ===== *)
theory Invitations
  imports First_Messages
begin

section \<open>Bundles that were published before the last one\<close>

text \<open>
  Every call of \<open>generatePreKeyBundle\<close> stores a new signed pre-key, and \<open>initiateBobSession\<close> takes the
  latest one of the store, whichever bundle the sender used: a first message does not say which signed
  pre-key it was made for. The profile screen publishes a bundle each time it is shown.
\<close>

text \<open>The agreement of a responder does not fail on keys of the right length.\<close>

lemma responder_defined:
  assumes L: "ratchet_laws P" and k: "box_keypair P (encryptionKey uA)" "box_keypair P (encryptionKey uB)"
    and len: "length sk = 32" "length ok = 32" "length ek = 32"
  shows "\<exists>r c. x3dh_responder P uB (generateCurve25519KeyPair P sk) (Some (generateCurve25519KeyPair P ok))
     (publicKey (encryptionKey uA)) (boxPublic P ek) (bytesToHex P (boxPublic P ek)) = Inr (r, c) \<and> length c = 32"
proof -
  note laws = ratchet_lawsD [OF L]
  have lens: "length (boxPublic P ek) = 32" "length (publicKey (encryptionKey uA)) = 32" "length (secretKey (encryptionKey uB)) = 32"
    using laws(2) len(3) k by (simp_all add: prim_laws box_keypair_def)
  obtain z1 z2 z3 z4 where z: "scalarMult P sk (publicKey (encryptionKey uA)) = Inr z1"
    "scalarMult P (secretKey (encryptionKey uB)) (boxPublic P ek) = Inr z2"
    "scalarMult P sk (boxPublic P ek) = Inr z3" "scalarMult P ok (boxPublic P ek) = Inr z4"
    using scalarMult_defined [OF laws(2)] len lens by meson
  obtain r c where rc: "kdfRoot P (x3dh_master P [z1, z2, z3, z4]) z3 = (r, c)" by fastforce
  then have "length c = 32" using length_kdf(2) [OF laws(3)] by (metis snd_conv)
  then show ?thesis using z rc laws(1) by (simp add: x3dh_responder_def prim_laws)
qed

context signal_store
begin

text \<open>A receiver without a session handles the first two messages of a sender, the first of which names a one-time
  pre-key of the store: both are tried with the keys of the chain that the latest signed pre-key leads to.\<close>

lemma bob_handles_two:
  assumes L: "ratchet_laws P" and inv: "invar s" "sess s (toLowerCase k) = None"
    and latest: "getLatestSignedPreKey S s = (Inr (Some spk), s)"
    and m1: "first_header uA h m1" "em_sequenceNumber m1 = 0" "em_oneTimePreKeyId m1 = Some i" "otks s i = Some q"
    and m2: "first_header uA h m2" "em_sequenceNumber m2 = 1"
    and h: "box_keypair P (encryptionKey uA)" "wf_header h" "hexToBytes P h = Inr ekA"
    and x: "x3dh_responder P (ident s) (spk_keyPair spk) (Some (otk_keyPair q)) (publicKey (encryptionKey uA)) ekA h = Inr (r, c)"
    and len: "length bk = 32" "length c = 32"
  shows "\<exists>s1 s2. decrypt P S bk rk now k m1 s = (decryptWithKey P m1 (message_key P c 0), s1) \<and>
     hasSession S k s1 = (Inr True, s1) \<and> decrypt P S bk rk now k m2 s1 = (decryptWithKey P m2 (message_key P c 1), s2)"
proof -
  have n: "em_sequenceNumber m1 = int 0" "int 0 \<le> MAX_SKIP_MESSAGES" using m1(2) by (simp_all add: MAX_SKIP_MESSAGES_def)
  obtain s1 where d1: "decrypt P S bk rk now k m1 s = (decryptWithKey P m1 (message_key P c 0), s1)" "invar s1"
    "sess s1 (toLowerCase k) = Some (opened_at P bk now k h (r, c) 0)"
    using alone_run [where r = r and rk = rk and now = now, OF L inv latest m1(1) h _ len n] x m1(3,4) by auto
  have "em_ephemeralPublicKeyHex m2 = h" using m2(1) by (simp add: first_header_def)
  then obtain B where "openSession P rk now m2 (opened_at P bk now k h (r, c) 0) = (Inr (message_key P c 1), B)" "storable_session P B"
    using openSession_second [OF L len(2) h(2) _ m2(2), of rk now bk k r] len(1) by blast
  from decrypt_run [OF d1(2,3) this, of bk] show ?thesis using d1 hasSession [OF d1(2), of k] by auto
qed

text \<open>The whole story: one bundle is published, an invitation is accepted with it, another bundle is published,
  and only then the messages arrive.\<close>

lemma republished_run:
  assumes L: "ratchet_laws P" "sign_correct P" "secretbox_authentic P"
    and A: "invar sA" "box_keypair P (encryptionKey (ident sA))"
    and B: "invar sB" "wf_identity P (ident sB)" "sess sB (toLowerCase kA) = None" "\<forall>k \<in> ran (spks sB). spk_createdAt k < t1"
    and times: "t1 < t2"
    and len: "length sk1 = 32" "length sk2 = 32" "length ek = 32" "length bk = 32" "length nonce1 = 24" "length nonce2 = 24"
    and draws: "\<forall>i. length (fst (draw1 i)) = 32" "\<forall>i. length (fst (draw2 i)) = 32" "0 < n1"
      "inj_on (\<lambda>j. snd (draw1 j)) {0..<n1}" "inj_on (\<lambda>j. snd (draw2 j)) {0..<n2}"
      "snd (draw1 0) \<notin> (\<lambda>j. snd (draw2 j)) ` {0..<n2}"
    and keys: "\<And>i. i \<le> 1 \<Longrightarrow> shared_key P (ident sA) (ident sB) ek (Some (fst (draw1 0))) sk1 i
        \<noteq> shared_key P (ident sA) (ident sB) ek (Some (fst (draw1 0))) sk2 i"
  shows "\<exists>bdl1 sB1 ses sA1 m1 sA2 m2 sA3 bdl2 sB2 sB3 sB4 sB5 sB6.
     generatePreKeyBundle P S sk1 id1 draw1 t1 n1 sB = (Inr bdl1, sB1) \<and>
     initiateSession P S ek now kB bdl1 sA = (Inr ses, sA1) \<and>
     encrypt P S nonce1 now kB pt1 None sA1 = (Inr m1, sA2) \<and> encrypt P S nonce2 now kB pt2 None sA2 = (Inr m2, sA3) \<and>
     generatePreKeyBundle P S sk2 id2 draw2 t2 n2 sB1 = (Inr bdl2, sB2) \<and>
     decrypt P S bk rk now kA m1 sB1 = (Inr (text_decode (text_encode pt1)), sB3) \<and>
     decrypt P S bk rk now kA m2 sB3 = (Inr (text_decode (text_encode pt2)), sB4) \<and>
     decrypt P S bk rk now kA m1 sB2 = (Inl (Error ''Decryption failed or message corrupted / tampered with''), sB5) \<and>
     hasSession S kA sB5 = (Inr True, sB5) \<and>
     decrypt P S bk rk now kA m2 sB5 = (Inl (Error ''Decryption failed or message corrupted / tampered with''), sB6)"
proof -
  note laws = ratchet_lawsD [OF L(1)]
  have kb: "box_keypair P (encryptionKey (ident sB))" using B(2) by (simp add: wf_identity_def)
  obtain bdl1 spk1 sB1 where g1: "generatePreKeyBundle P S sk1 id1 draw1 t1 n1 sB = (Inr bdl1, sB1)"
    "invar sB1" "sess sB1 = sess sB" "ident sB1 = ident sB"
    "verifySignature P (sp_publicKeyHex (pb_signedPreKey bdl1)) (sp_signatureHex (pb_signedPreKey bdl1)) (pb_signingKeyHex bdl1)"
    "pb_identityKeyHex bdl1 = publicKeyHex (encryptionKey (ident sB))"
    "sp_publicKeyHex (pb_signedPreKey bdl1) = publicKeyHex (generateCurve25519KeyPair P sk1)"
    "getLatestSignedPreKey S sB1 = (Inr (Some spk1), sB1)" "spk_keyPair spk1 = generateCurve25519KeyPair P sk1"
    "case pb_oneTimePreKey bdl1 of None \<Rightarrow> n1 = 0
      | Some op \<Rightarrow> 0 < n1 \<and> op_keyId op = snd (draw1 0) \<and>
          op_publicKeyHex op = publicKeyHex (generateCurve25519KeyPair P (fst (draw1 0))) \<and>
          otks sB1 (op_keyId op) =
            Some \<lparr>otk_keyId = snd (draw1 0), otk_keyPair = generateCurve25519KeyPair P (fst (draw1 0))\<rparr>"
    "\<forall>k \<in> ran (spks sB1). spk_createdAt k \<le> t1"
    using generatePreKeyBundle_full [OF laws(1,2) L(2) B(2,1) len(1) draws(1) B(4) draws(4), of id1]
    by (elim exE conjE) (rule that; assumption)
  obtain op where op: "pb_oneTimePreKey bdl1 = Some op" "op_keyId op = snd (draw1 0)"
    "op_publicKeyHex op = publicKeyHex (generateCurve25519KeyPair P (fst (draw1 0)))"
    "otks sB1 (snd (draw1 0)) = Some \<lparr>otk_keyId = snd (draw1 0), otk_keyPair = generateCurve25519KeyPair P (fst (draw1 0))\<rparr>"
    using g1(10) draws(3) by (auto split: option.splits)
  have wf1: "wf_identity P (ident sB1)" and older: "\<forall>k \<in> ran (spks sB1). spk_createdAt k < t2"
    using B(2) g1(4,11) times by auto
  obtain bdl2 spk2 sB2 where g2: "generatePreKeyBundle P S sk2 id2 draw2 t2 n2 sB1 = (Inr bdl2, sB2)"
    "invar sB2" "sess sB2 = sess sB1" "ident sB2 = ident sB1"
    "getLatestSignedPreKey S sB2 = (Inr (Some spk2), sB2)" "spk_keyPair spk2 = generateCurve25519KeyPair P sk2"
    "\<forall>x. x \<notin> (\<lambda>j. snd (draw2 j)) ` {0..<n2} \<longrightarrow> otks sB2 x = otks sB1 x"
    using generatePreKeyBundle_full [OF laws(1,2) L(2) wf1 g1(2) len(2) draws(2) older draws(5), of id2]
    by (elim exE conjE) (rule that; assumption)
  have len1: "length (fst (draw1 0)) = 32" using draws(1) by simp
  have pub: "published P (ident sB) spk1 (otks sB1) bdl1"
    unfolding published_def using g1(5-9) op kb generated_keypair len(1) len1 by auto
  let ?o1 = "fst (draw1 0)" and ?otk = "generateCurve25519KeyPair P (fst (draw1 0))" and ?ek = "generateCurve25519KeyPair P ek"
    and ?uA = "ident sA" and ?h = "bytesToHex P (boxPublic P ek)"
  obtain ses sA1 m1 sA2 m2 sA3 r c where a: "initiateSession P S ek now kB bdl1 sA = (Inr ses, sA1)"
    "encrypt P S nonce1 now kB pt1 None sA1 = (Inr m1, sA2)" "encrypt P S nonce2 now kB pt2 None sA2 = (Inr m2, sA3)"
    "x3dh_initiator P ?uA bdl1 ?ek = Inr (r, c)" "length c = 32" "first_header ?uA ?h m1" "first_header ?uA ?h m2"
    "em_sequenceNumber m1 = 0" "em_sequenceNumber m2 = 1" "em_oneTimePreKeyId m1 = Some (op_keyId op)" "em_oneTimePreKeyId m2 = None"
    "decryptWithKey P m1 (message_key P c 0) = Inr (text_decode (text_encode pt1))"
    "decryptWithKey P m2 (message_key P c 1) = Inr (text_decode (text_encode pt2))"
    "only_opened_by P (message_key P c 0) m1" "only_opened_by P (message_key P c 1) m2"
    using two_sent [OF L(1,3) A pub op(1) len(3,5,6), of now kB pt1 pt2] by (elim exE conjE) (rule that; assumption)
  note right = a(12,13) and hd = a(6,7,10,11) [unfolded op(2)]
  have wf: "wf_header ?h" using wf_header_keypair [OF laws(1,2) generated_keypair [OF len(3)]] by simp
  have hx: "hexToBytes P ?h = Inr (boxPublic P ek)" using laws(1) by (simp add: prim_laws)
  have x: "x3dh_responder P (ident sB) (generateCurve25519KeyPair P sk1) (Some ?otk) (publicKey (encryptionKey ?uA)) (boxPublic P ek) ?h = Inr (r, c)"
    using x3dh_agree [OF laws(1-3) A(2) kb generated_keypair [OF len(1)] generated_keypair [OF len(3)], of "Some ?otk" bdl1]
      generated_keypair [OF len1, of P] g1(6,7) op a(4) by simp
  obtain r' c' where x': "x3dh_responder P (ident sB) (generateCurve25519KeyPair P sk2) (Some ?otk) (publicKey (encryptionKey ?uA))
      (boxPublic P ek) ?h = Inr (r', c')" "length c' = 32"
    using responder_defined [OF L(1) A(2) kb len(2) len1 len(3)] by blast
  have "message_key P c' i \<noteq> message_key P c i" if "i \<le> 1" for i using keys [OF that] x x'(1) by (simp add: shared_key_def)
  from this [of 0] this [of 1]
  have wrong: "decryptWithKey P m1 (message_key P c' 0) = Inl (Error ''Decryption failed or message corrupted / tampered with'')"
    "decryptWithKey P m2 (message_key P c' 1) = Inl (Error ''Decryption failed or message corrupted / tampered with'')"
    using a(14,15) length_message_key [OF laws(3)] by (simp_all add: only_opened_by_def)
  have otk: "otks sB2 (snd (draw1 0)) = otks sB1 (snd (draw1 0))" using g2(7) draws(6) by simp
  have none: "sess sB1 (toLowerCase kA) = None" "sess sB2 (toLowerCase kA) = None" using B(3) g1(3) g2(3) by simp_all
  obtain sB3 sB4 where good: "decrypt P S bk rk now kA m1 sB1 = (decryptWithKey P m1 (message_key P c 0), sB3)"
    "decrypt P S bk rk now kA m2 sB3 = (decryptWithKey P m2 (message_key P c 1), sB4)"
    using bob_handles_two [OF L(1) g1(2) none(1) g1(8) hd(1) a(8) hd(3) op(4) hd(2) a(9) A(2) wf hx _ len(4) a(5), of r rk now]
      x g1(4,9) by auto
  obtain sB5 sB6 where bad: "decrypt P S bk rk now kA m1 sB2 = (decryptWithKey P m1 (message_key P c' 0), sB5)"
    "hasSession S kA sB5 = (Inr True, sB5)" "decrypt P S bk rk now kA m2 sB5 = (decryptWithKey P m2 (message_key P c' 1), sB6)"
    using bob_handles_two [OF L(1) g2(2) none(2) g2(5) hd(1) a(8) hd(3) otk [unfolded op(4)] hd(2) a(9) A(2) wf hx _ len(4) x'(2), of r' rk now]
      x'(1) g1(4) g2(4,6) by auto
  show ?thesis
    by (intro exI conjI; (rule g1(1) a(1) a(2) a(3) g2(1) good(1) [unfolded right] good(2) [unfolded right]
        bad(1) [unfolded wrong] bad(2) bad(3) [unfolded wrong]))
qed

end

text \<open>C7. A contact URI stops working as soon as its owner publishes another: somebody who imported the earlier URI
  sends two messages; both are opened, in order, if they arrive before the owner's next \<open>generatePreKeyBundle\<close>. If they
  arrive after it, the first is refused, a session with the wrong keys stays in the owner's store, and the second
  message is refused with it. The hypotheses are the laws of the primitives, fresh stores, distinct identifiers, and that
  the two signed pre-keys lead to different keys.\<close>

theorem later_bundle_breaks_earlier_invitation:
  assumes "ratchet_laws P" "sign_correct P" "secretbox_authentic P" "\<forall>d. wf_identity P (u d)"
    and "\<forall>d. dm_ready (db d) \<and> same_rows (empty_database\<lparr>foreign_keys := True\<rparr>) (db_of (db d))"
    and "t1 < t2" "length sk1 = 32" "length sk2 = 32" "length ek = 32" "length bk = 32" "length nonce1 = 24" "length nonce2 = 24"
    and "sendable pt1" "sendable pt2"
    and "\<forall>i. length (fst (draw1 i)) = 32" "\<forall>i. length (fst (draw2 i)) = 32" "0 < n1"
    and "inj_on (\<lambda>j. snd (draw1 j)) {0..<n1}" "inj_on (\<lambda>j. snd (draw2 j)) {0..<n2}"
      "snd (draw1 0) \<notin> (\<lambda>j. snd (draw2 j)) ` {0..<n2}"
    and "\<forall>i \<le> 1. shared_key P (u Alice) (u Bob) ek (Some (fst (draw1 0))) sk1 i \<noteq>
      shared_key P (u Alice) (u Bob) ek (Some (fst (draw1 0))) sk2 i"
  shows "\<exists>bdl1 sB1 ses sA1 m1 sA2 m2 sA3 bdl2 sB2 sB3 sB4 sB5 sB6.
     generatePreKeyBundle P (sql_ops P) sk1 id1 draw1 t1 n1 (new_SqliteSignalStore (u Bob) (db Bob)) = (Inr bdl1, sB1) \<and>
     initiateSession P (sql_ops P) ek now kB bdl1 (new_SqliteSignalStore (u Alice) (db Alice)) = (Inr ses, sA1) \<and>
     encrypt P (sql_ops P) nonce1 now kB pt1 None sA1 = (Inr m1, sA2) \<and>
     encrypt P (sql_ops P) nonce2 now kB pt2 None sA2 = (Inr m2, sA3) \<and>
     generatePreKeyBundle P (sql_ops P) sk2 id2 draw2 t2 n2 sB1 = (Inr bdl2, sB2) \<and>
     decrypt P (sql_ops P) bk rk now kA m1 sB1 = (Inr pt1, sB3) \<and>
     decrypt P (sql_ops P) bk rk now kA m2 sB3 = (Inr pt2, sB4) \<and>
     decrypt P (sql_ops P) bk rk now kA m1 sB2 = (Inl (Error ''Decryption failed or message corrupted / tampered with''), sB5) \<and>
     sql_hasSession kA sB5 = (Inr True, sB5) \<and>
     decrypt P (sql_ops P) bk rk now kA m2 sB5 = (Inl (Error ''Decryption failed or message corrupted / tampered with''), sB6)"
proof -
  let ?s = "\<lambda>d. new_SqliteSignalStore (u d) (db d)"
  note fresh = new_sql_store [OF conjunct1 [OF spec [OF assms(5)]] conjunct2 [OF spec [OF assms(5)]]]
  have A: "sql_invar P (?s Alice)" "box_keypair P (encryptionKey (ss_identity (?s Alice)))"
    using fresh assms(4) by (simp_all add: wf_identity_def)
  have B: "sql_invar P (?s Bob)" "wf_identity P (ss_identity (?s Bob))" "sql_sess P (?s Bob) (toLowerCase kA) = None"
    "\<forall>k \<in> ran (sql_spks P (?s Bob)). spk_createdAt k < t1"
    using fresh assms(4) by simp_all
  have keys: "shared_key P (ss_identity (?s Alice)) (ss_identity (?s Bob)) ek (Some (fst (draw1 0))) sk1 i \<noteq>
      shared_key P (ss_identity (?s Alice)) (ss_identity (?s Bob)) ek (Some (fst (draw1 0))) sk2 i" if "i \<le> 1" for i
    using assms(21) that by (simp add: fresh)
  have has: "hasSession (sql_ops P) = sql_hasSession" by (simp add: sql_ops_def)
  show ?thesis
    using sql.republished_run [OF assms(1-3) A B assms(6-12,15-20) keys, of id1 now kB pt1 pt2 id2 rk] assms(13,14)
    unfolding has sendable_def by simp
qed

text \<open>On the concrete parameters: two bundles of two one-time pre-keys.\<close>

lemma demo_shared_key_spk:
  "shared_key model_prims (demo_identity Alice) (demo_identity Bob) (replicate 32 4) (Some (replicate 32 8)) (replicate 32 b) n =
   message_key model_prims (snd (kdfRoot model_prims (x3dh_master model_prims
     [replicate 32 (b XOR 1), replicate 32 6, replicate 32 (b XOR 4), replicate 32 12]) (replicate 32 (b XOR 4)))) n"
proof -
  have xor: "xor_bytes (replicate 32 a) (replicate 32 c) = replicate 32 (a XOR c)" for a c :: byte
    by (simp add: xor_bytes_def map2_map_map map_replicate_const)
  have "hexToBytes model_prims (bytesToHex model_prims (replicate 32 4)) = Inr (replicate 32 4)"
    by (rule hexToBytes_bytesToHex [OF model_hex_codec])
  moreover have "scalarMult model_prims (replicate 32 a) (replicate 32 c) = Inr (replicate 32 (a XOR c))" for a c
    by (simp add: model_prims_def xor)
  moreover have "boxPublic model_prims x = x" for x by (simp add: model_prims_def)
  ultimately show ?thesis
    by (simp add: shared_key_def x3dh_responder_def demo_identity_def demo_keypair_def Let_def split: prod.split)
qed

lemma demo_spk_keys:
  "shared_key model_prims (demo_identity Alice) (demo_identity Bob) (replicate 32 4) (Some (replicate 32 8)) (replicate 32 3) 0 \<noteq>
   shared_key model_prims (demo_identity Alice) (demo_identity Bob) (replicate 32 4) (Some (replicate 32 8)) (replicate 32 5) 0"
  "shared_key model_prims (demo_identity Alice) (demo_identity Bob) (replicate 32 4) (Some (replicate 32 8)) (replicate 32 3) 1 \<noteq>
   shared_key model_prims (demo_identity Alice) (demo_identity Bob) (replicate 32 4) (Some (replicate 32 8)) (replicate 32 5) 1"
  unfolding demo_shared_key_spk by code_simp+

theorem later_bundle_breaks_earlier_invitation_witness:
  "\<exists>bdl1 sB1 ses sA1 m1 sA2 m2 sA3 bdl2 sB2 sB3 sB4 sB5 sB6.
     generatePreKeyBundle model_prims (sql_ops model_prims) (replicate 32 3) 1 (demo_draw 8 10) 1 2
       (new_SqliteSignalStore (demo_identity Bob) memory_manager) = (Inr bdl1, sB1) \<and>
     initiateSession model_prims (sql_ops model_prims) (replicate 32 4) 1 (demo_key Bob) bdl1
       (new_SqliteSignalStore (demo_identity Alice) memory_manager) = (Inr ses, sA1) \<and>
     encrypt model_prims (sql_ops model_prims) (replicate 24 0) 1 (demo_key Bob) ''hi'' None sA1 = (Inr m1, sA2) \<and>
     encrypt model_prims (sql_ops model_prims) (replicate 24 1) 1 (demo_key Bob) ''two'' None sA2 = (Inr m2, sA3) \<and>
     generatePreKeyBundle model_prims (sql_ops model_prims) (replicate 32 5) 2 (demo_draw 9 20) 2 2 sB1 = (Inr bdl2, sB2) \<and>
     decrypt model_prims (sql_ops model_prims) (replicate 32 6) (replicate 32 7) 1 (demo_key Alice) m1 sB1 = (Inr ''hi'', sB3) \<and>
     decrypt model_prims (sql_ops model_prims) (replicate 32 6) (replicate 32 7) 1 (demo_key Alice) m2 sB3 = (Inr ''two'', sB4) \<and>
     decrypt model_prims (sql_ops model_prims) (replicate 32 6) (replicate 32 7) 1 (demo_key Alice) m1 sB2 =
       (Inl (Error ''Decryption failed or message corrupted / tampered with''), sB5) \<and>
     sql_hasSession (demo_key Alice) sB5 = (Inr True, sB5) \<and>
     decrypt model_prims (sql_ops model_prims) (replicate 32 6) (replicate 32 7) 1 (demo_key Alice) m2 sB5 =
       (Inl (Error ''Decryption failed or message corrupted / tampered with''), sB6)"
proof (rule later_bundle_breaks_earlier_invitation [OF model_ratchet_laws model_sign_correct model_secretbox_authentic,
    where u = demo_identity and db = "\<lambda>_. memory_manager"])
  show "sendable ''hi''" "sendable ''two''" by (rule sendable_ascii, simp add: code_def)+
  show "snd (demo_draw 8 10 0) \<notin> (\<lambda>j. snd (demo_draw 9 20 j)) ` {0..<2}" by (auto simp: demo_draw_def)
  show "\<forall>i \<le> 1. shared_key model_prims (demo_identity Alice) (demo_identity Bob) (replicate 32 4) (Some (fst (demo_draw 8 10 0))) (replicate 32 3) i \<noteq>
      shared_key model_prims (demo_identity Alice) (demo_identity Bob) (replicate 32 4) (Some (fst (demo_draw 8 10 0))) (replicate 32 5) i"
    using demo_spk_keys by (auto simp: demo_draw_def le_Suc_eq)
qed (simp_all add: demo_identity_wf memory_manager_ready demo_draw_laws)

end
