(* ===== verification/App_Context.thy ===== *)
theory App_Context
  imports Orch_Properties
begin

section \<open>The application context\<close>

text \<open>
  \<open>client/src/ui/context/OrchestratorContext.tsx\<close>: the state variables of the provider, the reference to
  the orchestrator, and the functions the screens call.

  The effect that launches an orchestrator runs when the identity changes. The callbacks it registers
  are closures of the render it belongs to: \<open>ac_seen\<close> is the value of \<open>activeContact\<close> in that render.
  Calls and effects run to their end one after the other, so that a new orchestrator has started when
  the call that changed the identity returns; the events of an orchestrator call are handled after it,
  in their order. The component stays mounted; a cleanup switches the callbacks of its effect off.
  \<open>ac_tor\<close> is the \<open>TorManager\<close> singleton while no orchestrator holds it.
\<close>

record conversation_summary =
  cs_contact :: contact_record
  cs_lastMessage :: "stored_message option"
  cs_unreadCount :: nat

record 'k app_context =
  ac_identity :: "identity option"
  ac_isInitialized :: bool
  ac_torStatus :: tor_status
  ac_torProgress :: int
  ac_wsState :: ws_state
  ac_contacts :: "contact_record list"
  ac_conversations :: "conversation_summary list"
  ac_unreadTotal :: nat
  ac_activeContact :: "contact_record option"
  ac_activeMessages :: "stored_message list"
  ac_error :: "string option"
  ac_orch :: "orchestrator option"
  ac_seen :: "contact_record option"
  ac_tor :: "tor_manager option"
  ac_keychain :: 'k

definition new_context :: "identity option \<Rightarrow> 'k \<Rightarrow> 'k app_context" where
  "new_context u k =
     \<lparr>ac_identity = u, ac_isInitialized = False, ac_torStatus = NOT_INITIALIZED, ac_torProgress = 0, ac_wsState = DISCONNECTED,
      ac_contacts = [], ac_conversations = [], ac_unreadTotal = 0, ac_activeContact = None, ac_activeMessages = [],
      ac_error = None, ac_orch = None, ac_seen = None, ac_tor = None, ac_keychain = k\<rparr>"

text \<open>What the provider is given from outside at the time of a call: libraries, devices and random bytes.\<close>

record 'k ui_env =
  ui_prims :: prims
  ui_bip39 :: bip39_ops
  ui_generateMnemonic :: "nat \<Rightarrow> string res"
  ui_kc :: "'k keychain_ops option"
  ui_open :: "string \<Rightarrow> hex option \<Rightarrow> database res"
  ui_key_drawn :: bytes
  ui_key_fallback :: bytes
  ui_native :: "unit res option"
  ui_orch :: orch_env
  ui_devMode :: bool
  ui_now :: int

type_synonym ('k, 'a) action = "('k app_context, 'a) M"

subsection \<open>Calls of the orchestrator and of its repositories\<close>

text \<open>A method of the current orchestrator that has no callbacks; a null reference throws.\<close>

definition repo_call :: "(orchestrator, 'a) M \<Rightarrow> ('k, 'a) action" where
  "repo_call m ctx =
     (case ac_orch ctx of None \<Rightarrow> (Inl LibError, ctx)
      | Some ob \<Rightarrow> (case m ob of (r, ob') \<Rightarrow> (r, ctx\<lparr>ac_orch := Some ob'\<rparr>)))"

text \<open>The list of conversations.\<close>

primrec summaries :: "contact_record list \<Rightarrow> (orchestrator, conversation_summary list) M" where
  "summaries [] = ret []"
| "summaries (c # cs) =
     bindM (on_repo (getMessagesForContact (cr_recipientPubkeyHash c) 1 0)) (\<lambda>msgs.
     bindM (on_repo (getUnreadCount (Some (cr_recipientPubkeyHash c)))) (\<lambda>unread.
     bindM (summaries cs) (\<lambda>rest.
     ret (\<lparr>cs_contact = c, cs_lastMessage = (if msgs = [] then None else Some (last msgs)), cs_unreadCount = unread\<rparr> # rest))))"

definition read_conversations :: "(orchestrator, contact_record list \<times> conversation_summary list \<times> nat) M" where
  "read_conversations =
     bindM (on_repo listContacts) (\<lambda>contactList.
     bindM (summaries contactList) (\<lambda>sums.
     bindM (on_repo (getUnreadCount None)) (\<lambda>totalUnread. ret (contactList, sums, totalUnread))))"

text \<open>The state is set when everything was read; an error of the repositories is ignored.\<close>

definition refreshConversations :: "('k, unit) action" where
  "refreshConversations =
     tryM (bindM (repo_call read_conversations) (\<lambda>(contactList, sums, totalUnread).
             modifyM (\<lambda>ctx. ctx\<lparr>ac_contacts := contactList, ac_conversations := sums, ac_unreadTotal := totalUnread\<rparr>)))
       (\<lambda>_. ret ())"

text \<open>The callbacks of the orchestrator.\<close>

definition append_active :: "stored_message \<Rightarrow> 'k app_context \<Rightarrow> 'k app_context" where
  "append_active msg ctx =
     (case ac_seen ctx of
        Some c \<Rightarrow> if sm_contactPubkeyHash msg = cr_recipientPubkeyHash c
                  then ctx\<lparr>ac_activeMessages := ac_activeMessages ctx @ [msg]\<rparr> else ctx
      | None \<Rightarrow> ctx)"

fun on_orch_event :: "orch_event \<Rightarrow> ('k, unit) action" where
  "on_orch_event (MessageReceived m) = bindM (modifyM (append_active m)) (\<lambda>_. refreshConversations)"
| "on_orch_event (MessageSent m) = bindM (modifyM (append_active m)) (\<lambda>_. refreshConversations)"
| "on_orch_event (TorStatusChanged s) = modifyM (\<lambda>ctx.
     if s = READY then ctx\<lparr>ac_torStatus := s, ac_torProgress := 100\<rparr> else ctx\<lparr>ac_torStatus := s\<rparr>)"
| "on_orch_event (WsStateChanged s) = modifyM (\<lambda>ctx. ctx\<lparr>ac_wsState := s\<rparr>)"
| "on_orch_event (ErrorReported e) = modifyM (\<lambda>ctx. ctx\<lparr>ac_error := Some (exn_message e)\<rparr>)"

primrec handle_events :: "orch_event list \<Rightarrow> 'k app_context \<Rightarrow> 'k app_context" where
  "handle_events [] ctx = ctx"
| "handle_events (e # es) ctx = handle_events es (snd (on_orch_event e ctx))"

text \<open>A call of the current orchestrator, and the callbacks it causes.\<close>

definition orch_call :: "(orchestrator, 'a) M \<Rightarrow> ('k, 'a) action" where
  "orch_call m ctx =
     (case ac_orch ctx of None \<Rightarrow> (Inl LibError, ctx)
      | Some ob \<Rightarrow> (case m ob of (r, ob') \<Rightarrow>
          (r, handle_events (drop (length (ao_events ob)) (ao_events ob')) (ctx\<lparr>ac_orch := Some ob'\<rparr>))))"

definition all_events :: "event_kind set" where
  "all_events = {KMessageReceived, KMessageSent, KTorStatus, KWsState, KError}"

text \<open>An event of the stream of the current orchestrator.\<close>

definition relay_event :: "'k ui_env \<Rightarrow> ws_event \<Rightarrow> ('k, unit) action" where
  "relay_event U ev = orch_call (stream_event (ui_prims U) (ui_orch U) (ui_now U) ev)"

subsection \<open>The effects\<close>

definition ui_tor_config :: "bool \<Rightarrow> tor_config" where
  "ui_tor_config dev = \<lparr>socksProxyHost = ''127.0.0.1'', socksProxyPort = 9050, targetHost = ''127.0.0.1'', targetPort = 8080, devMode = dev\<rparr>"

definition database_name :: "identity \<Rightarrow> string" where
  "database_name u = ''tore2ee_'' @ take 8 (recipientPubkeyHash u) @ ''.db''"

definition ui_orchestrator :: "'k ui_env \<Rightarrow> tor_manager option \<Rightarrow> identity \<Rightarrow> orchestrator" where
  "ui_orchestrator U tor u =
     new_AppOrchestrator u (ui_tor_config (ui_devMode U)) (Some (database_name u)) None tor all_events"

text \<open>The reference is set once the database is open; the list is read before the stream is started.\<close>

definition startOrchestrator :: "'k ui_env \<Rightarrow> identity \<Rightarrow> ('k, unit) action" where
  "startOrchestrator U u =
     bindM (modifyM (\<lambda>ctx. ctx\<lparr>ac_seen := ac_activeContact ctx\<rparr>)) (\<lambda>_.
     tryM
       (bindM (\<lambda>ctx. let ob = ui_orchestrator U (ac_tor ctx) u in
           case initialize_app (ui_prims U) (ui_open U) (ui_kc U) (ui_key_drawn U) (ui_key_fallback U) (ui_now U)
                  (ob, ac_keychain ctx) of
             (Inl e, (_, k)) \<Rightarrow> (Inl e, ctx\<lparr>ac_keychain := k, ac_tor := Some (ao_tor ob)\<rparr>)
           | (Inr _, (ob1, k)) \<Rightarrow> (Inr (), ctx\<lparr>ac_keychain := k, ac_orch := Some ob1\<rparr>)) (\<lambda>_.
        bindM refreshConversations (\<lambda>_.
        orch_call (start_app (ui_prims U) (ui_orch U) (ui_now U) (ui_native U)))))
       (\<lambda>e. modifyM (\<lambda>ctx. ctx\<lparr>ac_error := Some (''Orchestrator start error: '' @ exn_message e)\<rparr>)))"

definition drop_orchestrator :: "'k app_context \<Rightarrow> 'k app_context" where
  "drop_orchestrator ctx = ctx\<lparr>ac_orch := None, ac_tor := map_option ao_tor (ac_orch ctx)\<rparr>"

text \<open>The cleanup of the effect: nothing the orchestrator reports while it stops is handled.\<close>

definition cleanup_effect :: "'k ui_env \<Rightarrow> ('k, unit) action" where
  "cleanup_effect U ctx =
     (if ac_orch ctx = None then (Inr (), ctx)
      else bindM (tryM (repo_call (stop_app (ui_prims U) (ui_orch U) (ui_now U))) (\<lambda>_. ret ()))
             (\<lambda>_. modifyM drop_orchestrator) ctx)"

definition change_identity :: "'k ui_env \<Rightarrow> identity option \<Rightarrow> ('k, unit) action" where
  "change_identity U u =
     bindM (cleanup_effect U) (\<lambda>_.
     bindM (modifyM (\<lambda>ctx. ctx\<lparr>ac_identity := u\<rparr>)) (\<lambda>_.
     case u of None \<Rightarrow> ret () | Some v \<Rightarrow> startOrchestrator U v))"

text \<open>The first render: the keychain is read unless an identity was passed in.\<close>

definition init_identity :: "'k ui_env \<Rightarrow> ('k, unit) action" where
  "init_identity U ctx =
     (case ac_identity ctx of
        Some u \<Rightarrow> bindM (startOrchestrator U u) (\<lambda>_. modifyM (\<lambda>ctx. ctx\<lparr>ac_isInitialized := True\<rparr>)) ctx
      | None \<Rightarrow>
          (case loadIdentityFromKeychain (ui_prims U) (ui_bip39 U) (ui_kc U) ''tore2ee.identity.keys'' (ac_keychain ctx) of
             (Inl e, k) \<Rightarrow>
               (Inr (), ctx\<lparr>ac_keychain := k, ac_error := Some (''Keychain load error: '' @ exn_message e), ac_isInitialized := True\<rparr>)
           | (Inr None, k) \<Rightarrow> (Inr (), ctx\<lparr>ac_keychain := k, ac_isInitialized := True\<rparr>)
           | (Inr (Some u), k) \<Rightarrow>
               change_identity U (Some u) (ctx\<lparr>ac_keychain := k, ac_isInitialized := True\<rparr>)))"

subsection \<open>The functions of the context\<close>

definition keychain_call :: "('k, 'a) M \<Rightarrow> ('k, 'a) action" where
  "keychain_call m ctx = (case m (ac_keychain ctx) of (r, k) \<Rightarrow> (r, ctx\<lparr>ac_keychain := k\<rparr>))"

definition adopt_identity :: "'k ui_env \<Rightarrow> identity \<Rightarrow> ('k, identity) action" where
  "adopt_identity U u =
     bindM (keychain_call (saveIdentityToKeychain (ui_kc U) ''tore2ee.identity.keys'' u)) (\<lambda>_.
     bindM (change_identity U (Some u)) (\<lambda>_. ret u))"

definition createIdentity :: "'k ui_env \<Rightarrow> nat option \<Rightarrow> ('k, identity) action" where
  "createIdentity U words =
     bindM (liftM (generateIdentity (ui_prims U) (ui_bip39 U) (ui_generateMnemonic U) (case words of None \<Rightarrow> 12 | Some n \<Rightarrow> n))) (adopt_identity U)"

definition ctx_restoreIdentity :: "'k ui_env \<Rightarrow> string \<Rightarrow> ('k, identity) action" where
  "ctx_restoreIdentity U m = bindM (liftM (restoreIdentity (ui_prims U) (ui_bip39 U) m)) (adopt_identity U)"

definition stop_current :: "'k ui_env \<Rightarrow> ('k, unit) action" where
  "stop_current U ctx =
     (if ac_orch ctx = None then (Inr (), ctx)
      else bindM (orch_call (stop_app (ui_prims U) (ui_orch U) (ui_now U))) (\<lambda>_. modifyM drop_orchestrator) ctx)"

definition logout :: "'k ui_env \<Rightarrow> ('k, unit) action" where
  "logout U =
     bindM (keychain_call (clearIdentityFromKeychain (ui_kc U) ''tore2ee.identity.keys'')) (\<lambda>_.
     bindM (stop_current U) (\<lambda>_.
     bindM (modifyM (\<lambda>ctx. ctx\<lparr>ac_activeContact := None, ac_activeMessages := [], ac_conversations := [], ac_contacts := []\<rparr>)) (\<lambda>_.
     change_identity U None)))"

definition loadContacts :: "('k, unit) action" where
  "loadContacts ctx = (if ac_orch ctx = None then (Inr (), ctx) else refreshConversations ctx)"

definition selectConversation :: "hex \<Rightarrow> ('k, unit) action" where
  "selectConversation h ctx =
     (if ac_orch ctx = None then (Inr (), ctx) else
        bindM (repo_call (on_repo (getContactByHash h))) (\<lambda>co.
        case co of None \<Rightarrow> throwM (Error ''Contact not found'')
        | Some contact \<Rightarrow>
            bindM (modifyM (\<lambda>ctx. ctx\<lparr>ac_activeContact := Some contact\<rparr>)) (\<lambda>_.
            bindM (repo_call (on_repo (getMessagesForContact h 100 0))) (\<lambda>msgs.
            bindM (modifyM (\<lambda>ctx. ctx\<lparr>ac_activeMessages := msgs\<rparr>)) (\<lambda>_.
            bindM (repo_call (on_repo (markMessagesAsRead h))) (\<lambda>_. refreshConversations))))) ctx)"

definition ctx_sendMessage :: "'k ui_env \<Rightarrow> string \<Rightarrow> ('k, unit) action" where
  "ctx_sendMessage U body ctx =
     (case (ac_orch ctx, ac_activeContact ctx) of
        (Some _, Some c) \<Rightarrow>
          bindM (orch_call (sendOutboundMessage (ui_prims U) (ui_orch U) (ui_now U) (cr_recipientPubkeyHash c) body))
            (\<lambda>_. ret ()) ctx
      | _ \<Rightarrow> (Inl (Error ''No active conversation''), ctx))"

definition ctx_importContact :: "'k ui_env \<Rightarrow> bytes \<Rightarrow> string \<Rightarrow> string option \<Rightarrow> ('k, contact_record) action" where
  "ctx_importContact U ekSecret uri customAlias ctx =
     (if ac_orch ctx = None then (Inl (Error ''Orchestrator not initialized''), ctx) else
        bindM (repo_call (on_store (importContact (ui_prims U) ekSecret (ui_now U) uri customAlias))) (\<lambda>imported.
        bindM refreshConversations (\<lambda>_. ret imported)) ctx)"

definition exportOwnUri :: "'k ui_env \<Rightarrow> bytes \<Rightarrow> int \<Rightarrow> (nat \<Rightarrow> bytes \<times> int) \<Rightarrow> string option \<Rightarrow> ('k, string) action" where
  "exportOwnUri U spkSecret spkId draw name ctx =
     (if ac_orch ctx = None then (Inl (Error ''Orchestrator not initialized''), ctx) else
        bindM (repo_call (on_store (generatePreKeyBundle (ui_prims U) (sql_ops (ui_prims U)) spkSecret spkId draw (ui_now U) 10)))
          (\<lambda>bundle. ret (exportContactUri bundle name)) ctx)"

definition clearActiveConversation :: "'k app_context \<Rightarrow> 'k app_context" where
  "clearActiveConversation ctx = ctx\<lparr>ac_activeContact := None, ac_activeMessages := []\<rparr>"

definition clearError :: "'k app_context \<Rightarrow> 'k app_context" where
  "clearError ctx = ctx\<lparr>ac_error := None\<rparr>"

end
