(* ===== verification/Battery.thy ===== *)
theory Battery
  imports Prelude
begin

section \<open>Battery optimisation\<close>

text \<open>
  \<open>client/src/native/BatteryOptimization.ts\<close>: three questions to a native Android module, with an intent
  as the fallback of two of them. \<open>react-native\<close> is given by what it offers: the platform, the outcome of
  each native method that is there, and the outcome of \<open>Linking.sendIntent\<close> for each intent. A method
  returns its answer and the intents it sent.
\<close>

record react_native =
  rn_OS :: "string option"
  rn_isIgnoring :: "bool res option"
  rn_requestIgnore :: "bool res option"
  rn_openSettings :: "bool res option"
  rn_sendIntent :: "(string \<Rightarrow> unit res) option"

definition other_platform :: "react_native \<Rightarrow> bool" where
  "other_platform R \<longleftrightarrow> truthy (rn_OS R) \<and> rn_OS R \<noteq> Some ''android''"

definition isIgnoringBatteryOptimizations :: "react_native \<Rightarrow> bool" where
  "isIgnoringBatteryOptimizations R =
     (if other_platform R then True
      else case rn_isIgnoring R of Some (Inr b) \<Rightarrow> b | Some (Inl e) \<Rightarrow> False | None \<Rightarrow> False)"

definition send_intent :: "react_native \<Rightarrow> string \<Rightarrow> bool \<times> string list" where
  "send_intent R i =
     (case rn_sendIntent R of None \<Rightarrow> (False, [])
      | Some f \<Rightarrow> (case f i of Inr _ \<Rightarrow> (True, [i]) | Inl e \<Rightarrow> (False, [i])))"

definition requestIgnoreBatteryOptimizations :: "react_native \<Rightarrow> bool \<times> string list" where
  "requestIgnoreBatteryOptimizations R =
     (if other_platform R then (True, [])
      else case rn_requestIgnore R of
          Some (Inr b) \<Rightarrow> (b, [])
        | _ \<Rightarrow> send_intent R ''android.settings.REQUEST_IGNORE_BATTERY_OPTIMIZATIONS'')"

definition openBatteryOptimizationSettings :: "react_native \<Rightarrow> bool \<times> string list" where
  "openBatteryOptimizationSettings R =
     (if other_platform R then (True, [])
      else case rn_openSettings R of
          Some (Inr b) \<Rightarrow> (b, [])
        | _ \<Rightarrow> send_intent R ''android.settings.IGNORE_BATTERY_OPTIMIZATION_SETTINGS'')"

text \<open>A request is answered by the native module or, when that is missing or fails, by one intent; the
  answer is yes when the intent could be sent, whatever the user then decides.\<close>

lemma request_answered:
  "\<not> other_platform R \<Longrightarrow> requestIgnoreBatteryOptimizations R = (b, is) \<Longrightarrow>
     (is = [] \<and> (rn_requestIgnore R = Some (Inr b) \<or> \<not> b)) \<or>
     (is = [''android.settings.REQUEST_IGNORE_BATTERY_OPTIMIZATIONS''] \<and> (\<nexists>a. rn_requestIgnore R = Some (Inr a)))"
  by (auto simp: requestIgnoreBatteryOptimizations_def send_intent_def split: option.splits sum.splits)

end
