(* ===== verification/Screens.thy ===== *)
theory Screens
  imports App_Context Battery
begin

section \<open>Navigation and screens\<close>

text \<open>
  \<open>client/src/ui/navigation/RootNavigator.tsx\<close> and the handlers of \<open>client/src/ui/screens\<close>: which screen is
  shown with which parameters, the input fields and flags of the screen, and what its buttons do. Markup
  and styles are left out. A handler runs to its end, with two exceptions: \<open>navigate\<close> pushes the screen
  of the render its closure belongs to, and sending from the chat screen is split at its \<open>await\<close>.
\<close>

subsection \<open>RootNavigator\<close>

datatype screen = Welcome | SeedDisplay | RestoreSeed | ChatList | Chat | Profile | Scanner

record screen_params =
  np_mnemonic :: "string option"
  np_contactPubkeyHash :: "hex option"
  np_alias :: "string option"

definition no_params :: screen_params where
  "no_params = \<lparr>np_mnemonic = None, np_contactPubkeyHash = None, np_alias = None\<rparr>"

record navigator =
  nv_currentScreen :: screen
  nv_screenParams :: screen_params
  nv_screenStack :: "screen list"

definition new_navigator :: "bool \<Rightarrow> navigator" where
  "new_navigator signedIn =
     \<lparr>nv_currentScreen = (if signedIn then ChatList else Welcome), nv_screenParams = no_params, nv_screenStack = []\<rparr>"

text \<open>The effect on a change of the identity.\<close>

definition identity_effect :: "bool \<Rightarrow> navigator \<Rightarrow> navigator" where
  "identity_effect signedIn nv =
     (if signedIn \<and> nv_currentScreen nv \<in> {Welcome, RestoreSeed} then nv\<lparr>nv_currentScreen := ChatList\<rparr>
      else if \<not> signedIn \<and> nv_currentScreen nv \<notin> {Welcome, RestoreSeed, SeedDisplay} then nv\<lparr>nv_currentScreen := Welcome\<rparr>
      else nv)"

text \<open>\<open>cur\<close> is the current screen of the render that made the closure.\<close>

definition navigate :: "screen \<Rightarrow> screen \<Rightarrow> screen_params \<Rightarrow> navigator \<Rightarrow> navigator" where
  "navigate cur scr params nv =
     \<lparr>nv_currentScreen = scr, nv_screenParams = params, nv_screenStack = nv_screenStack nv @ [cur]\<rparr>"

definition goBack :: "bool \<Rightarrow> navigator \<Rightarrow> navigator" where
  "goBack signedIn nv =
     (if nv_screenStack nv \<noteq> []
      then nv\<lparr>nv_screenStack := butlast (nv_screenStack nv), nv_currentScreen := last (nv_screenStack nv)\<rparr>
      else nv\<lparr>nv_currentScreen := (if signedIn then ChatList else Welcome)\<rparr>)"

definition reset_to :: "screen \<Rightarrow> navigator \<Rightarrow> navigator" where
  "reset_to scr nv = \<lparr>nv_currentScreen = scr, nv_screenParams = no_params, nv_screenStack = []\<rparr>"

text \<open>What is shown: the screen with the parameters it is given.\<close>

datatype view =
  LoadingView
| WelcomeView
| SeedDisplayView string
| RestoreSeedView
| ChatListView
| ChatView "hex option" "string option"
| ProfileView
| ScannerView

definition shown :: "bool \<Rightarrow> navigator \<Rightarrow> view" where
  "shown isInitialized nv =
     (if \<not> isInitialized then LoadingView
      else case nv_currentScreen nv of
          Welcome \<Rightarrow> WelcomeView
        | SeedDisplay \<Rightarrow> SeedDisplayView (case np_mnemonic (nv_screenParams nv) of None \<Rightarrow> [] | Some m \<Rightarrow> m)
        | RestoreSeed \<Rightarrow> RestoreSeedView
        | ChatList \<Rightarrow> ChatListView
        | Chat \<Rightarrow> ChatView (np_contactPubkeyHash (nv_screenParams nv)) (np_alias (nv_screenParams nv))
        | Profile \<Rightarrow> ProfileView
        | Scanner \<Rightarrow> ScannerView)"

subsection \<open>The state of the screens\<close>

record welcome_state =
  wl_loading :: bool
  wl_showBatteryModal :: bool

record restore_state =
  re_mnemonic :: string
  re_loading :: bool
  re_error :: "string option"

record chat_state =
  ch_inputText :: string
  ch_sending :: bool

record profile_state =
  pf_uri :: string
  pf_copied :: bool
  pf_loading :: bool

record scanner_state =
  sc_uriInput :: string
  sc_aliasInput :: string
  sc_loading :: bool
  sc_error :: "string option"

datatype screen_state =
  WelcomeState welcome_state
| SeedState bool
| RestoreState restore_state
| ChatListState
| ChatState chat_state
| ProfileState profile_state
| ScannerState scanner_state

text \<open>The initial values of \<open>useState\<close>.\<close>

fun fresh_state :: "screen \<Rightarrow> screen_state" where
  "fresh_state Welcome = WelcomeState \<lparr>wl_loading = False, wl_showBatteryModal = False\<rparr>"
| "fresh_state SeedDisplay = SeedState False"
| "fresh_state RestoreSeed = RestoreState \<lparr>re_mnemonic = [], re_loading = False, re_error = None\<rparr>"
| "fresh_state ChatList = ChatListState"
| "fresh_state Chat = ChatState \<lparr>ch_inputText = [], ch_sending = False\<rparr>"
| "fresh_state Profile = ProfileState \<lparr>pf_uri = [], pf_copied = False, pf_loading = True\<rparr>"
| "fresh_state Scanner = ScannerState \<lparr>sc_uriInput = [], sc_aliasInput = [], sc_loading = False, sc_error = None\<rparr>"

record 'k ui =
  ui_ctx :: "'k app_context"
  ui_nav :: navigator
  ui_screen :: screen_state

text \<open>A screen that becomes the current one is mounted anew; one that stays keeps its state.\<close>

definition go :: "(navigator \<Rightarrow> navigator) \<Rightarrow> 'k ui \<Rightarrow> 'k ui" where
  "go f v =
     (let nv = f (ui_nav v) in
      v\<lparr>ui_nav := nv,
        ui_screen := (if nv_currentScreen nv = nv_currentScreen (ui_nav v) then ui_screen v
                      else fresh_state (nv_currentScreen nv))\<rparr>)"

definition signed_in :: "'k ui \<Rightarrow> bool" where
  "signed_in v \<longleftrightarrow> ac_identity (ui_ctx v) \<noteq> None"

text \<open>A call of the context, and the effect of the navigator when it changed the identity.\<close>

definition with_ctx :: "('k, 'a) action \<Rightarrow> 'k ui \<Rightarrow> 'a res \<times> 'k ui" where
  "with_ctx m v = (case m (ui_ctx v) of (r, ctx) \<Rightarrow> (r, v\<lparr>ui_ctx := ctx\<rparr>))"

definition rerender :: "'k ui \<Rightarrow> 'k ui" where
  "rerender v = go (identity_effect (signed_in v)) v"

subsection \<open>WelcomeScreen\<close>

definition set_welcome :: "(welcome_state \<Rightarrow> welcome_state) \<Rightarrow> 'k ui \<Rightarrow> 'k ui" where
  "set_welcome f v = (case ui_screen v of WelcomeState st \<Rightarrow> v\<lparr>ui_screen := WelcomeState (f st)\<rparr> | _ \<Rightarrow> v)"

definition checkBatteryOptimization :: "react_native \<Rightarrow> 'k ui \<Rightarrow> 'k ui" where
  "checkBatteryOptimization R v =
     (if isIgnoringBatteryOptimizations R then v else set_welcome (\<lambda>st. st\<lparr>wl_showBatteryModal := True\<rparr>) v)"

definition handleRequestBatteryOptimization :: "react_native \<Rightarrow> 'k ui \<Rightarrow> string list \<times> 'k ui" where
  "handleRequestBatteryOptimization R v =
     (snd (requestIgnoreBatteryOptimizations R), set_welcome (\<lambda>st. st\<lparr>wl_showBatteryModal := False\<rparr>) v)"

definition handleDismissBatteryModal :: "'k ui \<Rightarrow> 'k ui" where
  "handleDismissBatteryModal = set_welcome (\<lambda>st. st\<lparr>wl_showBatteryModal := False\<rparr>)"

text \<open>The identity is set, the navigator moves to the list of chats, and then the handler shows the phrase.\<close>

definition handleCreateIdentity :: "'k ui_env \<Rightarrow> 'k ui \<Rightarrow> 'k ui" where
  "handleCreateIdentity U v =
     (case with_ctx (createIdentity U (Some 12)) (set_welcome (\<lambda>st. st\<lparr>wl_loading := True\<rparr>) v) of
        (Inr u, v1) \<Rightarrow> go (navigate (nv_currentScreen (ui_nav v)) SeedDisplay (no_params\<lparr>np_mnemonic := Some (mnemonic u)\<rparr>)) (rerender v1)
      | (Inl e, v1) \<Rightarrow> set_welcome (\<lambda>st. st\<lparr>wl_loading := False\<rparr>) v1)"

definition openRestore :: "'k ui \<Rightarrow> 'k ui" where
  "openRestore v = go (navigate (nv_currentScreen (ui_nav v)) RestoreSeed no_params) v"

subsection \<open>SeedDisplayScreen\<close>

function split_words :: "string \<Rightarrow> string list" where
  "split_words s =
     (let word = takeWhile (\<lambda>c. \<not> is_space c) s; rest = dropWhile (\<lambda>c. \<not> is_space c) s
      in if rest = [] then [word] else word # split_words (dropWhile is_space rest))"
  by pat_completeness auto
termination
proof (relation "measure length", simp, goal_cases)
  case (1 s word rest)
  from 1(3) obtain c r where r: "rest = c # r" by (auto simp: neq_Nil_conv)
  have "is_space c" using hd_dropWhile [of "\<lambda>c. \<not> is_space c" s] 1(2,3) r by (metis list.sel(1))
  then have "length (dropWhile is_space rest) < length rest" using r by (simp add: le_imp_less_Suc length_dropWhile_le)
  moreover have "length rest \<le> length s" using 1(2) by (simp add: length_dropWhile_le)
  ultimately show ?case by simp
qed

declare split_words.simps [simp del]

definition seed_words :: "string \<Rightarrow> string list" where
  "seed_words m = split_words (trim m)"

definition toggleConfirmed :: "'k ui \<Rightarrow> 'k ui" where
  "toggleConfirmed v = (case ui_screen v of SeedState confirmed \<Rightarrow> v\<lparr>ui_screen := SeedState (\<not> confirmed)\<rparr> | _ \<Rightarrow> v)"

definition enterApp :: "'k ui \<Rightarrow> 'k ui" where
  "enterApp v = (if ui_screen v = SeedState True then go (reset_to ChatList) v else v)"

subsection \<open>RestoreSeedScreen\<close>

definition set_restore :: "(restore_state \<Rightarrow> restore_state) \<Rightarrow> 'k ui \<Rightarrow> 'k ui" where
  "set_restore f v = (case ui_screen v of RestoreState st \<Rightarrow> v\<lparr>ui_screen := RestoreState (f st)\<rparr> | _ \<Rightarrow> v)"

definition handleRestore :: "'k ui_env \<Rightarrow> 'k ui \<Rightarrow> 'k ui" where
  "handleRestore U v =
     (case ui_screen v of
        RestoreState st \<Rightarrow>
          (case with_ctx (ctx_restoreIdentity U (re_mnemonic st)) (set_restore (\<lambda>st. st\<lparr>re_error := None, re_loading := True\<rparr>) v) of
             (Inr u, v1) \<Rightarrow> go (reset_to ChatList) (rerender v1)
           | (Inl e, v1) \<Rightarrow> set_restore (\<lambda>st. st\<lparr>re_error := Some (exn_message e), re_loading := False\<rparr>) v1)
      | _ \<Rightarrow> v)"

text \<open>The button is enabled when something was typed and no restore is under way.\<close>

definition pressRestore :: "'k ui_env \<Rightarrow> 'k ui \<Rightarrow> 'k ui" where
  "pressRestore U v =
     (case ui_screen v of RestoreState st \<Rightarrow> if trim (re_mnemonic st) = [] \<or> re_loading st then v else handleRestore U v
      | _ \<Rightarrow> v)"

definition pressBack :: "'k ui \<Rightarrow> 'k ui" where
  "pressBack v = go (goBack (signed_in v)) v"

subsection \<open>ChatListScreen\<close>

text \<open>An error of \<open>selectConversation\<close> is not caught: the screen stays.\<close>

definition chat_params :: "hex \<Rightarrow> string option \<Rightarrow> screen_params" where
  "chat_params h alias = no_params\<lparr>np_contactPubkeyHash := Some h, np_alias := (if truthy alias then alias else None)\<rparr>"

definition handleSelectContact :: "hex \<Rightarrow> string option \<Rightarrow> 'k ui \<Rightarrow> 'k ui" where
  "handleSelectContact h alias v =
     (case with_ctx (selectConversation h) v of
        (Inr _, v1) \<Rightarrow> go (navigate (nv_currentScreen (ui_nav v)) Chat (chat_params h alias)) v1
      | (Inl e, v1) \<Rightarrow> v1)"

definition openScanner :: "'k ui \<Rightarrow> 'k ui" where
  "openScanner v = go (navigate (nv_currentScreen (ui_nav v)) Scanner no_params) v"

subsection \<open>ChatScreen\<close>

definition short_hash :: "hex \<Rightarrow> string" where
  "short_hash h = take 8 h @ ''...'' @ drop (length h - 6) h"

definition chat_displayName :: "hex \<Rightarrow> string option \<Rightarrow> contact_record option \<Rightarrow> string" where
  "chat_displayName h alias active =
     (if truthy alias then the alias
      else case active of
          Some c \<Rightarrow> if truthy (cr_alias c) then the (cr_alias c) else short_hash h
        | None \<Rightarrow> short_hash h)"

definition set_chat :: "(chat_state \<Rightarrow> chat_state) \<Rightarrow> 'k ui \<Rightarrow> 'k ui" where
  "set_chat f v = (case ui_screen v of ChatState st \<Rightarrow> v\<lparr>ui_screen := ChatState (f st)\<rparr> | _ \<Rightarrow> v)"

text \<open>\<open>handleSend\<close> up to its \<open>await\<close>, with the text it sends, and after it.\<close>

definition send_begins :: "chat_state \<Rightarrow> (string \<times> chat_state) option" where
  "send_begins st =
     (if trim (ch_inputText st) = [] \<or> ch_sending st then None
      else Some (trim (ch_inputText st), st\<lparr>ch_inputText := [], ch_sending := True\<rparr>))"

definition send_ends :: "string \<Rightarrow> unit res \<Rightarrow> chat_state \<Rightarrow> chat_state" where
  "send_ends body r st =
     (case r of Inr _ \<Rightarrow> st\<lparr>ch_sending := False\<rparr> | Inl e \<Rightarrow> st\<lparr>ch_inputText := body, ch_sending := False\<rparr>)"

definition handleSend :: "'k ui_env \<Rightarrow> 'k ui \<Rightarrow> 'k ui" where
  "handleSend U v =
     (case ui_screen v of
        ChatState st \<Rightarrow>
          (case send_begins st of None \<Rightarrow> v
           | Some (body, st1) \<Rightarrow>
               (case with_ctx (ctx_sendMessage U body) (v\<lparr>ui_screen := ChatState st1\<rparr>) of
                  (r, v1) \<Rightarrow> set_chat (send_ends body r) v1))
      | _ \<Rightarrow> v)"

definition handleBack :: "'k ui \<Rightarrow> 'k ui" where
  "handleBack v = pressBack (v\<lparr>ui_ctx := clearActiveConversation (ui_ctx v)\<rparr>)"

subsection \<open>ProfileScreen\<close>

definition set_profile :: "(profile_state \<Rightarrow> profile_state) \<Rightarrow> 'k ui \<Rightarrow> 'k ui" where
  "set_profile f v = (case ui_screen v of ProfileState st \<Rightarrow> v\<lparr>ui_screen := ProfileState (f st)\<rparr> | _ \<Rightarrow> v)"

text \<open>The secrets and identifiers one call of \<open>generatePreKeyBundle\<close> draws.\<close>

record bundle_draws =
  bd_spkSecret :: bytes
  bd_spkId :: int
  bd_oneTime :: "nat \<Rightarrow> bytes \<times> int"

text \<open>The effect runs when the screen is mounted and whenever the provider renders, since \<open>exportOwnUri\<close> is
  a new function then.\<close>

definition loadUri :: "'k ui_env \<Rightarrow> bundle_draws \<Rightarrow> 'k ui \<Rightarrow> 'k ui" where
  "loadUri U ds v =
     (case with_ctx (exportOwnUri U (bd_spkSecret ds) (bd_spkId ds) (bd_oneTime ds) None) v of
        (Inr uri, v1) \<Rightarrow> set_profile (\<lambda>st. st\<lparr>pf_uri := uri, pf_loading := False\<rparr>) v1
      | (Inl e, v1) \<Rightarrow> set_profile (\<lambda>st. st\<lparr>pf_loading := False\<rparr>) v1)"

definition openProfile :: "'k ui_env \<Rightarrow> bundle_draws \<Rightarrow> 'k ui \<Rightarrow> 'k ui" where
  "openProfile U ds v = loadUri U ds (go (navigate (nv_currentScreen (ui_nav v)) Profile no_params) v)"

text \<open>The text handed to the clipboard, if there is one, and the state; the flag is reset by a timer.\<close>

definition handleCopy :: "bool \<Rightarrow> 'k ui \<Rightarrow> string option \<times> 'k ui" where
  "handleCopy clipboard v =
     (case ui_screen v of
        ProfileState st \<Rightarrow>
          if clipboard then (Some (pf_uri st), set_profile (\<lambda>st. st\<lparr>pf_copied := True\<rparr>) v) else (None, v)
      | _ \<Rightarrow> (None, v))"

definition copied_timeout :: "'k ui \<Rightarrow> 'k ui" where
  "copied_timeout = set_profile (\<lambda>st. st\<lparr>pf_copied := False\<rparr>)"

definition handleLogout :: "'k ui_env \<Rightarrow> 'k ui \<Rightarrow> 'k ui" where
  "handleLogout U v =
     (case with_ctx (logout U) v of
        (Inr _, v1) \<Rightarrow> go (reset_to Welcome) (rerender v1)
      | (Inl e, v1) \<Rightarrow> v1)"

subsection \<open>ScannerScreen\<close>

definition set_scanner :: "(scanner_state \<Rightarrow> scanner_state) \<Rightarrow> 'k ui \<Rightarrow> 'k ui" where
  "set_scanner f v = (case ui_screen v of ScannerState st \<Rightarrow> v\<lparr>ui_screen := ScannerState (f st)\<rparr> | _ \<Rightarrow> v)"

definition import_and_select ::
  "'k ui_env \<Rightarrow> bytes \<Rightarrow> string \<Rightarrow> string option \<Rightarrow> ('k, contact_record) action" where
  "import_and_select U ekSecret uri alias =
     bindM (ctx_importContact U ekSecret uri alias) (\<lambda>contact.
     bindM (selectConversation (cr_recipientPubkeyHash contact)) (\<lambda>_. ret contact))"

definition handleImport :: "'k ui_env \<Rightarrow> bytes \<Rightarrow> 'k ui \<Rightarrow> 'k ui" where
  "handleImport U ekSecret v =
     (case ui_screen v of
        ScannerState st \<Rightarrow>
          if trim (sc_uriInput st) = [] then v
          else
            let alias = trim (sc_aliasInput st) in
            (case with_ctx (import_and_select U ekSecret (trim (sc_uriInput st)) (if alias = [] then None else Some alias))
                    (set_scanner (\<lambda>st. st\<lparr>sc_error := None, sc_loading := True\<rparr>) v) of
               (Inr contact, v1) \<Rightarrow>
                 go (navigate (nv_currentScreen (ui_nav v)) Chat (chat_params (cr_recipientPubkeyHash contact) (cr_alias contact))) v1
             | (Inl e, v1) \<Rightarrow> set_scanner (\<lambda>st. st\<lparr>sc_error := Some (exn_message e), sc_loading := False\<rparr>) v1)
      | _ \<Rightarrow> v)"

subsection \<open>What the user and the relay can do\<close>

definition launch_ui :: "'k ui_env \<Rightarrow> 'k \<Rightarrow> 'k ui" where
  "launch_ui U k =
     rerender (snd (with_ctx (init_identity U)
       \<lparr>ui_ctx = new_context None k, ui_nav = new_navigator False, ui_screen = fresh_state Welcome\<rparr>))"

text \<open>
  The runs of the user interface: a launch, then presses of buttons, input and timers of the screen that is
  shown, and events of the stream, in any order. Each step has an environment of its own, and \<open>Q\<close> is what they have in common.
\<close>

inductive ui_step :: "'k ui_env \<Rightarrow> screen \<Rightarrow> 'k ui \<Rightarrow> 'k ui \<Rightarrow> bool" where
  check_battery: "ui_step U Welcome v (checkBatteryOptimization R v)"
| request_battery: "ui_step U Welcome v (snd (handleRequestBatteryOptimization R v))"
| dismiss_battery: "ui_step U Welcome v (handleDismissBatteryModal v)"
| create_identity: "ui_step U Welcome v (handleCreateIdentity U v)"
| open_restore: "ui_step U Welcome v (openRestore v)"
| toggle_confirmed: "ui_step U SeedDisplay v (toggleConfirmed v)"
| enter_app: "ui_step U SeedDisplay v (enterApp v)"
| type_mnemonic: "ui_step U RestoreSeed v (set_restore (\<lambda>st. st\<lparr>re_mnemonic := s\<rparr>) v)"
| press_restore: "ui_step U RestoreSeed v (pressRestore U v)"
| press_back: "scr \<in> {RestoreSeed, Profile, Scanner} \<Longrightarrow> ui_step U scr v (pressBack v)"
| select_contact: "c \<in> set (ac_conversations (ui_ctx v)) \<Longrightarrow>
    ui_step U ChatList v (handleSelectContact (cr_recipientPubkeyHash (cs_contact c)) (cr_alias (cs_contact c)) v)"
| open_profile: "ui_step U ChatList v (openProfile U ds v)"
| open_scanner: "ui_step U ChatList v (openScanner v)"
| type_message: "ui_step U Chat v (set_chat (\<lambda>st. st\<lparr>ch_inputText := s\<rparr>) v)"
| send: "ui_step U Chat v (handleSend U v)"
| leave_chat: "ui_step U Chat v (handleBack v)"
| reload_uri: "ui_step U Profile v (loadUri U ds v)"
| copy_uri: "ui_screen v = ProfileState st \<Longrightarrow> pf_uri st \<noteq> [] \<Longrightarrow> ui_step U Profile v (snd (handleCopy clipboard v))"
| copied_reset: "ui_step U Profile v (copied_timeout v)"
| press_logout: "ui_step U Profile v (handleLogout U v)"
| type_contact_uri: "ui_step U Scanner v (set_scanner (\<lambda>st. st\<lparr>sc_uriInput := s\<rparr>) v)"
| type_contact_alias: "ui_step U Scanner v (set_scanner (\<lambda>st. st\<lparr>sc_aliasInput := s\<rparr>) v)"
| press_import: "ui_step U Scanner v (handleImport U ekSecret v)"
| stream: "ui_step U scr v (snd (with_ctx (relay_event U ev) v))"

inductive ui_reach :: "('k ui_env \<Rightarrow> bool) \<Rightarrow> 'k ui \<Rightarrow> bool" for Q where
  launch: "Q U \<Longrightarrow> ui_reach Q (launch_ui U k)"
| act: "ui_reach Q v \<Longrightarrow> Q U \<Longrightarrow> ui_step U (nv_currentScreen (ui_nav v)) v v' \<Longrightarrow> ui_reach Q v'"

end
