(* ===== verification/Ui_Invariants.thy ===== *)
theory Ui_Invariants
  imports Screens
begin

section \<open>Invariants of the user interface\<close>

text \<open>
  What the calls of the orchestrator leave of the context, and the invariant of every run of the user
  interface: a screen is shown with parameters of its type, nobody who is signed out sees the screens
  of an account, the conversation on the screen is the one messages are sent to.
\<close>

subsection \<open>Calls that are no business of the navigator\<close>

text \<open>What the orchestrator, its callbacks and the repositories leave alone, as long as the callbacks were
  registered without an open conversation.\<close>

definition calm :: "'k app_context \<Rightarrow> 'k app_context \<Rightarrow> bool" where
  "calm x y \<longleftrightarrow> ac_identity y = ac_identity x \<and> ac_isInitialized y = ac_isInitialized x \<and>
     ac_activeContact y = ac_activeContact x \<and> ac_seen y = ac_seen x \<and> ac_keychain y = ac_keychain x \<and>
     (ac_seen x = None \<longrightarrow> ac_activeMessages y = ac_activeMessages x) \<and>
     (ac_torProgress x \<in> {0, 100} \<longrightarrow> ac_torProgress y \<in> {0, 100}) \<and>
     (ac_orch y = None \<longleftrightarrow> ac_orch x = None) \<and> (ac_orch x = None \<longrightarrow> ac_conversations y = ac_conversations x)"

interpretation calm: frame calm
  by unfold_locales (auto simp: calm_def)

lemma repo_call_calm: "keeps calm (repo_call m)"
  by (auto simp: keeps_def repo_call_def calm_def split: option.split prod.split)

lemma refresh_calm: "keeps calm refreshConversations"
proof -
  have "calm x (snd (refreshConversations x))" for x :: "'a app_context"
    by (auto simp: refreshConversations_def tryM_def bindM_def repo_call_def calm_def
        split: option.split prod.split sum.split)
  then show ?thesis by (simp add: keeps_def)
qed

lemma on_orch_event_calm: "keeps calm (on_orch_event e)"
proof -
  have a: "keeps calm (modifyM (append_active m))" for m
    by (auto simp: keeps_def calm_def append_active_def split: option.split)
  show ?thesis
  proof (cases e)
    case (MessageReceived m)
    show ?thesis unfolding MessageReceived on_orch_event.simps by (rule calm.bind [OF a refresh_calm])
  next
    case (MessageSent m)
    show ?thesis unfolding MessageSent on_orch_event.simps by (rule calm.bind [OF a refresh_calm])
  qed (auto simp: keeps_def calm_def)
qed

lemma handle_events_calm: "calm x (handle_events es x)"
proof (induction es arbitrary: x)
  case (Cons e es)
  have "calm x (snd (on_orch_event e x))" using on_orch_event_calm [of e] unfolding keeps_def by blast
  then show ?case using Cons.IH calm.trans by (metis handle_events.simps(2))
qed (simp add: calm.refl)

lemma orch_call_calm: "keeps calm (orch_call m)"
  unfolding keeps_def
proof
  fix x :: "'a app_context"
  show "calm x (snd (orch_call m x))"
  proof (cases "ac_orch x")
    case None
    then show ?thesis by (simp add: orch_call_def calm.refl)
  next
    case (Some ob)
    obtain r ob' where m: "m ob = (r, ob')" by fastforce
    have "calm x (x\<lparr>ac_orch := Some ob'\<rparr>)" using Some by (simp add: calm_def)
    then show ?thesis using Some m calm.trans [OF _ handle_events_calm] by (simp add: orch_call_def)
  qed
qed

lemmas calm_calls = calm.pure repo_call_calm refresh_calm orch_call_calm

lemma context_calm:
  "keeps calm (ctx_sendMessage U body)" "keeps calm (ctx_importContact U ek uri al)" "keeps calm (exportOwnUri U s i d n)"
  "keeps calm (relay_event U ev)" "keeps calm loadContacts"
proof -
  show "keeps calm (ctx_sendMessage U body)"
  proof -
    have *: "keeps calm (bindM (orch_call m) (\<lambda>_. ret ()))" for m :: "(orchestrator, stored_message) M"
      by (intro calm.bind calm_calls)
    show ?thesis unfolding keeps_def ctx_sendMessage_def
      using * by (auto simp: keeps_def calm.refl split: option.split)
  qed
  show "keeps calm (ctx_importContact U ek uri al)" "keeps calm (exportOwnUri U s i d n)"
    unfolding ctx_importContact_def exportOwnUri_def by (intro calm.check calm.bind calm_calls)+
  show "keeps calm (relay_event U ev)" unfolding relay_event_def by (rule orch_call_calm)
  show "keeps calm loadContacts" unfolding loadContacts_def by (intro calm.check calm_calls)
qed

subsection \<open>Selecting a conversation\<close>

lemma mapped_hash: "cr_recipientPubkeyHash (mapRowToContact r) = c_recipient_pubkey_hash r"
  by (simp add: mapRowToContact_def Let_def)

lemma contact_of_hash:
  assumes "getContactByHash h m = (Inr (Some c), m')"
  shows "cr_recipientPubkeyHash c = toLowerCase h"
proof -
  obtain r where "queryOne (\<lambda>d. select_key c_recipient_pubkey_hash (toLowerCase h) (contacts d)) m = (Inr (Some r), m')"
    "c = mapRowToContact r" using assms by (auto simp: getContactByHash_def bindM_Inr_iff)
  moreover from this(1) obtain d :: database where "select_key c_recipient_pubkey_hash (toLowerCase h) (contacts d) = Some r"
    by (auto simp: queryOne_def on_driver_def getM_def bindM_Inr_iff Let_def)
  ultimately show ?thesis using select_key_Some mapped_hash by metis
qed

lemma repo_contact:
  "repo_call (on_repo (getContactByHash h)) x = (Inr (Some c), y) \<Longrightarrow> cr_recipientPubkeyHash c = toLowerCase h"
  using contact_of_hash by (fastforce simp: repo_call_def on_repo_def on_store_def on_db_def Let_def
      split: option.splits prod.splits)

text \<open>A conversation that was selected is the open one; if selecting fails, it may be open all the same.\<close>

definition selected :: "hex \<Rightarrow> 'k app_context \<Rightarrow> bool" where
  "selected h x \<longleftrightarrow> (\<exists>c. ac_activeContact x = Some c \<and> cr_recipientPubkeyHash c = toLowerCase h)"

definition but_selection :: "'k app_context \<Rightarrow> 'k app_context \<Rightarrow> bool" where
  "but_selection x y \<longleftrightarrow> calm (x\<lparr>ac_activeContact := None, ac_activeMessages := []\<rparr>) (y\<lparr>ac_activeContact := None, ac_activeMessages := []\<rparr>)"

interpretation but_selection: frame but_selection
  by unfold_locales (auto simp: but_selection_def intro: calm.refl calm.trans)

lemma calm_but_selection: "calm x y \<Longrightarrow> but_selection x y"
  by (auto simp: calm_def but_selection_def)

lemma keeps_but_selection: "keeps calm m \<Longrightarrow> keeps but_selection m"
  by (simp add: keeps_def calm_but_selection)

lemma select_keeps: "keeps but_selection (selectConversation h)"
proof -
  have set: "keeps but_selection (modifyM (\<lambda>x. x\<lparr>ac_activeContact := a\<rparr>))"
    "keeps but_selection (modifyM (\<lambda>x. x\<lparr>ac_activeMessages := ms\<rparr>))" for a ms
    by (auto simp: keeps_def but_selection_def calm_def)
  show ?thesis unfolding selectConversation_def
    by (intro but_selection.check but_selection.bind but_selection.cases_option set keeps_but_selection [OF repo_call_calm]
        keeps_but_selection [OF refresh_calm] but_selection.pure)
qed

lemma select_selected:
  assumes "selectConversation h x = (Inr r, y)" "ac_orch x \<noteq> None"
  shows "selected h y"
proof -
  have "bindM (repo_call (on_repo (getContactByHash h))) (\<lambda>co.
        case co of None \<Rightarrow> throwM (Error ''Contact not found'')
        | Some contact \<Rightarrow>
            bindM (modifyM (\<lambda>ctx. ctx\<lparr>ac_activeContact := Some contact\<rparr>)) (\<lambda>_.
            bindM (repo_call (on_repo (getMessagesForContact h 100 0))) (\<lambda>msgs.
            bindM (modifyM (\<lambda>ctx. ctx\<lparr>ac_activeMessages := msgs\<rparr>)) (\<lambda>_.
            bindM (repo_call (on_repo (markMessagesAsRead h))) (\<lambda>_. refreshConversations))))) x = (Inr r, y)"
    using assms by (simp only: selectConversation_def if_False not_False_eq_True)
  then obtain co x1 where 1: "repo_call (on_repo (getContactByHash h)) x = (Inr co, x1)"
    and b1: "(case co of None \<Rightarrow> throwM (Error ''Contact not found'')
        | Some contact \<Rightarrow>
            bindM (modifyM (\<lambda>ctx. ctx\<lparr>ac_activeContact := Some contact\<rparr>)) (\<lambda>_.
            bindM (repo_call (on_repo (getMessagesForContact h 100 0))) (\<lambda>msgs.
            bindM (modifyM (\<lambda>ctx. ctx\<lparr>ac_activeMessages := msgs\<rparr>)) (\<lambda>_.
            bindM (repo_call (on_repo (markMessagesAsRead h))) (\<lambda>_. refreshConversations))))) x1 = (Inr r, y)"
    unfolding bindM_Inr_iff by blast
  obtain c where c: "co = Some c" using b1 by (cases co) auto
  from b1 obtain msgs x2 x4 u where
    2: "repo_call (on_repo (getMessagesForContact h 100 0)) (x1\<lparr>ac_activeContact := Some c\<rparr>) = (Inr msgs, x2)"
    and 3: "repo_call (on_repo (markMessagesAsRead h)) (x2\<lparr>ac_activeMessages := msgs\<rparr>) = (Inr u, x4)"
    and 4: "refreshConversations x4 = (Inr r, y)"
    unfolding c option.case bindM_modifyM bindM_Inr_iff by blast
  have "calm (x1\<lparr>ac_activeContact := Some c\<rparr>) x2" "calm (x2\<lparr>ac_activeMessages := msgs\<rparr>) x4" "calm x4 y"
    using calm.after [OF repo_call_calm 2] calm.after [OF repo_call_calm 3] calm.after [OF refresh_calm 4] .
  then have "ac_activeContact y = Some c" by (simp add: calm_def)
  then show ?thesis using repo_contact 1 c by (auto simp: selected_def)
qed

subsection \<open>The context\<close>

definition ctx_ok :: "'k app_context \<Rightarrow> bool" where
  "ctx_ok x \<longleftrightarrow> ac_seen x = None \<and> ac_torProgress x \<in> {0, 100} \<and>
     (ac_identity x = None \<longrightarrow> ac_orch x = None \<and> ac_activeContact x = None) \<and>
     (ac_orch x = None \<longrightarrow> ac_conversations x = [])"

lemma calm_ok: "ctx_ok x \<Longrightarrow> calm x y \<Longrightarrow> ctx_ok y"
  by (auto simp: ctx_ok_def calm_def)

lemma selection_ok:
  "ctx_ok x \<Longrightarrow> but_selection x y \<Longrightarrow> ac_identity x \<noteq> None \<Longrightarrow>
     ctx_ok y \<and> ac_identity y = ac_identity x \<and> ac_isInitialized y = ac_isInitialized x"
  by (auto simp: ctx_ok_def but_selection_def calm_def)

lemma startOrchestrator_ok:
  assumes "ac_activeContact x = None" "ac_orch x = None" "ac_torProgress x \<in> {0, 100}" "ac_conversations x = []"
    "ac_identity x = Some u"
  shows "\<exists>y. startOrchestrator U u x = (Inr (), y) \<and> ac_identity y = Some u \<and> ac_isInitialized y = ac_isInitialized x \<and>
     ac_activeContact y = None \<and> ctx_ok y"
proof -
  let ?x1 = "x\<lparr>ac_seen := ac_activeContact x\<rparr>" and ?ob = "ui_orchestrator U (ac_tor x) u"
  let ?start = "bindM refreshConversations (\<lambda>_. orch_call (start_app (ui_prims U) (ui_orch U) (ui_now U) (ui_native U)))
      :: ('a, unit) action"
  have s: "keeps calm ?start" by (intro calm.bind calm_calls)
  obtain r ob1 k where i: "initialize_app (ui_prims U) (ui_open U) (ui_kc U) (ui_key_drawn U) (ui_key_fallback U) (ui_now U)
      (?ob, ac_keychain x) = (r, (ob1, k))" by (metis prod.exhaust)
  show ?thesis
  proof (cases r)
    case (Inl e)
    then show ?thesis using i assms by (simp add: startOrchestrator_def tryM_def bindM_def Let_def ctx_ok_def)
  next
    case (Inr u1)
    let ?x2 = "?x1\<lparr>ac_keychain := k, ac_orch := Some ob1\<rparr>"
    obtain q x3 where q: "?start ?x2 = (q, x3)" by fastforce
    have c: "calm ?x2 x3" using calm.after [OF s q] .
    have "startOrchestrator U u x = (Inr (), case q of Inl e \<Rightarrow>
        x3\<lparr>ac_error := Some (''Orchestrator start error: '' @ exn_message e)\<rparr> | Inr _ \<Rightarrow> x3)"
      using i Inr q by (cases q) (simp_all add: startOrchestrator_def tryM_def bindM_def Let_def)
    then show ?thesis using c assms by (cases q) (auto simp: calm_def ctx_ok_def)
  qed
qed

lemma change_identity_ok:
  assumes "ctx_ok x" "ac_identity x = None"
  shows "\<exists>y. change_identity U (Some u) x = (Inr (), y) \<and> ac_identity y = Some u \<and>
     ac_isInitialized y = ac_isInitialized x \<and> ac_activeContact y = None \<and> ctx_ok y"
  using startOrchestrator_ok [of "x\<lparr>ac_identity := Some u\<rparr>" u U] assms
  by (simp add: change_identity_def cleanup_effect_def ctx_ok_def bindM_def)

lemma adopt_ok:
  assumes "ctx_ok x" "ac_identity x = None" "adopt_identity U u x = (r, y)"
  shows "ctx_ok y \<and> ac_isInitialized y = ac_isInitialized x \<and>
     (case r of Inl e \<Rightarrow> ac_identity y = None | Inr w \<Rightarrow> w = u \<and> ac_identity y = Some u)"
proof -
  obtain q k where q: "saveIdentityToKeychain (ui_kc U) ''tore2ee.identity.keys'' u (ac_keychain x) = (q, k)" by fastforce
  let ?x1 = "x\<lparr>ac_keychain := k\<rparr>"
  have x1: "ctx_ok ?x1" "ac_identity ?x1 = None" using assms(1,2) by (simp_all add: ctx_ok_def)
  show ?thesis
  proof (cases q)
    case (Inl e)
    then show ?thesis using assms q x1 by (auto simp: adopt_identity_def keychain_call_def bindM_def)
  next
    case (Inr b)
    obtain y1 where "change_identity U (Some u) ?x1 = (Inr (), y1)" "ac_identity y1 = Some u"
      "ac_isInitialized y1 = ac_isInitialized ?x1" "ctx_ok y1" using change_identity_ok [OF x1] by blast
    then show ?thesis using assms(3) q Inr by (auto simp: adopt_identity_def keychain_call_def bindM_def)
  qed
qed

lemma lift_adopt_ok:
  assumes "ctx_ok x" "ac_identity x = None" "bindM (liftM r0) (adopt_identity U) x = (r, y)"
  shows "ctx_ok y \<and> ac_isInitialized y = ac_isInitialized x \<and>
     (case r of Inl e \<Rightarrow> ac_identity y = None | Inr w \<Rightarrow> ac_identity y = Some w)"
proof (cases r0)
  case (Inl e)
  then show ?thesis using assms by auto
next
  case (Inr u)
  then have "adopt_identity U u x = (r, y)" using assms(3) by simp
  from adopt_ok [OF assms(1,2) this] show ?thesis by (auto split: sum.splits)
qed

lemma logout_ok:
  assumes "ctx_ok x" "logout U x = (r, y)"
  shows "ctx_ok y \<and> ac_isInitialized y = ac_isInitialized x \<and>
     (case r of Inl e \<Rightarrow> ac_identity y = ac_identity x \<and> ac_activeContact y = ac_activeContact x | Inr _ \<Rightarrow> ac_identity y = None)"
proof -
  obtain q k where q: "clearIdentityFromKeychain (ui_kc U) ''tore2ee.identity.keys'' (ac_keychain x) = (q, k)" by fastforce
  let ?x1 = "x\<lparr>ac_keychain := k\<rparr>"
  have x1: "ctx_ok ?x1" using assms(1) by (simp add: ctx_ok_def)
  obtain p x2 where p: "orch_call (stop_app (ui_prims U) (ui_orch U) (ui_now U)) ?x1 = (p, x2)" by fastforce
  have c: "calm ?x1 x2" "ctx_ok x2" using calm.after [OF orch_call_calm p] calm_ok [OF x1] by blast+
  show ?thesis
  proof (cases "\<exists>b. q = Inr b")
    case False
    then show ?thesis using assms q x1 by (cases q) (auto simp: logout_def keychain_call_def bindM_def)
  next
    case True
    then obtain b where b: "q = Inr b" by blast
    show ?thesis
    proof (cases "ac_orch x = None")
      case True
      then show ?thesis using assms q b
        by (auto simp: logout_def keychain_call_def stop_current_def change_identity_def cleanup_effect_def bindM_def ctx_ok_def)
    next
      case False
      show ?thesis
      proof (cases p)
        case (Inl e)
        then show ?thesis using assms q b p False c
          by (auto simp: logout_def keychain_call_def stop_current_def bindM_def calm_def)
      next
        case (Inr z)
        then have y: "r = Inr ()" "y = (drop_orchestrator x2)\<lparr>ac_activeContact := None, ac_activeMessages := [],
            ac_conversations := [], ac_contacts := [], ac_identity := None\<rparr>"
          using assms q b p False
          by (auto simp: logout_def keychain_call_def stop_current_def change_identity_def cleanup_effect_def bindM_def
              drop_orchestrator_def)
        then show ?thesis using c by (auto simp: ctx_ok_def calm_def drop_orchestrator_def)
      qed
    qed
  qed
qed

subsection \<open>Screens and their parameters\<close>

fun screen_of :: "screen_state \<Rightarrow> screen" where
  "screen_of (WelcomeState st) = Welcome"
| "screen_of (SeedState b) = SeedDisplay"
| "screen_of (RestoreState st) = RestoreSeed"
| "screen_of ChatListState = ChatList"
| "screen_of (ChatState st) = Chat"
| "screen_of (ProfileState st) = Profile"
| "screen_of (ScannerState st) = Scanner"

lemma screen_of_fresh [simp]: "screen_of (fresh_state scr) = scr"
  by (cases scr) simp_all

text \<open>\<open>RootStackParamList\<close>, and the account a screen belongs to.\<close>

definition screen_fits :: "'k app_context \<Rightarrow> screen \<Rightarrow> screen_params \<Rightarrow> bool" where
  "screen_fits x scr ps \<longleftrightarrow>
     (case scr of
        Welcome \<Rightarrow> ac_identity x = None
      | RestoreSeed \<Rightarrow> ac_identity x = None
      | SeedDisplay \<Rightarrow> (\<exists>u. ac_identity x = Some u \<and> np_mnemonic ps = Some (mnemonic u))
      | Chat \<Rightarrow> ac_identity x \<noteq> None \<and> (\<exists>h. np_contactPubkeyHash ps = Some h \<and> selected h x)
      | _ \<Rightarrow> ac_identity x \<noteq> None)"

definition nav_ok :: "'k app_context \<Rightarrow> navigator \<Rightarrow> bool" where
  "nav_ok x nv \<longleftrightarrow> screen_fits x (nv_currentScreen nv) (nv_screenParams nv) \<and>
     (ac_identity x = None \<or> nv_currentScreen nv = SeedDisplay \<longrightarrow> set (nv_screenStack nv) \<subseteq> {Welcome}) \<and>
     (ac_identity x \<noteq> None \<and> nv_currentScreen nv \<noteq> SeedDisplay \<longrightarrow> set (nv_screenStack nv) \<subseteq> {ChatList, Scanner})"

definition ui_ok :: "'k ui \<Rightarrow> bool" where
  "ui_ok v \<longleftrightarrow> ctx_ok (ui_ctx v) \<and> ac_isInitialized (ui_ctx v) \<and> nav_ok (ui_ctx v) (ui_nav v) \<and>
     screen_of (ui_screen v) = nv_currentScreen (ui_nav v)"

lemma nav_ok_ctx:
  "nav_ok x nv \<Longrightarrow> ac_identity y = ac_identity x \<Longrightarrow> ac_activeContact y = ac_activeContact x \<Longrightarrow> nav_ok y nv"
  by (auto simp: nav_ok_def screen_fits_def selected_def split: screen.splits)

lemma calm_ui: "ui_ok v \<Longrightarrow> calm (ui_ctx v) x \<Longrightarrow> ui_ok (v\<lparr>ui_ctx := x\<rparr>)"
proof -
  assume v: "ui_ok v" "calm (ui_ctx v) x"
  then have i: "ac_identity x = ac_identity (ui_ctx v)" "ac_activeContact x = ac_activeContact (ui_ctx v)"
    "ac_isInitialized x = ac_isInitialized (ui_ctx v)" by (simp_all add: calm_def)
  have "nav_ok x (ui_nav v)" using nav_ok_ctx [OF _ i(1,2)] v(1) by (simp add: ui_ok_def)
  moreover have "ctx_ok x" using calm_ok v by (auto simp: ui_ok_def)
  ultimately show ?thesis using v(1) i(3) by (simp add: ui_ok_def)
qed

lemma set_ui:
  "ui_ok (set_welcome f1 v) = ui_ok v" "ui_ok (set_restore f2 v) = ui_ok v" "ui_ok (set_chat f3 v) = ui_ok v"
  "ui_ok (set_profile f4 v) = ui_ok v" "ui_ok (set_scanner f5 v) = ui_ok v" "ui_ok (toggleConfirmed v) = ui_ok v"
  by (cases "ui_screen v"; simp add: set_welcome_def set_restore_def set_chat_def set_profile_def set_scanner_def
      toggleConfirmed_def ui_ok_def)+

lemma set_sel [simp]:
  "ui_ctx (set_welcome f1 v) = ui_ctx v" "ui_nav (set_welcome f1 v) = ui_nav v"
  "ui_ctx (set_restore f2 v) = ui_ctx v" "ui_nav (set_restore f2 v) = ui_nav v"
  "ui_ctx (set_scanner f5 v) = ui_ctx v" "ui_nav (set_scanner f5 v) = ui_nav v"
  "ui_ctx (set_chat f3 v) = ui_ctx v" "ui_ctx (set_profile f4 v) = ui_ctx v"
  by (cases "ui_screen v"; simp add: set_welcome_def set_restore_def set_scanner_def set_chat_def set_profile_def)+

lemma go_sel [simp]: "ui_ctx (go f v) = ui_ctx v" "ui_nav (go f v) = f (ui_nav v)"
  by (simp_all add: go_def Let_def)

lemma go_ok:
  assumes "ctx_ok (ui_ctx v)" "ac_isInitialized (ui_ctx v)" "nav_ok (ui_ctx v) (f (ui_nav v))"
    "screen_of (ui_screen v) = nv_currentScreen (ui_nav v)"
  shows "ui_ok (go f v)"
  using assms by (simp add: ui_ok_def go_def Let_def)

lemma go_screen: "screen_of (ui_screen v) = nv_currentScreen (ui_nav v) \<Longrightarrow>
    screen_of (ui_screen (go f v)) = nv_currentScreen (ui_nav (go f v))"
  by (simp add: go_def Let_def)

subsection \<open>Every step keeps the invariant\<close>

lemma with_ctx_run: "with_ctx m v = (r, w) \<Longrightarrow> \<exists>x. m (ui_ctx v) = (r, x) \<and> w = v\<lparr>ui_ctx := x\<rparr>"
  by (auto simp: with_ctx_def split: prod.splits)

lemma with_calm: "keeps calm m \<Longrightarrow> ui_ok v \<Longrightarrow> with_ctx m v = (r, w) \<Longrightarrow> ui_ok w"
  using with_ctx_run calm_ui calm.after by metis

text \<open>Somebody who signed in from a screen for the signed out.\<close>

lemma signed_in_nav:
  assumes "nav_ok x nv" "ac_identity x = None" "ac_identity y = Some u"
  shows "nav_ok y (reset_to ChatList (identity_effect True nv))"
    "nav_ok y (navigate (nv_currentScreen nv) SeedDisplay (no_params\<lparr>np_mnemonic := Some (mnemonic u)\<rparr>) (identity_effect True nv))
       \<longleftrightarrow> nv_currentScreen nv = Welcome"
    "identity_effect True nv = nv\<lparr>nv_currentScreen := ChatList\<rparr>"
  using assms by (auto simp: nav_ok_def screen_fits_def identity_effect_def reset_to_def navigate_def split: screen.splits if_splits)

lemma handleCreateIdentity_ok:
  assumes "ui_ok v" "nv_currentScreen (ui_nav v) = Welcome"
  shows "ui_ok (handleCreateIdentity U v)"
proof -
  let ?w = "set_welcome (\<lambda>st. st\<lparr>wl_loading := True\<rparr>) v"
  have ok: "ctx_ok (ui_ctx v)" "ac_identity (ui_ctx v) = None" "ac_isInitialized (ui_ctx v)" "nav_ok (ui_ctx v) (ui_nav v)"
    using assms by (auto simp: ui_ok_def nav_ok_def screen_fits_def)
  obtain r v1 where r: "with_ctx (createIdentity U (Some 12)) ?w = (r, v1)" by fastforce
  then obtain x where x: "createIdentity U (Some 12) (ui_ctx v) = (r, x)" "v1 = ?w\<lparr>ui_ctx := x\<rparr>"
    using with_ctx_run [OF r] by auto
  have y: "ctx_ok x" "ac_isInitialized x" "case r of Inl e \<Rightarrow> ac_identity x = None | Inr w \<Rightarrow> ac_identity x = Some w"
    using lift_adopt_ok [OF ok(1,2), of _ U r x] x(1) ok(3) by (auto simp: createIdentity_def)
  have scr: "screen_of (ui_screen ?w) = Welcome"
    using set_ui(1) [of "\<lambda>st. st\<lparr>wl_loading := True\<rparr>" v] assms by (simp add: ui_ok_def)
  show ?thesis
  proof (cases r)
    case (Inl e)
    have "nav_ok x (ui_nav v)" using ok y Inl by (auto simp: nav_ok_def screen_fits_def split: screen.splits)
    then have "ui_ok v1" using y x(2) scr assms(2) by (simp add: ui_ok_def)
    then show ?thesis using Inl r by (simp add: handleCreateIdentity_def set_ui)
  next
    case (Inr u)
    have id: "ac_identity x = Some u" using y(3) Inr by simp
    have s: "signed_in v1" using id x(2) by (simp add: signed_in_def)
    have s1: "screen_of (ui_screen v1) = nv_currentScreen (ui_nav v1)" using scr x(2) assms(2) by simp
    have "ui_ok (go (navigate (nv_currentScreen (ui_nav v)) SeedDisplay (no_params\<lparr>np_mnemonic := Some (mnemonic u)\<rparr>)) (rerender v1))"
    proof (rule go_ok)
      show "screen_of (ui_screen (rerender v1)) = nv_currentScreen (ui_nav (rerender v1))"
        unfolding rerender_def by (rule go_screen [OF s1])
      show "nav_ok (ui_ctx (rerender v1)) (navigate (nv_currentScreen (ui_nav v)) SeedDisplay
          (no_params\<lparr>np_mnemonic := Some (mnemonic u)\<rparr>) (ui_nav (rerender v1)))"
        using signed_in_nav(2) [OF ok(4,2) id] assms(2) s x(2) by (simp add: rerender_def)
    qed (use y x in \<open>simp_all add: rerender_def\<close>)
    then show ?thesis using Inr r by (simp add: handleCreateIdentity_def)
  qed
qed

lemma pressRestore_ok:
  assumes "ui_ok v" "nv_currentScreen (ui_nav v) = RestoreSeed"
  shows "ui_ok (pressRestore U v)"
proof -
  let ?w = "set_restore (\<lambda>st. st\<lparr>re_error := None, re_loading := True\<rparr>) v"
  have ok: "ctx_ok (ui_ctx v)" "ac_identity (ui_ctx v) = None" "ac_isInitialized (ui_ctx v)" "nav_ok (ui_ctx v) (ui_nav v)"
    using assms by (auto simp: ui_ok_def nav_ok_def screen_fits_def)
  have "ui_ok (handleRestore U v)" if st: "ui_screen v = RestoreState st" for st
  proof -
    obtain r v1 where r: "with_ctx (ctx_restoreIdentity U (re_mnemonic st)) ?w = (r, v1)" by fastforce
    then obtain x where x: "ctx_restoreIdentity U (re_mnemonic st) (ui_ctx v) = (r, x)" "v1 = ?w\<lparr>ui_ctx := x\<rparr>"
      using with_ctx_run [OF r] by auto
    have y: "ctx_ok x" "ac_isInitialized x" "case r of Inl e \<Rightarrow> ac_identity x = None | Inr w \<Rightarrow> ac_identity x = Some w"
      using lift_adopt_ok [OF ok(1,2), of _ U r x] x(1) ok(3) by (auto simp: ctx_restoreIdentity_def)
    have scr: "screen_of (ui_screen ?w) = RestoreSeed" by (simp add: set_restore_def st)
    show ?thesis
    proof (cases r)
      case (Inl e)
      have "nav_ok x (ui_nav v)" using ok y Inl by (auto simp: nav_ok_def screen_fits_def split: screen.splits)
      then have "ui_ok v1" using y x(2) scr assms(2) by (simp add: ui_ok_def)
      then show ?thesis using Inl r st by (simp add: handleRestore_def set_ui)
    next
      case (Inr u)
      have id: "ac_identity x = Some u" using y(3) Inr by simp
      have s: "signed_in v1" using id x(2) by (simp add: signed_in_def)
      have s1: "screen_of (ui_screen v1) = nv_currentScreen (ui_nav v1)" using scr x(2) assms(2) by simp
      have "ui_ok (go (reset_to ChatList) (rerender v1))"
      proof (rule go_ok)
        show "screen_of (ui_screen (rerender v1)) = nv_currentScreen (ui_nav (rerender v1))"
          unfolding rerender_def by (rule go_screen [OF s1])
        show "nav_ok (ui_ctx (rerender v1)) (reset_to ChatList (ui_nav (rerender v1)))"
          using signed_in_nav(1) [OF ok(4,2) id] s x(2) by (simp add: rerender_def)
      qed (use y x in \<open>simp_all add: rerender_def\<close>)
      then show ?thesis using Inr r st by (simp add: handleRestore_def)
    qed
  qed
  then show ?thesis using assms(1) by (auto simp: pressRestore_def split: screen_state.split)
qed

lemma handleLogout_ok:
  assumes "ui_ok v" "nv_currentScreen (ui_nav v) = Profile"
  shows "ui_ok (handleLogout U v)"
proof -
  obtain r v1 where r: "with_ctx (logout U) v = (r, v1)" by fastforce
  then obtain x where x: "logout U (ui_ctx v) = (r, x)" "v1 = v\<lparr>ui_ctx := x\<rparr>" using with_ctx_run [OF r] by blast
  have ok: "ctx_ok (ui_ctx v)" "ac_isInitialized (ui_ctx v)" "nav_ok (ui_ctx v) (ui_nav v)"
    "screen_of (ui_screen v) = nv_currentScreen (ui_nav v)" using assms by (auto simp: ui_ok_def)
  note y = logout_ok [OF ok(1) x(1)]
  show ?thesis
  proof (cases r)
    case (Inl e)
    then have "nav_ok x (ui_nav v)" using y nav_ok_ctx [OF ok(3), of x] by simp
    then show ?thesis using Inl r x(2) y ok by (simp add: handleLogout_def ui_ok_def)
  next
    case (Inr u)
    have s1: "screen_of (ui_screen v1) = nv_currentScreen (ui_nav v1)" using x(2) ok(4) by simp
    have "ui_ok (go (reset_to Welcome) (rerender v1))"
    proof (rule go_ok)
      show "screen_of (ui_screen (rerender v1)) = nv_currentScreen (ui_nav (rerender v1))"
        unfolding rerender_def by (rule go_screen [OF s1])
    qed (use y x Inr ok in \<open>simp_all add: rerender_def nav_ok_def screen_fits_def reset_to_def\<close>)
    then show ?thesis using Inr r by (simp add: handleLogout_def)
  qed
qed

text \<open>Opening a conversation, from the list or after an import.\<close>

lemma to_chat_ok:
  assumes "ui_ok v" "nv_currentScreen (ui_nav v) \<in> {ChatList, Scanner}" "ctx_ok x" "ac_isInitialized x"
    "ac_identity x = ac_identity (ui_ctx v)" "selected h x" "screen_of scr = nv_currentScreen (ui_nav v)"
  shows "ui_ok (go (navigate (nv_currentScreen (ui_nav v)) Chat (chat_params h al)) (v\<lparr>ui_ctx := x, ui_screen := scr\<rparr>))"
proof (rule go_ok)
  show "nav_ok (ui_ctx (v\<lparr>ui_ctx := x, ui_screen := scr\<rparr>)) (navigate (nv_currentScreen (ui_nav v)) Chat (chat_params h al)
      (ui_nav (v\<lparr>ui_ctx := x, ui_screen := scr\<rparr>)))"
    using assms by (auto simp: ui_ok_def nav_ok_def screen_fits_def navigate_def chat_params_def)
qed (use assms in simp_all)

lemma stay_ok:
  assumes "ui_ok v" "nv_currentScreen (ui_nav v) \<in> {ChatList, Scanner}" "ctx_ok x" "ac_isInitialized x"
    "ac_identity x = ac_identity (ui_ctx v)" "screen_of scr = nv_currentScreen (ui_nav v)"
  shows "ui_ok (v\<lparr>ui_ctx := x, ui_screen := scr\<rparr>)"
  using assms by (auto simp: ui_ok_def nav_ok_def screen_fits_def)

lemma handleSelectContact_ok:
  assumes "ui_ok v" "nv_currentScreen (ui_nav v) = ChatList" "ac_orch (ui_ctx v) \<noteq> None"
  shows "ui_ok (handleSelectContact h al v)"
proof -
  obtain r v1 where r: "with_ctx (selectConversation h) v = (r, v1)" by fastforce
  then obtain x where x: "selectConversation h (ui_ctx v) = (r, x)" "v1 = v\<lparr>ui_ctx := x\<rparr>" using with_ctx_run [OF r] by blast
  have ok: "ctx_ok (ui_ctx v)" "ac_identity (ui_ctx v) \<noteq> None" "ac_isInitialized (ui_ctx v)"
    "screen_of (ui_screen v) = nv_currentScreen (ui_nav v)"
    using assms by (auto simp: ui_ok_def nav_ok_def screen_fits_def)
  have y: "ctx_ok x" "ac_identity x = ac_identity (ui_ctx v)" "ac_isInitialized x"
    using selection_ok [OF ok(1) but_selection.after [OF select_keeps x(1)] ok(2)] ok(3) by auto
  have scr: "nv_currentScreen (ui_nav v) \<in> {ChatList, Scanner}" using assms(2) by simp
  have v1: "v1 = v\<lparr>ui_ctx := x, ui_screen := ui_screen v\<rparr>" using x(2) by simp
  show ?thesis
  proof (cases r)
    case (Inl e)
    then show ?thesis using stay_ok [OF assms(1) scr y(1,3,2) ok(4)] r v1 by (simp add: handleSelectContact_def)
  next
    case (Inr u)
    have "selected h x" using select_selected [of h "ui_ctx v" u x] x(1) Inr assms(3) by simp
    from to_chat_ok [OF assms(1) scr y(1,3,2) this ok(4)] show ?thesis using r v1 Inr by (simp add: handleSelectContact_def)
  qed
qed

lemma handleImport_ok:
  assumes "ui_ok v" "nv_currentScreen (ui_nav v) = Scanner"
  shows "ui_ok (handleImport U ek v)"
proof -
  let ?w = "set_scanner (\<lambda>st. st\<lparr>sc_error := None, sc_loading := True\<rparr>) v"
  have ok: "ctx_ok (ui_ctx v)" "ac_identity (ui_ctx v) \<noteq> None" "ac_isInitialized (ui_ctx v)"
    "screen_of (ui_screen v) = nv_currentScreen (ui_nav v)"
    using assms by (auto simp: ui_ok_def nav_ok_def screen_fits_def)
  have scr: "nv_currentScreen (ui_nav v) \<in> {ChatList, Scanner}" using assms(2) by simp
  obtain st where st: "ui_screen v = ScannerState st" using ok(4) assms(2) by (cases "ui_screen v") auto
  let ?al = "if trim (sc_aliasInput st) = [] then None else Some (trim (sc_aliasInput st))" and ?uri = "trim (sc_uriInput st)"
  obtain r v1 where r: "with_ctx (import_and_select U ek ?uri ?al) ?w = (r, v1)" by fastforce
  then obtain x where x: "import_and_select U ek ?uri ?al (ui_ctx v) = (r, x)" "v1 = ?w\<lparr>ui_ctx := x\<rparr>"
    using with_ctx_run [OF r] by auto
  obtain q x1 where q: "ctx_importContact U ek ?uri ?al (ui_ctx v) = (q, x1)" by fastforce
  have c: "calm (ui_ctx v) x1" using calm.after [OF context_calm(2) q] .
  then have x1: "ctx_ok x1" "ac_identity x1 \<noteq> None" using calm_ok [OF ok(1)] ok(2) by (auto simp: calm_def)
  have w: "?w\<lparr>ui_ctx := x\<rparr> = v\<lparr>ui_ctx := x, ui_screen := ui_screen ?w\<rparr>" by (simp add: set_scanner_def st)
  have scw: "screen_of (ui_screen ?w) = nv_currentScreen (ui_nav v)" using assms(2) by (simp add: set_scanner_def st)
  have y: "ctx_ok x \<and> ac_identity x = ac_identity (ui_ctx v) \<and> ac_isInitialized x \<and>
      (\<forall>contact. r = Inr contact \<longrightarrow> selected (cr_recipientPubkeyHash contact) x)"
  proof (cases q)
    case (Inl e)
    then have "x = x1" "r = Inl e" using x(1) q by (auto simp: import_and_select_def bindM_def)
    then show ?thesis using x1 c ok(3) by (simp add: calm_def)
  next
    case (Inr contact)
    obtain p x2 where p: "selectConversation (cr_recipientPubkeyHash contact) x1 = (p, x2)" by fastforce
    have "ac_orch (ui_ctx v) \<noteq> None" using q Inr by (auto simp: ctx_importContact_def split: if_splits)
    then have "ac_orch x1 \<noteq> None" using c by (simp add: calm_def)
    then have "\<forall>u. p = Inr u \<longrightarrow> selected (cr_recipientPubkeyHash contact) x2" using select_selected p by blast
    moreover have "x = x2" "\<And>contact'. r = Inr contact' \<Longrightarrow> contact' = contact \<and> (\<exists>u. p = Inr u)"
      using x(1) q Inr p by (cases p; auto simp: import_and_select_def bindM_def)+
    ultimately show ?thesis
      using selection_ok [OF x1(1) but_selection.after [OF select_keeps p] x1(2)] c ok(3) by (auto simp: calm_def)
  qed
  show ?thesis
  proof (cases r)
    case (Inl e)
    have "ui_ok v1" unfolding x(2) w using y by (intro stay_ok [OF assms(1) scr _ _ _ scw]) auto
    then show ?thesis using assms(1) st r Inl by (simp add: handleImport_def Let_def set_ui)
  next
    case (Inr contact)
    have "ui_ok (go (navigate (nv_currentScreen (ui_nav v)) Chat (chat_params (cr_recipientPubkeyHash contact) (cr_alias contact))) v1)"
      unfolding x(2) w using y Inr by (intro to_chat_ok [OF assms(1) scr _ _ _ _ scw]) auto
    then show ?thesis using assms(1) st r Inr by (simp add: handleImport_def Let_def)
  qed
qed

text \<open>The simple moves.\<close>

lemma move_ok:
  assumes "ui_ok v" "nv_currentScreen (ui_nav v) = ChatList"
  shows "ui_ok (openScanner v)" "ui_ok (openProfile U ds v)"
proof -
  have g: "ui_ok (go (navigate (nv_currentScreen (ui_nav v)) scr no_params) v)" if "scr \<in> {Scanner, Profile}" for scr
    using assms that by (intro go_ok) (auto simp: ui_ok_def nav_ok_def screen_fits_def navigate_def)
  show "ui_ok (openScanner v)" using g [of Scanner] by (simp add: openScanner_def)
  show "ui_ok (openProfile U ds v)"
    using with_calm [OF context_calm(3) g [of Profile]] by (auto simp: openProfile_def loadUri_def set_ui split: prod.split sum.split)
qed

lemma openRestore_ok: "ui_ok v \<Longrightarrow> nv_currentScreen (ui_nav v) = Welcome \<Longrightarrow> ui_ok (openRestore v)"
  unfolding openRestore_def by (intro go_ok) (auto simp: ui_ok_def nav_ok_def screen_fits_def navigate_def)

lemma loadUri_ok: "ui_ok v \<Longrightarrow> ui_ok (loadUri U ds v)"
  using with_calm [OF context_calm(3)] by (auto simp: loadUri_def set_ui split: prod.split sum.split)

lemma enterApp_ok: "ui_ok v \<Longrightarrow> nv_currentScreen (ui_nav v) = SeedDisplay \<Longrightarrow> ui_ok (enterApp v)"
proof -
  assume v: "ui_ok v" "nv_currentScreen (ui_nav v) = SeedDisplay"
  have "ui_ok (go (reset_to ChatList) v)"
    by (rule go_ok) (use v in \<open>auto simp: ui_ok_def nav_ok_def screen_fits_def reset_to_def\<close>)
  then show ?thesis using v(1) by (simp add: enterApp_def)
qed

lemma goBack_nav:
  assumes "nav_ok x nv" "nv_currentScreen nv \<in> {RestoreSeed, Profile, Scanner, Chat}"
  shows "nav_ok x (goBack (ac_identity x \<noteq> None) nv)"
proof (cases "nv_screenStack nv = []")
  case True
  then show ?thesis using assms by (auto simp: nav_ok_def screen_fits_def goBack_def)
next
  case False
  then have l: "last (nv_screenStack nv) \<in> set (nv_screenStack nv)" "set (butlast (nv_screenStack nv)) \<subseteq> set (nv_screenStack nv)"
    by (auto dest: in_set_butlastD)
  let ?top = "last (nv_screenStack nv)" and ?rest = "butlast (nv_screenStack nv)"
  have g: "goBack b nv = nv\<lparr>nv_screenStack := ?rest, nv_currentScreen := ?top\<rparr>" for b using False by (simp add: goBack_def)
  show ?thesis
  proof (cases "ac_identity x")
    case None
    then have "set (nv_screenStack nv) \<subseteq> {Welcome}" using assms(1) by (simp add: nav_ok_def)
    then have "?top = Welcome" "set ?rest \<subseteq> {Welcome}" using l by blast+
    then show ?thesis using None by (simp add: g nav_ok_def screen_fits_def)
  next
    case (Some u)
    then have "set (nv_screenStack nv) \<subseteq> {ChatList, Scanner}" using assms by (auto simp: nav_ok_def)
    then have "?top \<in> {ChatList, Scanner}" "set ?rest \<subseteq> {ChatList, Scanner}" using l by blast+
    then show ?thesis using Some by (auto simp: g nav_ok_def screen_fits_def)
  qed
qed

lemma pressBack_ok:
  "ui_ok v \<Longrightarrow> nv_currentScreen (ui_nav v) \<in> {RestoreSeed, Profile, Scanner} \<Longrightarrow> ui_ok (pressBack v)"
  unfolding pressBack_def signed_in_def by (intro go_ok goBack_nav) (auto simp: ui_ok_def)

lemma goBack_independent:
  assumes "nav_ok x nv" "nv_currentScreen nv = Chat" "ac_identity y = ac_identity x"
  shows "nav_ok y (goBack (ac_identity x \<noteq> None) nv)"
proof -
  have "nav_ok x (goBack (ac_identity x \<noteq> None) nv)" using goBack_nav [OF assms(1)] assms(2) by simp
  moreover have "nv_currentScreen (goBack (ac_identity x \<noteq> None) nv) \<noteq> Chat"
    using assms by (auto simp: goBack_def nav_ok_def screen_fits_def dest: last_in_set)
  ultimately show ?thesis using assms(3) by (auto simp: nav_ok_def screen_fits_def split: screen.splits)
qed

lemma handleBack_ok:
  assumes "ui_ok v" "nv_currentScreen (ui_nav v) = Chat"
  shows "ui_ok (handleBack v)"
proof -
  let ?x = "clearActiveConversation (ui_ctx v)"
  have "nav_ok ?x (goBack (ac_identity (ui_ctx v) \<noteq> None) (ui_nav v))"
    using assms by (intro goBack_independent) (auto simp: ui_ok_def clearActiveConversation_def)
  moreover have "ctx_ok ?x" using assms(1) by (auto simp: ui_ok_def ctx_ok_def clearActiveConversation_def)
  ultimately have "ui_ok (go (goBack (ac_identity (ui_ctx v) \<noteq> None)) (v\<lparr>ui_ctx := ?x\<rparr>))"
    using assms by (intro go_ok) (auto simp: ui_ok_def clearActiveConversation_def)
  then show ?thesis by (simp add: handleBack_def pressBack_def signed_in_def clearActiveConversation_def)
qed

lemma handleSend_ok: "ui_ok v \<Longrightarrow> nv_currentScreen (ui_nav v) = Chat \<Longrightarrow> ui_ok (handleSend U v)"
proof -
  assume v: "ui_ok v" "nv_currentScreen (ui_nav v) = Chat"
  have "ui_ok (v\<lparr>ui_screen := ChatState st\<rparr>)" for st using v by (simp add: ui_ok_def)
  then have "ui_ok w" if "with_ctx (ctx_sendMessage U body) (v\<lparr>ui_screen := ChatState st\<rparr>) = (r, w)" for w body st r
    using with_calm [OF context_calm(1) _ that] by blast
  then show ?thesis using v(1) by (auto simp: handleSend_def set_ui split: screen_state.split option.split prod.split)
qed

lemma ui_step_ok: "ui_step U scr v v' \<Longrightarrow> ui_ok v \<Longrightarrow> scr = nv_currentScreen (ui_nav v) \<Longrightarrow> ui_ok v'"
proof (induction rule: ui_step.induct)
  case (select_contact c v U)
  then have "ac_orch (ui_ctx v) \<noteq> None" by (auto simp: ui_ok_def ctx_ok_def)
  then show ?case using select_contact handleSelectContact_ok [of v] by auto
next
  case (stream U scr v ev)
  then show ?case using with_calm [OF context_calm(4), of v U ev] by (metis prod.collapse)
qed (auto simp: set_ui checkBatteryOptimization_def handleRequestBatteryOptimization_def handleDismissBatteryModal_def
      copied_timeout_def handleCopy_def handleCreateIdentity_ok openRestore_ok enterApp_ok pressRestore_ok
      pressBack_ok move_ok handleSend_ok handleBack_ok loadUri_ok handleLogout_ok handleImport_ok split: screen_state.split)

lemma launch_ui_ok: "ui_ok (launch_ui U k)"
proof -
  let ?x = "new_context None k" and ?v = "\<lparr>ui_ctx = new_context None k, ui_nav = new_navigator False, ui_screen = fresh_state Welcome\<rparr>"
  have x: "ctx_ok ?x" "ac_identity ?x = None" by (simp_all add: ctx_ok_def new_context_def)
  obtain r y where r: "init_identity U ?x = (r, y)" by fastforce
  have y: "ctx_ok y \<and> ac_isInitialized y"
  proof -
    obtain q k' where q: "loadIdentityFromKeychain (ui_prims U) (ui_bip39 U) (ui_kc U) ''tore2ee.identity.keys'' k = (q, k')" by fastforce
    let ?x1 = "?x\<lparr>ac_keychain := k', ac_isInitialized := True\<rparr>"
    have x1: "ctx_ok ?x1" "ac_identity ?x1 = None" using x by (simp_all add: ctx_ok_def)
    show ?thesis
    proof (cases "\<exists>u. q = Inr (Some u)")
      case True
      then obtain u where u: "q = Inr (Some u)" by blast
      then have "change_identity U (Some u) ?x1 = (r, y)" using r q x(2) by (simp add: init_identity_def new_context_def)
      then show ?thesis using change_identity_ok [OF x1, of U u] by auto
    next
      case False
      then show ?thesis using r q x
        by (auto simp: init_identity_def new_context_def ctx_ok_def split: sum.splits option.splits)
    qed
  qed
  have "launch_ui U k = go (identity_effect (ac_identity y \<noteq> None)) (?v\<lparr>ui_ctx := y\<rparr>)"
    using r by (simp add: launch_ui_def with_ctx_def rerender_def signed_in_def)
  moreover have "ui_ok (go (identity_effect (ac_identity y \<noteq> None)) (?v\<lparr>ui_ctx := y\<rparr>))"
    using y by (intro go_ok) (auto simp: new_navigator_def identity_effect_def nav_ok_def screen_fits_def)
  ultimately show ?thesis by simp
qed

lemma ui_reach_ok: "ui_reach Q v \<Longrightarrow> ui_ok v"
  by (induction rule: ui_reach.induct) (auto intro: launch_ui_ok ui_step_ok)

end
