(* ===== verification/Ui_Lists.thy ===== *)
theory Ui_Lists
  imports Ui_Invariants
begin

section \<open>The list of conversations and the open one\<close>

text \<open>
  What the context shows of the conversations, as functions of the rows of the database.
\<close>

subsection \<open>The list of conversations\<close>

definition rows_of :: "hex \<Rightarrow> message_row list \<Rightarrow> message_row list" where
  "rows_of h ms = filter (\<lambda>r. m_contact_pubkey_hash r = h) ms"

definition unread_of :: "hex \<Rightarrow> message_row list \<Rightarrow> nat" where
  "unread_of h ms = length (filter unread_row (rows_of h ms))"

definition summary_of :: "message_row list \<Rightarrow> contact_row \<Rightarrow> conversation_summary" where
  "summary_of ms r =
     \<lparr>cs_contact = mapRowToContact r,
      cs_lastMessage = (case order_by_asc m_timestamp (rows_of (c_recipient_pubkey_hash r) ms) of [] \<Rightarrow> None | m # _ \<Rightarrow> Some (mapRowToMessage m)),
      cs_unreadCount = unread_of (c_recipient_pubkey_hash r) ms\<rparr>"

text \<open>Contacts as the application stores them: under a hash in lower case that is not empty.\<close>

definition hashed_contacts :: "contact_row list \<Rightarrow> bool" where
  "hashed_contacts rows \<longleftrightarrow> (\<forall>r \<in> set rows. toLowerCase (c_recipient_pubkey_hash r) = c_recipient_pubkey_hash r \<and> c_recipient_pubkey_hash r \<noteq> [])"

lemma on_repo_same: "m (ss_db (ao_store ob)) = (r, ss_db (ao_store ob)) \<Longrightarrow> on_repo m ob = (r, ob)"
  by (simp add: on_repo_def on_store_def on_db_def Let_def)

lemma conversation_first:
  "conversation h (Suc 0) 0 ms = (case order_by_asc m_timestamp (rows_of h ms) of [] \<Rightarrow> [] | m # _ \<Rightarrow> [m])"
  by (simp add: conversation_def limit_offset_def rows_of_def split: list.split)

lemma summaries_run:
  assumes "dm_ready (ss_db (ao_store ob))" "hashed_contacts rows"
  shows "summaries (map mapRowToContact rows) ob = (Inr (map (summary_of (message_rows ob)) rows), ob)"
  using assms(2)
proof (induction rows)
  case (Cons r rows)
  have r: "toLowerCase (c_recipient_pubkey_hash r) = c_recipient_pubkey_hash r" "c_recipient_pubkey_hash r \<noteq> []"
    and rows: "hashed_contacts rows" using Cons.prems by (simp_all add: hashed_contacts_def)
  have 1: "on_repo (getMessagesForContact (c_recipient_pubkey_hash r) 1 0) ob =
      (Inr (map mapRowToMessage (conversation (c_recipient_pubkey_hash r) 1 0 (message_rows ob))), ob)"
    using r by (intro on_repo_same) (simp add: getMessagesForContact_run [OF assms(1)] message_rows_def)
  have 2: "on_repo (getUnreadCount (Some (c_recipient_pubkey_hash r))) ob =
      (Inr (unread_of (c_recipient_pubkey_hash r) (message_rows ob)), ob)"
    using r by (intro on_repo_same)
      (simp add: getUnreadCount_run [OF assms(1)] message_rows_def unread_of_def rows_of_def conj_commute)
  show ?case using Cons.IH [OF rows] 1 2
    by (simp add: bindM_def mapped_hash summary_of_def conversation_first split: list.split)
qed simp

definition total_unread :: "message_row list \<Rightarrow> nat" where
  "total_unread ms = length (filter unread_row ms)"

lemma read_run:
  assumes "dm_ready (ss_db (ao_store ob))" "hashed_contacts (contact_rows ob)"
  shows "read_conversations ob = (Inr (map mapRowToContact (order_by_desc c_created_at (contact_rows ob)),
     map (summary_of (message_rows ob)) (order_by_desc c_created_at (contact_rows ob)), total_unread (message_rows ob)), ob)"
proof -
  have "hashed_contacts (order_by_desc c_created_at (contact_rows ob))"
    using assms(2) by (simp add: hashed_contacts_def order_by_desc_def)
  note s = summaries_run [OF assms(1) this]
  have l: "on_repo listContacts ob = (Inr (map mapRowToContact (order_by_desc c_created_at (contact_rows ob))), ob)"
    using assms(1) by (intro on_repo_same) (simp add: listContacts_def bindM_def query_ready contact_rows_def)
  have u: "on_repo (getUnreadCount None) ob = (Inr (total_unread (message_rows ob)), ob)"
    by (intro on_repo_same) (simp add: getUnreadCount_run [OF assms(1)] total_unread_def message_rows_def)
  show ?thesis using l s u by (simp add: read_conversations_def bindM_def)
qed

lemma same_orch: "ac_orch x = Some ob \<Longrightarrow> x\<lparr>ac_orch := Some ob\<rparr> = x"
  by simp

lemma refresh_run:
  assumes "ac_orch x = Some ob" "dm_ready (ss_db (ao_store ob))" "hashed_contacts (contact_rows ob)"
  shows "refreshConversations x = (Inr (), x\<lparr>
     ac_contacts := map mapRowToContact (order_by_desc c_created_at (contact_rows ob)),
     ac_conversations := map (summary_of (message_rows ob)) (order_by_desc c_created_at (contact_rows ob)),
     ac_unreadTotal := total_unread (message_rows ob)\<rparr>)"
  using assms(1) read_run [OF assms(2,3)]
  by (simp add: refreshConversations_def repo_call_def tryM_def bindM_def same_orch)

text \<open>Every message belongs to one contact, so the counts of the conversations add up.\<close>

lemma unread_split:
  assumes "distinct hs" "\<forall>r \<in> set ms. m_contact_pubkey_hash r \<in> set hs"
  shows "sum_list (map (\<lambda>h. unread_of h ms) hs) = total_unread ms"
  using assms(2)
proof (induction ms)
  case (Cons m ms)
  have "unread_of h (m # ms) = unread_of h ms + (if m_contact_pubkey_hash m = h \<and> unread_row m then 1 else 0)" for h
    by (simp add: unread_of_def rows_of_def)
  moreover have "sum_list (map (\<lambda>h. if m_contact_pubkey_hash m = h \<and> b then 1 else 0 :: nat) hs) = (if b then 1 else 0)" for b
    using assms(1) Cons.prems sum_list_map_remove1 [of "m_contact_pubkey_hash m" hs "\<lambda>h. if m_contact_pubkey_hash m = h \<and> b then 1 else 0 :: nat"]
    by (auto simp: sum_list_distinct_conv_sum_set)
  ultimately show ?case using Cons by (simp add: sum_list_addf total_unread_def)
qed (simp add: unread_of_def rows_of_def total_unread_def)

lemma oldest_shown:
  fixes ms :: "message_row list"
  defines "rows r \<equiv> rows_of (cr_recipientPubkeyHash (cs_contact (summary_of ms r))) ms"
  shows "cs_unreadCount (summary_of ms r) = length (filter unread_row (rows r)) \<and>
     (case cs_lastMessage (summary_of ms r) of None \<Rightarrow> rows r = []
      | Some m \<Rightarrow> \<exists>q \<in> set (rows r). m = mapRowToMessage q \<and> (\<forall>q' \<in> set (rows r). m_timestamp q \<le> m_timestamp q'))"
proof -
  have e: "set (order_by_asc m_timestamp (rows r)) = set (rows r)" and so: "sorted (map m_timestamp (order_by_asc m_timestamp (rows r)))"
    by (simp_all add: order_by_asc_def)
  have h: "rows r = rows_of (c_recipient_pubkey_hash r) ms" by (simp add: rows_def summary_of_def mapped_hash)
  show ?thesis
  proof (cases "order_by_asc m_timestamp (rows r)")
    case Nil
    then show ?thesis using e h by (simp add: summary_of_def unread_of_def)
  next
    case (Cons q qs)
    then have "q \<in> set (rows r)" "\<forall>q' \<in> set (rows r). m_timestamp q \<le> m_timestamp q'" using e [symmetric] so by simp_all
    then show ?thesis using Cons h by (auto simp: summary_of_def unread_of_def)
  qed
qed

text \<open>C26. After a refresh the list has exactly one entry for each stored contact, newest first; each entry has the number
  of unread messages of its conversation, and the total is their sum; and the message shown for a conversation is a
  message of that conversation, namely one of its oldest, or none if it has none.\<close>

theorem refreshed_list:
  assumes "ac_orch x = Some ob" "dm_ready (ss_db (ao_store ob))" "hashed_contacts (contact_rows ob)"
  shows "\<exists>y. refreshConversations x = (Inr (), y) \<and> ac_orch y = Some ob \<and>
     map cs_contact (ac_conversations y) = ac_contacts y \<and>
     set (ac_contacts y) = mapRowToContact ` set (contact_rows ob) \<and> distinct (map cr_recipientPubkeyHash (ac_contacts y)) \<and>
     sorted (map (\<lambda>c. - cr_createdAt c) (ac_contacts y)) \<and>
     ac_unreadTotal y = sum_list (map cs_unreadCount (ac_conversations y)) \<and>
     (\<forall>s \<in> set (ac_conversations y).
        let rows = rows_of (cr_recipientPubkeyHash (cs_contact s)) (message_rows ob)
        in cs_unreadCount s = length (filter unread_row rows) \<and>
           (case cs_lastMessage s of None \<Rightarrow> rows = []
            | Some m \<Rightarrow> \<exists>r \<in> set rows. m = mapRowToMessage r \<and> (\<forall>r' \<in> set rows. m_timestamp r \<le> m_timestamp r')))"
proof -
  let ?cs = "order_by_desc c_created_at (contact_rows ob)" and ?ms = "message_rows ob"
  let ?y = "x\<lparr>ac_contacts := map mapRowToContact ?cs, ac_conversations := map (summary_of ?ms) ?cs, ac_unreadTotal := total_unread ?ms\<rparr>"
  have run: "refreshConversations x = (Inr (), ?y)" by (rule refresh_run [OF assms])
  have ok: "distinct (map c_recipient_pubkey_hash (contact_rows ob))"
    "\<forall>r \<in> set ?ms. m_contact_pubkey_hash r \<in> c_recipient_pubkey_hash ` set (contact_rows ob)"
    using dm_ready_db_ok [OF assms(2)] by (simp_all add: db_ok_def contact_rows_def message_rows_def)
  have d: "distinct (map c_recipient_pubkey_hash ?cs)" using ok(1) by (simp add: order_by_desc_def distinct_map)
  have m: "\<forall>r \<in> set ?ms. m_contact_pubkey_hash r \<in> set (map c_recipient_pubkey_hash ?cs)"
    using ok(2) by (simp add: order_by_desc_def)
  have hashes: "distinct (map cr_recipientPubkeyHash (ac_contacts ?y))" using d by (simp add: o_def mapped_hash)
  have total: "ac_unreadTotal ?y = sum_list (map cs_unreadCount (ac_conversations ?y))"
    using unread_split [OF d m] by (simp add: summary_of_def o_def)
  have sorted: "sorted (map (\<lambda>c. - cr_createdAt c) (ac_contacts ?y))"
    using sorted_sort_key [of "\<lambda>r. - c_created_at r" "contact_rows ob"]
    by (simp add: order_by_desc_def mapRowToContact_def Let_def o_def)
  have entry: "\<forall>s \<in> set (ac_conversations ?y).
      let rows = rows_of (cr_recipientPubkeyHash (cs_contact s)) ?ms
      in cs_unreadCount s = length (filter unread_row rows) \<and>
         (case cs_lastMessage s of None \<Rightarrow> rows = []
          | Some m \<Rightarrow> \<exists>r \<in> set rows. m = mapRowToMessage r \<and> (\<forall>r' \<in> set rows. m_timestamp r \<le> m_timestamp r'))"
    using oldest_shown [of ?ms] unfolding Let_def by auto
  show ?thesis using run total sorted hashes entry assms(1)
    by (intro exI [of _ ?y] conjI) (simp_all add: order_by_desc_def summary_of_def o_def)
qed

text \<open>A concrete context: Alice's client with one contact.\<close>

definition demo_context :: "unit app_context" where
  "demo_context = (new_context (Some (demo_identity Alice)) ())\<lparr>ac_isInitialized := True, ac_orch := Some lonely_app\<rparr>"

lemma lonely_ready: "dm_ready (ss_db (ao_store lonely_app))" "hashed_contacts (contact_rows lonely_app)"
proof -
  show "dm_ready (ss_db (ao_store lonely_app))" using sql_invar_ready [OF lonely_app_rows(1)] by blast
  have "toLowerCase ''c0ffee'' = ''c0ffee''" by code_simp
  then show "hashed_contacts (contact_rows lonely_app)"
    by (simp add: hashed_contacts_def lonely_app_rows demo_contact_def)
qed

lemma demo_orch: "ac_orch demo_context = Some lonely_app"
  by (simp add: demo_context_def)

theorem refreshed_list_witness:
  "\<exists>y. refreshConversations demo_context = (Inr (), y) \<and> set (ac_contacts y) = {mapRowToContact (contact_row_of demo_contact)} \<and>
     ac_unreadTotal y = sum_list (map cs_unreadCount (ac_conversations y))"
  using refreshed_list [OF demo_orch lonely_ready] by (auto simp: lonely_app_rows)

subsection \<open>Opening a conversation\<close>

lemma repo_call_run: "ac_orch x = Some ob \<Longrightarrow> m ob = (r, ob') \<Longrightarrow> repo_call m x = (r, x\<lparr>ac_orch := Some ob'\<rparr>)"
  by (simp add: repo_call_def)

lemma marked_unread:
  assumes "h \<noteq> []"
  defines "f \<equiv> update_where (\<lambda>r. m_contact_pubkey_hash r = h \<and> m_is_outgoing r = 0) (\<lambda>r. r\<lparr>m_is_read := 1\<rparr>)"
  shows "unread_of h (f ms) = 0" "h' \<noteq> h \<Longrightarrow> unread_of h' (f ms) = unread_of h' ms"
    "total_unread ms = unread_of h ms + total_unread (f ms)"
proof -
  show "unread_of h (f ms) = 0"
    by (auto simp: f_def unread_of_def rows_of_def update_where_def unread_row_def filter_empty_conv)
  have *: "filter (\<lambda>r. P (m_contact_pubkey_hash r) \<and> unread_row r) (f ms) =
      map (\<lambda>r. if m_contact_pubkey_hash r = h \<and> m_is_outgoing r = 0 then r\<lparr>m_is_read := 1\<rparr> else r)
        (filter (\<lambda>r. P (m_contact_pubkey_hash r) \<and> unread_row r \<and> m_contact_pubkey_hash r \<noteq> h) ms)" for P
    unfolding f_def update_where_def filter_map
    by (rule arg_cong [where f = "map _"], rule filter_cong [OF refl]) (auto simp: unread_row_def)
  show "unread_of h' (f ms) = unread_of h' ms" if "h' \<noteq> h"
  proof -
    have "filter (\<lambda>r. m_contact_pubkey_hash r = h' \<and> unread_row r \<and> m_contact_pubkey_hash r \<noteq> h) ms =
        filter (\<lambda>r. m_contact_pubkey_hash r = h' \<and> unread_row r) ms" using that by (intro filter_cong) auto
    then show ?thesis using * [of "\<lambda>k. k = h'"] by (simp add: unread_of_def rows_of_def)
  qed
  have "length (filter unread_row ms) = length (filter (\<lambda>r. m_contact_pubkey_hash r = h \<and> unread_row r) ms) +
      length (filter (\<lambda>r. unread_row r \<and> m_contact_pubkey_hash r \<noteq> h) ms)"
    using sum_length_filter_compl [of "\<lambda>r. m_contact_pubkey_hash r = h" "filter unread_row ms"] by (simp add: conj_commute)
  then show "total_unread ms = unread_of h ms + total_unread (f ms)"
    using * [of "\<lambda>_. True"] by (simp add: unread_of_def rows_of_def total_unread_def)
qed

text \<open>The run, with the context it leaves.\<close>

lemma conversation_run:
  assumes "ac_orch x = Some ob" "dm_ready (ss_db (ao_store ob))" "hashed_contacts (contact_rows ob)" "r \<in> set (contact_rows ob)"
    and "toLowerCase h = c_recipient_pubkey_hash r"
  shows "\<exists>y. selectConversation h x = (Inr (), y) \<and> ac_orch y \<noteq> None \<and> ac_activeContact y = Some (mapRowToContact r) \<and>
     ac_activeMessages y = map mapRowToMessage (take 100 (order_by_asc m_timestamp (rows_of (c_recipient_pubkey_hash r) (message_rows ob)))) \<and>
     map cs_contact (ac_conversations y) = map mapRowToContact (order_by_desc c_created_at (contact_rows ob)) \<and>
     (\<forall>s \<in> set (ac_conversations y). cs_unreadCount s =
        (if cr_recipientPubkeyHash (cs_contact s) = c_recipient_pubkey_hash r then 0
         else unread_of (cr_recipientPubkeyHash (cs_contact s)) (message_rows ob))) \<and>
     total_unread (message_rows ob) = unread_of (c_recipient_pubkey_hash r) (message_rows ob) + ac_unreadTotal y"
proof -
  let ?h = "c_recipient_pubkey_hash r" and ?m = "ss_db (ao_store ob)"
  let ?f = "update_where (\<lambda>r. m_contact_pubkey_hash r = ?h \<and> m_is_outgoing r = 0) (\<lambda>r. r\<lparr>m_is_read := 1\<rparr>)"
  have ok: "db_ok (db_of ?m)" using dm_ready_db_ok [OF assms(2)] .
  have h: "?h \<noteq> []" using assms(3,4) by (simp add: hashed_contacts_def)
  have sel: "select_key c_recipient_pubkey_hash ?h (contacts (db_of ?m)) = Some r"
    using ok assms(4) by (intro select_key_unique) (simp_all add: db_ok_def contact_rows_def)
  have 1: "on_repo (getContactByHash h) ob = (Inr (Some (mapRowToContact r)), ob)"
    using assms(5) sel by (intro on_repo_same) (simp add: getContactByHash_run [OF assms(2)])
  have 2: "on_repo (getMessagesForContact h 100 0) ob =
      (Inr (map mapRowToMessage (take 100 (order_by_asc m_timestamp (rows_of ?h (message_rows ob))))), ob)"
    using assms(5) by (intro on_repo_same)
      (simp add: getMessagesForContact_run [OF assms(2)] conversation_def limit_offset_def rows_of_def message_rows_def)
  let ?m' = "?m\<lparr>dm_driver := Some ((db_of ?m)\<lparr>messages := ?f (messages (db_of ?m))\<rparr>)\<rparr>"
  have mark: "markMessagesAsRead h ?m = (Inr (), ?m')"
    using assms(2,5) by (simp add: markMessagesAsRead_def execute_modify)
  have ready': "dm_ready ?m'"
    using message_updates_keep [OF assms(2), of "\<lambda>r. r\<lparr>m_is_read := 1\<rparr>" "\<lambda>r. m_contact_pubkey_hash r = ?h \<and> m_is_outgoing r = 0"]
      mark assms(5) by (simp add: markMessagesAsRead_def)
  let ?ob = "ob\<lparr>ao_store := (ao_store ob)\<lparr>ss_db := ?m'\<rparr>\<rparr>"
  have 3: "on_repo (markMessagesAsRead h) ob = (Inr (), ?ob)"
    using mark by (simp add: on_repo_def on_store_def on_db_def Let_def)
  have rows: "message_rows ?ob = ?f (message_rows ob)" "contact_rows ?ob = contact_rows ob"
    by (simp_all add: message_rows_def contact_rows_def db_of_def)
  let ?msgs = "map mapRowToMessage (take 100 (order_by_asc m_timestamp (rows_of ?h (message_rows ob))))"
  let ?x3 = "x\<lparr>ac_activeContact := Some (mapRowToContact r), ac_activeMessages := ?msgs, ac_orch := Some ?ob\<rparr>"
  have x3: "ac_orch ?x3 = Some ?ob" "dm_ready (ss_db (ao_store ?ob))" "hashed_contacts (contact_rows ?ob)"
    using ready' assms(3) rows(2) by simp_all
  note ref = refresh_run [OF x3]
  let ?y = "snd (refreshConversations ?x3)"
  have "selectConversation h x = refreshConversations ?x3"
    using assms(1) 1 2 3 by (simp add: selectConversation_def repo_call_def bindM_def same_orch)
  then have run: "selectConversation h x = (Inr (), ?y)" using ref by simp
  have y: "ac_activeContact ?y = Some (mapRowToContact r)" "ac_activeMessages ?y = ?msgs"
    "ac_conversations ?y = map (summary_of (?f (message_rows ob))) (order_by_desc c_created_at (contact_rows ob))"
    "ac_unreadTotal ?y = total_unread (?f (message_rows ob))"
    unfolding ref rows by simp_all
  have orch: "ac_orch ?y \<noteq> None" unfolding ref by simp
  note u = marked_unread [where ms = "message_rows ob", OF h]
  have list: "map cs_contact (ac_conversations ?y) = map mapRowToContact (order_by_desc c_created_at (contact_rows ob))"
    unfolding y(3) by (simp add: summary_of_def o_def)
  have counts: "\<forall>s \<in> set (ac_conversations ?y). cs_unreadCount s =
        (if cr_recipientPubkeyHash (cs_contact s) = ?h then 0
         else unread_of (cr_recipientPubkeyHash (cs_contact s)) (message_rows ob))"
    unfolding y(3) using u(1) marked_unread(2) [OF h] by (auto simp: summary_of_def mapped_hash)
  have "total_unread (message_rows ob) = unread_of ?h (message_rows ob) + ac_unreadTotal ?y"
    unfolding y(4) by (rule u(3))
  then show ?thesis using run orch y(1,2) list counts by (intro exI [of _ ?y] conjI) assumption+
qed

text \<open>C25. Opening the conversation of a stored contact shows the contact and the hundred oldest messages in the order
  of time, and afterwards nothing of it is unread: its entry in the list says zero, the entries of the other
  contacts are as before, and the total has dropped by the count it had.\<close>

theorem conversation_opened:
  assumes "ac_orch x = Some ob" "dm_ready (ss_db (ao_store ob))" "hashed_contacts (contact_rows ob)" "r \<in> set (contact_rows ob)"
    and "toLowerCase h = c_recipient_pubkey_hash r"
  shows "\<exists>y. selectConversation h x = (Inr (), y) \<and> ac_activeContact y = Some (mapRowToContact r) \<and>
     ac_activeMessages y = map mapRowToMessage (take 100 (order_by_asc m_timestamp (rows_of (c_recipient_pubkey_hash r) (message_rows ob)))) \<and>
     map cs_contact (ac_conversations y) = map mapRowToContact (order_by_desc c_created_at (contact_rows ob)) \<and>
     (\<forall>s \<in> set (ac_conversations y). cs_unreadCount s =
        (if cr_recipientPubkeyHash (cs_contact s) = c_recipient_pubkey_hash r then 0
         else unread_of (cr_recipientPubkeyHash (cs_contact s)) (message_rows ob))) \<and>
     total_unread (message_rows ob) = unread_of (c_recipient_pubkey_hash r) (message_rows ob) + ac_unreadTotal y"
  using conversation_run [OF assms] by blast

theorem conversation_opened_witness:
  "\<exists>y. selectConversation ''C0FFEE'' demo_context = (Inr (), y) \<and> ac_activeContact y = Some (mapRowToContact (contact_row_of demo_contact))"
proof -
  have "toLowerCase ''C0FFEE'' = ''c0ffee''" "toLowerCase ''c0ffee'' = ''c0ffee''" by code_simp+
  then have h: "toLowerCase ''C0FFEE'' = c_recipient_pubkey_hash (contact_row_of demo_contact)"
    by (simp add: demo_contact_def)
  have "contact_row_of demo_contact \<in> set (contact_rows lonely_app)" by (simp add: lonely_app_rows)
  from conversation_opened [OF demo_orch lonely_ready this h] show ?thesis by blast
qed

end
