(* ===== verification/Ui_Sessions.thy ===== *)
theory Ui_Sessions
  imports Ui_Lists
begin

section \<open>The identity and the keychain\<close>

text \<open>
  In every run of the user interface the keychain holds what the next start of the application needs: the
  account of whoever is signed in, and nothing when nobody is.
\<close>

subsection \<open>A keychain that is a map\<close>

text \<open>\<open>react-native-keychain\<close> documents one password for each service: \<open>pw\<close> is the map, and none of its
  functions fails.\<close>

definition keychain_map :: "'k keychain_ops \<Rightarrow> ('k \<Rightarrow> string \<Rightarrow> string option) \<Rightarrow> bool" where
  "keychain_map K pw \<longleftrightarrow>
     (\<forall>svc k. getGenericPassword K svc k = (Inr (pw k svc), k)) \<and>
     (\<forall>svc p k. \<exists>k'. setGenericPassword K svc p k = (Inr True, k') \<and> pw k' = (pw k)(svc \<mapsto> p)) \<and>
     (\<forall>svc k. \<exists>k'. resetGenericPassword K svc k = (Inr True, k') \<and> pw k' = (pw k)(svc := None))"

lemma map_keychain_map: "keychain_map map_keychain id"
  by (simp add: keychain_map_def map_keychain_def)

abbreviation identity_service :: string where
  "identity_service \<equiv> ''tore2ee.identity.keys''"

definition stored :: "identity \<Rightarrow> string" where
  "stored u = JSON_stringify (JObj [(''mnemonic'', JStr (mnemonic u))])"

lemma load_stored:
  assumes "keychain_map K pw"
  shows "pw k svc = None \<Longrightarrow> loadIdentityFromKeychain P B (Some K) svc k = (Inr None, k)"
    and "pw k svc = Some (stored u) \<Longrightarrow> restoreIdentity P B (mnemonic u) = Inr u \<Longrightarrow> mnemonic u \<noteq> [] \<Longrightarrow>
      loadIdentityFromKeychain P B (Some K) svc k = (Inr (Some u), k)"
  using assms JSON_stringify_nonempty
  by (simp_all add: keychain_map_def loadIdentityFromKeychain_def tryM_def bindM_def stored_def JSON_parse_stringify
      restore_from_json_mnemonic)

lemma save_stored:
  assumes "keychain_map K pw"
  shows "\<exists>k'. saveIdentityToKeychain (Some K) svc u k = (Inr True, k') \<and> pw k' = (pw k)(svc \<mapsto> stored u)"
    "\<exists>k'. clearIdentityFromKeychain (Some K) svc k = (Inr True, k') \<and> pw k' = (pw k)(svc := None)"
proof -
  obtain k1 k2 where "setGenericPassword K svc (stored u) k = (Inr True, k1)" "pw k1 = (pw k)(svc \<mapsto> stored u)"
    "resetGenericPassword K svc k = (Inr True, k2)" "pw k2 = (pw k)(svc := None)"
    using assms unfolding keychain_map_def by metis
  then show "\<exists>k'. saveIdentityToKeychain (Some K) svc u k = (Inr True, k') \<and> pw k' = (pw k)(svc \<mapsto> stored u)"
    "\<exists>k'. clearIdentityFromKeychain (Some K) svc k = (Inr True, k') \<and> pw k' = (pw k)(svc := None)"
    by (simp_all add: saveIdentityToKeychain_def clearIdentityFromKeychain_def tryM_def stored_def)
qed

text \<open>The database key is another service.\<close>

lemma database_key_entry:
  assumes "keychain_map K pw" "svc \<noteq> service"
  shows "pw (snd (getOrCreateDatabaseKey P (Some K) service a b k)) svc = pw k svc"
proof -
  obtain k' where "setGenericPassword K service (bytesToHex P a) k = (Inr True, k')"
    "pw k' = (pw k)(service \<mapsto> bytesToHex P a)" using assms(1) unfolding keychain_map_def by metis
  moreover have "getGenericPassword K service k = (Inr (pw k service), k)" using assms(1) by (simp add: keychain_map_def)
  ultimately show ?thesis using assms(2) by (simp add: getOrCreateDatabaseKey_def tryM_def bindM_def)
qed

lemma initialize_entry:
  assumes "keychain_map K pw"
  shows "pw (snd (snd (initialize P op (Some K) a b now (m, k)))) identity_service = pw k identity_service"
proof -
  have ne: "identity_service \<noteq> KEYCHAIN_DB_KEY_SERVICE" by (simp add: KEYCHAIN_DB_KEY_SERVICE_def)
  have *: "pw k' identity_service = pw k identity_service"
    if "getOrCreateDatabaseKey P (Some K) KEYCHAIN_DB_KEY_SERVICE a b k = (r, k')" for r k'
    using database_key_entry [OF assms ne, of P a b k] that by simp
  show ?thesis by (auto simp: initialize_def Let_def dest: * split: prod.split sum.split)
qed

definition same_entry :: "('k \<Rightarrow> string \<Rightarrow> string option) \<Rightarrow> 'k app_context \<Rightarrow> 'k app_context \<Rightarrow> bool" where
  "same_entry pw x y \<longleftrightarrow> pw (ac_keychain y) identity_service = pw (ac_keychain x) identity_service"

interpretation same_entry: frame "same_entry pw" for pw
  by unfold_locales (auto simp: same_entry_def)

lemma calm_entry: "keeps calm m \<Longrightarrow> keeps (same_entry pw) m"
  by (simp add: keeps_def calm_def same_entry_def)

lemma change_identity_entry:
  assumes "keychain_map K pw" "ui_kc U = Some K"
  shows "keeps (same_entry pw) (change_identity U u)"
proof -
  have m: "keeps (same_entry pw) (modifyM f)" if "\<And>x. ac_keychain (f x) = ac_keychain x" for f
    using that by (simp add: keeps_def same_entry_def)
  have init: "keeps (same_entry pw) (\<lambda>ctx. let ob = ui_orchestrator U (ac_tor ctx) v in
           case initialize_app (ui_prims U) (ui_open U) (ui_kc U) (ui_key_drawn U) (ui_key_fallback U) (ui_now U)
                  (ob, ac_keychain ctx) of
             (Inl e, (_, k)) \<Rightarrow> (Inl e, ctx\<lparr>ac_keychain := k, ac_tor := Some (ao_tor ob)\<rparr>)
           | (Inr _, (ob1, k)) \<Rightarrow> (Inr (), ctx\<lparr>ac_keychain := k, ac_orch := Some ob1\<rparr>))" for v
    using initialize_entry [OF assms(1)]
    by (auto simp: keeps_def same_entry_def initialize_app_def assms(2) Let_def split: prod.split sum.split)
      (metis snd_conv)+
  have start: "keeps (same_entry pw) (startOrchestrator U v)" for v
    unfolding startOrchestrator_def
    by (intro same_entry.bind same_entry.attempt m init calm_entry [OF refresh_calm] calm_entry [OF orch_call_calm]) simp_all
  have clean: "keeps (same_entry pw) (cleanup_effect U)"
    unfolding cleanup_effect_def drop_orchestrator_def
    by (intro same_entry.check same_entry.bind same_entry.attempt calm_entry [OF repo_call_calm] same_entry.pure m) simp
  show ?thesis unfolding change_identity_def
    by (intro same_entry.bind clean m) (auto simp: start same_entry.pure split: option.split)
qed

subsection \<open>The identity the next start finds\<close>

definition loaded :: "'k keychain_ops \<Rightarrow> prims \<Rightarrow> bip39_ops \<Rightarrow> 'k \<Rightarrow> identity option" where
  "loaded K P B k =
     (case fst (loadIdentityFromKeychain P B (Some K) identity_service k) of Inr u \<Rightarrow> u | Inl e \<Rightarrow> None)"

lemma load_pure:
  assumes "keychain_map K pw"
  shows "snd (loadIdentityFromKeychain P B (Some K) svc k) = k"
    "pw k svc = pw k' svc \<Longrightarrow> fst (loadIdentityFromKeychain P B (Some K) svc k) = fst (loadIdentityFromKeychain P B (Some K) svc k')"
proof -
  have g: "getGenericPassword K svc k = (Inr (pw k svc), k)" for k using assms by (simp add: keychain_map_def)
  show "snd (loadIdentityFromKeychain P B (Some K) svc k) = k"
    "pw k svc = pw k' svc \<Longrightarrow> fst (loadIdentityFromKeychain P B (Some K) svc k) = fst (loadIdentityFromKeychain P B (Some K) svc k')"
    by (auto simp: loadIdentityFromKeychain_def tryM_def bindM_def g split: prod.split sum.split)
qed

lemma loaded_entry:
  "keychain_map K pw \<Longrightarrow> same_entry pw x y \<Longrightarrow> loaded K P B (ac_keychain y) = loaded K P B (ac_keychain x)"
  using load_pure(2) [of K pw "ac_keychain y" identity_service "ac_keychain x" P B] by (simp add: same_entry_def loaded_def)

text \<open>One phone: its keychain, the libraries, and phrases as \<open>bip39\<close> generates them, valid and normalised.\<close>

definition same_phone :: "'k keychain_ops \<Rightarrow> prims \<Rightarrow> bip39_ops \<Rightarrow> 'k ui_env \<Rightarrow> bool" where
  "same_phone K P B U \<longleftrightarrow> ui_kc U = Some K \<and> ui_prims U = P \<and> ui_bip39 U = B \<and>
     (\<forall>n m. ui_generateMnemonic U n = Inr m \<longrightarrow> validateMnemonic B m \<and> normalize_mnemonic m = m)"

definition remembered :: "'k keychain_ops \<Rightarrow> prims \<Rightarrow> bip39_ops \<Rightarrow> 'k app_context \<Rightarrow> bool" where
  "remembered K P B x \<longleftrightarrow> ac_identity x = loaded K P B (ac_keychain x)"

lemma remembered_same:
  "keychain_map K pw \<Longrightarrow> remembered K P B x \<Longrightarrow> same_entry pw x y \<Longrightarrow> ac_identity y = ac_identity x \<Longrightarrow> remembered K P B y"
  using loaded_entry [of K pw x y P B] by (simp add: remembered_def)

lemma calm_remembered: "remembered K P B x \<Longrightarrow> calm x y \<Longrightarrow> remembered K P B y"
  by (simp add: remembered_def calm_def)

lemma with_calm_remembered:
  "keeps calm m \<Longrightarrow> remembered K P B (ui_ctx v) \<Longrightarrow> remembered K P B (ui_ctx (snd (with_ctx m v)))"
  using calm_remembered calm.after by (fastforce simp: with_ctx_def split: prod.split)

lemma selection_remembered: "remembered K P B x \<Longrightarrow> but_selection x y \<Longrightarrow> remembered K P B y"
  by (simp add: remembered_def but_selection_def calm_def)

lemma adopt_remembered:
  assumes "keychain_map K pw" "same_phone K P B U" "ctx_ok x" "ac_identity x = None" "remembered K P B x"
    and "\<And>u. r0 = Inr u \<Longrightarrow> restoreIdentity P B (mnemonic u) = Inr u \<and> mnemonic u \<noteq> []"
  shows "remembered K P B (snd (bindM (liftM r0) (adopt_identity U) x))"
proof (cases r0)
  case (Inl e)
  then show ?thesis using assms(5) by simp
next
  case (Inr u)
  note kc = assms(2) [unfolded same_phone_def, THEN conjunct1]
  obtain k where k: "saveIdentityToKeychain (Some K) identity_service u (ac_keychain x) = (Inr True, k)"
    "pw k = (pw (ac_keychain x))(identity_service \<mapsto> stored u)" using save_stored(1) [OF assms(1)] by blast
  let ?x1 = "x\<lparr>ac_keychain := k\<rparr>"
  have x1: "ctx_ok ?x1" "ac_identity ?x1 = None" using assms(3,4) by (simp_all add: ctx_ok_def)
  obtain y where y: "change_identity U (Some u) ?x1 = (Inr (), y)" "ac_identity y = Some u"
    using change_identity_ok [OF x1] by blast
  have "same_entry pw ?x1 y" using same_entry.after [OF change_identity_entry [OF assms(1) kc] y(1)] .
  then have "loaded K P B (ac_keychain y) = loaded K P B k" using loaded_entry [OF assms(1)] by fastforce
  moreover have "loaded K P B k = Some u"
    using load_stored(2) [OF assms(1), of k identity_service u P B] assms(6) [OF Inr] k(2) by (simp add: loaded_def)
  ultimately have "remembered K P B y" using y(2) by (simp add: remembered_def)
  moreover have "snd (bindM (liftM r0) (adopt_identity U) x) = y"
    using k(1) y(1) Inr kc by (simp add: adopt_identity_def keychain_call_def bindM_def)
  ultimately show ?thesis by simp
qed

lemma phrase_restores:
  assumes "\<not> validateMnemonic B []" "validateMnemonic B m" "normalize_mnemonic m = m" "deriveIdentityFromMnemonic P B m = Inr u"
  shows "restoreIdentity P B (mnemonic u) = Inr u \<and> mnemonic u \<noteq> []"
  using assms deriveIdentity_mnemonic [OF assms(4)] by (auto simp: restoreIdentity_def)

lemma restored_again:
  assumes "\<not> validateMnemonic B []" "restoreIdentity P B m = Inr u"
  shows "restoreIdentity P B (mnemonic u) = Inr u \<and> mnemonic u \<noteq> []"
proof -
  have m: "validateMnemonic B (normalize_mnemonic m)" "deriveIdentityFromMnemonic P B (normalize_mnemonic m) = Inr u"
    using assms(2) by (auto simp: restoreIdentity_def Let_def split: if_splits)
  show ?thesis by (rule phrase_restores [OF assms(1) m(1) _ m(2)]) simp
qed

text \<open>Stopping never throws, so that a logout ends with neither an identity nor an entry.\<close>

lemma stop_app_returns: "fst (stop_app P E now ob) = Inr ()"
proof -
  have "ws_log (disconnect w) = ws_log w @ [OnStateChange CLOSED]" for w
    by (simp add: disconnect_def setState_def call_back_def cleanupSocket_def cleanupTimers_def split: option.split)
  then show ?thesis
    by (simp add: stop_app_def stream_event_def Let_def bindM_def emit_def on_repo_def on_store_def on_db_def
        close_manager_def split: prod.split)
qed

lemma logout_remembered:
  assumes "keychain_map K pw" "same_phone K P B U"
  shows "fst (logout U x) = Inr () \<and> ac_identity (snd (logout U x)) = None \<and> remembered K P B (snd (logout U x))"
proof -
  note kc = assms(2) [unfolded same_phone_def, THEN conjunct1]
  obtain k where k: "clearIdentityFromKeychain (Some K) identity_service (ac_keychain x) = (Inr True, k)"
    "pw k = (pw (ac_keychain x))(identity_service := None)" using save_stored(2) [OF assms(1)] by blast
  have none: "loaded K P B k = None"
    using load_stored(1) [OF assms(1), of k identity_service P B] k(2) by (simp add: loaded_def)
  let ?x1 = "x\<lparr>ac_keychain := k\<rparr>"
  obtain x2 where x2: "stop_current U ?x1 = (Inr (), x2)" "ac_keychain x2 = k" "ac_orch x2 = None"
  proof (cases "ac_orch x")
    case None
    then show ?thesis by (intro that [of ?x1]) (simp_all add: stop_current_def)
  next
    case (Some ob)
    let ?m = "stop_app (ui_prims U) (ui_orch U) (ui_now U)"
    obtain ob' where ob': "?m ob = (Inr (), ob')" using stop_app_returns by (metis prod.collapse)
    obtain r x3 where x3: "orch_call ?m ?x1 = (r, x3)" by fastforce
    then have "r = Inr ()" using ob' Some by (simp add: orch_call_def)
    moreover have "calm ?x1 x3" using calm.after [OF orch_call_calm x3] .
    ultimately show ?thesis using x3 Some
      by (intro that [of "drop_orchestrator x3"]) (simp_all add: stop_current_def bindM_def drop_orchestrator_def calm_def)
  qed
  have "logout U x = (Inr (), x2\<lparr>ac_activeContact := None, ac_activeMessages := [], ac_conversations := [], ac_contacts := [],
      ac_identity := None\<rparr>)"
    using k(1) x2 kc by (simp add: logout_def keychain_call_def bindM_def change_identity_def cleanup_effect_def)
  then show ?thesis using none x2(2) by (simp add: remembered_def)
qed

text \<open>What each handler does to the context.\<close>

lemma with_ctx_sel [simp]: "ui_ctx (snd (with_ctx m v)) = snd (m (ui_ctx v))" "fst (with_ctx m v) = fst (m (ui_ctx v))"
  by (simp_all add: with_ctx_def split: prod.split)

lemma with_ctx_case: "(case with_ctx m v of (r, v1) \<Rightarrow> f r v1) = f (fst (with_ctx m v)) (snd (with_ctx m v))"
  by (simp add: case_prod_beta)

lemma handler_ctx:
  "ui_ctx (handleCreateIdentity U v) = snd (createIdentity U (Some 12) (ui_ctx v))"
  "ui_ctx (handleLogout U v) = snd (logout U (ui_ctx v))"
  "ui_ctx (handleSelectContact h al v) = snd (selectConversation h (ui_ctx v))"
  "ui_ctx (loadUri U ds v) = snd (exportOwnUri U (bd_spkSecret ds) (bd_spkId ds) (bd_oneTime ds) None (ui_ctx v))"
  by (simp_all add: handleCreateIdentity_def handleLogout_def handleSelectContact_def loadUri_def with_ctx_case rerender_def
      split: sum.split)

lemma typed_handler_ctx:
  "ui_screen v = RestoreState st \<Longrightarrow> ui_ctx (handleRestore U v) = snd (ctx_restoreIdentity U (re_mnemonic st) (ui_ctx v))"
  "ui_screen v = ScannerState sc \<Longrightarrow> ui_ctx (handleImport U ek v) = (if trim (sc_uriInput sc) = [] then ui_ctx v
     else snd (import_and_select U ek (trim (sc_uriInput sc))
            (if trim (sc_aliasInput sc) = [] then None else Some (trim (sc_aliasInput sc))) (ui_ctx v)))"
  "ui_screen v = ChatState ch \<Longrightarrow> ui_ctx (handleSend U v) = (if trim (ch_inputText ch) = [] \<or> ch_sending ch then ui_ctx v
     else snd (ctx_sendMessage U (trim (ch_inputText ch)) (ui_ctx v)))"
proof -
  show "ui_screen v = RestoreState st \<Longrightarrow> ui_ctx (handleRestore U v) = snd (ctx_restoreIdentity U (re_mnemonic st) (ui_ctx v))"
    by (simp add: handleRestore_def with_ctx_case rerender_def split: sum.split)
  show "ui_screen v = ScannerState sc \<Longrightarrow> ui_ctx (handleImport U ek v) = (if trim (sc_uriInput sc) = [] then ui_ctx v
     else snd (import_and_select U ek (trim (sc_uriInput sc))
            (if trim (sc_aliasInput sc) = [] then None else Some (trim (sc_aliasInput sc))) (ui_ctx v)))"
    by (simp add: handleImport_def with_ctx_case Let_def split: sum.split)
  show "ui_screen v = ChatState ch \<Longrightarrow> ui_ctx (handleSend U v) = (if trim (ch_inputText ch) = [] \<or> ch_sending ch then ui_ctx v
     else snd (ctx_sendMessage U (trim (ch_inputText ch)) (ui_ctx v)))"
    by (simp add: handleSend_def send_begins_def with_ctx_case)
qed

lemma import_and_select_keeps: "keeps but_selection (import_and_select U ek uri al)"
  unfolding import_and_select_def
  by (intro but_selection.bind keeps_but_selection [OF context_calm(2)] select_keeps but_selection.pure)

lemma keeps_remembered: "keeps but_selection m \<Longrightarrow> remembered K P B x \<Longrightarrow> remembered K P B (snd (m x))"
  using selection_remembered unfolding keeps_def by blast

lemma go_remembered: "remembered K P B (ui_ctx (go f v)) = remembered K P B (ui_ctx v)"
  by simp

text \<open>No step loses track of the keychain.\<close>

lemma ui_step_remembered:
  assumes "ui_step U scr v v'" "ui_ok v" "scr = nv_currentScreen (ui_nav v)" "remembered K P B (ui_ctx v)"
    and "keychain_map K pw" "same_phone K P B U" "\<not> validateMnemonic B []"
  shows "remembered K P B (ui_ctx v')"
  using assms(1-4)
proof cases
  case create_identity
  have ok: "ctx_ok (ui_ctx v)" "ac_identity (ui_ctx v) = None"
    using assms(2,3) create_identity by (auto simp: ui_ok_def nav_ok_def screen_fits_def)
  have "restoreIdentity P B (mnemonic u) = Inr u \<and> mnemonic u \<noteq> []"
    if g: "generateIdentity P B (ui_generateMnemonic U) 12 = Inr u" for u
  proof -
    obtain m where m: "ui_generateMnemonic U 128 = Inr m" "deriveIdentityFromMnemonic P B m = Inr u"
      using g by (auto simp: generateIdentity_def bindR_Inr_iff Let_def catchR_def split: sum.splits)
    moreover from m(1) have "validateMnemonic B m" "normalize_mnemonic m = m" using assms(6) by (auto simp: same_phone_def)
    ultimately show ?thesis using phrase_restores [OF assms(7)] by blast
  qed
  from adopt_remembered [OF assms(5,6) ok assms(4) this] show ?thesis
    using create_identity assms(6) by (simp add: handler_ctx createIdentity_def same_phone_def)
next
  case press_restore
  have ok: "ctx_ok (ui_ctx v)" "ac_identity (ui_ctx v) = None"
    using assms(2,3) press_restore by (auto simp: ui_ok_def nav_ok_def screen_fits_def)
  have "remembered K P B (snd (ctx_restoreIdentity U m (ui_ctx v)))" for m
    using adopt_remembered [OF assms(5,6) ok assms(4) restored_again [OF assms(7)]] assms(6)
    by (simp add: ctx_restoreIdentity_def same_phone_def)
  then show ?thesis using press_restore assms(4)
    by (auto simp: pressRestore_def typed_handler_ctx split: screen_state.split)
next
  case press_logout
  then show ?thesis using logout_remembered [OF assms(5,6)] by (simp add: handler_ctx)
next
  case press_import
  then obtain sc where "ui_screen v = ScannerState sc" using assms(2,3) by (cases "ui_screen v") (auto simp: ui_ok_def)
  then show ?thesis using press_import assms(4)
    by (simp add: typed_handler_ctx keeps_remembered [OF import_and_select_keeps])
next
  case send
  then obtain ch where "ui_screen v = ChatState ch" using assms(2,3) by (cases "ui_screen v") (auto simp: ui_ok_def)
  then show ?thesis using send assms(4)
    by (simp add: typed_handler_ctx keeps_remembered [OF keeps_but_selection [OF context_calm(1)]])
next
  case stream
  then show ?thesis using assms(4) by (simp add: keeps_remembered [OF keeps_but_selection [OF context_calm(4)]])
next
  case leave_chat
  then show ?thesis using assms(4)
    by (simp add: handleBack_def pressBack_def clearActiveConversation_def remembered_def)
qed (use assms(4) in
    \<open>simp_all add: keeps_remembered [OF select_keeps] keeps_remembered [OF keeps_but_selection [OF context_calm(3)]] handler_ctx checkBatteryOptimization_def handleRequestBatteryOptimization_def handleDismissBatteryModal_def
      openRestore_def enterApp_def pressBack_def openProfile_def openScanner_def copied_timeout_def handleCopy_def toggleConfirmed_def
      split: screen_state.split\<close>)

end
