(* ===== verification/Ui_Properties.thy ===== *)
theory Ui_Properties
  imports Ui_Sessions
begin

section \<open>What the user sees\<close>

text \<open>
  The screens in every run of the user interface, what is sent from a chat, and restarts, with a phone
  to run them on: a database file with one contact and a keychain with an account.
\<close>

subsection \<open>A phone\<close>

definition demo_account :: identity where
  "demo_account = (case restoreIdentity model_prims model_bip39 ''zoo able'' of Inr u \<Rightarrow> u)"

lemma demo_account_ok: "restoreIdentity model_prims model_bip39 ''zoo able'' = Inr demo_account" "mnemonic demo_account = ''zoo able''"
proof -
  have n: "normalize_mnemonic ''zoo able'' = ''zoo able''" by code_simp
  obtain u where u: "restoreIdentity model_prims model_bip39 ''zoo able'' = Inr u"
    using model_derives [of "''zoo able''"] by (auto simp: restoreIdentity_def n model_bip39_def Let_def)
  then show a: "restoreIdentity model_prims model_bip39 ''zoo able'' = Inr demo_account" by (simp add: demo_account_def)
  then show "mnemonic demo_account = ''zoo able''" using restoreIdentity_mnemonic n by metis
qed

definition demo_file :: database where
  "demo_file = empty_database\<lparr>tables := [''schema_migrations'', ''contacts'', ''sessions'', ''signed_prekeys'', ''one_time_prekeys'',
     ''messages'', ''own_linked_devices''], schema_migrations := [(1, 0), (2, 0)], has_linked_devices := True, foreign_keys := True,
     contacts := [contact_row_of demo_contact]\<rparr>"

lemma demo_file_ok: "schema_version demo_file 2" "db_ok demo_file" "demo_file\<lparr>foreign_keys := True\<rparr> = demo_file"
  "contacts demo_file = [contact_row_of demo_contact]" "messages demo_file = []"
  by (simp_all add: demo_file_def schema_version_def all_tables_def db_ok_def empty_database_def)

definition demo_phone :: "(string \<Rightarrow> string option) ui_env" where
  "demo_phone = \<lparr>ui_prims = model_prims, ui_bip39 = model_bip39, ui_generateMnemonic = (\<lambda>_. Inr ''zoo able''),
     ui_kc = Some map_keychain, ui_open = (\<lambda>_ _. Inr demo_file), ui_key_drawn = [1], ui_key_fallback = [2],
     ui_native = Some (Inl LibError), ui_orch = demo_orch_env Alice, ui_devMode = False, ui_now = 1\<rparr>"

lemma demo_same_phone: "same_phone map_keychain model_prims model_bip39 demo_phone"
proof -
  have "normalize_mnemonic ''zoo able'' = ''zoo able''" by code_simp
  then show ?thesis by (simp add: same_phone_def demo_phone_def) (simp add: model_bip39_def)
qed

definition demo_keychain :: "string \<Rightarrow> string option" where
  "demo_keychain = [identity_service \<mapsto> stored demo_account]"

lemma initialize_file:
  assumes "\<not> dm_isInitialized m" "\<not> dm_isMemory m" "op = (\<lambda>_ _. Inr d)"
    "schema_version (d\<lparr>foreign_keys := True\<rparr>) 2" "db_ok (d\<lparr>foreign_keys := True\<rparr>)"
  shows "\<exists>m' k'. initialize P op kc a b now (m, k) = (Inr (), (m', k')) \<and> dm_ready m' \<and> db_of m' = d\<lparr>foreign_keys := True\<rparr>"
proof -
  have "runMigrations now (d\<lparr>foreign_keys := True\<rparr>) = (Inr (), d\<lparr>foreign_keys := True\<rparr>)"
    using runMigrations_run [OF assms(4), of now] by auto
  then show ?thesis using assms
    by (auto simp: initialize_def on_open_driver_def bindM_def dm_ready_def Let_def db_of_def split: prod.split sum.split)
qed

lemma failed_start:
  assumes "tm_status (ao_tor ob) \<noteq> READY" "\<not> devMode (tm_config (ao_tor ob))" "KTorStatus \<in> ao_registered ob"
  shows "\<exists>e ob'. start_app P E now (Some (Inl x)) ob = (Inl e, ob') \<and> ao_store ob' = ao_store ob \<and>
     ao_events ob' = ao_events ob @ [TorStatusChanged BOOTSTRAPPING, TorStatusChanged BOOTSTRAPPING]"
  using assms by (simp add: start_app_def startTor_def Let_def emit_def bindM_def)

text \<open>The phone is started with the account in its keychain: the list of chats with one entry, and no connection.\<close>

lemma demo_launch:
  "\<exists>x ob. ui_ctx (launch_ui demo_phone demo_keychain) = x \<and> ac_orch x = Some ob \<and> dm_ready (ss_db (ao_store ob)) \<and>
     contact_rows ob = [contact_row_of demo_contact] \<and> message_rows ob = [] \<and>
     ac_conversations x = [summary_of [] (contact_row_of demo_contact)] \<and>
     ui_nav (launch_ui demo_phone demo_keychain) = \<lparr>nv_currentScreen = ChatList, nv_screenParams = no_params, nv_screenStack = []\<rparr>"
proof -
  let ?U = demo_phone and ?u = demo_account
  let ?x0 = "(new_context None demo_keychain)\<lparr>ac_isInitialized := True\<rparr>"
  have load: "loadIdentityFromKeychain model_prims model_bip39 (Some map_keychain) identity_service demo_keychain = (Inr (Some ?u), demo_keychain)"
    using load_stored(2) [OF map_keychain_map, of demo_keychain identity_service ?u] demo_account_ok by (simp add: demo_keychain_def)
  let ?ob = "ui_orchestrator ?U None ?u"
  have ob: "ss_db (ao_store ?ob) = new_DatabaseManager (Some (database_name ?u)) None" "tm_status (ao_tor ?ob) \<noteq> READY"
    "\<not> devMode (tm_config (ao_tor ?ob))" "KTorStatus \<in> ao_registered ?ob" "ao_events ?ob = []"
    by (simp_all add: ui_orchestrator_def new_AppOrchestrator_def new_SqliteSignalStore_def getInstance_def new_TorManager_def
        default_config_def ui_tor_config_def demo_phone_def all_events_def)
  have m0: "\<not> dm_isInitialized (ss_db (ao_store ?ob))" "\<not> dm_isMemory (ss_db (ao_store ?ob))" "ui_open ?U = (\<lambda>_ _. Inr demo_file)"
    by (simp_all only: ob(1)) (simp_all add: new_DatabaseManager_def demo_phone_def)
  obtain m k where m: "initialize (ui_prims ?U) (ui_open ?U) (ui_kc ?U) (ui_key_drawn ?U) (ui_key_fallback ?U) (ui_now ?U)
      (ss_db (ao_store ?ob), demo_keychain) = (Inr (), (m, k))" "dm_ready m" "db_of m = demo_file"
    using initialize_file [OF m0, unfolded demo_file_ok(3), OF demo_file_ok(1,2),
        where P = "ui_prims ?U" and kc = "ui_kc ?U" and a = "ui_key_drawn ?U" and b = "ui_key_fallback ?U" and now = "ui_now ?U"
          and k = demo_keychain] by blast
  let ?ob1 = "?ob\<lparr>ao_store := (ao_store ?ob)\<lparr>ss_db := m\<rparr>\<rparr>"
  let ?x1 = "?x0\<lparr>ac_identity := Some ?u, ac_keychain := k, ac_orch := Some ?ob1\<rparr>"
  have rows: "contact_rows ?ob1 = [contact_row_of demo_contact]" "message_rows ?ob1 = []"
    by (simp_all add: contact_rows_def message_rows_def m(3) demo_file_ok)
  have lower: "toLowerCase ''c0ffee'' = ''c0ffee''" by code_simp
  have hashed: "hashed_contacts (contact_rows ?ob1)"
    unfolding rows(1) using lower by (simp add: hashed_contacts_def contact_row_of_def demo_contact_def)
  have ready: "dm_ready (ss_db (ao_store ?ob1))" using m(2) by simp
  have r: "refreshConversations ?x1 = (Inr (), ?x1\<lparr>ac_contacts := [mapRowToContact (contact_row_of demo_contact)],
      ac_conversations := [summary_of [] (contact_row_of demo_contact)], ac_unreadTotal := 0\<rparr>)"
    using refresh_run [OF _ ready hashed, of ?x1] unfolding rows by (simp add: order_by_desc_def total_unread_def)
  obtain e ob2 where s: "start_app (ui_prims ?U) (ui_orch ?U) (ui_now ?U) (Some (Inl LibError)) ?ob1 = (Inl e, ob2)"
    "ao_store ob2 = ao_store ?ob1" "ao_events ob2 = [TorStatusChanged BOOTSTRAPPING, TorStatusChanged BOOTSTRAPPING]"
    using failed_start [of ?ob1] ob by fastforce
  have native: "ui_native ?U = Some (Inl LibError)" "ui_kc ?U = Some map_keychain" "ui_prims ?U = model_prims" "ui_bip39 ?U = model_bip39"
    by (simp_all add: demo_phone_def)
  let ?x2 = "?x1\<lparr>ac_contacts := [mapRowToContact (contact_row_of demo_contact)],
      ac_conversations := [summary_of [] (contact_row_of demo_contact)], ac_unreadTotal := 0, ac_orch := Some ob2,
      ac_torStatus := BOOTSTRAPPING, ac_error := Some (''Orchestrator start error: '' @ exn_message e)\<rparr>"
  have i: "initialize_app (ui_prims ?U) (ui_open ?U) (ui_kc ?U) (ui_key_drawn ?U) (ui_key_fallback ?U) (ui_now ?U)
      (?ob, demo_keychain) = (Inr (), (?ob1, k))" using m(1) by (simp add: initialize_app_def)
  have start: "startOrchestrator ?U ?u (?x0\<lparr>ac_identity := Some ?u\<rparr>) = (Inr (), ?x2)"
    using i r s(1,3) by (simp add: startOrchestrator_def tryM_def bindM_def Let_def new_context_def native(1) orch_call_def ob(5))
  have init: "init_identity ?U (new_context None demo_keychain) = (Inr (), ?x2)"
    using load start by (simp add: init_identity_def native(2-4) change_identity_def cleanup_effect_def bindM_def new_context_def)
  have rows2: "contact_rows ob2 = contact_rows ?ob1" "message_rows ob2 = message_rows ?ob1"
    by (simp_all add: contact_rows_def message_rows_def s(2))
  show ?thesis
    using rows rows2 ready s(2)
    by (simp add: launch_ui_def with_ctx_def init rerender_def signed_in_def identity_effect_def new_navigator_def)
qed

text \<open>Its user opens the chat and types a message.\<close>

definition demo_list :: "(string \<Rightarrow> string option) ui" where
  "demo_list = launch_ui demo_phone demo_keychain"

definition demo_chat :: "(string \<Rightarrow> string option) ui" where
  "demo_chat = set_chat (\<lambda>st. st\<lparr>ch_inputText := ''hi''\<rparr>) (handleSelectContact ''c0ffee'' (Some ''Carol'') demo_list)"

abbreviation demo_run :: "(string \<Rightarrow> string option) ui \<Rightarrow> bool" where
  "demo_run \<equiv> ui_reach (same_phone map_keychain model_prims model_bip39)"

lemma demo_chat_run:
  "demo_run demo_chat" "nv_currentScreen (ui_nav demo_chat) = Chat"
  "nv_screenParams (ui_nav demo_chat) = chat_params ''c0ffee'' (Some ''Carol'')"
  "\<exists>ob. ac_orch (ui_ctx demo_chat) = Some ob" "ui_screen demo_chat = ChatState \<lparr>ch_inputText = ''hi'', ch_sending = False\<rparr>"
proof -
  obtain ob where ob: "ac_orch (ui_ctx demo_list) = Some ob" "dm_ready (ss_db (ao_store ob))"
    "contact_rows ob = [contact_row_of demo_contact]" "ac_conversations (ui_ctx demo_list) = [summary_of [] (contact_row_of demo_contact)]"
    "ui_nav demo_list = \<lparr>nv_currentScreen = ChatList, nv_screenParams = no_params, nv_screenStack = []\<rparr>"
    using demo_launch unfolding demo_list_def by blast
  have lower: "toLowerCase ''c0ffee'' = ''c0ffee''" by code_simp
  have hashed: "hashed_contacts (contact_rows ob)"
    unfolding ob(3) using lower by (simp add: hashed_contacts_def contact_row_of_def demo_contact_def)
  obtain y where y: "selectConversation ''c0ffee'' (ui_ctx demo_list) = (Inr (), y)" "ac_orch y \<noteq> None"
    using conversation_run [OF ob(1,2) hashed, of "contact_row_of demo_contact" "''c0ffee''"] ob(3) lower
    by (auto simp: contact_row_of_def demo_contact_def)
  have sel: "handleSelectContact ''c0ffee'' (Some ''Carol'') demo_list =
      demo_list\<lparr>ui_ctx := y, ui_nav := \<lparr>nv_currentScreen = Chat, nv_screenParams = chat_params ''c0ffee'' (Some ''Carol''),
        nv_screenStack = [ChatList]\<rparr>, ui_screen := fresh_state Chat\<rparr>"
    using y(1) ob(5) by (simp add: handleSelectContact_def with_ctx_def go_def navigate_def Let_def)
  show "nv_currentScreen (ui_nav demo_chat) = Chat" "nv_screenParams (ui_nav demo_chat) = chat_params ''c0ffee'' (Some ''Carol'')"
    "\<exists>ob. ac_orch (ui_ctx demo_chat) = Some ob" "ui_screen demo_chat = ChatState \<lparr>ch_inputText = ''hi'', ch_sending = False\<rparr>"
    using y(2) unfolding demo_chat_def sel by (simp_all add: set_chat_def)
  have l: "demo_run demo_list" unfolding demo_list_def by (rule ui_reach.launch) (rule demo_same_phone)
  have c: "cr_recipientPubkeyHash (cs_contact (summary_of [] (contact_row_of demo_contact))) = ''c0ffee''"
    "cr_alias (cs_contact (summary_of [] (contact_row_of demo_contact))) = Some ''Carol''"
    using lower by (simp_all add: summary_of_def mapped_hash contact_row_of_def demo_contact_def mapRowToContact_def Let_def)
  have "ui_step demo_phone ChatList demo_list (handleSelectContact ''c0ffee'' (Some ''Carol'') demo_list)"
    using ui_step.select_contact [of "summary_of [] (contact_row_of demo_contact)" demo_list demo_phone] ob(4) unfolding c by simp
  then have s: "demo_run (handleSelectContact ''c0ffee'' (Some ''Carol'') demo_list)"
    using ui_reach.act [OF l, of demo_phone] demo_same_phone ob(5) by simp
  show "demo_run demo_chat" unfolding demo_chat_def
    by (rule ui_reach.act [OF s, of demo_phone], rule demo_same_phone) (simp add: sel ui_step.type_message)
qed

subsection \<open>The screens\<close>

text \<open>C14. Every screen is given parameters of its type and belongs to the right user: the recovery phrase shown is
  that of the account signed in, a chat is shown with the hash of the open contact, the screens of
  an account only to its user, and the local state is the one of the screen.\<close>

theorem screens_typed:
  assumes "ui_reach Q v"
  shows "case shown (ac_isInitialized (ui_ctx v)) (ui_nav v) of
       LoadingView \<Rightarrow> False
     | WelcomeView \<Rightarrow> ac_identity (ui_ctx v) = None \<and> (\<exists>st. ui_screen v = WelcomeState st)
     | SeedDisplayView m \<Rightarrow> (\<exists>u b. ac_identity (ui_ctx v) = Some u \<and> m = mnemonic u \<and> ui_screen v = SeedState b)
     | RestoreSeedView \<Rightarrow> ac_identity (ui_ctx v) = None \<and> (\<exists>st. ui_screen v = RestoreState st)
     | ChatListView \<Rightarrow> ac_identity (ui_ctx v) \<noteq> None \<and> ui_screen v = ChatListState
     | ChatView ho al \<Rightarrow> ac_identity (ui_ctx v) \<noteq> None \<and> (\<exists>st. ui_screen v = ChatState st) \<and>
         (\<exists>h c. ho = Some h \<and> ac_activeContact (ui_ctx v) = Some c \<and> cr_recipientPubkeyHash c = toLowerCase h)
     | ProfileView \<Rightarrow> ac_identity (ui_ctx v) \<noteq> None \<and> (\<exists>st. ui_screen v = ProfileState st)
     | ScannerView \<Rightarrow> ac_identity (ui_ctx v) \<noteq> None \<and> (\<exists>st. ui_screen v = ScannerState st)"
proof -
  have ok: "ac_isInitialized (ui_ctx v)" "screen_fits (ui_ctx v) (nv_currentScreen (ui_nav v)) (nv_screenParams (ui_nav v))"
    "screen_of (ui_screen v) = nv_currentScreen (ui_nav v)"
    using ui_reach_ok [OF assms] by (simp_all add: ui_ok_def nav_ok_def)
  then show ?thesis
    by (cases "ui_screen v") (auto simp: shown_def screen_fits_def selected_def dest: sym)
qed

theorem screens_typed_witness:
  "\<exists>c. shown (ac_isInitialized (ui_ctx demo_chat)) (ui_nav demo_chat) = ChatView (Some ''c0ffee'') (Some ''Carol'') \<and>
     ac_activeContact (ui_ctx demo_chat) = Some c \<and> cr_recipientPubkeyHash c = toLowerCase ''c0ffee''"
proof -
  have s: "shown (ac_isInitialized (ui_ctx demo_chat)) (ui_nav demo_chat) = ChatView (Some ''c0ffee'') (Some ''Carol'')"
    using ui_reach_ok [OF demo_chat_run(1)] by (simp add: ui_ok_def shown_def demo_chat_run(2,3) chat_params_def)
  show ?thesis using screens_typed [OF demo_chat_run(1)] unfolding s by auto
qed

text \<open>When nobody is signed in, nothing of an account is in reach: no orchestrator, no open contact, no
  conversation, and neither the screen nor any screen the back button can return to is one of an account.\<close>

theorem signed_out_sees_nothing:
  assumes "ui_reach Q v" "ac_identity (ui_ctx v) = None"
  shows "ac_orch (ui_ctx v) = None \<and> ac_activeContact (ui_ctx v) = None \<and> ac_conversations (ui_ctx v) = [] \<and>
     nv_currentScreen (ui_nav v) \<in> {Welcome, RestoreSeed} \<and> set (nv_screenStack (ui_nav v)) \<subseteq> {Welcome}"
  using ui_reach_ok [OF assms(1)] assms(2)
  by (auto simp: ui_ok_def nav_ok_def ctx_ok_def screen_fits_def split: screen.splits)

theorem signed_out_sees_nothing_witness:
  "ac_identity (ui_ctx (launch_ui demo_phone Map.empty)) = None \<and> ac_orch (ui_ctx (launch_ui demo_phone Map.empty)) = None"
proof -
  have i: "ac_identity (ui_ctx (launch_ui demo_phone Map.empty)) = None"
    using load_stored(1) [OF map_keychain_map, of Map.empty identity_service]
    by (simp add: launch_ui_def with_ctx_def rerender_def init_identity_def new_context_def demo_phone_def)
  have "demo_run (launch_ui demo_phone Map.empty)" by (rule ui_reach.launch) (rule demo_same_phone)
  from signed_out_sees_nothing [OF this i] i show ?thesis by blast
qed

subsection \<open>Sending from a chat\<close>

lemma on_chat:
  assumes "ui_reach Q v" "shown (ac_isInitialized (ui_ctx v)) (ui_nav v) = ChatView (Some h) al"
  shows "\<exists>c. ac_activeContact (ui_ctx v) = Some c \<and> cr_recipientPubkeyHash c = toLowerCase h"
  using ui_reach_ok [OF assms(1)] assms(2)
  by (auto simp: ui_ok_def nav_ok_def shown_def screen_fits_def selected_def split: screen.splits if_splits)

text \<open>C21. What is typed on a chat screen goes to the contact the screen shows and to nobody else: pressing the button
  is one call of \<open>sendOutboundMessage\<close> with its hash and the trimmed text; if that fails, the text is back in the field.\<close>

theorem message_goes_to_shown_conversation:
  assumes "ui_reach Q v" "shown (ac_isInitialized (ui_ctx v)) (ui_nav v) = ChatView (Some h) al" "ac_orch (ui_ctx v) = Some ob"
    and "ui_screen v = ChatState st" "trim (ch_inputText st) \<noteq> []" "\<not> ch_sending st"
  shows "\<exists>r x. orch_call (sendOutboundMessage (ui_prims U) (ui_orch U) (ui_now U) (toLowerCase h) (trim (ch_inputText st))) (ui_ctx v) = (r, x) \<and>
     handleSend U v = v\<lparr>ui_ctx := x, ui_screen := ChatState
       \<lparr>ch_inputText = (case r of Inr m \<Rightarrow> [] | Inl e \<Rightarrow> trim (ch_inputText st)), ch_sending = False\<rparr>\<rparr>"
proof -
  obtain c where c: "ac_activeContact (ui_ctx v) = Some c" "cr_recipientPubkeyHash c = toLowerCase h"
    using on_chat [OF assms(1,2)] by blast
  obtain r x where r: "orch_call (sendOutboundMessage (ui_prims U) (ui_orch U) (ui_now U) (toLowerCase h)
      (trim (ch_inputText st))) (ui_ctx v) = (r, x)" by fastforce
  then show ?thesis using assms(3-6) c
    by (cases r) (simp_all add: handleSend_def send_begins_def with_ctx_def ctx_sendMessage_def bindM_def set_chat_def send_ends_def)
qed

theorem message_goes_to_shown_conversation_witness:
  "\<exists>r x t. orch_call (sendOutboundMessage (ui_prims demo_phone) (ui_orch demo_phone) (ui_now demo_phone) (toLowerCase ''c0ffee'') ''hi'')
       (ui_ctx demo_chat) = (r, x) \<and>
     handleSend demo_phone demo_chat = demo_chat\<lparr>ui_ctx := x, ui_screen := ChatState \<lparr>ch_inputText = t, ch_sending = False\<rparr>\<rparr>"
proof -
  obtain ob where ob: "ac_orch (ui_ctx demo_chat) = Some ob" using demo_chat_run(4) by blast
  have s: "shown (ac_isInitialized (ui_ctx demo_chat)) (ui_nav demo_chat) = ChatView (Some ''c0ffee'') (Some ''Carol'')"
    using ui_reach_ok [OF demo_chat_run(1)] by (simp add: ui_ok_def shown_def demo_chat_run(2,3) chat_params_def)
  have t: "trim ''hi'' = ''hi''" by code_simp
  show ?thesis
    using message_goes_to_shown_conversation [OF demo_chat_run(1) s ob demo_chat_run(5), of demo_phone] t by auto
qed

text \<open>C22. The open conversation never grows while it is on the screen: whatever the relay delivers and whatever is
  sent, the messages shown stay those that were loaded when it was opened. The callbacks that should append them are
  registered when the identity changes and compare with the contact that was open then, which is none.\<close>

theorem open_conversation_never_updated:
  assumes "ui_reach Q v"
  shows "ac_activeMessages (snd (relay_event U ev (ui_ctx v))) = ac_activeMessages (ui_ctx v) \<and>
     ac_activeMessages (snd (ctx_sendMessage U body (ui_ctx v))) = ac_activeMessages (ui_ctx v)"
proof -
  have "ac_seen (ui_ctx v) = None" using ui_reach_ok [OF assms] by (simp add: ui_ok_def ctx_ok_def)
  moreover have "calm (ui_ctx v) (snd (relay_event U ev (ui_ctx v)))" "calm (ui_ctx v) (snd (ctx_sendMessage U body (ui_ctx v)))"
    using context_calm(1,4) unfolding keeps_def by blast+
  ultimately show ?thesis by (simp add: calm_def)
qed

theorem open_conversation_never_updated_witness:
  "ac_activeMessages (snd (ctx_sendMessage demo_phone ''hi'' (ui_ctx demo_chat))) = ac_activeMessages (ui_ctx demo_chat)"
  using open_conversation_never_updated [OF demo_chat_run(1), of demo_phone Connect "''hi''"] by blast

subsection \<open>Restarts\<close>

lemma launch_nav:
  "nv_currentScreen (ui_nav (launch_ui U k)) = (if ac_identity (ui_ctx (launch_ui U k)) = None then Welcome else ChatList)"
  by (simp add: launch_ui_def rerender_def signed_in_def with_ctx_def identity_effect_def new_navigator_def split: prod.split)

lemma launch_remembered:
  assumes "keychain_map K pw" "same_phone K P B U"
  shows "ac_identity (ui_ctx (launch_ui U k)) = loaded K P B k" "remembered K P B (ui_ctx (launch_ui U k))"
proof -
  let ?x = "(new_context None k)\<lparr>ac_isInitialized := True\<rparr>"
  have lib: "ui_kc U = Some K" "ui_prims U = P" "ui_bip39 U = B" using assms(2) by (simp_all add: same_phone_def)
  have ctx: "ui_ctx (launch_ui U k) = snd (init_identity U (new_context None k))"
    by (simp add: launch_ui_def rerender_def with_ctx_def split: prod.split)
  have l: "loadIdentityFromKeychain P B (Some K) identity_service k = (fst (loadIdentityFromKeychain P B (Some K) identity_service k), k)"
    using load_pure(1) [OF assms(1), of P B identity_service k] by (metis prod.collapse)
  have x: "ctx_ok ?x" "ac_identity ?x = None" by (simp_all add: ctx_ok_def new_context_def)
  have *: "ac_identity (snd (init_identity U (new_context None k))) = loaded K P B k \<and>
      same_entry pw ?x (snd (init_identity U (new_context None k)))"
  proof (cases "\<exists>u. fst (loadIdentityFromKeychain P B (Some K) identity_service k) = Inr (Some u)")
    case True
    then obtain u where u: "loadIdentityFromKeychain P B (Some K) identity_service k = (Inr (Some u), k)" using l by auto
    obtain y where y: "change_identity U (Some u) ?x = (Inr (), y)" "ac_identity y = Some u" using change_identity_ok [OF x] by blast
    have "init_identity U (new_context None k) = (Inr (), y)"
      using u y(1) by (simp add: init_identity_def lib new_context_def)
    then show ?thesis using y(2) u same_entry.after [OF change_identity_entry [OF assms(1) lib(1)] y(1)]
      by (simp add: loaded_def)
  next
    case False
    then show ?thesis using l by (cases "fst (loadIdentityFromKeychain P B (Some K) identity_service k)")
      (auto simp: init_identity_def lib new_context_def loaded_def same_entry_def split: option.splits)
  qed
  then show "ac_identity (ui_ctx (launch_ui U k)) = loaded K P B k" by (simp add: ctx)
  then show "remembered K P B (ui_ctx (launch_ui U k))"
    using * loaded_entry [OF assms(1), of ?x] by (simp add: ctx remembered_def new_context_def)
qed

lemma reach_remembered:
  assumes "ui_reach (same_phone K P B) v" "keychain_map K pw" "\<not> validateMnemonic B []"
  shows "remembered K P B (ui_ctx v)"
  using assms(1)
proof (induction rule: ui_reach.induct)
  case (launch U k)
  then show ?case by (rule launch_remembered(2) [OF assms(2)])
next
  case (act v U v')
  show ?case using ui_step_remembered [OF act.hyps(3) ui_reach_ok [OF act.hyps(1)] refl act.IH assms(2) act.hyps(2) assms(3)] .
qed

text \<open>C5. The application can be killed at any moment: the next start on the same phone signs in the user who was signed
  in, on the list of chats, and asks for an account when nobody was.\<close>

theorem identity_survives_restart:
  assumes "ui_reach (same_phone K P B) v" "keychain_map K pw" "\<not> validateMnemonic B []" "same_phone K P B U"
  shows "ac_identity (ui_ctx (launch_ui U (ac_keychain (ui_ctx v)))) = ac_identity (ui_ctx v) \<and>
     shown True (ui_nav (launch_ui U (ac_keychain (ui_ctx v)))) =
       (if ac_identity (ui_ctx v) = None then WelcomeView else ChatListView)"
proof -
  have "ac_identity (ui_ctx (launch_ui U (ac_keychain (ui_ctx v)))) = ac_identity (ui_ctx v)"
    using launch_remembered(1) [OF assms(2,4)] reach_remembered [OF assms(1-3)] by (simp add: remembered_def)
  then show ?thesis using launch_nav [of U "ac_keychain (ui_ctx v)"] by (simp add: shown_def)
qed

lemma demo_phrases: "\<not> validateMnemonic model_bip39 []"
  by (simp add: model_bip39_def)

theorem identity_survives_restart_witness:
  "\<exists>u. ac_identity (ui_ctx demo_chat) = Some u \<and> ac_identity (ui_ctx (launch_ui demo_phone (ac_keychain (ui_ctx demo_chat)))) = Some u"
proof -
  have "ac_identity (ui_ctx demo_chat) \<noteq> None"
    using ui_reach_ok [OF demo_chat_run(1)] demo_chat_run(2) by (simp add: ui_ok_def nav_ok_def screen_fits_def)
  then show ?thesis
    using identity_survives_restart [OF demo_chat_run(1) map_keychain_map demo_phrases demo_same_phone] by auto
qed

text \<open>C31. Logging out always succeeds: the welcome screen is shown, the account is gone from the context and from the
  keychain, and the next start asks for an account.\<close>

theorem logout_forgets:
  assumes "ui_reach (same_phone K P B) v" "keychain_map K pw" "same_phone K P B U"
  shows "ac_identity (ui_ctx (handleLogout U v)) = None \<and> ac_orch (ui_ctx (handleLogout U v)) = None \<and>
     nv_currentScreen (ui_nav (handleLogout U v)) = Welcome \<and> nv_screenStack (ui_nav (handleLogout U v)) = [] \<and>
     ac_identity (ui_ctx (launch_ui U (ac_keychain (ui_ctx (handleLogout U v))))) = None"
proof -
  have l: "fst (logout U (ui_ctx v)) = Inr ()" "ac_identity (snd (logout U (ui_ctx v))) = None"
    "remembered K P B (snd (logout U (ui_ctx v)))" using logout_remembered [OF assms(2,3)] by blast+
  have "ctx_ok (ui_ctx v)" using ui_reach_ok [OF assms(1)] by (simp add: ui_ok_def)
  then have "ctx_ok (snd (logout U (ui_ctx v)))" using logout_ok by (metis prod.collapse)
  then have o: "ac_orch (snd (logout U (ui_ctx v))) = None" using l(2) by (simp add: ctx_ok_def)
  have "ui_nav (handleLogout U v) = reset_to Welcome (ui_nav (rerender (snd (with_ctx (logout U) v))))"
    using l(1) by (simp add: handleLogout_def with_ctx_case)
  then show ?thesis using l o launch_remembered(1) [OF assms(2,3)]
    by (simp add: handler_ctx reset_to_def remembered_def)
qed

theorem logout_forgets_witness:
  "nv_currentScreen (ui_nav (handleLogout demo_phone demo_chat)) = Welcome \<and>
     ac_identity (ui_ctx (launch_ui demo_phone (ac_keychain (ui_ctx (handleLogout demo_phone demo_chat))))) = None"
  using logout_forgets [OF demo_chat_run(1) map_keychain_map demo_same_phone] by blast

end
