(* ===== verification/Widgets.thy ===== *)
theory Widgets
  imports Ui_Properties
begin

section \<open>Widgets\<close>

text \<open>
  The functions of \<open>client/src/ui/components\<close> that choose what is displayed. Colours are the names of the
  theme, icons and the Czech labels of the badge are constructors; the locale's times are parameters.
\<close>

subsection \<open>Button\<close>

datatype variant = Primary | Secondary | Danger | Ghost

datatype colour = ThemePrimary | ThemeSurfaceSecondary | ThemeDanger | ThemeTextMuted | ThemeTextPrimary | ThemeWarning
  | Transparent | Black | White

fun getBackgroundColor :: "bool \<Rightarrow> variant \<Rightarrow> colour" where
  "getBackgroundColor True _ = ThemeSurfaceSecondary"
| "getBackgroundColor False Primary = ThemePrimary"
| "getBackgroundColor False Secondary = ThemeSurfaceSecondary"
| "getBackgroundColor False Danger = ThemeDanger"
| "getBackgroundColor False Ghost = Transparent"

fun getTextColor :: "bool \<Rightarrow> variant \<Rightarrow> colour" where
  "getTextColor True _ = ThemeTextMuted"
| "getTextColor False Primary = Black"
| "getTextColor False Secondary = ThemeTextPrimary"
| "getTextColor False Ghost = ThemeTextPrimary"
| "getTextColor False Danger = White"

definition button_disabled :: "bool \<Rightarrow> bool \<Rightarrow> bool" where
  "button_disabled disabled loading \<longleftrightarrow> disabled \<or> loading"

text \<open>A label is never printed in the colour of its background.\<close>

lemma button_readable: "getTextColor d v \<noteq> getBackgroundColor d v"
  by (cases d; cases v) simp_all

subsection \<open>TorStatusBadge\<close>

datatype badge_text = Secured | Bootstrapping int | ConnectionError | Disconnected

datatype badge_dot = FullDot | HalfDot | CrossDot | EmptyDot

record badge =
  bg_color :: colour
  bg_text :: badge_text
  bg_dot :: badge_dot

definition getStatusConfig :: "tor_status \<Rightarrow> int \<Rightarrow> badge" where
  "getStatusConfig st progress =
     (case st of
        READY \<Rightarrow> \<lparr>bg_color = ThemePrimary, bg_text = Secured, bg_dot = FullDot\<rparr>
      | BOOTSTRAPPING \<Rightarrow> \<lparr>bg_color = ThemeWarning, bg_text = Bootstrapping progress, bg_dot = HalfDot\<rparr>
      | ERROR \<Rightarrow> \<lparr>bg_color = ThemeDanger, bg_text = ConnectionError, bg_dot = CrossDot\<rparr>
      | _ \<Rightarrow> \<lparr>bg_color = ThemeTextMuted, bg_text = Disconnected, bg_dot = EmptyDot\<rparr>)"

text \<open>The badge of the list of chats: the provider never passes on a progress other than the end, so that
  a connection that is being set up is shown at zero or at a hundred per cent.\<close>

definition chat_list_badge :: "'k app_context \<Rightarrow> badge" where
  "chat_list_badge x = getStatusConfig (ac_torStatus x) (ac_torProgress x)"

lemma badge_progress:
  "ui_reach Q v \<Longrightarrow> bg_text (chat_list_badge (ui_ctx v)) \<in> {Secured, Bootstrapping 0, Bootstrapping 100, ConnectionError, Disconnected}"
  using ui_reach_ok [of Q v]
  by (auto simp: ui_ok_def ctx_ok_def chat_list_badge_def getStatusConfig_def split: tor_status.splits)

subsection \<open>MessageBubble\<close>

datatype status_icon = Clock | Tick | TwoTicks | WarningSign

definition getStatusIcon :: "delivery_status \<Rightarrow> status_icon" where
  "getStatusIcon st = (case st of pending \<Rightarrow> Clock | sent_st \<Rightarrow> Tick | delivered \<Rightarrow> TwoTicks | failed \<Rightarrow> WarningSign)"

record bubble =
  bb_right :: bool
  bb_body :: string
  bb_time :: string
  bb_icon :: "status_icon option"

text \<open>\<open>formatTime\<close> is the locale's rendering of a time.\<close>

definition messageBubble :: "(int \<Rightarrow> string) \<Rightarrow> stored_message \<Rightarrow> bubble" where
  "messageBubble formatTime msg =
     \<lparr>bb_right = sm_isOutgoing msg, bb_body = sm_body msg, bb_time = formatTime (sm_timestamp msg),
      bb_icon = (if sm_isOutgoing msg then Some (getStatusIcon (sm_deliveryStatus msg)) else None)\<rparr>"

subsection \<open>ContactListItem\<close>

record list_item =
  li_name :: string
  li_letter :: "string option"
  li_time :: "string option"
  li_body :: "string option"
  li_badge :: "nat option"

text \<open>The letter is the first code unit of the name in capitals (of ASCII): half of a code point beyond the basic plane has
  no rendering of its own and appears as the replacement character. A contact without a name and without a hash would
  make the list throw. A conversation without messages has a fixed text instead of a body.\<close>

definition item_displayName :: "contact_record \<Rightarrow> string" where
  "item_displayName c = (if truthy (cr_alias c) then the (cr_alias c) else short_hash (cr_recipientPubkeyHash c))"

definition to_upper :: "char \<Rightarrow> char" where
  "to_upper c = (let n = of_char c :: nat in if 97 \<le> n \<and> n \<le> 122 then char_of (n - 32) else c)"

definition first_code_unit :: "char \<Rightarrow> string \<Rightarrow> string" where
  "first_code_unit a r =
     (let n = of_char a :: nat
      in if n < 128 then [to_upper a]
         else if n < 240 then a # takeWhile (\<lambda>c. of_char c div 64 = (2 :: nat)) r
         else [CHR 0xEF, CHR 0xBF, CHR 0xBD])"

definition avatarLetter :: "contact_record \<Rightarrow> string option" where
  "avatarLetter c =
     (case (if truthy (cr_alias c) then the (cr_alias c) else cr_recipientPubkeyHash c) of [] \<Rightarrow> None | a # r \<Rightarrow> Some (first_code_unit a r))"

lemma first_code_unit_samples:
  "first_code_unit (CHR ''a'') ''lice'' = ''A''"
  "first_code_unit (CHR 0xC5) (CHR 0xBD # ''ofie'') = [CHR 0xC5, CHR 0xBD]"
  "first_code_unit (CHR 0xF0) [CHR 0x9F, CHR 0x94, CHR 0x92] = [CHR 0xEF, CHR 0xBF, CHR 0xBD]"
  by code_simp+

definition contactListItem :: "(int \<Rightarrow> string) \<Rightarrow> conversation_summary \<Rightarrow> list_item" where
  "contactListItem formatLastTime cs =
     \<lparr>li_name = item_displayName (cs_contact cs), li_letter = avatarLetter (cs_contact cs),
      li_time = map_option (\<lambda>m. formatLastTime (sm_timestamp m)) (cs_lastMessage cs),
      li_body = map_option sm_body (cs_lastMessage cs),
      li_badge = (if cs_unreadCount cs > 0 then Some (cs_unreadCount cs) else None)\<rparr>"

text \<open>The name in the list and the title of the chat it opens are the same.\<close>

lemma list_and_chat_agree:
  "chat_displayName (cr_recipientPubkeyHash c) (if truthy (cr_alias c) then cr_alias c else None) (Some c) = item_displayName c"
  by (simp add: chat_displayName_def item_displayName_def)

text \<open>After a refresh of an initialised client every row of the list can be drawn.\<close>

lemma list_drawn:
  assumes "hashed_contacts rows" "r \<in> set rows"
  shows "avatarLetter (mapRowToContact r) \<noteq> None"
proof -
  have "c_recipient_pubkey_hash r \<noteq> []" using assms by (simp add: hashed_contacts_def)
  then show ?thesis by (auto simp: avatarLetter_def mapped_hash truthy_def split: list.split option.splits)
qed

end
