(* ===== verification/Pages.thy ===== *)
theory Pages
  imports Widgets
begin

section \<open>What the screens show and offer\<close>

text \<open>
  The elements \<open>client/src/ui/screens\<close> and \<open>client/src/ui/components\<close> return: their texts, the condition under which each
  is there, and what pressing or typing calls. Attributes that only concern the looks (\<open>style\<close>, \<open>variant\<close>, \<open>rows\<close>,
  the tooltip of a button) are left out: a dialog that covers elements leaves them in the tree, where the keyboard reaches them.
  A text is its UTF-8. The locale's renderings of a time are parameters.
\<close>

subsection \<open>Elements\<close>

datatype field = MnemonicField | MessageField | UriField | AliasField

text \<open>The handlers the screens attach to their elements.\<close>

datatype ui_action =
  CreateIdentity | OpenRestore | AllowBattery | DismissBattery
| ToggleConfirmed | EnterApp
| RestoreAccount | PressBack
| SelectContact hex "string option" | OpenProfile | OpenScanner
| SendText | LeaveChat
| CopyUri | PressLogout
| ImportContact
| TypeIn field string

text \<open>A text, a container, an element with \<open>onClick\<close> (and whether it is enabled), and an input with its value, its
  placeholder and the handler of the enter key.\<close>

datatype elem =
  Text string
| Box "elem list"
| Press bool ui_action "elem list"
| Entry field string string "ui_action option"

text \<open>What the user can do with an element.\<close>

fun types_in :: "field \<Rightarrow> ui_action \<Rightarrow> bool" where
  "types_in f (TypeIn g s) = (f = g)"
| "types_in f _ = False"

fun offers :: "elem \<Rightarrow> ui_action \<Rightarrow> bool" where
  "offers (Text t) a = False"
| "offers (Box es) a = (\<exists>e \<in> set es. offers e a)"
| "offers (Press enabled b es) a = (enabled \<and> a = b \<or> (\<exists>e \<in> set es. offers e a))"
| "offers (Entry f v p enter) a = (types_in f a \<or> enter = Some a)"

text \<open>The texts of an element from top to bottom.\<close>

fun texts :: "elem \<Rightarrow> string list" where
  "texts (Text t) = [t]"
| "texts (Box es) = concat (map texts es)"
| "texts (Press enabled a es) = concat (map texts es)"
| "texts (Entry f v p enter) = [v]"

subsection \<open>Components\<close>

definition button :: "string \<Rightarrow> ui_action \<Rightarrow> bool \<Rightarrow> bool \<Rightarrow> elem" where
  "button title onPress disabled loading =
     Press (\<not> button_disabled disabled loading) onPress [Text (if loading then ([CHR 0xC4, CHR 0x8C] @
        ''ekejte...'') else title)]"

definition input_elem :: "string \<Rightarrow> field \<Rightarrow> string \<Rightarrow> string \<Rightarrow> string option \<Rightarrow> elem" where
  "input_elem label fld value placeholder error =
     Box ([Text label, Entry fld value placeholder None] @ (if truthy error then [Text (the error)] else []))"

text \<open>Every screen but the first gives a title.\<close>

definition screenContainer :: "string option \<Rightarrow> elem list \<Rightarrow> elem list \<Rightarrow> elem list \<Rightarrow> elem" where
  "screenContainer title headerLeft headerRight children =
     Box ((if truthy title \<or> headerLeft \<noteq> [] \<or> headerRight \<noteq> []
           then [Box [Box (headerLeft @ (if truthy title then [Text (the title)] else [])), Box headerRight]] else [])
          @ [Box children])"

definition back_button :: "ui_action \<Rightarrow> elem" where
  "back_button a = Press True a [Text [CHR 0xE2, CHR 0x86, CHR 0x90]]"

fun badge_label :: "badge_text \<Rightarrow> string" where
  "badge_label Secured = (''Tor: Zabezpe'' @ [CHR 0xC4, CHR 0x8D] @ ''eno'')"
| "badge_label (Bootstrapping progress) = (''Tor: Navazov'' @ [CHR 0xC3, CHR 0xA1] @ ''n'' @ [CHR 0xC3,
   CHR 0xAD] @ '' okruhu ('') @ show_int progress @ ''%)''"
| "badge_label ConnectionError = (''Tor: Chyba p'' @ [CHR 0xC5, CHR 0x99] @ ''ipojen'' @ [CHR 0xC3, CHR 0xAD])"
| "badge_label Disconnected = ''Tor: Odpojeno''"

fun dot_label :: "badge_dot \<Rightarrow> string" where
  "dot_label FullDot = [CHR 0xE2, CHR 0x97, CHR 0x8F]"
| "dot_label HalfDot = [CHR 0xE2, CHR 0x97, CHR 0x90]"
| "dot_label CrossDot = [CHR 0xE2, CHR 0x9C, CHR 0x95]"
| "dot_label EmptyDot = [CHR 0xE2, CHR 0x97, CHR 0x8B]"

definition torStatusBadge :: "badge \<Rightarrow> elem" where
  "torStatusBadge config = Box [Text (dot_label (bg_dot config)), Text (badge_label (bg_text config))]"

fun icon_label :: "status_icon \<Rightarrow> string" where
  "icon_label Clock = [CHR 0xF0, CHR 0x9F, CHR 0x95, CHR 0x92]"
| "icon_label Tick = [CHR 0xE2, CHR 0x9C, CHR 0x93]"
| "icon_label TwoTicks = [CHR 0xE2, CHR 0x9C, CHR 0x93, CHR 0xE2, CHR 0x9C, CHR 0x93]"
| "icon_label WarningSign = [CHR 0xE2, CHR 0x9A, CHR 0xA0, CHR 0xEF, CHR 0xB8, CHR 0x8F]"

definition bubble_elem :: "bubble \<Rightarrow> elem" where
  "bubble_elem b =
     Box [Box [Text (bb_body b),
       Box ([Text (bb_time b)] @
          (case bb_icon b of None \<Rightarrow> [] | Some i \<Rightarrow> [Text (icon_label i)]))]]"

text \<open>The body of the last message is shown as it is, also when it is empty.\<close>

definition item_elem :: "ui_action \<Rightarrow> list_item \<Rightarrow> elem" where
  "item_elem onPress it =
     Press True onPress
       [Box [Text (case li_letter it of None \<Rightarrow> [] | Some t \<Rightarrow> t)],
        Box [Box ([Text (li_name it)] @ (case li_time it of None \<Rightarrow> [] | Some t \<Rightarrow> [Text t])),
             Box ([Text (case li_body it of None \<Rightarrow> ([CHR 0xC5, CHR 0xBD, CHR 0xC3, CHR 0xA1] @
                ''dn'' @ [CHR 0xC3, CHR 0xA9] @ '' zpr'' @ [CHR 0xC3, CHR 0xA1] @ ''vy'') | Some t \<Rightarrow> t)]
                  @ (case li_badge it of None \<Rightarrow> [] | Some n \<Rightarrow> [Box [Text (show_int (int n))]]))]]"

subsection \<open>The screens\<close>

definition battery_modal :: elem where
  "battery_modal =
     Box [Box [Box [Text [CHR 0xF0, CHR 0x9F, CHR 0x94, CHR 0x8B]],
       Text ''Optimalizace baterie'',
       Text (''Abychom mohli bezpe'' @ [CHR 0xC4, CHR 0x8D] @ ''n'' @ [CHR 0xC4, CHR 0x9B] @ '' doru'' @
          [CHR 0xC4, CHR 0x8D] @ ''ovat zpr'' @ [CHR 0xC3, CHR 0xA1] @ ''vy p'' @ [CHR 0xC5, CHR 0x99] @
          ''es anonymn'' @ [CHR 0xC3, CHR 0xAD] @ '' s'' @ [CHR 0xC3, CHR 0xAD, CHR 0xC5, CHR 0xA5] @
          '' Tor, aplikace pot'' @ [CHR 0xC5, CHR 0x99] @ ''ebuje v'' @ [CHR 0xC3, CHR 0xBD] @
          ''jimku z optimalizace baterie.''),
       Text (''Bez t'' @ [CHR 0xC3, CHR 0xA9] @ ''to v'' @ [CHR 0xC3, CHR 0xBD] @ ''jimky syst'' @ [CHR 0xC3,
          CHR 0xA9] @ ''m Android uspat proces Tor d'' @ [CHR 0xC3, CHR 0xA9] @ ''mona a zpr'' @ [CHR 0xC3,
          CHR 0xA1] @ ''vy nebudou doru'' @ [CHR 0xC4, CHR 0x8D] @ ''ov'' @ [CHR 0xC3, CHR 0xA1] @
          ''ny na pozad'' @ [CHR 0xC3, CHR 0xAD] @ ''.''),
       Box [button ''Povolit'' AllowBattery False False,
            button (''Pozd'' @ [CHR 0xC4, CHR 0x9B] @ ''ji'') DismissBattery False False]]]"

definition welcomePage :: "welcome_state \<Rightarrow> elem" where
  "welcomePage st =
     screenContainer None [] []
       ([Box [Box [Text [CHR 0xF0, CHR 0x9F, CHR 0x9B, CHR 0xA1, CHR 0xEF, CHR 0xB8, CHR 0x8F]],
          Text ''TorE2EE Messenger'',
          Text (''Zero-Knowledge '' @ [CHR 0xE2, CHR 0x80, CHR 0xA2] @ '' Signal Double Ratchet '' @
             [CHR 0xE2, CHR 0x80, CHR 0xA2] @ '' Tor v3''),
          Text ([CHR 0xC5, CHR 0xBD, CHR 0xC3, CHR 0xA1] @ ''dn'' @ [CHR 0xC3, CHR 0xA1] @ '' telefonn'' @
             [CHR 0xC3, CHR 0xAD] @ '' '' @ [CHR 0xC4, CHR 0x8D, CHR 0xC3, CHR 0xAD] @ ''sla. '' @ [CHR 0xC5,
             CHR 0xBD, CHR 0xC3, CHR 0xA1] @ ''dn'' @ [CHR 0xC3, CHR 0xA9] @ '' e-maily. '' @ [CHR 0xC5,
             CHR 0xBD, CHR 0xC3, CHR 0xA1] @ ''dn'' @ [CHR 0xC3, CHR 0xA9] @ '' servery sleduj'' @ [CHR 0xC3,
             CHR 0xAD] @ ''c'' @ [CHR 0xC3, CHR 0xAD] @ '' va'' @ [CHR 0xC5, CHR 0xA1] @ ''e zpr'' @
             [CHR 0xC3, CHR 0xA1] @ ''vy. Ve'' @ [CHR 0xC5, CHR 0xA1] @ ''ker'' @ [CHR 0xC3, CHR 0xBD] @
             '' provoz te'' @ [CHR 0xC4, CHR 0x8D] @ ''e p'' @ [CHR 0xC5, CHR 0x99] @ ''es s'' @ [CHR 0xC3,
             CHR 0xAD, CHR 0xC5, CHR 0xA5] @ '' Tor.'')],
         Box [button (''Vytvo'' @ [CHR 0xC5, CHR 0x99] @ ''it novou identitu'') CreateIdentity False (wl_loading st),
              button ''Obnovit identitu ze seedu'' OpenRestore False False]]
        @ (if wl_showBatteryModal st then [battery_modal] else []))"

definition seed_word :: "nat \<times> string \<Rightarrow> elem" where
  "seed_word = (\<lambda>(index, word). Box [Text (show_int (int (index + 1)) @ ''.''), Text word])"

definition seedDisplayPage :: "string \<Rightarrow> bool \<Rightarrow> elem" where
  "seedDisplayPage phrase confirmed =
     screenContainer (Some (''Z'' @ [CHR 0xC3, CHR 0xA1] @ ''loha va'' @ [CHR 0xC5, CHR 0xA1, CHR 0xC3,
        CHR 0xAD] @ '' identity'')) [] []
       [Box [Box [Box [Text [CHR 0xE2, CHR 0x9A, CHR 0xA0, CHR 0xEF, CHR 0xB8, CHR 0x8F], Text (''D'' @
          [CHR 0xC5, CHR 0xAE] @ ''LE'' @ [CHR 0xC5, CHR 0xBD] @ ''IT'' @ [CHR 0xC3, CHR 0x89] @ '' BEZPE'' @
          [CHR 0xC4, CHR 0x8C] @ ''NOSTN'' @ [CHR 0xC3, CHR 0x8D] @ '' UPOZORN'' @ [CHR 0xC4, CHR 0x9A] @
          ''N'' @ [CHR 0xC3, CHR 0x8D])],
               Text ((''T'' @ [CHR 0xC4, CHR 0x9B] @ ''chto 12 slov je v'' @ [CHR 0xC3, CHR 0xA1, CHR 0xC5,
                  CHR 0xA1] @ '' jedin'' @ [CHR 0xC3, CHR 0xBD] @ '' kl'' @ [CHR 0xC3, CHR 0xAD, CHR 0xC4,
                  CHR 0x8D] @ ''. Pokud za'' @ [CHR 0xC5, CHR 0x99, CHR 0xC3, CHR 0xAD] @ ''zen'' @ [CHR 0xC3,
                  CHR 0xAD] @ '' ztrat'' @ [CHR 0xC3, CHR 0xAD] @ ''te a nem'' @ [CHR 0xC3, CHR 0xA1] @
                  ''te seed zapsan'' @ [CHR 0xC3, CHR 0xBD] @ '' na pap'' @ [CHR 0xC3, CHR 0xAD, CHR 0xC5,
                  CHR 0x99] @ ''e, '') @
                 (''va'' @ [CHR 0xC5, CHR 0xA1] @ ''e identita ani zpr'' @ [CHR 0xC3, CHR 0xA1] @
                    ''vy nebudou moci b'' @ [CHR 0xC3, CHR 0xBD] @ ''t nikdy obnoveny.''))],
         Box (map seed_word (enumerate 0 (seed_words phrase))),
         Press True ToggleConfirmed
           [Box (if confirmed then [Text [CHR 0xE2, CHR 0x9C, CHR 0x93]] else []),
            Text (''Opsal(a) jsem si v'' @ [CHR 0xC5, CHR 0xA1] @ ''ech 12 slov a bezpe'' @ [CHR 0xC4,
               CHR 0x8D] @ ''n'' @ [CHR 0xC4, CHR 0x9B] @ '' je ulo'' @ [CHR 0xC5, CHR 0xBE] @ ''il(a).'')],
         Box [button ''Vstoupit do aplikace'' EnterApp (\<not> confirmed) False]]]"

definition restoreSeedPage :: "restore_state \<Rightarrow> elem" where
  "restoreSeedPage st =
     screenContainer (Some ''Obnova identity'') [back_button PressBack] []
       [Box [Text ((''Zadejte 12 nebo 24 slov va'' @ [CHR 0xC5, CHR 0xA1, CHR 0xC3, CHR 0xAD] @
          '' seed phrase odd'' @ [CHR 0xC4, CHR 0x9B] @ ''len'' @ [CHR 0xC3, CHR 0xBD] @ ''ch mezerou. Va'' @
          [CHR 0xC5, CHR 0xA1] @ ''e '' @ [CHR 0xC5, CHR 0xA1] @ ''ifrovac'' @ [CHR 0xC3, CHR 0xAD] @ '' kl'' @
          [CHR 0xC3, CHR 0xAD, CHR 0xC4, CHR 0x8D] @ ''e a '') @
               ''identita budou deterministicky obnoveny.''),
         input_elem ''BIP-39 Mnemonic Seed'' MnemonicField (re_mnemonic st)
           (''nap'' @ [CHR 0xC5, CHR 0x99] @ ''. abandon abandon abandon abandon abandon...'') (re_error st),
         Box [button ''Obnovit identitu'' RestoreAccount (trim (re_mnemonic st) = []) (re_loading st)]]]"

definition chatListPage :: "(int \<Rightarrow> string) \<Rightarrow> 'k app_context \<Rightarrow> elem" where
  "chatListPage formatLastTime x =
     screenContainer (Some ''Konverzace'') [torStatusBadge (chat_list_badge x)] [Press True OpenProfile [Text ([CHR 0xF0, CHR 0x9F, CHR 0x91, CHR 0xA4] @ '' Profil'')]]
       [Box ((if ac_conversations x = []
              then [Box [Box [Text [CHR 0xF0, CHR 0x9F, CHR 0x92, CHR 0xAC]], Text ([CHR 0xC5, CHR 0xBD,
                 CHR 0xC3, CHR 0xA1] @ ''dn'' @ [CHR 0xC3, CHR 0xA9] @ '' konverzace''),
                 Text (''Naskenujte QR k'' @ [CHR 0xC3, CHR 0xB3] @ ''d kontaktu nebo nasd'' @ [CHR 0xC3,
                    CHR 0xAD] @ ''lejte sv'' @ [CHR 0xC5, CHR 0xAF] @ ''j profil a za'' @ [CHR 0xC4,
                    CHR 0x8D] @ ''n'' @ [CHR 0xC4, CHR 0x9B] @ ''te bezpe'' @ [CHR 0xC4, CHR 0x8D] @
                    ''nou komunikaci p'' @ [CHR 0xC5, CHR 0x99] @ ''es Tor.'')]]
              else [Box (map (\<lambda>c. item_elem (SelectContact (cr_recipientPubkeyHash (cs_contact c)) (cr_alias (cs_contact c)))
                                     (contactListItem formatLastTime c)) (ac_conversations x))])
             @ [Press True OpenScanner [Text [CHR 0xF0, CHR 0x9F, CHR 0x93, CHR 0xB7]]])]"

definition chatPage :: "(int \<Rightarrow> string) \<Rightarrow> hex \<Rightarrow> string option \<Rightarrow> 'k app_context \<Rightarrow> chat_state \<Rightarrow> elem" where
  "chatPage formatTime h alias x st =
     screenContainer (Some (chat_displayName h alias (ac_activeContact x))) [back_button LeaveChat] [Box [Text (''E2EE Active '' @ [CHR 0xF0, CHR 0x9F, CHR 0x94, CHR 0x92])]]
       [Box [Box (if ac_activeMessages x = []
                  then [Box [Text ([CHR 0xC5, CHR 0xBD, CHR 0xC3, CHR 0xA1] @ ''dn'' @ [CHR 0xC3, CHR 0xA9] @
                     '' p'' @ [CHR 0xC5, CHR 0x99] @ ''edchoz'' @ [CHR 0xC3, CHR 0xAD] @ '' zpr'' @ [CHR 0xC3,
                     CHR 0xA1] @ ''vy. Napi'' @ [CHR 0xC5, CHR 0xA1] @ ''te prvn'' @ [CHR 0xC3, CHR 0xAD] @
                     '' zpr'' @ [CHR 0xC3, CHR 0xA1] @ ''vu a ode'' @ [CHR 0xC5, CHR 0xA1] @ ''lete ji p'' @
                     [CHR 0xC5, CHR 0x99] @ ''es Tor.'')]]
                  else map (\<lambda>m. bubble_elem (messageBubble formatTime m)) (ac_activeMessages x)),
             Box [Entry MessageField (ch_inputText st) (''Napi'' @ [CHR 0xC5, CHR 0xA1] @ ''te za'' @
                [CHR 0xC5, CHR 0xA1] @ ''ifrovanou zpr'' @ [CHR 0xC3, CHR 0xA1] @ ''vu...'') (Some SendText),
                  Press (\<not> (trim (ch_inputText st) = [] \<or> ch_sending st)) SendText [Text [CHR 0xE2,
                     CHR 0x9E, CHR 0xA4]]]]]"

definition profilePage :: "'k app_context \<Rightarrow> profile_state \<Rightarrow> elem" where
  "profilePage x st =
     screenContainer (Some (''M'' @ [CHR 0xC5, CHR 0xAF] @ ''j profil & QR k'' @ [CHR 0xC3, CHR 0xB3] @
        ''d'')) [back_button PressBack] []
       [Box [Box [Box [Box [Text (if pf_loading st then (''Generuji QR k'' @ [CHR 0xC3, CHR 0xB3] @
          ''d...'') else ''QR CODE: TORE2EE IDENTITA'')]],
               Text (''Naskenujte pro zah'' @ [CHR 0xC3, CHR 0xA1] @ ''jen'' @ [CHR 0xC3, CHR 0xAD] @ '' chatu''),
               Text (''Obsahuje v'' @ [CHR 0xC3, CHR 0xA1, CHR 0xC5, CHR 0xA1] @ '' ve'' @ [CHR 0xC5,
                  CHR 0x99] @ ''ejn'' @ [CHR 0xC3, CHR 0xBD] @ '' Ed25519 kl'' @ [CHR 0xC3, CHR 0xAD,
                  CHR 0xC4, CHR 0x8D] @ '' a X3DH Signed PreKey.''),
               button (if pf_copied st then ([CHR 0xE2, CHR 0x9C, CHR 0x93] @ '' Zkop'' @ [CHR 0xC3,
                  CHR 0xAD] @ ''rov'' @ [CHR 0xC3, CHR 0xA1] @ ''no do schr'' @ [CHR 0xC3, CHR 0xA1] @
                  ''nky'') else (''Kop'' @ [CHR 0xC3, CHR 0xAD] @ ''rovat odkaz (URI)''))
                 CopyUri (pf_uri st = []) False],
         Box [Text ''Mailbox Hash (Relay ID)'',
              Text (case ac_identity x of None \<Rightarrow> ''...''
                    | Some u \<Rightarrow> if recipientPubkeyHash u = [] then ''...'' else recipientPubkeyHash u)],
         Box [button (''Odhl'' @ [CHR 0xC3, CHR 0xA1] @ ''sit se a smazat kl'' @ [CHR 0xC3, CHR 0xAD,
            CHR 0xC4, CHR 0x8D] @ ''e z Keychain'') PressLogout False False]]]"

definition scannerPage :: "scanner_state \<Rightarrow> elem" where
  "scannerPage st =
     screenContainer (Some (''P'' @ [CHR 0xC5, CHR 0x99] @ ''idat kontakt'')) [back_button PressBack] []
       [Box [Box [Box [Text [CHR 0xF0, CHR 0x9F, CHR 0x93, CHR 0xB7]], Text (''Hled'' @ [CHR 0xC3, CHR 0xA1,
          CHR 0xC4, CHR 0x8D] @ ''ek fotoapar'' @ [CHR 0xC3, CHR 0xA1] @ ''tu pro QR k'' @ [CHR 0xC3,
          CHR 0xB3] @ ''d''),
               Text (''Nami'' @ [CHR 0xC5, CHR 0x99] @ ''te fotoapar'' @ [CHR 0xC3, CHR 0xA1] @ ''t na QR k'' @
                  [CHR 0xC3, CHR 0xB3] @ ''d p'' @ [CHR 0xC5, CHR 0x99, CHR 0xC3, CHR 0xAD] @
                  ''tele nebo vlo'' @ [CHR 0xC5, CHR 0xBE] @ ''te URI n'' @ [CHR 0xC3, CHR 0xAD, CHR 0xC5,
                  CHR 0xBE] @ ''e.'')],
         Box [input_elem (''Vlo'' @ [CHR 0xC5, CHR 0xBE] @ ''it Contact URI nebo Base64 k'' @ [CHR 0xC3,
            CHR 0xB3] @ ''d'') UriField (sc_uriInput st)
                ''tore2ee://contact?v=1&d=...'' (sc_error st),
              input_elem (''P'' @ [CHR 0xC5, CHR 0x99] @ ''ezd'' @ [CHR 0xC3, CHR 0xAD] @
                 ''vka kontaktu (voliteln'' @ [CHR 0xC3, CHR 0xA9] @ '')'') AliasField (sc_aliasInput st)
                (''nap'' @ [CHR 0xC5, CHR 0x99] @ ''. Alice, Bob, Kolega...'') None],
         Box [button (''P'' @ [CHR 0xC5, CHR 0x99] @ ''idat kontakt a zah'' @ [CHR 0xC3, CHR 0xA1] @
            ''jit chat'') ImportContact (trim (sc_uriInput st) = []) (sc_loading st)]]]"

text \<open>The screen \<open>RootNavigator\<close> chooses, with its state.\<close>

definition page :: "(int \<Rightarrow> string) \<Rightarrow> (int \<Rightarrow> string) \<Rightarrow> 'k ui \<Rightarrow> elem" where
  "page formatTime formatLastTime v =
     (case (shown (ac_isInitialized (ui_ctx v)) (ui_nav v), ui_screen v) of
        (WelcomeView, WelcomeState st) \<Rightarrow> welcomePage st
      | (SeedDisplayView m, SeedState b) \<Rightarrow> seedDisplayPage m b
      | (RestoreSeedView, RestoreState st) \<Rightarrow> restoreSeedPage st
      | (ChatListView, ChatListState) \<Rightarrow> chatListPage formatLastTime (ui_ctx v)
      | (ChatView (Some h) al, ChatState st) \<Rightarrow> chatPage formatTime h al (ui_ctx v) st
      | (ProfileView, ProfileState st) \<Rightarrow> profilePage (ui_ctx v) st
      | (ScannerView, ScannerState st) \<Rightarrow> scannerPage st
      | _ \<Rightarrow> Box [Text (''Inicializace bezpe'' @ [CHR 0xC4, CHR 0x8D] @ ''n'' @ [CHR 0xC3,
         CHR 0xA9] @ ''ho '' @ [CHR 0xC3, CHR 0xBA] @ ''lo'' @ [CHR 0xC5, CHR 0xBE] @ ''i'' @ [CHR 0xC5,
         CHR 0xA1] @ ''t'' @ [CHR 0xC4, CHR 0x9B] @ ''...'')])"

subsection \<open>What an element calls\<close>

record user_inputs =
  in_native :: react_native
  in_draws :: bundle_draws
  in_secret :: bytes
  in_clipboard :: bool

fun type_in :: "field \<Rightarrow> string \<Rightarrow> 'k ui \<Rightarrow> 'k ui" where
  "type_in MnemonicField s = set_restore (\<lambda>st. st\<lparr>re_mnemonic := s\<rparr>)"
| "type_in MessageField s = set_chat (\<lambda>st. st\<lparr>ch_inputText := s\<rparr>)"
| "type_in UriField s = set_scanner (\<lambda>st. st\<lparr>sc_uriInput := s\<rparr>)"
| "type_in AliasField s = set_scanner (\<lambda>st. st\<lparr>sc_aliasInput := s\<rparr>)"

fun perform :: "'k ui_env \<Rightarrow> user_inputs \<Rightarrow> ui_action \<Rightarrow> 'k ui \<Rightarrow> 'k ui" where
  "perform U I CreateIdentity v = handleCreateIdentity U v"
| "perform U I OpenRestore v = openRestore v"
| "perform U I AllowBattery v = snd (handleRequestBatteryOptimization (in_native I) v)"
| "perform U I DismissBattery v = handleDismissBatteryModal v"
| "perform U I ToggleConfirmed v = toggleConfirmed v"
| "perform U I EnterApp v = go (reset_to ChatList) v"
| "perform U I RestoreAccount v = handleRestore U v"
| "perform U I PressBack v = pressBack v"
| "perform U I (SelectContact h al) v = handleSelectContact h al v"
| "perform U I OpenProfile v = openProfile U (in_draws I) v"
| "perform U I OpenScanner v = openScanner v"
| "perform U I SendText v = handleSend U v"
| "perform U I LeaveChat v = handleBack v"
| "perform U I CopyUri v = snd (handleCopy (in_clipboard I) v)"
| "perform U I PressLogout v = handleLogout U v"
| "perform U I ImportContact v = handleImport U (in_secret I) v"
| "perform U I (TypeIn f s) v = type_in f s v"

end
