(* ===== verification/Page_Properties.thy ===== *)
theory Page_Properties
  imports Pages "HOL-Library.Sublist"
begin

section \<open>The screens and the runs of the interface\<close>

text \<open>
  The steps of \<open>ui_step\<close> are what the elements of the page call: no more and no less. From every state of a run the user
  finds the way back, and the recovery phrase can be typed in as it was shown.
\<close>

subsection \<open>What the pages offer\<close>

lemma offers_components [simp]:
  "offers (button cap b d ld) a \<longleftrightarrow> \<not> d \<and> \<not> ld \<and> a = b"
  "offers (input_elem lb f x p er) a \<longleftrightarrow> types_in f a"
  "offers (screenContainer ti l r c) a \<longleftrightarrow> (\<exists>e \<in> set (l @ r @ c). offers e a)"
  "offers (back_button b) a \<longleftrightarrow> a = b"
  "offers (torStatusBadge bg) a = False" "offers (bubble_elem bb) a = False" "offers (item_elem b it) a \<longleftrightarrow> a = b"
  "offers (seed_word iw) a = False"
  by (auto simp: button_def button_disabled_def input_elem_def screenContainer_def back_button_def torStatusBadge_def
      bubble_elem_def item_elem_def seed_word_def split: option.splits prod.splits)

lemma welcome_offers: "offers (welcomePage st) a \<longleftrightarrow> (a = CreateIdentity \<and> \<not> wl_loading st) \<or> a = OpenRestore \<or>
     (wl_showBatteryModal st \<and> a \<in> {AllowBattery, DismissBattery})"
  by (auto simp: welcomePage_def battery_modal_def)

lemma seed_offers: "offers (seedDisplayPage m b) a \<longleftrightarrow> a = ToggleConfirmed \<or> (b \<and> a = EnterApp)"
  by (auto simp: seedDisplayPage_def)

lemma restore_offers: "offers (restoreSeedPage st) a \<longleftrightarrow> a = PressBack \<or> types_in MnemonicField a \<or>
     (a = RestoreAccount \<and> trim (re_mnemonic st) \<noteq> [] \<and> \<not> re_loading st)"
  by (auto simp: restoreSeedPage_def)

lemma chatList_offers: "offers (chatListPage G x) a \<longleftrightarrow> a \<in> {OpenProfile, OpenScanner} \<or>
     (\<exists>c \<in> set (ac_conversations x). a = SelectContact (cr_recipientPubkeyHash (cs_contact c)) (cr_alias (cs_contact c)))"
  by (auto simp: chatListPage_def)

lemma chat_offers: "offers (chatPage F h al x st) a \<longleftrightarrow> a \<in> {LeaveChat, SendText} \<or> types_in MessageField a"
  by (auto simp: chatPage_def)

lemma profile_offers: "offers (profilePage x st) a \<longleftrightarrow> a \<in> {PressBack, PressLogout} \<or> (a = CopyUri \<and> pf_uri st \<noteq> [])"
  by (auto simp: profilePage_def)

lemma scanner_offers: "offers (scannerPage st) a \<longleftrightarrow> a = PressBack \<or> types_in UriField a \<or> types_in AliasField a \<or>
     (a = ImportContact \<and> trim (sc_uriInput st) \<noteq> [] \<and> \<not> sc_loading st)"
  by (auto simp: scannerPage_def)

lemmas page_offers = welcome_offers seed_offers restore_offers chatList_offers chat_offers profile_offers scanner_offers

lemma types_in_iff: "types_in f a \<longleftrightarrow> (\<exists>s. a = TypeIn f s)"
  by (cases a) auto

text \<open>The page of a state that satisfies the invariant.\<close>

lemma page_of:
  assumes "ui_ok v"
  shows "nv_currentScreen (ui_nav v) = Welcome \<Longrightarrow> \<exists>st. ui_screen v = WelcomeState st \<and> page F G v = welcomePage st"
    "nv_currentScreen (ui_nav v) = SeedDisplay \<Longrightarrow> \<exists>b u. ui_screen v = SeedState b \<and> ac_identity (ui_ctx v) = Some u \<and>
       page F G v = seedDisplayPage (mnemonic u) b"
    "nv_currentScreen (ui_nav v) = RestoreSeed \<Longrightarrow> \<exists>st. ui_screen v = RestoreState st \<and> page F G v = restoreSeedPage st"
    "nv_currentScreen (ui_nav v) = ChatList \<Longrightarrow> ui_screen v = ChatListState \<and> page F G v = chatListPage G (ui_ctx v)"
    "nv_currentScreen (ui_nav v) = Chat \<Longrightarrow> \<exists>st h al. ui_screen v = ChatState st \<and> page F G v = chatPage F h al (ui_ctx v) st"
    "nv_currentScreen (ui_nav v) = Profile \<Longrightarrow> \<exists>st. ui_screen v = ProfileState st \<and> page F G v = profilePage (ui_ctx v) st"
    "nv_currentScreen (ui_nav v) = Scanner \<Longrightarrow> \<exists>st. ui_screen v = ScannerState st \<and> page F G v = scannerPage st"
  using assms
  by (cases "ui_screen v"; auto simp: page_def shown_def ui_ok_def nav_ok_def screen_fits_def)+

subsection \<open>No call is under way between two steps\<close>

fun idle :: "screen_state \<Rightarrow> bool" where
  "idle (WelcomeState st) = (\<not> wl_loading st)"
| "idle (RestoreState st) = (\<not> re_loading st)"
| "idle (ChatState st) = (\<not> ch_sending st)"
| "idle (ScannerState st) = (\<not> sc_loading st)"
| "idle _ = True"

lemma idle_fresh [simp]: "idle (fresh_state scr)"
  by (cases scr) simp_all

lemma idle_go: "idle (ui_screen v) \<or> nv_currentScreen (f (ui_nav v)) \<noteq> nv_currentScreen (ui_nav v) \<Longrightarrow> idle (ui_screen (go f v))"
  by (auto simp: go_def Let_def)

lemma with_ctx_screen: "ui_screen (snd (with_ctx m v)) = ui_screen v" "ui_nav (snd (with_ctx m v)) = ui_nav v"
  by (simp_all add: with_ctx_def split: prod.split)

lemma go_nav: "ui_nav (go f v) = f (ui_nav v)"
  by simp

lemma idle_loadUri: "idle (ui_screen v) \<Longrightarrow> idle (ui_screen (loadUri U ds v))"
  by (auto simp: loadUri_def with_ctx_case with_ctx_screen set_profile_def split: sum.split screen_state.split)

lemma idle_step: "ui_step U scr v v' \<Longrightarrow> ui_ok v \<Longrightarrow> scr = nv_currentScreen (ui_nav v) \<Longrightarrow> idle (ui_screen v) \<Longrightarrow> idle (ui_screen v')"
proof (induction rule: ui_step.induct)
  case (create_identity U v)
  then obtain st where "ui_screen v = WelcomeState st" using page_of(1) by metis
  then show ?case using create_identity
    by (auto simp: handleCreateIdentity_def with_ctx_case with_ctx_screen set_welcome_def rerender_def identity_effect_def navigate_def
        intro!: idle_go split: sum.split)
next
  case (press_restore U v)
  then obtain st where "ui_screen v = RestoreState st" using page_of(3) by metis
  then show ?case using press_restore
    by (auto simp: pressRestore_def handleRestore_def with_ctx_case with_ctx_screen set_restore_def rerender_def identity_effect_def
        reset_to_def go_def Let_def split: sum.split)
next
  case (press_import U v ek)
  then obtain st where "ui_screen v = ScannerState st" using page_of(7) by metis
  then show ?case using press_import
    by (auto simp: handleImport_def with_ctx_case with_ctx_screen set_scanner_def navigate_def Let_def
        intro!: idle_go split: sum.split)
next
  case (send U v)
  then obtain st where "ui_screen v = ChatState st" using page_of(5) by metis
  then show ?case using send
    by (auto simp: handleSend_def with_ctx_case with_ctx_screen set_chat_def send_begins_def send_ends_def
        split: sum.split option.split)
next
  case (open_profile U v ds)
  then show ?case unfolding openProfile_def by (intro idle_loadUri idle_go) simp
qed (auto simp: checkBatteryOptimization_def handleRequestBatteryOptimization_def handleDismissBatteryModal_def openRestore_def
      toggleConfirmed_def enterApp_def pressBack_def handleSelectContact_def openScanner_def handleBack_def
      idle_loadUri handleCopy_def copied_timeout_def handleLogout_def rerender_def with_ctx_case with_ctx_screen
      set_welcome_def set_restore_def set_chat_def set_profile_def set_scanner_def
      intro!: idle_go split: sum.split screen_state.split)

lemma reach_idle: "ui_reach Q v \<Longrightarrow> idle (ui_screen v)"
proof (induction rule: ui_reach.induct)
  case (launch U k)
  then show ?case
    by (auto simp: launch_ui_def rerender_def with_ctx_screen intro!: idle_go)
next
  case (act v U v')
  then show ?case using idle_step ui_reach_ok by metis
qed

subsection \<open>Steps and elements\<close>

lemma offered_step:
  assumes "ui_ok v" "offers (page F G v) a"
  shows "ui_step U (nv_currentScreen (ui_nav v)) v (perform U I a v)"
proof (cases "nv_currentScreen (ui_nav v)")
  case Welcome
  then obtain st where "page F G v = welcomePage st" using page_of(1) [OF assms(1)] by metis
  then show ?thesis using assms(2) Welcome by (auto simp: page_offers intro: ui_step.intros)
next
  case SeedDisplay
  then obtain b m where p: "ui_screen v = SeedState b" "page F G v = seedDisplayPage m b" using page_of(2) [OF assms(1)] by metis
  have "ui_step U SeedDisplay v (go (reset_to ChatList) v)" if b
    using that p(1) enter_app [of U v] by (simp add: enterApp_def)
  then show ?thesis using assms(2) p SeedDisplay by (auto simp: page_offers intro: ui_step.intros)
next
  case RestoreSeed
  then obtain st where p: "ui_screen v = RestoreState st" "page F G v = restoreSeedPage st" using page_of(3) [OF assms(1)] by metis
  have "ui_step U RestoreSeed v (handleRestore U v)" if "trim (re_mnemonic st) \<noteq> []" "\<not> re_loading st"
    using that p(1) press_restore [of U v] by (simp add: pressRestore_def)
  then show ?thesis using assms(2) p RestoreSeed by (auto simp: page_offers types_in_iff intro: ui_step.intros)
next
  case ChatList
  then show ?thesis using assms(2) page_of(4) [OF assms(1)] by (auto simp: page_offers intro: ui_step.intros)
next
  case Chat
  then obtain st h al where "page F G v = chatPage F h al (ui_ctx v) st" using page_of(5) [OF assms(1)] by metis
  then show ?thesis using assms(2) Chat by (auto simp: page_offers types_in_iff intro: ui_step.intros)
next
  case Profile
  then obtain st where "ui_screen v = ProfileState st" "page F G v = profilePage (ui_ctx v) st" using page_of(6) [OF assms(1)] by metis
  then show ?thesis using assms(2) Profile by (auto simp: page_offers intro: ui_step.intros)
next
  case Scanner
  then obtain st where "page F G v = scannerPage st" using page_of(7) [OF assms(1)] by metis
  then show ?thesis using assms(2) Scanner by (auto simp: page_offers types_in_iff intro: ui_step.intros)
qed

text \<open>Inputs for the actions that use none of them.\<close>

definition no_inputs :: user_inputs where
  "no_inputs = \<lparr>in_native = \<lparr>rn_OS = None, rn_isIgnoring = None, rn_requestIgnore = None, rn_openSettings = None, rn_sendIntent = None\<rparr>,
      in_draws = \<lparr>bd_spkSecret = [], bd_spkId = 0, bd_oneTime = (\<lambda>_. ([], 0))\<rparr>, in_secret = [], in_clipboard = False\<rparr>"

text \<open>A change of the state that is not the user's: effects of a render, a timer, and what the relay sends.\<close>

definition not_by_user :: "'k ui_env \<Rightarrow> 'k ui \<Rightarrow> 'k ui \<Rightarrow> bool" where
  "not_by_user U v v' \<longleftrightarrow> (\<exists>R. v' = checkBatteryOptimization R v) \<or> (\<exists>ds. v' = loadUri U ds v) \<or>
     v' = copied_timeout v \<or> (\<exists>ev. v' = snd (with_ctx (relay_event U ev) v))"

definition by_user :: "(int \<Rightarrow> string) \<Rightarrow> (int \<Rightarrow> string) \<Rightarrow> 'k ui_env \<Rightarrow> 'k ui \<Rightarrow> 'k ui \<Rightarrow> bool" where
  "by_user F G U v v' \<longleftrightarrow> (\<exists>a I. offers (page F G v) a \<and> v' = perform U I a v)"

lemma by_userI: "offers (page F G v) a \<Longrightarrow> perform U I a v = v' \<Longrightarrow> by_user F G U v v'"
  by (auto simp: by_user_def)

lemma step_offered:
  "ui_step U scr v v' \<Longrightarrow> ui_ok v \<Longrightarrow> scr = nv_currentScreen (ui_nav v) \<Longrightarrow> idle (ui_screen v) \<Longrightarrow>
     v' = v \<or> not_by_user U v v' \<or> by_user F G U v v'"
proof (induction rule: ui_step.induct)
  case (request_battery U v R)
  then obtain st where p: "ui_screen v = WelcomeState st" "page F G v = welcomePage st" using page_of(1) by metis
  show ?case
  proof (cases "wl_showBatteryModal st")
    case True
    then show ?thesis using p
      by (intro disjI2 by_userI [where a = AllowBattery and I = "no_inputs\<lparr>in_native := R\<rparr>"])
        (simp_all add: page_offers)
  next
    case False
    then show ?thesis using p by (simp add: handleRequestBatteryOptimization_def set_welcome_def)
  qed
next
  case (dismiss_battery U v)
  then obtain st where p: "ui_screen v = WelcomeState st" "page F G v = welcomePage st" using page_of(1) by metis
  show ?case
  proof (cases "wl_showBatteryModal st")
    case True
    then show ?thesis using p by (intro disjI2 by_userI [where a = DismissBattery]) (simp_all add: page_offers)
  next
    case False
    then show ?thesis using p by (simp add: handleDismissBatteryModal_def set_welcome_def)
  qed
next
  case (create_identity U v)
  then obtain st where p: "ui_screen v = WelcomeState st" "page F G v = welcomePage st" using page_of(1) by metis
  then show ?case using create_identity by (intro disjI2 by_userI [where a = CreateIdentity]) (simp_all add: page_offers)
next
  case (open_restore U v)
  then obtain st where p: "page F G v = welcomePage st" using page_of(1) by metis
  then show ?case by (intro disjI2 by_userI [where a = OpenRestore]) (simp_all add: page_offers)
next
  case (toggle_confirmed U v)
  then obtain b m where p: "page F G v = seedDisplayPage m b" using page_of(2) by metis
  then show ?case by (intro disjI2 by_userI [where a = ToggleConfirmed]) (simp_all add: page_offers)
next
  case (enter_app U v)
  then obtain b m where p: "ui_screen v = SeedState b" "page F G v = seedDisplayPage m b" using page_of(2) by metis
  show ?case
  proof (cases b)
    case True
    then show ?thesis using p by (intro disjI2 by_userI [where a = EnterApp]) (simp_all add: page_offers enterApp_def)
  qed (use p in \<open>simp add: enterApp_def\<close>)
next
  case (type_mnemonic U v s)
  then obtain st where p: "page F G v = restoreSeedPage st" using page_of(3) by metis
  then show ?case by (intro disjI2 by_userI [where a = "TypeIn MnemonicField s"]) (simp_all add: page_offers)
next
  case (press_restore U v)
  then obtain st where p: "ui_screen v = RestoreState st" "page F G v = restoreSeedPage st" using page_of(3) by metis
  show ?case
  proof (cases "trim (re_mnemonic st) = [] \<or> re_loading st")
    case False
    then show ?thesis using p by (intro disjI2 by_userI [where a = RestoreAccount]) (simp_all add: page_offers pressRestore_def)
  qed (use p in \<open>simp add: pressRestore_def\<close>)
next
  case (press_back scr U v)
  then have "offers (page F G v) PressBack" using page_of(3,6,7) by (metis empty_iff insert_iff page_offers(3,6,7))
  then show ?case by (intro disjI2 by_userI [where a = PressBack]) simp_all
next
  case (select_contact c v U)
  then have "page F G v = chatListPage G (ui_ctx v)" using page_of(4) by metis
  then show ?case using select_contact(1)
    by (intro disjI2 by_userI [where a = "SelectContact (cr_recipientPubkeyHash (cs_contact c)) (cr_alias (cs_contact c))"])
      (auto simp: page_offers)
next
  case (open_profile U v ds)
  then have "page F G v = chatListPage G (ui_ctx v)" using page_of(4) by metis
  then show ?case
    by (intro disjI2 by_userI [where a = OpenProfile and I = "no_inputs\<lparr>in_draws := ds\<rparr>"])
      (simp_all add: page_offers)
next
  case (open_scanner U v)
  then have "page F G v = chatListPage G (ui_ctx v)" using page_of(4) by metis
  then show ?case by (intro disjI2 by_userI [where a = OpenScanner]) (simp_all add: page_offers)
next
  case (type_message U v s)
  then obtain st h al where "page F G v = chatPage F h al (ui_ctx v) st" using page_of(5) by metis
  then show ?case by (intro disjI2 by_userI [where a = "TypeIn MessageField s"]) (simp_all add: page_offers)
next
  case (send U v)
  then obtain st h al where "page F G v = chatPage F h al (ui_ctx v) st" using page_of(5) by metis
  then show ?case by (intro disjI2 by_userI [where a = SendText]) (simp_all add: page_offers)
next
  case (leave_chat U v)
  then obtain st h al where "page F G v = chatPage F h al (ui_ctx v) st" using page_of(5) by metis
  then show ?case by (intro disjI2 by_userI [where a = LeaveChat]) (simp_all add: page_offers)
next
  case (copy_uri v st U clipboard)
  then obtain st' where "ui_screen v = ProfileState st'" "page F G v = profilePage (ui_ctx v) st'" using page_of(6) by metis
  then show ?case using copy_uri(1,2)
    by (intro disjI2 by_userI [where a = CopyUri and I = "no_inputs\<lparr>in_clipboard := clipboard\<rparr>"])
      (simp_all add: page_offers)
next
  case (press_logout U v)
  then obtain st where "page F G v = profilePage (ui_ctx v) st" using page_of(6) by metis
  then show ?case by (intro disjI2 by_userI [where a = PressLogout]) (simp_all add: page_offers)
next
  case (type_contact_uri U v s)
  then obtain st where "page F G v = scannerPage st" using page_of(7) by metis
  then show ?case by (intro disjI2 by_userI [where a = "TypeIn UriField s"]) (simp_all add: page_offers)
next
  case (type_contact_alias U v s)
  then obtain st where "page F G v = scannerPage st" using page_of(7) by metis
  then show ?case by (intro disjI2 by_userI [where a = "TypeIn AliasField s"]) (simp_all add: page_offers)
next
  case (press_import U v ek)
  then obtain st where p: "ui_screen v = ScannerState st" "page F G v = scannerPage st" using page_of(7) by metis
  show ?case
  proof (cases "trim (sc_uriInput st) = []")
    case True
    then show ?thesis using p by (simp add: handleImport_def)
  next
    case False
    then show ?thesis using p press_import
      by (intro disjI2 by_userI [where a = ImportContact and I = "no_inputs\<lparr>in_secret := ek\<rparr>"])
        (simp_all add: page_offers)
  qed
qed (auto simp: not_by_user_def)

text \<open>In every run of the interface the user can do exactly what the elements of the page are there for: every enabled
  button and every field is a step of the run, and every step that changes something is the call of an enabled
  element of the page, an effect of a render, the timer of the copy button, or an event of the relay.\<close>

theorem steps_are_the_elements:
  assumes "ui_reach Q v"
  shows "(\<forall>a I. offers (page F G v) a \<longrightarrow> ui_step U (nv_currentScreen (ui_nav v)) v (perform U I a v)) \<and>
     (\<forall>v'. ui_step U (nv_currentScreen (ui_nav v)) v v' \<longrightarrow> v' = v \<or> not_by_user U v v' \<or> by_user F G U v v')"
  using offered_step step_offered ui_reach_ok [OF assms] reach_idle [OF assms] by blast

theorem steps_are_the_elements_witness:
  "offers (page (\<lambda>_. ''12:00'') (\<lambda>_. ''12:00'') demo_chat) SendText \<and>
     ui_step demo_phone Chat demo_chat (handleSend demo_phone demo_chat)"
proof -
  note ok = ui_reach_ok [OF demo_chat_run(1)]
  let ?F = "\<lambda>_. ''12:00''"
  obtain st h al where "page ?F ?F demo_chat = chatPage ?F h al (ui_ctx demo_chat) st" using page_of(5) [OF ok demo_chat_run(2)] by metis
  then have o: "offers (page ?F ?F demo_chat) SendText" by (simp add: page_offers)
  have "ui_step demo_phone Chat demo_chat (perform demo_phone I SendText demo_chat)" for I
    using steps_are_the_elements [OF demo_chat_run(1), of ?F ?F demo_phone] o demo_chat_run(2) by metis
  then show ?thesis using o by simp
qed

subsection \<open>The way back\<close>

text \<open>A list of actions each of which is offered when its turn comes.\<close>

fun can_do :: "(int \<Rightarrow> string) \<Rightarrow> (int \<Rightarrow> string) \<Rightarrow> 'k ui_env \<Rightarrow> user_inputs \<Rightarrow> ui_action list \<Rightarrow> 'k ui \<Rightarrow> bool" where
  "can_do F G U I [] v = True"
| "can_do F G U I (a # as) v = (offers (page F G v) a \<and> can_do F G U I as (perform U I a v))"

definition home :: "'k ui \<Rightarrow> screen" where
  "home v = (if signed_in v then ChatList else Welcome)"

lemma perform_ok: "ui_ok v \<Longrightarrow> offers (page F G v) a \<Longrightarrow> ui_ok (perform U I a v)"
  using offered_step ui_step_ok by blast

text \<open>Going back once: the screen below, and one screen less on the stack.\<close>

lemma back_step:
  assumes "ui_ok v" "signed_in v" "nv_currentScreen (ui_nav v) \<in> {Chat, Profile, Scanner}"
  shows "\<exists>a. offers (page F G v) a \<and> a \<in> {PressBack, LeaveChat} \<and> signed_in (perform U I a v) \<and>
     nv_currentScreen (ui_nav (perform U I a v)) \<in> {ChatList, Scanner} \<and>
     (nv_currentScreen (ui_nav (perform U I a v)) \<noteq> ChatList \<longrightarrow>
       length (nv_screenStack (ui_nav (perform U I a v))) < length (nv_screenStack (ui_nav v)))"
proof -
  let ?nv = "ui_nav v"
  have st: "set (nv_screenStack ?nv) \<subseteq> {ChatList, Scanner}"
    using assms by (auto simp: ui_ok_def nav_ok_def signed_in_def)
  have b: "nv_currentScreen (goBack True ?nv) \<in> {ChatList, Scanner} \<and>
     (nv_currentScreen (goBack True ?nv) \<noteq> ChatList \<longrightarrow> length (nv_screenStack (goBack True ?nv)) < length (nv_screenStack ?nv))"
  proof (cases "nv_screenStack ?nv = []")
    case False
    then have "last (nv_screenStack ?nv) \<in> {ChatList, Scanner}" using st last_in_set by blast
    then show ?thesis using False by (auto simp: goBack_def)
  qed (simp add: goBack_def)
  have "perform U I PressBack v = go (goBack True) v" using assms(2) by (simp add: pressBack_def)
  then have p: "ui_ctx (perform U I PressBack v) = ui_ctx v" "ui_nav (perform U I PressBack v) = goBack True ?nv" by simp_all
  have "signed_in (v\<lparr>ui_ctx := clearActiveConversation (ui_ctx v)\<rparr>) = True"
    using assms(2) by (simp add: signed_in_def clearActiveConversation_def)
  then have l: "ac_identity (ui_ctx (perform U I LeaveChat v)) = ac_identity (ui_ctx v)"
    "ui_nav (perform U I LeaveChat v) = goBack True ?nv"
    by (simp_all add: handleBack_def pressBack_def clearActiveConversation_def)
  show ?thesis
  proof (cases "nv_currentScreen ?nv = Chat")
    case True
    then obtain st h al where "page F G v = chatPage F h al (ui_ctx v) st" using page_of(5) [OF assms(1)] by metis
    then have "offers (page F G v) LeaveChat" by (simp add: page_offers)
    then show ?thesis using b l assms(2) by (intro exI [of _ LeaveChat]) (simp add: signed_in_def)
  next
    case False
    then have "offers (page F G v) PressBack"
      using assms(3) page_of(6,7) [OF assms(1)] by (metis empty_iff insert_iff page_offers(6,7))
    then show ?thesis using b p assms(2) by (intro exI [of _ PressBack]) (simp add: signed_in_def)
  qed
qed

lemma back_home:
  "ui_ok v \<Longrightarrow> signed_in v \<Longrightarrow> nv_currentScreen (ui_nav v) \<in> {ChatList, Chat, Profile, Scanner} \<Longrightarrow>
     \<exists>as. set as \<subseteq> {PressBack, LeaveChat} \<and> length as \<le> Suc (length (nv_screenStack (ui_nav v))) \<and> can_do F G U I as v \<and>
       signed_in (fold (perform U I) as v) \<and> nv_currentScreen (ui_nav (fold (perform U I) as v)) = ChatList"
proof (induction "length (nv_screenStack (ui_nav v))" arbitrary: v rule: less_induct)
  case less
  show ?case
  proof (cases "nv_currentScreen (ui_nav v) = ChatList")
    case True
    then show ?thesis using less.prems(2) by (intro exI [of _ "[]"]) simp
  next
    case False
    then have scr: "nv_currentScreen (ui_nav v) \<in> {Chat, Profile, Scanner}" using less.prems(3) by blast
    from back_step [OF less.prems(1,2) this] obtain a where a: "offers (page F G v) a" "a \<in> {PressBack, LeaveChat}"
      "signed_in (perform U I a v)" "nv_currentScreen (ui_nav (perform U I a v)) \<in> {ChatList, Scanner}"
      "nv_currentScreen (ui_nav (perform U I a v)) \<noteq> ChatList \<Longrightarrow>
         length (nv_screenStack (ui_nav (perform U I a v))) < length (nv_screenStack (ui_nav v))" by blast
    let ?w = "perform U I a v"
    show ?thesis
    proof (cases "nv_currentScreen (ui_nav ?w) = ChatList")
      case True
      then show ?thesis using a by (intro exI [of _ "[a]"]) simp
    next
      case nl: False
      have "nv_currentScreen (ui_nav ?w) \<in> {ChatList, Chat, Profile, Scanner}" using a(4) by blast
      from less.hyps [OF a(5) [OF nl] perform_ok [OF less.prems(1) a(1)] a(3) this] obtain as where as:
        "set as \<subseteq> {PressBack, LeaveChat}" "length as \<le> Suc (length (nv_screenStack (ui_nav ?w)))" "can_do F G U I as ?w"
        "signed_in (fold (perform U I) as ?w)" "nv_currentScreen (ui_nav (fold (perform U I) as ?w)) = ChatList" by blast
      then show ?thesis using a(1,2) a(5) [OF nl] by (intro exI [of _ "a # as"]) simp
    qed
  qed
qed

lemma seed_way_home:
  assumes "ui_ok v" "signed_in v" "nv_currentScreen (ui_nav v) = SeedDisplay"
  shows "\<exists>as. length as \<le> 2 \<and> can_do F G U I as v \<and> signed_in (fold (perform U I) as v) \<and>
     nv_currentScreen (ui_nav (fold (perform U I) as v)) = ChatList"
proof -
  let ?w = "v\<lparr>ui_screen := SeedState True\<rparr>"
  obtain b and u :: identity where b: "ui_screen v = SeedState b" "page F G v = seedDisplayPage (mnemonic u) b"
    using page_of(2) [OF assms(1,3), of F G] by blast
  have w: "ui_ok ?w" "nv_currentScreen (ui_nav ?w) = SeedDisplay" using assms(1,3) by (simp_all add: ui_ok_def)
  obtain u' :: identity where "page F G ?w = seedDisplayPage (mnemonic u') True" using page_of(2) [OF w, of F G] by auto
  then have o: "offers (page F G ?w) EnterApp" by (simp add: page_offers)
  have e: "signed_in (go (reset_to ChatList) ?w)" "nv_currentScreen (ui_nav (go (reset_to ChatList) ?w)) = ChatList"
    using assms(2) by (simp_all add: signed_in_def reset_to_def)
  show ?thesis
  proof (cases b)
    case True
    then have "?w = v" using b(1) by simp
    then show ?thesis using o e by (intro exI [of _ "[EnterApp]"]) simp
  next
    case False
    then have "perform U I ToggleConfirmed v = ?w" using b(1) by (simp add: toggleConfirmed_def)
    moreover have "offers (page F G v) ToggleConfirmed" using b(2) by (simp add: page_offers)
    ultimately show ?thesis using o e by (intro exI [of _ "[ToggleConfirmed, EnterApp]"]) simp
  qed
qed

lemma signed_out_way_home:
  assumes "ui_ok v" "\<not> signed_in v"
  shows "\<exists>as. length as \<le> 1 \<and> can_do F G U I as v \<and> \<not> signed_in (fold (perform U I) as v) \<and>
     nv_currentScreen (ui_nav (fold (perform U I) as v)) = Welcome"
proof -
  have i: "ac_identity (ui_ctx v) = None" using assms(2) by (simp add: signed_in_def)
  then have "nv_currentScreen (ui_nav v) = Welcome \<or> nv_currentScreen (ui_nav v) = RestoreSeed"
    using assms(1) by (cases "nv_currentScreen (ui_nav v)") (auto simp: ui_ok_def nav_ok_def screen_fits_def)
  then show ?thesis
  proof
    assume "nv_currentScreen (ui_nav v) = Welcome"
    then show ?thesis using assms(2) by (intro exI [of _ "[]"]) simp
  next
    assume r: "nv_currentScreen (ui_nav v) = RestoreSeed"
    then have o: "offers (page F G v) PressBack" using page_of(3) [OF assms(1)] by (metis page_offers(3))
    have "set (nv_screenStack (ui_nav v)) \<subseteq> {Welcome}" using assms(1) i by (simp add: ui_ok_def nav_ok_def)
    then have "nv_currentScreen (goBack False (ui_nav v)) = Welcome" using last_in_set by (fastforce simp: goBack_def)
    then show ?thesis using o assms(2) by (intro exI [of _ "[PressBack]"]) (simp add: pressBack_def signed_in_def)
  qed
qed

text \<open>C24. There is no screen without a way out: from every state of a run the elements of the pages lead back to the list
  of chats, or to the welcome screen when nobody is signed in, in at most two more presses than there are screens
  on the stack, and without signing in or out.\<close>

theorem way_home:
  assumes "ui_reach Q v"
  shows "\<exists>as. length as \<le> length (nv_screenStack (ui_nav v)) + 2 \<and> can_do F G U I as v \<and>
     signed_in (fold (perform U I) as v) = signed_in v \<and> nv_currentScreen (ui_nav (fold (perform U I) as v)) = home v"
proof -
  note ok = ui_reach_ok [OF assms]
  consider "\<not> signed_in v" | "signed_in v" "nv_currentScreen (ui_nav v) = SeedDisplay"
    | "signed_in v" "nv_currentScreen (ui_nav v) \<in> {ChatList, Chat, Profile, Scanner}"
    using ok by (cases "nv_currentScreen (ui_nav v)") (auto simp: ui_ok_def nav_ok_def screen_fits_def signed_in_def)
  then show ?thesis
  proof cases
    case 1
    from signed_out_way_home [OF ok 1] obtain as where "length as \<le> 1" "can_do F G U I as v"
      "\<not> signed_in (fold (perform U I) as v)" "nv_currentScreen (ui_nav (fold (perform U I) as v)) = Welcome" by blast
    then show ?thesis using 1 by (intro exI [of _ as]) (simp add: home_def)
  next
    case 2
    from seed_way_home [OF ok 2] obtain as where "length as \<le> 2" "can_do F G U I as v"
      "signed_in (fold (perform U I) as v)" "nv_currentScreen (ui_nav (fold (perform U I) as v)) = ChatList" by blast
    then show ?thesis using 2 by (intro exI [of _ as]) (simp add: home_def)
  next
    case 3
    from back_home [OF ok 3] obtain as where "length as \<le> Suc (length (nv_screenStack (ui_nav v)))" "can_do F G U I as v"
      "signed_in (fold (perform U I) as v)" "nv_currentScreen (ui_nav (fold (perform U I) as v)) = ChatList" by blast
    then show ?thesis using 3 by (intro exI [of _ as]) (simp add: home_def)
  qed
qed

theorem way_home_witness:
  "\<exists>as. can_do (\<lambda>_. ''12:00'') (\<lambda>_. ''12:00'') demo_phone no_inputs as demo_chat \<and>
     as \<noteq> []"
proof -
  have "signed_in demo_chat"
    using ui_reach_ok [OF demo_chat_run(1)] demo_chat_run(2) by (simp add: ui_ok_def nav_ok_def screen_fits_def signed_in_def)
  then have "home demo_chat = ChatList" by (simp add: home_def)
  moreover obtain as where "can_do (\<lambda>_. ''12:00'') (\<lambda>_. ''12:00'') demo_phone no_inputs as demo_chat"
    "nv_currentScreen (ui_nav (fold (perform demo_phone no_inputs) as demo_chat)) = home demo_chat"
    using way_home [OF demo_chat_run(1)] by metis
  ultimately show ?thesis using demo_chat_run(2) by (intro exI [of _ as]) auto
qed

subsection \<open>The recovery phrase\<close>

fun unwords :: "string list \<Rightarrow> string" where
  "unwords [] = []"
| "unwords [w] = w"
| "unwords (w # ws) = w @ CHR '' '' # unwords ws"

lemma split_words_not_Nil: "split_words s \<noteq> []"
  by (subst split_words.simps) (simp add: Let_def)

lemma collapse_spaces_append: "list_all (\<lambda>c. \<not> is_space c) w \<Longrightarrow> collapse_spaces (w @ r) = w @ collapse_spaces r"
  by (induction w) simp_all

lemma unwords_split: "unwords (split_words s) = collapse_spaces s"
proof (induction s rule: split_words.induct)
  case (1 s)
  let ?w = "takeWhile (\<lambda>c. \<not> is_space c) s" and ?r = "dropWhile (\<lambda>c. \<not> is_space c) s"
  have w: "list_all (\<lambda>c. \<not> is_space c) ?w" by (metis list_all_iff set_takeWhileD)
  then have c: "collapse_spaces s = ?w @ collapse_spaces ?r"
    using collapse_spaces_append [OF w, of ?r] by (simp only: takeWhile_dropWhile_id)
  show ?case
  proof (cases "?r = []")
    case True
    have "split_words s = [?w]" by (subst split_words.simps) (simp only: True Let_def simp_thms if_True)
    moreover have "collapse_spaces ?r = []" by (simp only: True collapse_spaces.simps)
    ultimately show ?thesis by (simp only: c unwords.simps append_Nil2)
  next
    case False
    then obtain d r where r: "?r = d # r" using neq_Nil_conv [THEN iffD1, OF False] by blast
    have d: "is_space d" using hd_dropWhile [OF False] r by simp
    obtain x xs where x: "split_words (dropWhile is_space ?r) = x # xs" using neq_Nil_conv [THEN iffD1, OF split_words_not_Nil] by blast
    have "split_words s = ?w # split_words (dropWhile is_space ?r)"
      by (subst split_words.simps) (simp only: False Let_def if_False)
    then have "unwords (split_words s) = ?w @ CHR '' '' # unwords (split_words (dropWhile is_space ?r))"
      using x by simp
    also have "\<dots> = ?w @ CHR '' '' # collapse_spaces (dropWhile is_space ?r)" using 1 [OF refl refl False] by simp
    also have "\<dots> = collapse_spaces s" using c r d by simp
    finally show ?thesis .
  qed
qed

lemma normalize_words: "normalize_mnemonic (unwords (seed_words m)) = normalize_mnemonic m"
proof -
  let ?t = "trim m"
  have "trim (collapse_spaces ?t) = collapse_spaces ?t"
  proof (rule trim_id)
    show "collapse_spaces ?t = [] \<or> (\<not> is_space (hd (collapse_spaces ?t)) \<and> \<not> is_space (last (collapse_spaces ?t)))"
      using trim_ends [of m] collapse_spaces_ends [of ?t] by (cases "?t = []") auto
  qed
  then show ?thesis
    by (simp add: seed_words_def unwords_split normalize_mnemonic_def collapse_spaces_lower [symmetric])
qed

lemma loaded_restored: "loaded K P B k = Some u \<Longrightarrow> \<exists>m. restoreIdentity P B m = Inr u"
  by (auto simp: loaded_def loadIdentityFromKeychain_def restore_from_json_def bindR_def tryM_def bindM_def
      split: json.splits prod.splits sum.splits option.splits if_splits)

text \<open>The numbered words as the screen shows them.\<close>

definition numbered :: "string list \<Rightarrow> string list" where
  "numbered ws = concat (map (\<lambda>(index, word). [show_int (int (index + 1)) @ ''.'', word]) (enumerate 0 ws))"

lemma sublist_Box: "e \<in> set es \<Longrightarrow> sublist xs (texts e) \<Longrightarrow> sublist xs (texts (Box es))"
proof -
  assume "e \<in> set es" and e: "sublist xs (texts e)"
  then obtain as bs where "es = as @ e # bs" by (meson split_list)
  then have "texts (Box es) = concat (map texts as) @ texts e @ concat (map texts bs)" by simp
  then show ?thesis using sublist_order.order_trans [OF e sublist_appendI] by metis
qed

lemma sublist_screenContainer: "sublist xs (texts (Box children)) \<Longrightarrow> sublist xs (texts (screenContainer t l r children))"
  unfolding screenContainer_def by (rule sublist_Box [where e = "Box children"]) simp_all

lemma seed_texts: "sublist (numbered (seed_words m)) (texts (seedDisplayPage m b))"
proof -
  let ?ws = "Box (map seed_word (enumerate 0 (seed_words m)))"
  have "texts (Box (map seed_word iws)) = concat (map (\<lambda>(index, word). [show_int (int (index + 1)) @ ''.'', word]) iws)" for iws
    by (induction iws) (auto simp: seed_word_def)
  then have "sublist (numbered (seed_words m)) (texts ?ws)" by (simp only: numbered_def sublist_order.order_refl)
  then have "sublist (numbered (seed_words m)) (texts (Box (e # ?ws # es)))" for e es by (rule sublist_Box [rotated]) simp
  then show ?thesis unfolding seedDisplayPage_def
    by (rule sublist_screenContainer [OF sublist_Box [OF list.set_intros(1)]])
qed

text \<open>Both ways to an account end with it in the keychain and in the context.\<close>

lemma adopted:
  assumes "keychain_map K pw" "ui_kc U = Some K" "ctx_ok x" "ac_identity x = None"
  shows "\<exists>y. adopt_identity U u x = (Inr u, y) \<and> ac_identity y = Some u"
proof -
  obtain k where k: "saveIdentityToKeychain (Some K) identity_service u (ac_keychain x) = (Inr True, k)"
    using save_stored(1) [OF assms(1)] by blast
  have "ctx_ok (x\<lparr>ac_keychain := k\<rparr>)" "ac_identity (x\<lparr>ac_keychain := k\<rparr>) = None"
    using assms(3,4) by (simp_all add: ctx_ok_def)
  from change_identity_ok [OF this] obtain y where "change_identity U (Some u) (x\<lparr>ac_keychain := k\<rparr>) = (Inr (), y)" "ac_identity y = Some u"
    by blast
  then show ?thesis using k assms(2) by (simp add: adopt_identity_def keychain_call_def bindM_def)
qed

lemma first_account:
  assumes "keychain_map K pw" "ui_kc U = Some K" "ui_ok v" "nv_currentScreen (ui_nav v) = Welcome"
    and "generateIdentity (ui_prims U) (ui_bip39 U) (ui_generateMnemonic U) 12 = Inr u"
  shows "nv_currentScreen (ui_nav (handleCreateIdentity U v)) = SeedDisplay"
proof -
  obtain st where st: "ui_screen v = WelcomeState st" using page_of(1) [OF assms(3,4)] by blast
  have "ctx_ok (ui_ctx v)" "ac_identity (ui_ctx v) = None"
    using assms(3,4) by (auto simp: ui_ok_def nav_ok_def screen_fits_def)
  from adopted [OF assms(1,2) this] obtain y where "adopt_identity U u (ui_ctx v) = (Inr u, y)" by blast
  then have "createIdentity U (Some 12) (ui_ctx v) = (Inr u, y)" using assms(5) by (simp add: createIdentity_def bindM_def)
  then show ?thesis using st by (simp add: handleCreateIdentity_def with_ctx_def set_welcome_def navigate_def)
qed

lemma restored_on_screen:
  assumes "keychain_map K pw" "ui_kc U = Some K" "ui_ok w" "ui_screen w = RestoreState st"
    and "restoreIdentity (ui_prims U) (ui_bip39 U) (re_mnemonic st) = Inr u"
  shows "ac_identity (ui_ctx (handleRestore U w)) = Some u \<and> nv_currentScreen (ui_nav (handleRestore U w)) = ChatList"
proof -
  have "ctx_ok (ui_ctx w)" "ac_identity (ui_ctx w) = None"
    using assms(3,4) by (auto simp: ui_ok_def nav_ok_def screen_fits_def split: screen.splits)
  from adopted [OF assms(1,2) this] obtain y where "adopt_identity U u (ui_ctx w) = (Inr u, y)" "ac_identity y = Some u" by blast
  moreover from this(1) have "ctx_restoreIdentity U (re_mnemonic st) (ui_ctx w) = (Inr u, y)"
    using assms(5) by (simp add: ctx_restoreIdentity_def bindM_def)
  ultimately show ?thesis using assms(4) by (simp add: handleRestore_def with_ctx_def set_restore_def rerender_def reset_to_def)
qed

text \<open>C23. The words on the recovery screen are the account: whoever types the words shown there, separated by spaces,
  into the restore screen of a phone with the same cryptography and presses the button is signed in there
  with the same identity, keys and all.\<close>

theorem displayed_words_restore:
  assumes "ui_reach (same_phone K P B) v" "keychain_map K pw" "\<not> validateMnemonic B []"
    and "nv_currentScreen (ui_nav v) = SeedDisplay"
    and "ui_reach (same_phone K' P B) w" "keychain_map K' pw'" "same_phone K' P B U" "nv_currentScreen (ui_nav w) = RestoreSeed"
  shows "\<exists>u ws as. ac_identity (ui_ctx v) = Some u \<and> sublist (numbered ws) (texts (page F G v)) \<and>
     as = [TypeIn MnemonicField (unwords ws), RestoreAccount] \<and> can_do F G U I as w \<and>
     ac_identity (ui_ctx (fold (perform U I) as w)) = Some u \<and> nv_currentScreen (ui_nav (fold (perform U I) as w)) = ChatList"
proof -
  obtain b and u :: identity where u: "ac_identity (ui_ctx v) = Some u" "page F G v = seedDisplayPage (mnemonic u) b"
    using page_of(2) [OF ui_reach_ok [OF assms(1)] assms(4), of F G] by blast
  let ?ws = "seed_words (mnemonic u)"
  have "loaded K P B (ac_keychain (ui_ctx v)) = Some u"
    using reach_remembered [OF assms(1-3)] u(1) by (simp add: remembered_def)
  from loaded_restored [OF this] obtain m where "restoreIdentity P B m = Inr u" ..
  then have "restoreIdentity P B (mnemonic u) = Inr u" using restored_again [OF assms(3)] by blast
  then have r: "restoreIdentity P B (unwords ?ws) = Inr u" using restoreIdentity_normalize [OF normalize_words] by simp
  then have t: "trim (unwords ?ws) \<noteq> []"
    using assms(3) by (auto simp: restoreIdentity_def normalize_mnemonic_def Let_def toLowerCase_def split: if_splits)
  let ?st = "\<lambda>st. st\<lparr>re_mnemonic := unwords ?ws\<rparr>"
  obtain st where st: "ui_screen w = RestoreState st" "page F G w = restoreSeedPage st"
    using page_of(3) [OF ui_reach_ok [OF assms(5)] assms(8), of F G] by blast
  let ?w = "w\<lparr>ui_screen := RestoreState (?st st)\<rparr>"
  have typed: "perform U I (TypeIn MnemonicField (unwords ?ws)) w = ?w" using st(1) by (simp add: set_restore_def)
  have ok: "ui_ok ?w" using ui_reach_ok [OF assms(5)] st(1) by (simp add: ui_ok_def)
  have scr: "nv_currentScreen (ui_nav ?w) = RestoreSeed" using assms(8) by simp
  have "page F G ?w = restoreSeedPage (?st st)" using page_of(3) [OF ok scr, of F G] by auto
  moreover have "\<not> re_loading st" using reach_idle [OF assms(5)] st(1) by simp
  ultimately have o: "offers (page F G ?w) RestoreAccount" using t by (simp add: page_offers)
  have "ui_kc U = Some K'" "ui_prims U = P" "ui_bip39 U = B" using assms(7) by (simp_all add: same_phone_def)
  then have "ac_identity (ui_ctx (handleRestore U ?w)) = Some u \<and> nv_currentScreen (ui_nav (handleRestore U ?w)) = ChatList"
    using r by (intro restored_on_screen [OF assms(6) _ ok, where st = "?st st"]) simp_all
  moreover have "offers (page F G w) (TypeIn MnemonicField (unwords ?ws))" using st(2) by (simp add: page_offers)
  ultimately show ?thesis using u seed_texts [of "mnemonic u" b] o typed
    by (intro exI [of _ u] exI [of _ ?ws] exI [of _ "[TypeIn MnemonicField (unwords ?ws), RestoreAccount]"]) simp
qed

text \<open>A phone without an account, its first account, and the restore screen of another one.\<close>

definition demo_empty :: "(string \<Rightarrow> string option) ui" where
  "demo_empty = launch_ui demo_phone Map.empty"

lemma demo_empty: "demo_run demo_empty" "nv_currentScreen (ui_nav demo_empty) = Welcome"
proof -
  show "demo_run demo_empty" unfolding demo_empty_def by (rule ui_reach.launch) (rule demo_same_phone)
  have "ac_identity (ui_ctx demo_empty) = None"
    using load_stored(1) [OF map_keychain_map, of Map.empty identity_service]
    by (simp add: demo_empty_def launch_ui_def with_ctx_def rerender_def init_identity_def new_context_def demo_phone_def)
  then show "nv_currentScreen (ui_nav demo_empty) = Welcome" using launch_nav [of demo_phone Map.empty] by (simp add: demo_empty_def)
qed

lemma demo_first_account: "demo_run (handleCreateIdentity demo_phone demo_empty)"
  "nv_currentScreen (ui_nav (handleCreateIdentity demo_phone demo_empty)) = SeedDisplay"
proof -
  note ok = ui_reach_ok [OF demo_empty(1)]
  obtain st where st: "ui_screen demo_empty = WelcomeState st" using page_of(1) [OF ok demo_empty(2)] by blast
  have "\<not> wl_loading st" using reach_idle [OF demo_empty(1)] st by simp
  then show "demo_run (handleCreateIdentity demo_phone demo_empty)"
    using ui_reach.act [OF demo_empty(1) demo_same_phone] demo_empty(2) st ui_step.create_identity by metis
  obtain u where "generateIdentity (ui_prims demo_phone) (ui_bip39 demo_phone) (ui_generateMnemonic demo_phone) 12 = Inr u"
    using model_derives [of "''zoo able''"] by (auto simp: generateIdentity_def demo_phone_def)
  from first_account [OF map_keychain_map _ ok demo_empty(2) this]
  show "nv_currentScreen (ui_nav (handleCreateIdentity demo_phone demo_empty)) = SeedDisplay" by (simp add: demo_phone_def)
qed

lemma demo_restore: "demo_run (openRestore demo_empty)" "nv_currentScreen (ui_nav (openRestore demo_empty)) = RestoreSeed"
  using ui_reach.act [OF demo_empty(1) demo_same_phone] demo_empty(2) ui_step.open_restore
  by (metis, simp add: openRestore_def navigate_def)

theorem displayed_words_restore_witness:
  "\<exists>u ws as. ac_identity (ui_ctx (handleCreateIdentity demo_phone demo_empty)) = Some u \<and>
     sublist (numbered ws) (texts (page (\<lambda>_. ''12:00'') (\<lambda>_. ''12:00'') (handleCreateIdentity demo_phone demo_empty))) \<and>
     as = [TypeIn MnemonicField (unwords ws), RestoreAccount] \<and>
     can_do (\<lambda>_. ''12:00'') (\<lambda>_. ''12:00'') demo_phone no_inputs as (openRestore demo_empty) \<and>
     ac_identity (ui_ctx (fold (perform demo_phone no_inputs) as (openRestore demo_empty))) = Some u \<and>
     nv_currentScreen (ui_nav (fold (perform demo_phone no_inputs) as (openRestore demo_empty))) = ChatList"
  by (rule displayed_words_restore [OF demo_first_account(1) map_keychain_map demo_phrases demo_first_account(2)
      demo_restore(1) map_keychain_map demo_same_phone demo_restore(2)])

end
