(* ===== verification/Spec2Isabelle.thy ===== *)
theory Spec2Isabelle
  imports Ws_Properties Http_Tunnel Tor_Manager Repositories Contact_Exchange Conversation Orch_Properties Arrivals Device_Link
    Sync_Properties Store_Refinement Invitations First_Messages Page_Properties
begin

text \<open>
  A verification library for the client of TorE2EE Messenger (\<open>src/client/src\<close>): a messenger that
  encrypts end to end with X3DH and the double ratchet and talks to a relay through Tor. Everything
  below is a definition translated from the TypeScript sources or a theorem about those definitions.

  \<^bold>\<open>The program.\<close> The screens call the provider of the application context, which owns one
  orchestrator. The orchestrator owns the database manager, the signal store and the repositories on it,
  the crypto engine on the store, the Tor manager, the stream to the relay and the HTTP client. A message goes
  from the chat screen through \<open>sendOutboundMessage\<close>, the engine and \<open>POST /api/v1/message\<close> to
  the relay, from there over the WebSocket of the receiver to \<open>handleIncomingMessage\<close>, the engine, the
  repository and the list of conversations. A background task does the receiving half without the orchestrator.

  \<^bold>\<open>Theories and sources\<close>, from the bottom up.
  \<^item> \<open>Prelude\<close>, \<open>Text_Codec\<close>, \<open>Base64\<close>, \<open>Json\<close>, \<open>Sockets\<close>: the JavaScript platform as the client uses it: bytes as
    words of 8 bits, strings as their UTF-8, exceptions as values of a sum type, methods as functions on a state,
    objects in insertion order, \<open>JSON.parse\<close> and \<open>JSON.stringify\<close>, \<open>Buffer\<close>, promises that settle once, and
    the contract \<open>chunk_reader\<close> of code that reads a stream in chunks.
  \<^item> \<open>Crypto_Types\<close>, \<open>Identity\<close>: \<open>crypto/types.ts\<close>, \<open>identity/types.ts\<close>, \<open>IdentityManager.ts\<close>. The cryptographic
    primitives, BIP-39 and the keychain are records of functions; what is assumed of them are named laws
    (\<open>hex_codec\<close>, \<open>dh_agreement\<close>, \<open>sign_correct\<close>, \<open>keychain_map\<close> and others), and \<open>model_prims\<close>, \<open>model_bip39\<close>
    and \<open>map_keychain\<close> are instances that satisfy them.
  \<^item> \<open>Signal_Store\<close>: \<open>ISignalStore.ts\<close> as a record of methods and the locale \<open>signal_store\<close> of what a
    client may rely on, with \<open>InMemorySignalStore.ts\<close> as its first interpretation.
  \<^item> \<open>Crypto_Engine\<close>: \<open>CryptoEngine.ts\<close> over any store. \<open>Ratchet\<close>, \<open>Ratchet_Pair\<close>, \<open>Engine_Runs\<close>, \<open>Secure_Channel\<close> and
    \<open>Channel_System\<close> build its correctness: what a session operation computes on the sequence of chain keys, the
    invariant of two sessions and the messages between them, the runs of each method, the first exchange, and a
    step relation of two devices. \<open>Engine_Properties\<close> states the results on both stores, and \<open>Interleaving\<close> cuts \<open>encrypt\<close> and \<open>decrypt\<close> at their
    \<open>await\<close>s: calls for different contacts do not disturb each other, and a receive can undo a send to the same
    contact. \<open>First_Messages\<close> compares the orders in which the first two messages of a contact can be handled, and
    \<open>Invitations\<close> shows what happens to a bundle after a newer one was published.
  \<^item> \<open>Database\<close>, \<open>Sqlite_Store\<close>, \<open>Repositories\<close>: \<open>DatabaseManager.ts\<close>, \<open>SqliteSignalStore.ts\<close>, \<open>ContactRepository.ts\<close>
    and \<open>MessageRepository.ts\<close>. The database is a record of row lists, a SQL statement the function it denotes
    with primary and foreign keys enforced, a migration a function on the schema; \<open>keyed_table\<close> is the contract
    of an upsert by key. \<open>Store_Refinement\<close>: both stores refine one specification of the interface.
  \<^item> \<open>Socks5\<close>, \<open>Ws_Frames\<close>, \<open>Ws_Client\<close>, \<open>Ws_Properties\<close>, \<open>Http_Client\<close>, \<open>Http_Tunnel\<close>, \<open>Tor_Manager\<close>: \<open>network\<close>. Each object is a
    record, each event of a socket or a timer a step; sent bytes, armed timers and called callbacks are recorded.
  \<^item> \<open>Contact_Exchange\<close>, \<open>App_Store\<close>, \<open>Orchestrator\<close>, \<open>Orch_Runs\<close>, \<open>Conversation\<close>, \<open>Orch_Properties\<close>, \<open>Arrivals\<close>: \<open>orchestration\<close>. The
    store is shared by the engine and the repositories; \<open>frame\<close> is the locale of relations that all operations of a
    group keep. \<open>Conversation\<close> is the step relation of two clients from the export of a contact URI on,
    and \<open>Arrivals\<close> what a message in flight adds to the database of its receiver.
  \<^item> \<open>Device_Link\<close>, \<open>Notifications\<close>, \<open>Background_Sync\<close>, \<open>Sync_Properties\<close>: \<open>devices\<close>, \<open>notifications\<close>, \<open>background\<close>.
  \<^item> \<open>App_Context\<close>, \<open>Screens\<close>, \<open>Battery\<close>, \<open>Widgets\<close>: \<open>ui/context\<close>, \<open>ui/navigation\<close>, the handlers of \<open>ui/screens\<close>,
    \<open>native/BatteryOptimization.ts\<close>, and what \<open>ui/components\<close> choose to display. \<open>Ui_Invariants\<close>, \<open>Ui_Lists\<close>, \<open>Ui_Sessions\<close> and
    \<open>Ui_Properties\<close> prove what holds in every run of the interface (\<open>ui_reach\<close>). \<open>Pages\<close> has the elements that
    \<open>ui/screens\<close> and \<open>ui/components\<close> return, and \<open>Page_Properties\<close> compares them with the runs.

  \<^bold>\<open>What is shown.\<close> Every property stands after a text with its number; a property with hypotheses is
  followed by a witness that applies it at a concrete input.
  \<^item> End to end: whatever was sent, lost and reordered before, a message that is delivered within the protocol's bounds is
    decrypted to the text that was sent and stored as the sender's; the bounds are the skip limit and, for a receiver without a
    session, that the message which names the one-time pre-key comes first. Sending works in every reachable state; the
    first message gets across.
  \<^item> The engine: with a session, a gap beyond the bound is refused and the database is left as it was; an invitation
    works until the next one is published, a forged message can use up the key of a genuine one, calls for
    different contacts commute, and what goes wrong when calls for one contact overlap.
  \<^item> Storage: the SQLite store refines the specification and agrees with the one in memory, a contact that was saved
    is found as it was saved, no method breaks a constraint, migrations lose no row.
  \<^item> Network: frames and responses survive any cut of the stream, a message is posted through the tunnel from the first byte to
    the answer, a request settles but for the named cases, the challenge is answered, a client that
    waits to reconnect has a timer running.
  \<^item> Orchestration and background: sending and receiving on every branch, linking of devices, when a background run
    ends, and that it stores what the foreground would have stored.
  \<^item> Interface: screens get parameters of their type, belong to the right user and send to the contact they show;
    a restart finds the user who was signed in; the list and an opened conversation as functions of the rows; the user finds
    the way back from every screen, and the recovery words that are shown restore the account.

  \<^bold>\<open>Loops and bounds.\<close> Loops over data are structural recursion or have a termination proof with a measure
  (\<open>skip_loop\<close>, \<open>raw_loop\<close>, \<open>split_words\<close> and the codecs). Only the JSON reader has fuel, twice the length of the text and two:
  \<open>JSON_parse_fuel\<close> shows that more fuel never changes its result, so that no text is refused for lack of it.
  Sequence numbers are integers, as JavaScript's doubles are exact up to 2 to the 53; lengths in frames and
  in SOCKS requests are kept at their width. \<open>MAX_SKIP_MESSAGES\<close> is the bound of the source, 2000.

  \<^bold>\<open>Not modelled.\<close> The relay (Rust) and the native Android code (Kotlin) are other programs in other languages:
  their messages and results are arguments of the model. The styles of the elements and the theme
  have no behaviour, the locale's dates are parameters. Methods are atomic up to the points where a theory says it splits them, so
  that interleavings inside their \<open>await\<close>s are covered only there (\<open>encrypt\<close> and \<open>decrypt\<close> on a store that builds a
  new record for every caller, and sending from the chat screen); a HTTP request that never
  settles blocks its caller and is shown where it arises, not carried through the orchestrator. The model is
  narrower than the platform in these places: \<open>toLowerCase\<close>, \<open>toUpperCase\<close> and \<open>trim\<close> act on ASCII, a member of a JSON
  object of the wrong type is an error where the source would go on with a value of that type, and texts are those
  that UTF-8 can represent. The module index re-exports, the tests and the build files hold no behaviour.
\<close>

end
